(* ===== verification/MF_Prelude.thy ===== *)
theory MF_Prelude
  imports Main "HOL-Library.Word" "HOL-Library.Monad_Syntax"
begin

text \<open>
  Vocabulary shared by every component theory of the media-fabric development.

  \<^item> Machine integers keep their width: \<open>byte\<close> is \<open>unsigned char\<close>/\<open>uint8_t\<close>, and \<open>u16\<close>, \<open>u32\<close>,
    \<open>u64\<close> are the fixed-width types of \<open><cstdint>\<close>; their \<open>+\<close> wraps. A \<open>size_t\<close> that counts
    elements of a container in memory is a \<open>nat\<close>.
  \<^item> \<open>'a option\<close> as the result of a function that indexes a buffer stands for "defined or
    undefined behaviour": \<open>at\<close> and \<open>range_of\<close> give \<open>None\<close> for a read outside the vector, which
    \<open>std::vector::operator[]\<close> and iterator arithmetic do not check. A theorem that such a function
    is always \<open>Some\<close> says it never reads out of bounds.
  \<^item> \<open>'a parsed\<close> is the outcome of the code's \<open>bool f(const Input&, T* out)\<close> functions.
\<close>

unbundle bit_operations_syntax

type_synonym byte = "8 word"
type_synonym u16 = "16 word"
type_synonym u32 = "32 word"
type_synonym u64 = "64 word"
type_synonym bytes = "8 word list"

named_theorems mf_defs "defining equations of small operations, unfolded by component proofs"
named_theorems mf_safe "facts that a buffer access is in bounds"

section \<open>Outcomes\<close>

text \<open>\<open>Rejected\<close>: the function returns \<open>false\<close> and does not touch its output.
  \<open>Stored b x\<close>: it writes \<open>x\<close> to the output and returns \<open>b\<close>.\<close>

datatype 'a parsed = Rejected | Stored bool 'a

fun accepted :: "'a parsed \<Rightarrow> bool" where
  "accepted Rejected = False"
| "accepted (Stored b x) = b"

lemma accepted_iff: "accepted r \<longleftrightarrow> (\<exists>x. r = Stored True x)"
  by (cases r) auto

section \<open>Checked reads of a buffer\<close>

definition at :: "'a list \<Rightarrow> nat \<Rightarrow> 'a option" where
  "at xs i = (if i < length xs then Some (xs ! i) else None)"

definition range_of :: "'a list \<Rightarrow> nat \<Rightarrow> nat \<Rightarrow> 'a list option" where
  "range_of xs a b = (if a \<le> b \<and> b \<le> length xs then Some (take (b - a) (drop a xs)) else None)"

lemma at_in [simp, mf_safe]: "i < length xs \<Longrightarrow> at xs i = Some (xs ! i)"
  by (simp add: at_def)

lemma at_out [simp]: "length xs \<le> i \<Longrightarrow> at xs i = None"
  by (simp add: at_def)

lemma at_append_left [simp]: "i < length xs \<Longrightarrow> at (xs @ ys) i = Some (xs ! i)"
  by (simp add: at_def nth_append)

lemma at_append_right: "length xs \<le> i \<Longrightarrow> at (xs @ ys) i = at ys (i - length xs)"
  by (auto simp: at_def nth_append)

lemma range_of_in [simp, mf_safe]:
  "a \<le> b \<Longrightarrow> b \<le> length xs \<Longrightarrow> range_of xs a b = Some (take (b - a) (drop a xs))"
  by (simp add: range_of_def)

lemma range_of_SomeD:
  "range_of xs a b = Some ys \<Longrightarrow>
     a \<le> b \<and> b \<le> length xs \<and> ys = take (b - a) (drop a xs) \<and> length ys = b - a"
  by (auto simp: range_of_def split: if_splits)

lemma range_of_append_mid:
  "range_of (xs @ ys @ zs) (length xs) (length xs + length ys) = Some ys"
  by (simp add: range_of_def)

lemma nth_suffix: "(xs @ ys) ! (length xs + i) = ys ! i"
  by (simp add: nth_append)

section \<open>Big-endian words in byte buffers\<close>

text \<open>The four helpers \<open>readUint16\<close>, \<open>readUint32\<close>, \<open>appendUint16\<close> and \<open>appendUint32\<close> are
  repeated in the anonymous namespaces of \<open>RtpPacket.cpp\<close> and \<open>ProgramStream.cpp\<close>; one
  definition serves both files.\<close>

definition readUint16 :: "bytes \<Rightarrow> nat \<Rightarrow> u16 option" where
  "readUint16 bs offset = do {
     b0 \<leftarrow> at bs offset;
     b1 \<leftarrow> at bs (offset + 1);
     Some (push_bit 8 (ucast b0) OR ucast b1) }"

definition readUint32 :: "bytes \<Rightarrow> nat \<Rightarrow> u32 option" where
  "readUint32 bs offset = do {
     b0 \<leftarrow> at bs offset;
     b1 \<leftarrow> at bs (offset + 1);
     b2 \<leftarrow> at bs (offset + 2);
     b3 \<leftarrow> at bs (offset + 3);
     Some (push_bit 24 (ucast b0) OR push_bit 16 (ucast b1) OR push_bit 8 (ucast b2) OR ucast b3) }"

definition appendUint16 :: "bytes \<Rightarrow> u16 \<Rightarrow> bytes" where
  "appendUint16 bs v = bs @ [ucast (drop_bit 8 v AND 0xff), ucast (v AND 0xff)]"

definition appendUint32 :: "bytes \<Rightarrow> u32 \<Rightarrow> bytes" where
  "appendUint32 bs v = bs @ [ucast (drop_bit 24 v AND 0xff), ucast (drop_bit 16 v AND 0xff),
     ucast (drop_bit 8 v AND 0xff), ucast (v AND 0xff)]"

lemma length_appendUint16 [simp]: "length (appendUint16 bs v) = length bs + 2"
  by (simp add: appendUint16_def)

lemma length_appendUint32 [simp]: "length (appendUint32 bs v) = length bs + 4"
  by (simp add: appendUint32_def)

lemma readUint16_in [simp, mf_safe]:
  "offset + 1 < length bs \<Longrightarrow>
     readUint16 bs offset = Some (push_bit 8 (ucast (bs ! offset)) OR ucast (bs ! (offset + 1)))"
  by (simp add: readUint16_def)

lemma readUint32_in [simp, mf_safe]:
  "offset + 3 < length bs \<Longrightarrow>
     readUint32 bs offset = Some (push_bit 24 (ucast (bs ! offset)) OR push_bit 16 (ucast (bs ! (offset + 1)))
       OR push_bit 8 (ucast (bs ! (offset + 2))) OR ucast (bs ! (offset + 3)))"
  by (simp add: readUint32_def)

lemma byte_masks:
  "(0xff :: u16) = mask 8" "(0xff :: u32) = mask 8"
  by (simp_all add: mask_eq_exp_minus_1)

lemma u16_join [simp]:
  "push_bit 8 (ucast (ucast (drop_bit 8 v AND 0xff) :: byte)) OR ucast (ucast (v AND 0xff) :: byte) = (v :: u16)"
  by (rule bit_word_eqI) (auto simp: bit_simps byte_masks dest: bit_imp_le_length)

lemma u32_join [simp]:
  "push_bit 24 (ucast (ucast (drop_bit 24 v AND 0xff) :: byte)) OR
   push_bit 16 (ucast (ucast (drop_bit 16 v AND 0xff) :: byte)) OR
   push_bit 8 (ucast (ucast (drop_bit 8 v AND 0xff) :: byte)) OR
   ucast (ucast (v AND 0xff) :: byte) = (v :: u32)"
proof (rule bit_word_eqI)
  fix n assume "n < LENGTH(32)"
  then consider "n < 8" | "8 \<le> n" "n < 16" | "16 \<le> n" "n < 24" | "24 \<le> n" "n < 32"
    by fastforce
  then show "bit (push_bit 24 (ucast (ucast (drop_bit 24 v AND 0xff) :: byte)) OR
     push_bit 16 (ucast (ucast (drop_bit 16 v AND 0xff) :: byte)) OR
     push_bit 8 (ucast (ucast (drop_bit 8 v AND 0xff) :: byte)) OR
     (ucast (ucast (v AND 0xff) :: byte) :: u32)) n = bit v n"
    by cases (auto simp: bit_simps byte_masks)
qed

section \<open>Cutting a buffer into chunks\<close>

text \<open>What the packetisation loops compute: full chunks of \<open>m\<close> elements, then the rest.
  \<open>chunks 0 xs\<close> is empty.\<close>

function chunks :: "nat \<Rightarrow> 'a list \<Rightarrow> 'a list list" where
  "chunks m xs = (if xs = [] \<or> m = 0 then [] else take m xs # chunks m (drop m xs))"
  by pat_completeness auto
termination by (relation "measure (\<lambda>(m, xs). length xs)") auto

declare chunks.simps [simp del]

lemma chunks_Nil [simp]: "chunks m [] = []"
  by (simp add: chunks.simps)

lemma chunks_step: "xs \<noteq> [] \<Longrightarrow> 0 < m \<Longrightarrow> chunks m xs = take m xs # chunks m (drop m xs)"
  by (subst chunks.simps) simp

lemma concat_chunks [simp]: "0 < m \<Longrightarrow> concat (chunks m xs) = xs"
  by (induction m xs rule: chunks.induct) (subst chunks.simps, auto)

lemma chunks_sizes: "c \<in> set (chunks m xs) \<Longrightarrow> c \<noteq> [] \<and> length c \<le> m"
proof (induction m xs rule: chunks.induct)
  case (1 m xs)
  then show ?case
    by (cases "xs = [] \<or> m = 0") (auto simp: chunks.simps [of m xs])
qed

lemma chunks_eq_Nil [simp]: "0 < m \<Longrightarrow> chunks m xs = [] \<longleftrightarrow> xs = []"
  by (subst chunks.simps) simp

lemma length_chunks: "0 < m \<Longrightarrow> length (chunks m xs) = (length xs + m - 1) div m"
proof (induction m xs rule: chunks.induct)
  case (1 m xs)
  show ?case
  proof (cases "xs = []")
    case False
    with 1 have "length (chunks m xs) = Suc ((length xs - m + m - 1) div m)"
      by (simp add: chunks_step)
    also have "\<dots> = (length xs + m - 1) div m"
    proof (cases "m \<le> length xs")
      case True
      then have "length xs + m - 1 = (length xs - m + m - 1) + m"
        using \<open>xs \<noteq> []\<close> \<open>0 < m\<close> by (cases xs) auto
      then show ?thesis using \<open>0 < m\<close> by (metis div_add_self2 Suc_eq_plus1 less_irrefl)
    next
      case False
      then have "(length xs + m - 1) div m = 1"
        using \<open>xs \<noteq> []\<close> by (intro div_nat_eqI) (cases xs; simp)+
      then show ?thesis using False \<open>0 < m\<close> by simp
    qed
    finally show ?thesis .
  qed (use 1 in simp)
qed

lemma nth_chunks:
  "i < length (chunks m xs) \<Longrightarrow> chunks m xs ! i = take m (drop (i * m) xs)"
proof (induction m xs arbitrary: i rule: chunks.induct)
  case (1 m xs)
  then have ne: "xs \<noteq> []" "0 < m" by (auto simp: chunks.simps [of m xs] split: if_splits)
  show ?case
  proof (cases i)
    case 0
    then show ?thesis using ne by (simp add: chunks_step)
  next
    case (Suc j)
    then show ?thesis using 1 ne by (simp add: chunks_step add.commute)
  qed
qed

end
