(* ===== verification/CppMap.thy ===== *)
theory CppMap
  imports MF_Prelude "HOL-Library.List_Lexorder" "HOL-Library.Char_ord"
begin

text \<open>
  \<open>std::map\<close> as the program uses it: an ordered dictionary whose iteration visits the entries in
  increasing key order. It is an association list kept strictly sorted by key (for
  \<open>std::string\<close> keys the order is the byte-wise lexicographic one of \<open>HOL-Library.List_Lexorder\<close>
  and \<open>HOL-Library.Char_ord\<close>). The locale \<open>dictionary\<close> states what the components rely on
  (\<open>find\<close>, \<open>operator[]\<close> used as an assignment, \<open>erase\<close>, iteration), and it is interpreted on the
  sorted association list.
\<close>

type_synonym ('k, 'v) omap = "('k \<times> 'v) list"

definition om_find :: "('k, 'v) omap \<Rightarrow> 'k \<Rightarrow> 'v option" where
  [simp]: "om_find m key = map_of m key"

fun om_set :: "('k::linorder) \<Rightarrow> 'v \<Rightarrow> ('k, 'v) omap \<Rightarrow> ('k, 'v) omap" where
  "om_set key val [] = [(key, val)]"
| "om_set key val (e # rest) =
     (if key < fst e then (key, val) # e # rest
      else if key = fst e then (key, val) # rest
      else e # om_set key val rest)"

definition om_erase :: "'k \<Rightarrow> ('k, 'v) omap \<Rightarrow> ('k, 'v) omap" where
  "om_erase key m = filter (\<lambda>e. fst e \<noteq> key) m"

definition om_ok :: "('k::linorder, 'v) omap \<Rightarrow> bool" where
  "om_ok m \<longleftrightarrow> sorted_wrt (<) (map fst m)"

section \<open>The interface\<close>

locale dictionary =
  fixes nil :: "'m"
    and lookup :: "'m \<Rightarrow> 'k::linorder \<Rightarrow> 'v option"
    and store :: "'k \<Rightarrow> 'v \<Rightarrow> 'm \<Rightarrow> 'm"
    and remove :: "'k \<Rightarrow> 'm \<Rightarrow> 'm"
    and entries :: "'m \<Rightarrow> ('k \<times> 'v) list"
    and ok :: "'m \<Rightarrow> bool"
  assumes ok_nil: "ok nil"
    and ok_store: "ok m \<Longrightarrow> ok (store k v m)"
    and ok_remove: "ok m \<Longrightarrow> ok (remove k m)"
    and lookup_nil: "lookup nil k = None"
    and lookup_store: "ok m \<Longrightarrow> lookup (store k v m) = (lookup m)(k \<mapsto> v)"
    and lookup_remove: "ok m \<Longrightarrow> lookup (remove k m) = (lookup m)(k := None)"
    and entries_sorted: "ok m \<Longrightarrow> sorted_wrt (<) (map fst (entries m))"
    and entries_lookup: "ok m \<Longrightarrow> (k, v) \<in> set (entries m) \<longleftrightarrow> lookup m k = Some v"
begin

lemma lookup_store_same: "ok m \<Longrightarrow> lookup (store k v m) k = Some v"
  by (simp add: lookup_store)

lemma lookup_store_other: "ok m \<Longrightarrow> k' \<noteq> k \<Longrightarrow> lookup (store k v m) k' = lookup m k'"
  by (simp add: lookup_store)

lemma entries_distinct: "ok m \<Longrightarrow> distinct (map fst (entries m))"
  using entries_sorted [of m] strict_sorted_iff by blast

lemma entries_keys: "ok m \<Longrightarrow> set (map fst (entries m)) = dom (lookup m)"
proof -
  assume "ok m"
  then have "k \<in> set (map fst (entries m)) \<longleftrightarrow> (\<exists>v. lookup m k = Some v)" for k
    by (force simp flip: entries_lookup)
  then show ?thesis by blast
qed

lemma entries_size: "ok m \<Longrightarrow> length (entries m) = card (dom (lookup m))"
  by (metis distinct_card entries_distinct entries_keys length_map)

lemma finite_lookup: "ok m \<Longrightarrow> finite (dom (lookup m))"
  by (metis List.finite_set entries_keys)

lemma size_store:
  assumes "ok m"
  shows "length (entries (store k v m)) =
    (if lookup m k = None then Suc (length (entries m)) else length (entries m))"
  using assms finite_lookup [OF assms]
  by (auto simp: entries_size ok_store lookup_store card_insert_if)

lemma size_remove:
  assumes "ok m"
  shows "length (entries (remove k m)) =
    (if lookup m k = None then length (entries m) else length (entries m) - 1)"
  using assms finite_lookup [OF assms]
  by (auto simp: entries_size ok_remove lookup_remove card_Diff_singleton_if domIff domI)

end

section \<open>The sorted association list provides it\<close>

lemma set_om_set_keys: "fst ` set (om_set k v m) = insert k (fst ` set m)"
  by (induction m) auto

lemma om_ok_Nil [simp]: "om_ok []"
  by (simp add: om_ok_def)

lemma om_ok_set [simp]: "om_ok m \<Longrightarrow> om_ok (om_set k v m)"
proof (induction m)
  case Nil
  then show ?case by (simp add: om_ok_def)
next
  case (Cons e m)
  have "om_ok m" using Cons.prems by (simp add: om_ok_def)
  then have *: "om_ok (om_set k v m)" by (rule Cons.IH)
  have **: "x \<in> fst ` set (om_set k v m) \<Longrightarrow> fst e < k \<Longrightarrow> fst e < x" for x
    using Cons.prems by (auto simp: set_om_set_keys om_ok_def)
  show ?case
    using Cons.prems * ** by (fastforce simp: om_ok_def)
qed

lemma om_ok_erase [simp]: "om_ok m \<Longrightarrow> om_ok (om_erase k m)"
  by (auto simp: om_ok_def om_erase_def sorted_wrt_map sorted_wrt_filter)

lemma map_of_om_set [simp]: "om_ok m \<Longrightarrow> map_of (om_set k v m) = (map_of m)(k \<mapsto> v)"
proof (induction m)
  case (Cons e m)
  then have "om_ok m" and "\<forall>x \<in> fst ` set m. fst e < x"
    by (auto simp: om_ok_def)
  with Cons show ?case
    by (cases e) (auto simp: fun_eq_iff)
qed simp

lemma map_of_om_erase [simp]: "map_of (om_erase k m) = (map_of m)(k := None)"
  by (induction m) (auto simp: om_erase_def fun_eq_iff)

lemma om_entries: "om_ok m \<Longrightarrow> (k, v) \<in> set m \<longleftrightarrow> map_of m k = Some v"
  by (simp add: om_ok_def strict_sorted_iff)

interpretation om: dictionary "[]" om_find om_set om_erase "\<lambda>m. m" om_ok
  by unfold_locales (auto simp: om_entries, auto simp: om_ok_def)

lemma om_erase_absent: "map_of m k = None \<Longrightarrow> om_erase k m = m"
  by (auto simp: om_erase_def map_of_eq_None_iff intro!: filter_True)

text \<open>Two ordered dictionaries with the same lookups are the same list.\<close>

lemma om_eqI:
  assumes "om_ok m" "om_ok m'" "map_of m = map_of m'"
  shows "m = m'"
proof -
  have "set m = set m'"
    using assms by (auto simp: om_entries)
  moreover have "sorted (map fst m)" "sorted (map fst m')" "inj_on fst (set m \<union> set m')"
    using assms calculation by (auto simp: om_ok_def strict_sorted_iff distinct_map)
  moreover have "distinct m" "distinct m'"
    using assms by (auto simp: om_ok_def strict_sorted_iff distinct_map)
  ultimately show ?thesis
    using assms(1,2) by (intro map_sorted_distinct_set_unique [of fst]) (auto simp: om_ok_def strict_sorted_iff)
qed

lemma om_set_fresh_greatest:
  "om_ok m \<Longrightarrow> (\<And>x. x \<in> fst ` set m \<Longrightarrow> x < k) \<Longrightarrow> om_set k v m = m @ [(k, v)]"
  by (induction m) (auto simp: om_ok_def dest: order.asym)

lemma om_set_same: "om_ok m \<Longrightarrow> map_of m k = Some v \<Longrightarrow> om_set k v m = m"
  by (rule om_eqI) auto

lemma om_set_twice: "om_ok m \<Longrightarrow> om_set k v (om_set k u m) = om_set k v m"
  by (rule om_eqI) auto

end
