(* ===== verification/CppText.thy ===== *)
theory CppText
  imports MF_Prelude "HOL-Library.Char_ord"
begin

text \<open>
  The text operations of the C++ standard library that several components share: classification
  of characters in the C locale, \<open>trim\<close> (repeated in the anonymous namespaces of \<open>NodeConfig.cpp\<close>,
  \<open>SdpSession.cpp\<close> and others), decimal output \<open>ostringstream << n\<close>, and the extraction of integers
  with \<open>istringstream >> n\<close>: leading blanks, one optional sign, decimal digits, a saturated value and
  a failure when the number does not fit.
\<close>

section \<open>Characters\<close>

definition isspace :: "char \<Rightarrow> bool" where
  "isspace c \<longleftrightarrow> (of_char c :: nat) = 32 \<or> (9 \<le> (of_char c :: nat) \<and> (of_char c :: nat) \<le> 13)"

definition isdigit :: "char \<Rightarrow> bool" where
  "isdigit c \<longleftrightarrow> 48 \<le> (of_char c :: nat) \<and> (of_char c :: nat) \<le> 57"

definition tolower :: "char \<Rightarrow> char" where
  "tolower c = (let n = (of_char c :: nat) in if 65 \<le> n \<and> n \<le> 90 then char_of (n + 32) else c)"

definition toupper :: "char \<Rightarrow> char" where
  "toupper c = (let n = (of_char c :: nat) in if 97 \<le> n \<and> n \<le> 122 then char_of (n - 32) else c)"

definition trim :: "string \<Rightarrow> string" where
  "trim s = rev (dropWhile isspace (rev (dropWhile isspace s)))"

lemma isdigit_not_space: "isdigit c \<Longrightarrow> \<not> isspace c"
  by (auto simp: isdigit_def isspace_def)

lemma trim_id: "s = [] \<or> (\<not> isspace (hd s) \<and> \<not> isspace (last s)) \<Longrightarrow> trim s = s"
proof (cases s)
  case (Cons c t)
  assume "s = [] \<or> (\<not> isspace (hd s) \<and> \<not> isspace (last s))"
  with Cons have c: "\<not> isspace (hd s)" "\<not> isspace (last s)" by auto
  then have "dropWhile isspace s = s" using Cons by simp
  moreover have "dropWhile isspace (rev s) = rev s"
    using c(2) Cons by (cases "rev s") (auto simp: last_rev hd_rev [symmetric] simp flip: hd_rev split: if_splits)
  ultimately show ?thesis by (simp add: trim_def)
qed (simp add: trim_def)

lemma trim_Nil [simp]: "trim [] = []"
  by (simp add: trim_def)

section \<open>Decimal output\<close>

definition digit_char :: "nat \<Rightarrow> char" where
  "digit_char d = char_of (48 + d)"

fun dec :: "nat \<Rightarrow> string" where
  "dec n = (if n < 10 then [digit_char n] else dec (n div 10) @ [digit_char (n mod 10)])"

declare dec.simps [simp del]

definition dec_int :: "int \<Rightarrow> string" where
  "dec_int i = (if i < 0 then CHR ''-'' # dec (nat (- i)) else dec (nat i))"

definition digit_value :: "char \<Rightarrow> nat" where
  "digit_value c = of_char c - 48"

definition dec_value :: "string \<Rightarrow> nat" where
  "dec_value ds = foldl (\<lambda>n c. 10 * n + digit_value c) 0 ds"

lemma digit_char_code: "d < 10 \<Longrightarrow> of_char (digit_char d) = 48 + d"
  by (simp add: digit_char_def)

lemma digit_char_digit: "d < 10 \<Longrightarrow> isdigit (digit_char d)"
  by (simp add: isdigit_def digit_char_code)

lemma digit_value_char: "d < 10 \<Longrightarrow> digit_value (digit_char d) = d"
  by (simp add: digit_value_def digit_char_code)

lemma dec_nonempty [simp]: "dec n \<noteq> []"
  by (subst dec.simps) auto

lemma dec_digits: "list_all isdigit (dec n)"
proof (induction n rule: dec.induct)
  case (1 n)
  then show ?case by (subst dec.simps) (auto simp: digit_char_digit)
qed

lemma dec_value_dec [simp]: "dec_value (dec n) = n"
proof (induction n rule: dec.induct)
  case (1 n)
  show ?case
  proof (cases "n < 10")
    case True
    then show ?thesis by (simp add: dec.simps [of n] dec_value_def digit_value_char)
  next
    case False
    then have "dec_value (dec n) = 10 * dec_value (dec (n div 10)) + n mod 10"
      by (simp add: dec.simps [of n] dec_value_def digit_value_char)
    then show ?thesis using 1 False by simp
  qed
qed

lemma dec_inject [simp]: "dec m = dec n \<longleftrightarrow> m = n"
  by (metis dec_value_dec)

lemma dec_no_leading_zero: "hd (dec n) = CHR ''0'' \<Longrightarrow> n = 0"
proof (induction n rule: dec.induct)
  case (1 n)
  show ?case
  proof (cases "n < 10")
    case True
    then have "digit_char n = CHR ''0''" using "1.prems" by (simp add: dec.simps [of n])
    then have "of_char (digit_char n) = (48 :: nat)" by simp
    then show ?thesis using True by (simp add: digit_char_code)
  next
    case False
    then have "hd (dec (n div 10)) = CHR ''0''" using "1.prems" by (simp add: dec.simps [of n])
    then have "n div 10 = 0" using "1.IH" False by simp
    then show ?thesis using False by simp
  qed
qed

section \<open>Integer extraction\<close>

text \<open>\<open>extract_unsigned M s\<close> models \<open>input >> n\<close> for an unsigned type of maximum \<open>M\<close>: the value written,
  whether the stream stays good, and what is left of the input. A minus sign is accepted and
  negates modulo \<open>M + 1\<close>; \<open>rest = []\<close> is \<open>input.eof()\<close> after a successful extraction.\<close>

definition split_sign :: "string \<Rightarrow> bool \<times> string" where
  "split_sign s = (case s of c # t \<Rightarrow> if c = CHR ''-'' then (True, t) else if c = CHR ''+'' then (False, t) else (False, s)
                   | [] \<Rightarrow> (False, []))"

definition extract_unsigned :: "nat \<Rightarrow> string \<Rightarrow> nat \<times> bool \<times> string" where
  "extract_unsigned M s =
    (let (neg, s) = split_sign (dropWhile isspace s);
         ds = takeWhile isdigit s;
         rest = dropWhile isdigit s;
         n = dec_value ds
     in if ds = [] then (0, False, rest)
        else if n > M then (M, False, rest)
        else ((if neg \<and> n \<noteq> 0 then M + 1 - n else n), True, rest))"

definition extract_int :: "int \<Rightarrow> int \<Rightarrow> string \<Rightarrow> int \<times> bool \<times> string" where
  "extract_int lo hi s =
    (let (neg, s) = split_sign (dropWhile isspace s);
         ds = takeWhile isdigit s;
         rest = dropWhile isdigit s;
         n = (if neg then - int (dec_value ds) else int (dec_value ds))
     in if ds = [] then (0, False, rest)
        else if n < lo then (lo, False, rest)
        else if n > hi then (hi, False, rest)
        else (n, True, rest))"

text \<open>\<open>atoi\<close> of the GNU C library: a \<open>long\<close>, saturated, that is cut to an \<open>int\<close>.\<close>

definition atoi :: "string \<Rightarrow> int" where
  "atoi s = sint (word_of_int (fst (extract_int (- (2 ^ 63)) (2 ^ 63 - 1) s)) :: 32 word)"

definition INT_MAX :: int where "INT_MAX = 2147483647"
definition INT_MIN :: int where "INT_MIN = -2147483648"

text \<open>\<open>int toInt(const std::string&)\<close> of \<open>NodeConfig.cpp\<close> and \<open>SdpSession.cpp\<close>: the stream state is ignored.\<close>

definition toInt :: "string \<Rightarrow> int" where
  "toInt s = fst (extract_int INT_MIN INT_MAX s)"

lemma dec_hd: "isdigit (hd (dec n))"
  using dec_digits [of n] dec_nonempty [of n] by (cases "dec n") auto

lemma split_sign_dec: "split_sign (dec n) = (False, dec n)"
proof (cases "dec n")
  case (Cons c t)
  then have "isdigit c" using dec_hd [of n] by simp
  then show ?thesis using Cons by (auto simp: split_sign_def isdigit_def)
qed simp

lemma dec_lexical:
  "dropWhile isspace (dec n) = dec n" "takeWhile isdigit (dec n) = dec n" "dropWhile isdigit (dec n) = []"
proof -
  show "dropWhile isspace (dec n) = dec n"
    using isdigit_not_space [OF dec_hd, of n] by (cases "dec n") auto
  show "takeWhile isdigit (dec n) = dec n" "dropWhile isdigit (dec n) = []"
    using dec_digits [of n] by (auto simp: list_all_iff)
qed

lemma extract_unsigned_dec: "n \<le> M \<Longrightarrow> extract_unsigned M (dec n) = (n, True, [])"
  by (simp add: extract_unsigned_def dec_lexical split_sign_dec Let_def)

lemma extract_int_dec_int:
  "lo \<le> i \<Longrightarrow> i \<le> hi \<Longrightarrow> extract_int lo hi (dec_int i) = (i, True, [])"
proof (cases "i < 0")
  case True
  assume "lo \<le> i" "i \<le> hi"
  moreover have "dropWhile isspace (dec_int i) = dec_int i"
    using True by (simp add: dec_int_def isspace_def)
  ultimately show ?thesis using True
    by (simp add: extract_int_def dec_lexical split_sign_def dec_int_def Let_def)
next
  case False
  assume "lo \<le> i" "i \<le> hi"
  with False show ?thesis
    by (simp add: extract_int_def dec_int_def dec_lexical split_sign_dec Let_def)
qed

lemma toInt_dec_int: "INT_MIN \<le> i \<Longrightarrow> i \<le> INT_MAX \<Longrightarrow> toInt (dec_int i) = i"
  by (simp add: toInt_def extract_int_dec_int)

lemma trim_dec [simp]: "trim (dec n) = dec n"
proof -
  have "isdigit (last (dec n))"
    using dec_digits [of n] by (simp add: list_all_iff)
  then show ?thesis using dec_hd isdigit_not_space by (intro trim_id) blast
qed


section \<open>Lines and prefixes\<close>

text \<open>The pieces \<open>std::getline(input, piece, delimiter)\<close> gives until it fails; the delimiter is dropped
  and a last piece without one counts. \<open>getlines\<close> is the case of the newline.\<close>

function delimited :: "char \<Rightarrow> string \<Rightarrow> string list" where
  "delimited d s = (if s = [] then []
     else takeWhile (\<lambda>c. c \<noteq> d) s # delimited d (drop 1 (dropWhile (\<lambda>c. c \<noteq> d) s)))"
  by pat_completeness auto
termination
proof (relation "measure (\<lambda>(d, s). length s)")
  fix d and s :: string
  assume "s \<noteq> []"
  then have "length (dropWhile (\<lambda>c. c \<noteq> d) s) - 1 < length s"
    using length_dropWhile_le [of "\<lambda>c. c \<noteq> d" s] by (cases s) (auto simp del: dropWhile.simps)
  then show "((d, drop 1 (dropWhile (\<lambda>c. c \<noteq> d) s)), (d, s)) \<in> measure (\<lambda>(d, s). length s)" by simp
qed simp

declare delimited.simps [simp del]

abbreviation getlines :: "string \<Rightarrow> string list" where
  "getlines s \<equiv> delimited (CHR 0x0A) s"

lemma delimited_Nil [simp]: "delimited d [] = []"
  by (simp add: delimited.simps)

lemma delimited_piece [simp]: "d \<notin> set l \<Longrightarrow> delimited d (l @ d # rest) = l # delimited d rest"
proof (subst delimited.simps)
  assume n: "d \<notin> set l"
  then have "takeWhile (\<lambda>c. c \<noteq> d) (l @ d # rest) = l"
    "dropWhile (\<lambda>c. c \<noteq> d) (l @ d # rest) = d # rest"
    by (auto simp: takeWhile_append dropWhile_append)
  then show "(if l @ d # rest = [] then [] else takeWhile (\<lambda>c. c \<noteq> d) (l @ d # rest) #
      delimited d (drop 1 (dropWhile (\<lambda>c. c \<noteq> d) (l @ d # rest)))) = l # delimited d rest"
    by simp
qed

lemma delimited_last [simp]: "d \<notin> set l \<Longrightarrow> l \<noteq> [] \<Longrightarrow> delimited d l = [l]"
proof -
  assume n: "d \<notin> set l" "l \<noteq> []"
  have "takeWhile (\<lambda>c. c \<noteq> d) l = l" "dropWhile (\<lambda>c. c \<noteq> d) l = []"
    using n by auto
  then have "delimited d l = l # delimited d (drop 1 [])"
    using n(2) delimited.simps [of d l] by presburger
  then show ?thesis by simp
qed

lemma getlines_unlines:
  "list_all (\<lambda>l. CHR 0x0A \<notin> set l) ls \<Longrightarrow> getlines (concat (map (\<lambda>l. l @ [CHR 0x0A]) ls)) = ls"
  by (induction ls) auto

definition startsWith :: "string \<Rightarrow> string \<Rightarrow> bool" where
  "startsWith value pre \<longleftrightarrow> take (length pre) value = pre"

lemma startsWith_append [simp]: "startsWith (p @ s) p"
  by (simp add: startsWith_def)

lemma trim_first_last:
  "s \<noteq> [] \<Longrightarrow> \<not> isspace (hd s) \<Longrightarrow> \<not> isspace (last s) \<Longrightarrow> trim s = s"
  by (simp add: trim_id)


section \<open>Searching\<close>

text \<open>\<open>std::string::find\<close>: the first occurrence at or after a position; \<open>None\<close> is \<open>npos\<close>.\<close>

fun find_sub :: "string \<Rightarrow> string \<Rightarrow> nat option" where
  "find_sub p [] = (if p = [] then Some 0 else None)"
| "find_sub p (c # s) = (if startsWith (c # s) p then Some 0 else map_option Suc (find_sub p s))"

definition find_from :: "string \<Rightarrow> string \<Rightarrow> nat \<Rightarrow> nat option" where
  "find_from p s pos = (if pos > length s then None else map_option (\<lambda>i. pos + i) (find_sub p (drop pos s)))"

definition find_first_of :: "string \<Rightarrow> string \<Rightarrow> nat \<Rightarrow> nat option" where
  "find_first_of cs s pos =
    (let n = length (takeWhile (\<lambda>c. c \<notin> set cs) (drop pos s))
     in if pos + n < length s then Some (pos + n) else None)"

definition substr :: "string \<Rightarrow> nat \<Rightarrow> nat \<Rightarrow> string" where
  "substr s pos n = take n (drop pos s)"

text \<open>Text that does not contain the first character of the pattern is skipped.\<close>

lemma find_sub_skip: "hd p \<notin> set w \<Longrightarrow> p \<noteq> [] \<Longrightarrow> find_sub p (w @ s) = map_option (\<lambda>i. length w + i) (find_sub p s)"
proof (induction w)
  case (Cons c w)
  then have "\<not> startsWith (c # w @ s) p"
    by (cases p) (auto simp: startsWith_def)
  with Cons show ?case by (simp add: option.map_comp comp_def)
qed (cases "find_sub p s"; simp)

lemma find_sub_here: "startsWith s p \<Longrightarrow> find_sub p s = Some 0"
  by (cases s) (auto simp: startsWith_def)

lemma find_sub_next: "\<not> startsWith (c # s) p \<Longrightarrow> find_sub p (c # s) = map_option Suc (find_sub p s)"
  by simp

lemma find_from_append: "find_from p (w @ s) (length w) = map_option (\<lambda>i. length w + i) (find_sub p s)"
  by (simp add: find_from_def)

lemma find_from_mark:
  assumes "p \<noteq> []" "hd p \<notin> set x"
  shows "find_from p (w @ x @ p @ s) (length w) = Some (length w + length x)"
  using assms find_sub_skip [of p x "p @ s"] find_sub_here [of "p @ s" p]
  by (simp add: find_from_append)

lemma find_sub_bound: "find_sub p s = Some i \<Longrightarrow> i + length p \<le> length s \<and> take (length p) (drop i s) = p"
proof (induction s arbitrary: i)
  case (Cons c s)
  show ?case
  proof (cases "startsWith (c # s) p")
    case True
    then have "take (length p) (c # s) = p" "i = 0" using Cons.prems by (auto simp: startsWith_def)
    then show ?thesis by (metis add_0 drop_0 length_take min.bounded_iff order_refl)
  next
    case False
    then obtain j where "find_sub p s = Some j" "i = Suc j" using Cons.prems by auto
    then show ?thesis using Cons.IH by auto
  qed
qed (auto split: if_splits)

section \<open>C strings\<close>

text \<open>What is left of a \<open>std::string\<close> that went through \<open>c_str()\<close>: the text before the first zero byte.\<close>

definition c_string :: "string \<Rightarrow> string" where
  "c_string s = takeWhile (\<lambda>c. c \<noteq> CHR 0x00) s"

lemma c_string_id [simp]: "CHR 0x00 \<notin> set s \<Longrightarrow> c_string s = s"
  by (auto simp: c_string_def)

lemma c_string_Nil [simp]: "c_string [] = []"
  by (simp add: c_string_def)

end
