(* ===== verification/RtpPacket.thy ===== *)
theory RtpPacket
  imports MF_Prelude
begin

text \<open>
  \<open>src/src/media/RtpPacket.{h,cpp}\<close>: parsing and building RTP packets, and cutting a payload into
  a burst of packets. \<open>parseRtpPacket\<close> reads the buffer through \<open>at\<close>, so its outer \<open>option\<close> is
  "no undefined behaviour" (\<open>parse_safe\<close>) and its \<open>parsed\<close> result is the code's \<open>bool\<close> with the
  output parameter. The \<open>packet == NULL\<close> and \<open>packets == NULL\<close> guards have no counterpart: the
  model's output always exists.
\<close>

record rtp_packet =
  pkt_marker :: bool
  pkt_payloadType :: byte
  pkt_sequenceNumber :: u16
  pkt_timestamp :: u32
  pkt_ssrc :: u32
  pkt_payload :: bytes

record rtp_options =
  opt_payloadType :: byte
  opt_firstSequenceNumber :: u16
  opt_timestamp :: u32
  opt_ssrc :: u32
  opt_maxPayloadBytes :: nat

definition default_rtp_options :: rtp_options where
  "default_rtp_options = \<lparr>opt_payloadType = 96, opt_firstSequenceNumber = 0, opt_timestamp = 0,
     opt_ssrc = 0, opt_maxPayloadBytes = 1300\<rparr>"

section \<open>Parsing\<close>

text \<open>The two variable-length parts of the header, in the order the code skips them: the CSRC
  list and extension give the payload's offset, the padding gives its end.\<close>

definition rtp_payload_offset :: "bytes \<Rightarrow> byte \<Rightarrow> nat parsed option" where
  "rtp_payload_offset bs first =
    (let csrcCount = unat (first AND 0x0f);
         offset = 12 + csrcCount * 4
     in if length bs < offset then Some Rejected
        else if first AND 0x10 \<noteq> 0
        then (if length bs < offset + 4 then Some Rejected
              else do {
                w \<leftarrow> readUint16 bs (offset + 2);
                let offset' = offset + (4 + unat w * 4);
                Some (if length bs < offset' then Rejected else Stored True offset') })
        else Some (Stored True offset))"

definition rtp_payload_end :: "bytes \<Rightarrow> byte \<Rightarrow> nat \<Rightarrow> nat parsed option" where
  "rtp_payload_end bs first offset =
    (let payloadEnd = length bs
     in if first AND 0x20 \<noteq> 0
        then (if bs = [] then Some Rejected
              else do {
                lastByte \<leftarrow> at bs (length bs - 1);
                let padding = unat lastByte;
                Some (if padding = 0 \<or> padding > payloadEnd - offset then Rejected
                      else Stored True (payloadEnd - padding)) })
        else Some (Stored True payloadEnd))"

definition parseRtpPacket :: "bytes \<Rightarrow> rtp_packet parsed option" where
  "parseRtpPacket bs =
    (if length bs < 12 then Some Rejected
     else do {
       first \<leftarrow> at bs 0;
       let version = drop_bit 6 first AND 0x03;
       if version \<noteq> 2 then Some Rejected
       else do {
         o1 \<leftarrow> rtp_payload_offset bs first;
         case o1 of Rejected \<Rightarrow> Some Rejected
         | Stored _ offset \<Rightarrow> do {
             o2 \<leftarrow> rtp_payload_end bs first offset;
             case o2 of Rejected \<Rightarrow> Some Rejected
             | Stored _ payloadEnd \<Rightarrow> do {
                 second \<leftarrow> at bs 1;
                 seqn \<leftarrow> readUint16 bs 2;
                 ts \<leftarrow> readUint32 bs 4;
                 src \<leftarrow> readUint32 bs 8;
                 body \<leftarrow> range_of bs offset payloadEnd;
                 Some (Stored True \<lparr>pkt_marker = (second AND 0x80 \<noteq> 0),
                   pkt_payloadType = second AND 0x7f, pkt_sequenceNumber = seqn,
                   pkt_timestamp = ts, pkt_ssrc = src, pkt_payload = body\<rparr>) } } } })"

section \<open>Building\<close>

definition buildRtpPacket :: "byte \<Rightarrow> bool \<Rightarrow> u16 \<Rightarrow> u32 \<Rightarrow> u32 \<Rightarrow> bytes \<Rightarrow> bytes" where
  "buildRtpPacket ptype marker seqn ts src payload =
    (let bs = [0x80];
         bs = bs @ [(if marker then 0x80 else 0x00) OR (ptype AND 0x7f)];
         bs = appendUint16 bs seqn;
         bs = appendUint32 bs ts;
         bs = appendUint32 bs src
     in bs @ payload)"

text \<open>The loop of \<open>packetizeRtpPayload\<close>. \<open>packetizeRtpPayload\<close> enters it only with
  \<open>maxPayloadBytes \<noteq> 0\<close>; the guard on \<open>opt_maxPayloadBytes\<close> records that for termination.\<close>

function packetize_loop :: "bytes \<Rightarrow> rtp_options \<Rightarrow> nat \<Rightarrow> u16 \<Rightarrow> bytes list" where
  "packetize_loop payload opts offset sequence =
    (if offset < length payload \<and> opt_maxPayloadBytes opts \<noteq> 0 then
       (let remaining = length payload - offset;
            chunkBytes = (if remaining > opt_maxPayloadBytes opts then opt_maxPayloadBytes opts else remaining);
            marker = (offset + chunkBytes \<ge> length payload);
            chunk = take chunkBytes (drop offset payload)
        in buildRtpPacket (opt_payloadType opts) marker sequence (opt_timestamp opts) (opt_ssrc opts) chunk
           # packetize_loop payload opts (offset + chunkBytes) (sequence + 1))
     else [])"
  by pat_completeness auto
termination
  by (relation "measure (\<lambda>(payload, opts, offset, _). length payload - offset)") (auto simp: Let_def)

declare packetize_loop.simps [simp del]

definition packetizeRtpPayload :: "bytes \<Rightarrow> rtp_options \<Rightarrow> bytes list parsed" where
  "packetizeRtpPayload payload opts =
    (if payload = [] \<or> opt_maxPayloadBytes opts = 0 then Rejected
     else let built = packetize_loop payload opts 0 (opt_firstSequenceNumber opts)
          in Stored (built \<noteq> []) built)"

section \<open>The parser never reads out of bounds\<close>

lemma rtp_payload_offset_safe:
  "\<exists>r. rtp_payload_offset bs first = Some r"
  by (auto simp: rtp_payload_offset_def Let_def)

lemma rtp_payload_offset_bounds:
  "rtp_payload_offset bs first = Some (Stored b offset) \<Longrightarrow> 12 \<le> offset \<and> offset \<le> length bs"
  by (auto simp: rtp_payload_offset_def Let_def split: if_splits)

lemma rtp_payload_end_safe:
  "\<exists>r. rtp_payload_end bs first offset = Some r"
  by (auto simp: rtp_payload_end_def Let_def)

lemma rtp_payload_end_bounds:
  "rtp_payload_end bs first offset = Some (Stored b e) \<Longrightarrow> offset \<le> length bs \<Longrightarrow>
     offset \<le> e \<and> e \<le> length bs"
  by (auto simp: rtp_payload_end_def Let_def split: if_splits)

lemmas rtp_bounds = rtp_payload_offset_bounds rtp_payload_end_bounds

lemma parse_shape:
  assumes "12 \<le> length bs"
    and "rtp_payload_offset bs (bs ! 0) = Some o1"
  obtains (reject) "parseRtpPacket bs = Some Rejected"
  | (accept) offset e where "12 \<le> offset" "offset \<le> e" "e \<le> length bs"
      "drop_bit 6 (bs ! 0) AND 0x03 = 2"
      "parseRtpPacket bs = Some (Stored True \<lparr>pkt_marker = ((bs ! 1) AND 0x80 \<noteq> 0),
         pkt_payloadType = (bs ! 1) AND 0x7f,
         pkt_sequenceNumber = push_bit 8 (ucast (bs ! 2)) OR ucast (bs ! 3),
         pkt_timestamp = push_bit 24 (ucast (bs ! 4)) OR push_bit 16 (ucast (bs ! 5))
           OR push_bit 8 (ucast (bs ! 6)) OR ucast (bs ! 7),
         pkt_ssrc = push_bit 24 (ucast (bs ! 8)) OR push_bit 16 (ucast (bs ! 9))
           OR push_bit 8 (ucast (bs ! 10)) OR ucast (bs ! 11),
         pkt_payload = take (e - offset) (drop offset bs)\<rparr>)"
proof -
  have ne: "bs \<noteq> []" using assms(1) by auto
  consider (version) "drop_bit 6 (bs ! 0) AND 0x03 \<noteq> (2 :: byte)"
    | (header) "drop_bit 6 (bs ! 0) AND 0x03 = (2 :: byte)" "o1 = Rejected"
    | (padding) b offset where "drop_bit 6 (bs ! 0) AND 0x03 = (2 :: byte)" "o1 = Stored b offset"
        "rtp_payload_end bs (bs ! 0) offset = Some Rejected"
    | (ok) b b' offset e where "drop_bit 6 (bs ! 0) AND 0x03 = (2 :: byte)" "o1 = Stored b offset"
        "rtp_payload_end bs (bs ! 0) offset = Some (Stored b' e)"
    by (metis parsed.exhaust rtp_payload_end_safe)
  then show thesis
  proof cases
    case version
    then show thesis using assms ne by (intro reject) (auto simp: parseRtpPacket_def)
  next
    case header
    then show thesis using assms ne by (intro reject) (simp add: parseRtpPacket_def)
  next
    case padding
    then show thesis using assms ne by (intro reject) (simp add: parseRtpPacket_def)
  next
    case (ok b b' offset e)
    then have "12 \<le> offset" "offset \<le> length bs" "offset \<le> e" "e \<le> length bs"
      using assms rtp_bounds by blast+
    then show thesis using assms ne ok
      by (intro accept [of offset e]) (simp_all add: parseRtpPacket_def)
  qed
qed

section \<open>The packets that are accepted\<close>

text \<open>The layout of a packet: twelve fixed bytes, as many contributing sources as the first byte says, an extension of
  the length it gives when its bit is set, the payload, and padding that ends with its own length when its bit is set. Numbers are big
  endian.\<close>

definition extension_ok :: "byte \<Rightarrow> bytes \<Rightarrow> bool" where
  "extension_ok first ext \<longleftrightarrow>
     (if first AND 0x10 \<noteq> 0 then \<exists>p1 p0 l1 l0 ws. ext = [p1, p0, l1, l0] @ ws \<and> length ws = 4 * (256 * unat l1 + unat l0) else ext = [])"

definition padding_ok :: "byte \<Rightarrow> bytes \<Rightarrow> bool" where
  "padding_ok first pad \<longleftrightarrow> (if first AND 0x20 \<noteq> 0 then pad \<noteq> [] \<and> length pad = unat (List.last pad) else pad = [])"

definition rtp_layout :: "bytes \<Rightarrow> rtp_packet \<Rightarrow> bool" where
  "rtp_layout bs p \<longleftrightarrow> (\<exists>b0 b1 s1 s0 t3 t2 t1 t0 c3 c2 c1 c0 csrc ext pad.
     bs = [b0, b1, s1, s0, t3, t2, t1, t0, c3, c2, c1, c0] @ csrc @ ext @ pkt_payload p @ pad \<and>
     drop_bit 6 b0 = 2 \<and> length csrc = 4 * unat (b0 AND 0x0f) \<and> extension_ok b0 ext \<and> padding_ok b0 pad \<and>
     pkt_marker p = (b1 AND 0x80 \<noteq> 0) \<and> pkt_payloadType p = b1 AND 0x7f \<and>
     pkt_sequenceNumber p = of_nat (256 * unat s1 + unat s0) \<and>
     pkt_timestamp p = of_nat (((256 * unat t3 + unat t2) * 256 + unat t1) * 256 + unat t0) \<and>
     pkt_ssrc p = of_nat (((256 * unat c3 + unat c2) * 256 + unat c1) * 256 + unat c0))"

lemma be16: "push_bit 8 (ucast a) OR ucast b = (of_nat (256 * unat a + unat b) :: u16)" for a b :: byte
proof -
  have "push_bit 8 (ucast a) + ucast b = (push_bit 8 (ucast a) OR ucast b :: u16)"
    by (rule disjunctive_add_eq_or, rule bit_word_eqI) (auto simp: bit_simps dest: bit_imp_le_length)
  then show ?thesis by (simp add: push_bit_eq_mult mult.commute)
qed

lemma unat_be16: "unat (push_bit 8 (ucast a) OR ucast b :: u16) = 256 * unat a + unat b" for a b :: byte
proof -
  have "unat a < 256" "unat b < 256" using unsigned_less [of a] unsigned_less [of b] by simp_all
  then have "256 * unat a + unat b < 65536" by linarith
  then show ?thesis unfolding be16 by (subst unat_of_nat) (simp add: mod_less)
qed

lemma be32: "push_bit 24 (ucast a) OR push_bit 16 (ucast b) OR push_bit 8 (ucast c) OR ucast d =
    (of_nat (((256 * unat a + unat b) * 256 + unat c) * 256 + unat d) :: u32)" for a b c d :: byte
proof -
  let ?a = "push_bit 24 (ucast a) :: u32" and ?b = "push_bit 16 (ucast b) :: u32" and ?c = "push_bit 8 (ucast c) :: u32"
  have "?a + ?b = ?a OR ?b"
    by (rule disjunctive_add_eq_or, rule bit_word_eqI) (auto simp: bit_simps dest: bit_imp_le_length)
  moreover have "(?a OR ?b) + ?c = (?a OR ?b) OR ?c"
    by (rule disjunctive_add_eq_or, rule bit_word_eqI) (auto simp: bit_simps dest: bit_imp_le_length)
  moreover have "((?a OR ?b) OR ?c) + ucast d = ((?a OR ?b) OR ?c) OR ucast d"
    by (rule disjunctive_add_eq_or, rule bit_word_eqI) (auto simp: bit_simps dest: bit_imp_le_length)
  ultimately have "?a OR ?b OR ?c OR ucast d = ?a + ?b + ?c + ucast d" by (simp add: or.assoc)
  then show ?thesis by (simp add: push_bit_eq_mult algebra_simps)
qed

lemma version_bits: "drop_bit 6 (b :: byte) AND 0x03 = drop_bit 6 b"
proof (rule bit_word_eqI)
  fix n assume "n < LENGTH(8)"
  have m: "(0x03 :: byte) = mask 2" by (simp add: mask_eq_exp_minus_1)
  show "bit (drop_bit 6 b AND 0x03) n = bit (drop_bit 6 b) n"
    by (auto simp: m bit_simps dest: bit_imp_le_length)
qed

lemma offset_iff:
  assumes "length hdr = 12"
  shows "rtp_payload_offset (hdr @ rest) first = Some (Stored b k) \<longleftrightarrow> b \<and> (\<exists>csrc ext tail. rest = csrc @ ext @ tail \<and>
     length csrc = 4 * unat (first AND 0x0f) \<and> extension_ok first ext \<and> k = 12 + length csrc + length ext)"
    (is "?l \<longleftrightarrow> ?r")
proof -
  let ?n = "4 * unat (first AND 0x0f)"
  show ?thesis
  proof (cases "first AND 0x10 \<noteq> 0")
    case False
    show ?thesis
    proof
      assume ?l
      then have "b" "k = 12 + ?n" "?n \<le> length rest"
        using False assms by (auto simp: rtp_payload_offset_def Let_def split: if_splits)
      then show ?r using False
        by (intro conjI exI [of _ "take ?n rest"] exI [of _ "[]"] exI [of _ "drop ?n rest"]) (simp_all add: extension_ok_def)
    next
      assume ?r
      then show ?l using False assms by (auto simp: rtp_payload_offset_def Let_def extension_ok_def)
    qed
  next
    case True
    show ?thesis
    proof
      assume ?l
      then have n: "?n + 4 \<le> length rest"
        using True assms by (auto simp: rtp_payload_offset_def Let_def split: if_splits)
      define csrc where "csrc = take ?n rest"
      have "Suc (Suc (Suc (Suc 0))) \<le> length (drop ?n rest)" using n by simp
      then obtain p1 p0 l1 l0 more where d: "drop ?n rest = p1 # p0 # l1 # l0 # more"
        unfolding Suc_le_length_iff by blast
      have r: "rest = csrc @ p1 # p0 # l1 # l0 # more" and lc: "length csrc = ?n"
        using n append_take_drop_id [of ?n rest] by (simp_all add: csrc_def d)
      let ?w = "256 * unat l1 + unat l0"
      from \<open>?l\<close> have k: "b" "k = 12 + ?n + 4 + 4 * ?w" "4 * ?w \<le> length more"
        using True assms lc
        by (auto simp: rtp_payload_offset_def Let_def r readUint16_def at_def nth_append unat_be16 split: if_splits)
      show ?r using True k lc
        by (intro conjI exI [of _ csrc] exI [of _ "[p1, p0, l1, l0] @ take (4 * ?w) more"] exI [of _ "drop (4 * ?w) more"])
          (auto simp: extension_ok_def r)
    next
      assume ?r
      then show ?l using True assms
        by (auto simp: rtp_payload_offset_def Let_def extension_ok_def readUint16_def at_def nth_append unat_be16)
    qed
  qed
qed

lemma end_iff:
  assumes "pre \<noteq> []"
  shows "rtp_payload_end (pre @ tail) first (length pre) = Some (Stored b k) \<longleftrightarrow>
     b \<and> (\<exists>payload pad. tail = payload @ pad \<and> padding_ok first pad \<and> k = length pre + length payload)"
    (is "?l \<longleftrightarrow> ?r")
proof (cases "first AND 0x20 \<noteq> 0")
  case False
  then show ?thesis by (auto simp: rtp_payload_end_def padding_ok_def)
next
  case True
  let ?n = "unat (List.last (pre @ tail))"
  have at: "at (pre @ tail) (length (pre @ tail) - 1) = Some (List.last (pre @ tail))"
    using assms by (simp add: at_def last_conv_nth)
  have l: "?l \<longleftrightarrow> b \<and> 0 < ?n \<and> ?n \<le> length tail \<and> k = length pre + (length tail - ?n)"
    using True assms at by (auto simp: rtp_payload_end_def Let_def)
  show ?thesis
  proof
    assume ?l
    then have n: "b" "0 < ?n" "?n \<le> length tail" "k = length pre + (length tail - ?n)" using l by auto
    then have t: "tail \<noteq> []" by auto
    then have "List.last (drop (length tail - ?n) tail) = List.last (pre @ tail)" using n by simp
    then show ?r using True n t
      by (intro conjI exI [of _ "take (length tail - ?n) tail"] exI [of _ "drop (length tail - ?n) tail"])
        (auto simp: padding_ok_def)
  next
    assume ?r
    then obtain payload pad where "b" "tail = payload @ pad" "pad \<noteq> []" "length pad = unat (List.last pad)"
      "k = length pre + length payload" using True by (auto simp: padding_ok_def)
    moreover from this have "0 < unat (List.last pad)" by (metis length_greater_0_conv)
    ultimately show ?l unfolding l by simp
  qed
qed

lemma parse_fields:
  assumes bs: "bs = [b0, b1, s1, s0, t3, t2, t1, t0, c3, c2, c1, c0] @ rest"
  shows "parseRtpPacket bs = Some (Stored b p) \<longleftrightarrow> b \<and> drop_bit 6 b0 = 2 \<and>
     (pkt_marker p = (b1 AND 0x80 \<noteq> 0) \<and> pkt_payloadType p = b1 AND 0x7f \<and>
      pkt_sequenceNumber p = of_nat (256 * unat s1 + unat s0) \<and>
      pkt_timestamp p = of_nat (((256 * unat t3 + unat t2) * 256 + unat t1) * 256 + unat t0) \<and>
      pkt_ssrc p = of_nat (((256 * unat c3 + unat c2) * 256 + unat c1) * 256 + unat c0)) \<and>
     (\<exists>x y k e. rtp_payload_offset bs b0 = Some (Stored x k) \<and> rtp_payload_end bs b0 k = Some (Stored y e) \<and>
        pkt_payload p = take (e - k) (drop k bs))"
proof -
  obtain o1 where o1: "rtp_payload_offset bs b0 = Some o1" using rtp_payload_offset_safe by blast
  have a: "at bs 0 = Some b0" "at bs (Suc 0) = Some b1" by (simp_all add: bs at_def)
  have l: "\<not> length bs < 12" by (simp add: bs)
  have s: "readUint16 bs 2 = Some (of_nat (256 * unat s1 + unat s0))"
    using be16 [of s1 s0] by (simp add: bs)
  have t: "readUint32 bs 4 = Some (of_nat (((256 * unat t3 + unat t2) * 256 + unat t1) * 256 + unat t0))"
    using be32 [of t3 t2 t1 t0] by (simp add: bs)
  have c: "readUint32 bs 8 = Some (of_nat (((256 * unat c3 + unat c2) * 256 + unat c1) * 256 + unat c0))"
    using be32 [of c3 c2 c1 c0] by (simp add: bs)
  show ?thesis
  proof (cases o1)
    case Rejected
    then show ?thesis using o1 by (simp add: parseRtpPacket_def l a version_bits)
  next
    case (Stored x k)
    obtain o2 where o2: "rtp_payload_end bs b0 k = Some o2" using rtp_payload_end_safe by blast
    show ?thesis
    proof (cases o2)
      case Rejected
      then show ?thesis using o1 o2 Stored by (simp add: parseRtpPacket_def l a version_bits)
    next
      case (Stored y e)
      have "k \<le> length bs" using o1 \<open>o1 = Stored x k\<close> rtp_payload_offset_bounds by simp
      then have "k \<le> e" "e \<le> length bs" using o2 Stored rtp_payload_end_bounds by simp_all
      then have g: "range_of bs k e = Some (take (e - k) (drop k bs))" by simp
      show ?thesis using o1 o2 Stored \<open>o1 = Stored x k\<close>
        by (cases p) (auto simp add: parseRtpPacket_def l a version_bits s t c g)
    qed
  qed
qed

lemma parse_iff:
  assumes "bs = [b0, b1, s1, s0, t3, t2, t1, t0, c3, c2, c1, c0] @ rest"
  shows "parseRtpPacket bs = Some (Stored b p) \<longleftrightarrow> b \<and> rtp_layout bs p"
proof -
  let ?hdr = "[b0, b1, s1, s0, t3, t2, t1, t0, c3, c2, c1, c0]"
  let ?fields = "pkt_marker p = (b1 AND 0x80 \<noteq> 0) \<and> pkt_payloadType p = b1 AND 0x7f \<and>
     pkt_sequenceNumber p = of_nat (256 * unat s1 + unat s0) \<and>
     pkt_timestamp p = of_nat (((256 * unat t3 + unat t2) * 256 + unat t1) * 256 + unat t0) \<and>
     pkt_ssrc p = of_nat (((256 * unat c3 + unat c2) * 256 + unat c1) * 256 + unat c0)"
  have lay: "rtp_layout bs p \<longleftrightarrow> drop_bit 6 b0 = 2 \<and> ?fields \<and> (\<exists>csrc ext pad. rest = csrc @ ext @ pkt_payload p @ pad \<and>
     length csrc = 4 * unat (b0 AND 0x0f) \<and> extension_ok b0 ext \<and> padding_ok b0 pad)"
    unfolding rtp_layout_def assms by auto
  have read: "parseRtpPacket bs = Some (Stored b p) \<longleftrightarrow> b \<and> drop_bit 6 b0 = 2 \<and> ?fields \<and>
     (\<exists>x y k e. rtp_payload_offset bs b0 = Some (Stored x k) \<and> rtp_payload_end bs b0 k = Some (Stored y e) \<and>
        pkt_payload p = take (e - k) (drop k bs))"
    by (rule parse_fields [OF assms])
  show ?thesis
  proof
    assume "parseRtpPacket bs = Some (Stored b p)"
    then obtain x y k e where r: "b" "drop_bit 6 b0 = 2" "?fields" "rtp_payload_offset bs b0 = Some (Stored x k)"
      "rtp_payload_end bs b0 k = Some (Stored y e)" "pkt_payload p = take (e - k) (drop k bs)"
      unfolding read by blast
    obtain csrc ext tail where o: "rest = csrc @ ext @ tail" "length csrc = 4 * unat (b0 AND 0x0f)" "extension_ok b0 ext"
      "k = 12 + length csrc + length ext"
      using r(4) offset_iff [of ?hdr rest b0 x k] by (auto simp: assms)
    let ?pre = "?hdr @ csrc @ ext"
    have bs: "bs = ?pre @ tail" and k: "k = length ?pre" by (simp_all add: assms o(1,4))
    obtain payload pad where e: "tail = payload @ pad" "padding_ok b0 pad" "e = length ?pre + length payload"
      using r(5) end_iff [of ?pre tail b0 y e] unfolding bs k by blast
    have "pkt_payload p = payload" unfolding r(6) bs k e(1,3) by simp
    then show "b \<and> rtp_layout bs p" using r(1-3) o e(1,2) unfolding lay by blast
  next
    assume a: "b \<and> rtp_layout bs p"
    then obtain csrc ext pad where l: "rest = csrc @ ext @ pkt_payload p @ pad" "length csrc = 4 * unat (b0 AND 0x0f)"
      "extension_ok b0 ext" "padding_ok b0 pad" and v: "drop_bit 6 b0 = 2" "?fields"
      unfolding lay by blast
    let ?pre = "?hdr @ csrc @ ext"
    have bs: "bs = ?hdr @ rest" "bs = ?pre @ pkt_payload p @ pad" by (simp_all add: assms l(1))
    have "length ?pre = 12 + length csrc + length ext" by simp
    then have "rtp_payload_offset (?hdr @ rest) b0 = Some (Stored True (length ?pre))"
      using l(1-3) offset_iff [of ?hdr rest b0 True "length ?pre"] by fastforce
    then have o: "rtp_payload_offset bs b0 = Some (Stored True (length ?pre))" using bs(1) by simp
    have "rtp_payload_end (?pre @ pkt_payload p @ pad) b0 (length ?pre) = Some (Stored True (length ?pre + length (pkt_payload p)))"
      using l(4) end_iff [of ?pre "pkt_payload p @ pad" b0 True "length ?pre + length (pkt_payload p)"] by fastforce
    then have e: "rtp_payload_end bs b0 (length ?pre) = Some (Stored True (length ?pre + length (pkt_payload p)))"
      using bs(2) by simp
    have "pkt_payload p = take (length ?pre + length (pkt_payload p) - length ?pre) (drop (length ?pre) bs)"
      unfolding bs(2) by simp
    then show "parseRtpPacket bs = Some (Stored b p)" using a v o e unfolding read by blast
  qed
qed

lemma parse_layout: "parseRtpPacket bs = Some (Stored b p) \<longleftrightarrow> b \<and> rtp_layout bs p"
proof (cases "12 \<le> length bs")
  case True
  then have "Suc (Suc (Suc (Suc (Suc (Suc (Suc (Suc (Suc (Suc (Suc (Suc 0))))))))))) \<le> length bs" by simp
  then obtain b0 b1 s1 s0 t3 t2 t1 t0 c3 c2 c1 c0 rest where
    "bs = [b0, b1, s1, s0, t3, t2, t1, t0, c3, c2, c1, c0] @ rest"
    unfolding Suc_le_length_iff by force
  then show ?thesis by (rule parse_iff)
next
  case False
  then have "\<not> rtp_layout bs p" by (auto simp: rtp_layout_def)
  with False show ?thesis by (simp add: parseRtpPacket_def)
qed

lemma parse_some: "parseRtpPacket bs \<noteq> None"
proof (cases "12 \<le> length bs")
  case True
  obtain o1 where "rtp_payload_offset bs (bs ! 0) = Some o1" using rtp_payload_offset_safe by blast
  with True show ?thesis by (cases rule: parse_shape) simp_all
qed (simp add: parseRtpPacket_def)

text \<open>
  C35: \<open>parseRtpPacket\<close> never reads outside its input, and it accepts exactly the packets of the layout above, with every field
  read as the layout says: version 2, the contributing sources and the extension inside the packet, a padding whose last byte is its own
  non-zero length, and the payload between them. Every other input is rejected, and the flag of an accepted packet is \<open>true\<close>.
\<close>

theorem parse_rtp_safe:
  "parseRtpPacket bs \<noteq> None \<and>
   (\<forall>b p. parseRtpPacket bs = Some (Stored b p) \<longleftrightarrow> b \<and> rtp_layout bs p) \<and>
   (parseRtpPacket bs = Some Rejected \<longleftrightarrow> (\<nexists>p. rtp_layout bs p))"
proof -
  have some: "parseRtpPacket bs \<noteq> None" by (rule parse_some)
  have iff: "parseRtpPacket bs = Some (Stored b p) \<longleftrightarrow> b \<and> rtp_layout bs p" for b p
    by (rule parse_layout)
  have "parseRtpPacket bs = Some Rejected \<longleftrightarrow> (\<nexists>p. rtp_layout bs p)"
    using some iff by (metis not_Some_eq option.inject parsed.distinct(1) parsed.exhaust)
  with some iff show ?thesis by blast
qed

section \<open>Round trips\<close>

lemma length_buildRtpPacket [simp]: "length (buildRtpPacket pt m s t c payload) = 12 + length payload"
  by (simp add: buildRtpPacket_def appendUint16_def appendUint32_def)

lemma build_layout:
  "buildRtpPacket pt m s t c payload =
    [0x80, (if m then 0x80 else 0x00) OR (pt AND 0x7f),
     ucast (drop_bit 8 s AND 0xff), ucast (s AND 0xff),
     ucast (drop_bit 24 t AND 0xff), ucast (drop_bit 16 t AND 0xff), ucast (drop_bit 8 t AND 0xff), ucast (t AND 0xff),
     ucast (drop_bit 24 c AND 0xff), ucast (drop_bit 16 c AND 0xff), ucast (drop_bit 8 c AND 0xff), ucast (c AND 0xff)]
    @ payload"
  by (simp add: buildRtpPacket_def appendUint16_def appendUint32_def)

lemma marker_bit: "((if m then 0x80 else 0x00) OR (pt AND 0x7f)) AND (0x80 :: byte) \<noteq> 0 \<longleftrightarrow> m"
proof -
  have "(pt AND 0x7f) AND (0x80 :: byte) = 0"
    by (simp add: and.assoc)
  then show ?thesis by (simp add: word_ao_dist)
qed

lemma type_bits: "((if m then 0x80 else 0x00) OR (pt AND 0x7f)) AND (0x7f :: byte) = pt AND 0x7f"
  by (simp add: word_ao_dist and.assoc)

lemma parse_built_rtp:
  "parseRtpPacket (buildRtpPacket pt m s t c payload) =
     Some (Stored True \<lparr>pkt_marker = m, pkt_payloadType = pt AND 0x7f, pkt_sequenceNumber = s,
       pkt_timestamp = t, pkt_ssrc = c, pkt_payload = payload\<rparr>)"
proof -
  let ?bs = "buildRtpPacket pt m s t c payload"
  have "rtp_payload_offset ?bs 0x80 = Some (Stored True 12)"
    by (simp add: rtp_payload_offset_def)
  moreover have "rtp_payload_end ?bs 0x80 12 = Some (Stored True (length ?bs))"
    by (simp add: rtp_payload_end_def)
  ultimately show ?thesis
    using u16_join [of s] u32_join [of t] u32_join [of c]
    by (simp add: parseRtpPacket_def build_layout at_def range_of_def readUint16_def readUint32_def
        marker_bit type_bits del: u16_join u32_join)
qed

text \<open>
  Building a packet and parsing it gives every field back: marker, sequence number,
  timestamp, SSRC and payload unchanged, the payload type reduced to its 7 bits.
\<close>

theorem parse_build_rtp:
  "parseRtpPacket (buildRtpPacket pt m s t c payload) =
     Some (Stored True \<lparr>pkt_marker = m, pkt_payloadType = pt AND 0x7f, pkt_sequenceNumber = s,
       pkt_timestamp = t, pkt_ssrc = c, pkt_payload = payload\<rparr>)"
  by (rule parse_built_rtp)

section \<open>Packetisation\<close>

text \<open>The abstract burst: one packet per chunk, consecutive sequence numbers, the marker on the
  last.\<close>

fun burst :: "rtp_options \<Rightarrow> u16 \<Rightarrow> bytes list \<Rightarrow> rtp_packet list" where
  "burst opts sequence [] = []"
| "burst opts sequence (c # cs) =
     \<lparr>pkt_marker = (cs = []), pkt_payloadType = opt_payloadType opts AND 0x7f,
      pkt_sequenceNumber = sequence, pkt_timestamp = opt_timestamp opts, pkt_ssrc = opt_ssrc opts,
      pkt_payload = c\<rparr> # burst opts (sequence + 1) cs"

lemma length_burst [simp]: "length (burst opts sequence cs) = length cs"
  by (induction cs arbitrary: sequence) auto

lemma burst_payloads [simp]: "map pkt_payload (burst opts sequence cs) = cs"
  by (induction cs arbitrary: sequence) auto

lemma burst_nth:
  "i < length cs \<Longrightarrow> burst opts sequence cs ! i =
     \<lparr>pkt_marker = (Suc i = length cs), pkt_payloadType = opt_payloadType opts AND 0x7f,
      pkt_sequenceNumber = sequence + of_nat i, pkt_timestamp = opt_timestamp opts,
      pkt_ssrc = opt_ssrc opts, pkt_payload = cs ! i\<rparr>"
proof (induction cs arbitrary: sequence i)
  case (Cons c cs)
  then show ?case by (cases i) (auto simp: add.assoc)
qed simp

lemma packetize_loop_burst:
  assumes "0 < opt_maxPayloadBytes opts"
  shows "map parseRtpPacket (packetize_loop payload opts offset sequence) =
    map (\<lambda>p. Some (Stored True p))
      (burst opts sequence (chunks (opt_maxPayloadBytes opts) (drop offset payload)))"
  using assms
proof (induction payload opts offset sequence rule: packetize_loop.induct)
  case (1 payload opts offset sequence)
  show ?case
  proof (cases "offset < length payload")
    case True
    let ?m = "opt_maxPayloadBytes opts"
    let ?rest = "drop offset payload"
    let ?c = "min ?m (length payload - offset)"
    have step: "packetize_loop payload opts offset sequence =
       buildRtpPacket (opt_payloadType opts) (offset + ?c \<ge> length payload) sequence
         (opt_timestamp opts) (opt_ssrc opts) (take ?c ?rest)
       # packetize_loop payload opts (offset + ?c) (sequence + 1)"
      using True "1.prems" by (subst packetize_loop.simps) (simp add: Let_def min_def)
    have last: "(chunks ?m (drop ?m ?rest) = []) = (offset + ?c \<ge> length payload)"
      using True "1.prems" by auto
    have more: "drop (offset + ?c) payload = drop ?m ?rest"
      using True by (auto simp: min_def add.commute)
    have "map parseRtpPacket (packetize_loop payload opts (offset + ?c) (sequence + 1)) =
      map (\<lambda>p. Some (Stored True p)) (burst opts (sequence + 1) (chunks ?m (drop (offset + ?c) payload)))"
      using True "1.prems" by (intro "1.IH") (auto simp: min_def)
    then show ?thesis
      using True "1.prems" last
      by (simp add: step parse_built_rtp chunks_step more) (simp add: min_def)
  qed (simp add: packetize_loop.simps)
qed

lemma packetize_parsed:
  assumes "payload \<noteq> []" "0 < opt_maxPayloadBytes opts"
  obtains ps where "packetizeRtpPayload payload opts = Stored True ps"
    "map parseRtpPacket ps = map (\<lambda>p. Some (Stored True p))
       (burst opts (opt_firstSequenceNumber opts) (chunks (opt_maxPayloadBytes opts) payload))"
proof -
  let ?ps = "packetize_loop payload opts 0 (opt_firstSequenceNumber opts)"
  have m: "map parseRtpPacket ?ps = map (\<lambda>p. Some (Stored True p))
       (burst opts (opt_firstSequenceNumber opts) (chunks (opt_maxPayloadBytes opts) payload))"
    using assms packetize_loop_burst [of opts payload 0] by simp
  then have "?ps \<noteq> []" using assms by (metis burst_payloads chunks_eq_Nil list.map_disc_iff)
  with m assms show thesis by (intro that [of ?ps]) (auto simp: packetizeRtpPayload_def)
qed

text \<open>
  C19: Packetisation followed by parsing is the identity on the payload: a non-empty payload and a
  positive packet size give \<open>\<lceil>n/m\<rceil>\<close> packets, packet \<open>i\<close> parses to the \<open>i\<close>-th chunk with
  sequence number \<open>first + i\<close> (wrapping at 2^16), every field as configured, the marker on the last
  packet only, and the chunks concatenate to the payload.
\<close>

theorem packetize_correct:
  assumes "payload \<noteq> []" and "0 < opt_maxPayloadBytes opts"
  shows "\<exists>ps. packetizeRtpPayload payload opts = Stored True ps \<and>
    length ps = (length payload + opt_maxPayloadBytes opts - 1) div opt_maxPayloadBytes opts \<and>
    (\<forall>i < length ps. parseRtpPacket (ps ! i) = Some (Stored True
       \<lparr>pkt_marker = (Suc i = length ps), pkt_payloadType = opt_payloadType opts AND 0x7f,
        pkt_sequenceNumber = opt_firstSequenceNumber opts + of_nat i,
        pkt_timestamp = opt_timestamp opts, pkt_ssrc = opt_ssrc opts,
        pkt_payload = take (opt_maxPayloadBytes opts) (drop (i * opt_maxPayloadBytes opts) payload)\<rparr>)) \<and>
    concat (map (\<lambda>i. take (opt_maxPayloadBytes opts) (drop (i * opt_maxPayloadBytes opts) payload))
      [0..<length ps]) = payload"
proof -
  let ?m = "opt_maxPayloadBytes opts" and ?cs = "chunks (opt_maxPayloadBytes opts) payload"
  obtain ps where ps: "packetizeRtpPayload payload opts = Stored True ps"
    and m: "map parseRtpPacket ps = map (\<lambda>p. Some (Stored True p)) (burst opts (opt_firstSequenceNumber opts) ?cs)"
    using packetize_parsed assms by blast
  have len: "length ps = length ?cs" using arg_cong [OF m, of length] by simp
  have "parseRtpPacket (ps ! i) = Some (Stored True (burst opts (opt_firstSequenceNumber opts) ?cs ! i))"
    if "i < length ps" for i
    using that len arg_cong [OF m, of "\<lambda>l. l ! i"] by simp
  moreover have "map (\<lambda>i. take ?m (drop (i * ?m) payload)) [0..<length ps] = ?cs"
    by (intro nth_equalityI) (auto simp: len nth_chunks)
  ultimately show ?thesis
    using ps len assms by (auto simp: burst_nth nth_chunks length_chunks)
qed

theorem packetize_correct_witness:
  "\<exists>ps. packetizeRtpPayload [1, 2, 3] (default_rtp_options\<lparr>opt_maxPayloadBytes := 2\<rparr>) = Stored True ps \<and>
    length ps = 2"
  using packetize_correct [of "[1, 2, 3]" "default_rtp_options\<lparr>opt_maxPayloadBytes := 2\<rparr>"]
  by (auto simp: default_rtp_options_def)

end
