(* ===== verification/ElementaryStream.thy ===== *)
theory ElementaryStream
  imports MF_Prelude
begin

text \<open>
  \<open>src/src/media/ElementaryStream.{h,cpp}\<close>: splitting an Annex-B byte stream at its start codes
  and classifying the NAL units as H.264 or H.265. The counters are \<open>size_t\<close> values bounded by the
  length of the input, so they are \<open>nat\<close>.
\<close>

datatype video_codec = VIDEO_CODEC_UNKNOWN | VIDEO_CODEC_H264 | VIDEO_CODEC_H265

record es_info =
  es_codec :: video_codec
  es_bytes :: nat
  es_nalUnits :: nat
  es_h264Sps :: nat
  es_h264Pps :: nat
  es_h264Idr :: nat
  es_h265Vps :: nat
  es_h265Sps :: nat
  es_h265Pps :: nat
  es_h265Idr :: nat

definition new_es_info :: es_info where
  "new_es_info = \<lparr>es_codec = VIDEO_CODEC_UNKNOWN, es_bytes = 0, es_nalUnits = 0, es_h264Sps = 0,
     es_h264Pps = 0, es_h264Idr = 0, es_h265Vps = 0, es_h265Sps = 0, es_h265Pps = 0, es_h265Idr = 0\<rparr>"

definition hasVideo :: "es_info \<Rightarrow> bool" where
  "hasVideo info \<longleftrightarrow> es_nalUnits info > 0 \<and> es_codec info \<noteq> VIDEO_CODEC_UNKNOWN"

section \<open>Start codes\<close>

text \<open>Every access is guarded by the length test to its left in the same conjunction, as in the
  code's short-circuit \<open>&&\<close>.\<close>

definition startCodeSize :: "bytes \<Rightarrow> nat \<Rightarrow> nat" where
  "startCodeSize bs offset =
    (if offset + 3 \<le> length bs \<and> bs ! offset = 0x00 \<and> bs ! (offset + 1) = 0x00 \<and> bs ! (offset + 2) = 0x01
     then 3
     else if offset + 4 \<le> length bs \<and> bs ! offset = 0x00 \<and> bs ! (offset + 1) = 0x00 \<and>
       bs ! (offset + 2) = 0x00 \<and> bs ! (offset + 3) = 0x01
     then 4
     else 0)"

function findStartCode :: "bytes \<Rightarrow> nat \<Rightarrow> nat" where
  "findStartCode bs i =
    (if i + 3 \<le> length bs
     then (if startCodeSize bs i > 0 then i else findStartCode bs (i + 1))
     else length bs)"
  by pat_completeness auto
termination by (relation "measure (\<lambda>(bs, i). length bs - i)") auto

declare findStartCode.simps [simp del]

section \<open>NAL unit headers\<close>

definition h264_type :: "byte \<Rightarrow> byte" where
  "h264_type header = header AND 0x1f"

definition h265_type :: "byte \<Rightarrow> byte" where
  "h265_type header = drop_bit 1 header AND 0x3f"

definition classifyH264 :: "byte \<Rightarrow> es_info \<Rightarrow> es_info" where
  "classifyH264 header info =
    (if h264_type header = 7 then info\<lparr>es_h264Sps := es_h264Sps info + 1\<rparr>
     else if h264_type header = 8 then info\<lparr>es_h264Pps := es_h264Pps info + 1\<rparr>
     else if h264_type header = 5 then info\<lparr>es_h264Idr := es_h264Idr info + 1\<rparr>
     else info)"

definition classifyH265 :: "byte \<Rightarrow> es_info \<Rightarrow> es_info" where
  "classifyH265 header info =
    (let t = h265_type header
     in if t = 32 then info\<lparr>es_h265Vps := es_h265Vps info + 1\<rparr>
        else if t = 33 then info\<lparr>es_h265Sps := es_h265Sps info + 1\<rparr>
        else if t = 34 then info\<lparr>es_h265Pps := es_h265Pps info + 1\<rparr>
        else if t \<ge> 16 \<and> t \<le> 21 then info\<lparr>es_h265Idr := es_h265Idr info + 1\<rparr>
        else info)"

definition detectCodec :: "byte \<Rightarrow> video_codec" where
  "detectCodec header =
    (let h264Type = h264_type header; h265Type = h265_type header
     in if (h265Type = 32 \<or> h265Type = 33 \<or> h265Type = 34 \<or> (h265Type \<ge> 16 \<and> h265Type \<le> 21)) \<and>
           \<not> (h264Type = 1 \<or> h264Type = 5 \<or> h264Type = 6 \<or> h264Type = 7 \<or> h264Type = 8)
        then VIDEO_CODEC_H265
        else if h264Type > 0 \<and> h264Type \<le> 12 then VIDEO_CODEC_H264
        else VIDEO_CODEC_UNKNOWN)"

section \<open>The parser\<close>

text \<open>What one NAL unit with the given header does to the result: \<open>None\<close> is \<open>return false\<close>.\<close>

definition account_nal :: "byte \<Rightarrow> es_info \<Rightarrow> es_info option" where
  "account_nal header parsed =
    (let codec = detectCodec header
     in if codec = VIDEO_CODEC_UNKNOWN then None
        else if es_codec parsed \<noteq> VIDEO_CODEC_UNKNOWN \<and> es_codec parsed \<noteq> codec then None
        else let parsed = (if es_codec parsed = VIDEO_CODEC_UNKNOWN then parsed\<lparr>es_codec := codec\<rparr> else parsed);
                 parsed = parsed\<lparr>es_nalUnits := es_nalUnits parsed + 1\<rparr>
             in Some (if codec = VIDEO_CODEC_H264 then classifyH264 header parsed
                      else if codec = VIDEO_CODEC_H265 then classifyH265 header parsed
                      else parsed))"

text \<open>The \<open>while (start < bytes.size())\<close> loop; its outer \<open>option\<close> is "no undefined behaviour".\<close>

function es_loop :: "bytes \<Rightarrow> nat \<Rightarrow> es_info \<Rightarrow> es_info parsed option" where
  "es_loop bs start parsed =
    (if start < length bs then
       (let codeSize = startCodeSize bs start
        in if codeSize = 0 then Some Rejected
           else let nalBegin = start + codeSize; next = findStartCode bs nalBegin
           in if nalBegin \<ge> next then Some Rejected
              else (case at bs nalBegin of None \<Rightarrow> None
                | Some header \<Rightarrow>
                  (case account_nal header parsed of None \<Rightarrow> Some Rejected
                   | Some parsed' \<Rightarrow> es_loop bs next parsed')))
     else Some (Stored (hasVideo parsed) parsed))"
  by pat_completeness auto
termination by (relation "measure (\<lambda>(bs, start, _). length bs - start)") auto

declare es_loop.simps [simp del]

definition parseElementaryStream :: "bytes \<Rightarrow> es_info parsed option" where
  "parseElementaryStream bs =
    (if bs = [] then Some Rejected
     else let parsed = new_es_info\<lparr>es_bytes := length bs\<rparr>
          in es_loop bs (findStartCode bs 0) parsed)"

section \<open>Start-code facts\<close>

lemma findStartCode_le: "i \<le> length bs \<Longrightarrow> findStartCode bs i \<le> length bs"
proof (induction bs i rule: findStartCode.induct)
  case (1 bs i)
  then show ?case by (auto simp: findStartCode.simps [of bs i])
qed

lemma findStartCode_eq_length: "length bs < i + 3 \<Longrightarrow> findStartCode bs i = length bs"
  by (simp add: findStartCode.simps)

lemma findStartCode_found:
  "findStartCode bs i < length bs \<Longrightarrow> 0 < startCodeSize bs (findStartCode bs i)"
proof (induction bs i rule: findStartCode.induct)
  case (1 bs i)
  then show ?case by (auto simp: findStartCode.simps [of bs i] split: if_splits)
qed

lemma findStartCode_ge: "findStartCode bs i < length bs \<Longrightarrow> i \<le> findStartCode bs i"
proof (induction bs i rule: findStartCode.induct)
  case (1 bs i)
  then show ?case by (auto simp: findStartCode.simps [of bs i] split: if_splits)
qed

lemma findStartCode_unique:
  assumes "i \<le> j" "j + 3 \<le> length bs" "0 < startCodeSize bs j"
    and "\<And>k. i \<le> k \<Longrightarrow> k < j \<Longrightarrow> startCodeSize bs k = 0"
  shows "findStartCode bs i = j"
  using assms
proof (induction bs i rule: findStartCode.induct)
  case (1 bs i)
  show ?case
  proof (cases "i = j")
    case True
    then show ?thesis using "1.prems" by (subst findStartCode.simps) simp
  next
    case False
    then have "i < j" "startCodeSize bs i = 0" using "1.prems" by auto
    moreover have "findStartCode bs (i + 1) = j"
      by (rule "1.IH") (use "1.prems" calculation in auto)
    ultimately show ?thesis
      using "1.prems" by (subst findStartCode.simps) simp
  qed
qed

lemma findStartCode_none:
  assumes "\<And>k. i \<le> k \<Longrightarrow> k + 3 \<le> length bs \<Longrightarrow> startCodeSize bs k = 0"
  shows "findStartCode bs i = length bs"
  using assms
proof (induction bs i rule: findStartCode.induct)
  case (1 bs i)
  then show ?case by (subst findStartCode.simps) (auto simp: not_less_eq_eq)
qed

lemma es_loop_safe: "\<exists>r. es_loop bs start parsed = Some r"
proof (induction bs start parsed rule: es_loop.induct)
  case (1 bs start parsed)
  show ?case
  proof (cases "start < length bs \<and> startCodeSize bs start \<noteq> 0 \<and>
      start + startCodeSize bs start < findStartCode bs (start + startCodeSize bs start)")
    case True
    let ?nal = "start + startCodeSize bs start"
    have "?nal \<le> length bs" using True by (auto simp: startCodeSize_def split: if_splits)
    then have "?nal < length bs" using True findStartCode_le [of ?nal bs] by linarith
    with True show ?thesis
      by (subst es_loop.simps)
        (auto simp: Let_def split: option.splits intro!: "1.IH" [OF _ refl _ refl refl])
  qed (subst es_loop.simps, auto simp: Let_def)
qed

section \<open>Annex-B streams as lists of NAL units\<close>

text \<open>An Annex-B stream written unit by unit: a 3- or 4-byte start code, then the NAL unit. A NAL
  unit is well formed when it is not empty, does not end in a zero byte and contains no start code
  (what emulation prevention guarantees).\<close>

definition nal_ok :: "bytes \<Rightarrow> bool" where
  "nal_ok nal \<longleftrightarrow> nal \<noteq> [] \<and> last nal \<noteq> 0 \<and> (\<forall>k < length nal. startCodeSize nal k = 0)"

definition annexb_unit :: "bool \<Rightarrow> bytes \<Rightarrow> bytes" where
  "annexb_unit long nal = (if long then [0, 0, 0, 1] else [0, 0, 1]) @ nal"

fun annexb :: "(bool \<times> bytes) list \<Rightarrow> bytes" where
  "annexb [] = []"
| "annexb ((long, nal) # units) = annexb_unit long nal @ annexb units"

fun account_all :: "byte list \<Rightarrow> es_info \<Rightarrow> es_info option" where
  "account_all [] info = Some info"
| "account_all (h # hs) info = Option.bind (account_nal h info) (account_all hs)"

lemma startCodeSize_pos:
  "0 < startCodeSize bs k \<longleftrightarrow>
    (k + 3 \<le> length bs \<and> bs ! k = 0 \<and> bs ! (k + 1) = 0 \<and> bs ! (k + 2) = 1) \<or>
    (k + 4 \<le> length bs \<and> bs ! k = 0 \<and> bs ! (k + 1) = 0 \<and> bs ! (k + 2) = 0 \<and> bs ! (k + 3) = 1)"
  by (auto simp: startCodeSize_def)

lemma startCodeSize_shift [simp]:
  "startCodeSize (pre @ bs) (length pre + k) = startCodeSize bs k"
  by (simp add: startCodeSize_def nth_append)

lemma startCodeSize_shift0 [simp]: "startCodeSize (pre @ bs) (length pre) = startCodeSize bs 0"
  using startCodeSize_shift [of pre bs 0] by simp

lemma startCodeSize_unit [simp]:
  "startCodeSize (annexb_unit long nal @ rest) 0 = (if long then 4 else 3)"
  by (simp add: startCodeSize_def annexb_unit_def)

lemma length_annexb_unit [simp]:
  "length (annexb_unit long nal) = (if long then 4 else 3) + length nal"
  by (simp add: annexb_unit_def)

lemma no_code_in_nal:
  assumes "nal_ok nal" "k < length nal"
  shows "startCodeSize (nal @ rest) k = 0"
proof (rule ccontr)
  let ?n = "length nal"
  assume "startCodeSize (nal @ rest) k \<noteq> 0"
  then have pos: "0 < startCodeSize (nal @ rest) k" by simp
  have last: "(nal @ rest) ! (?n - 1) \<noteq> 0"
    using assms by (auto simp: nal_ok_def nth_append last_conv_nth)
  have inside: "\<not> (k + 3 \<le> ?n \<and> nal ! k = 0 \<and> nal ! (k + 1) = 0 \<and> nal ! (k + 2) = 1)"
    "\<not> (k + 4 \<le> ?n \<and> nal ! k = 0 \<and> nal ! (k + 1) = 0 \<and> nal ! (k + 2) = 0 \<and> nal ! (k + 3) = 1)"
    using assms unfolding nal_ok_def by (metis less_irrefl startCodeSize_pos)+
  from pos consider "(nal @ rest) ! k = 0" "(nal @ rest) ! (k + 1) = 0" "(nal @ rest) ! (k + 2) = 1"
    | "(nal @ rest) ! k = 0" "(nal @ rest) ! (k + 1) = 0" "(nal @ rest) ! (k + 2) = 0" "(nal @ rest) ! (k + 3) = 1"
    by (auto simp: startCodeSize_pos)
  then show False
  proof cases
    case 1
    then have "?n - 1 \<noteq> k" "?n - 1 \<noteq> k + 1" using last by auto
    then have "k + 3 \<le> ?n" using assms(2) by linarith
    with 1 inside show False by (simp add: nth_append)
  next
    case 2
    then have "?n - 1 \<noteq> k" "?n - 1 \<noteq> k + 1" "?n - 1 \<noteq> k + 2" using last by auto
    then have "k + 4 \<le> ?n" using assms(2) by linarith
    with 2 inside show False by (simp add: nth_append)
  qed
qed

lemma findStartCode_nal:
  assumes "nal_ok nal" and "rest = [] \<or> 0 < startCodeSize rest 0"
  shows "findStartCode (pre @ nal @ rest) (length pre) = length pre + length nal"
proof (cases "rest = []")
  case True
  have "startCodeSize (pre @ nal) k = 0" if "length pre \<le> k" "k + 3 \<le> length (pre @ nal)" for k
    using that startCodeSize_shift [of pre nal "k - length pre"]
      no_code_in_nal [OF assms(1), of "k - length pre" "[]"] by simp
  then show ?thesis using True findStartCode_none [of "length pre" "pre @ nal"] by simp
next
  case False
  then have code: "0 < startCodeSize rest 0" using assms(2) by simp
  then have "3 \<le> length rest" by (auto simp: startCodeSize_pos)
  moreover have "startCodeSize (pre @ nal @ rest) (length pre + length nal) = startCodeSize rest 0"
    using startCodeSize_shift0 [of "pre @ nal" rest] by simp
  moreover have "startCodeSize (pre @ nal @ rest) k = 0"
    if "length pre \<le> k" "k < length pre + length nal" for k
    using that startCodeSize_shift [of pre "nal @ rest" "k - length pre"]
      no_code_in_nal [OF assms(1), of "k - length pre" rest] by simp
  ultimately show ?thesis using code by (intro findStartCode_unique) auto
qed

lemma annexb_starts: "units \<noteq> [] \<Longrightarrow> 0 < startCodeSize (annexb units) 0"
  by (cases units rule: annexb.cases) auto

lemma es_loop_annexb:
  assumes "\<forall>u \<in> set units. nal_ok (snd u)"
  shows "es_loop (pre @ annexb units) (length pre) info =
    Some (case account_all (map (\<lambda>u. hd (snd u)) units) info of None \<Rightarrow> Rejected
          | Some info' \<Rightarrow> Stored (hasVideo info') info')"
  using assms
proof (induction units arbitrary: pre info rule: annexb.induct)
  case 1
  then show ?case by (simp add: es_loop.simps)
next
  case (2 long nal units)
  define sc :: bytes where "sc = (if long then [0, 0, 0, 1] else [0, 0, 1])"
  let ?bs = "pre @ annexb ((long, nal) # units)"
  have nal: "nal_ok nal" "nal \<noteq> []" using 2 by (auto simp: nal_ok_def)
  have shape: "?bs = (pre @ sc) @ nal @ annexb units" by (simp add: annexb_unit_def sc_def)
  have rest: "annexb units = [] \<or> 0 < startCodeSize (annexb units) 0"
    by (cases "units = []") (simp_all add: annexb_starts)
  have code: "startCodeSize ?bs (length pre) = length sc" "0 < length sc" by (simp_all add: sc_def)
  have "findStartCode ?bs (length (pre @ sc)) = length (pre @ sc) + length nal"
    unfolding shape by (rule findStartCode_nal [OF nal(1) rest])
  then have nextp: "findStartCode ?bs (length pre + length sc) = length pre + length sc + length nal"
    by simp
  have header: "at ?bs (length pre + length sc) = Some (hd nal)"
    using nal at_append_right [of "pre @ sc" "length pre + length sc" "nal @ annexb units"]
    unfolding shape by (simp add: hd_conv_nth nth_append)
  have IH: "es_loop ?bs (length pre + length sc + length nal) info' =
    Some (case account_all (map (\<lambda>u. hd (snd u)) units) info' of None \<Rightarrow> Rejected
          | Some info' \<Rightarrow> Stored (hasVideo info') info')" for info'
    using "2.IH" [of "pre @ sc @ nal" info'] "2.prems" unfolding shape by (simp add: add.assoc)
  have len: "length pre < length ?bs" using nal unfolding shape by simp
  have step: "es_loop ?bs (length pre) info =
    (case account_nal (hd nal) info of None \<Rightarrow> Some Rejected
     | Some info' \<Rightarrow> es_loop ?bs (length pre + length sc + length nal) info')"
    unfolding es_loop.simps [of ?bs "length pre"] Let_def code nextp header
    using nal len code(2) by simp
  show ?case
    unfolding step using IH by (cases "account_nal (hd nal) info") simp_all
qed

lemma parse_annexb:
  assumes "units \<noteq> []" and "\<forall>u \<in> set units. nal_ok (snd u)"
  shows "parseElementaryStream (annexb units) =
    Some (case account_all (map (\<lambda>u. hd (snd u)) units) (new_es_info\<lparr>es_bytes := length (annexb units)\<rparr>) of
            None \<Rightarrow> Rejected | Some info \<Rightarrow> Stored (hasVideo info) info)"
proof -
  have "0 < startCodeSize (annexb units) 0" using assms(1) by (rule annexb_starts)
  moreover from this have "3 \<le> length (annexb units)" by (auto simp: startCodeSize_pos)
  ultimately have "findStartCode (annexb units) 0 = 0" by (simp add: findStartCode.simps)
  moreover have "annexb units \<noteq> []" using \<open>3 \<le> length (annexb units)\<close> by auto
  ultimately show ?thesis
    using es_loop_annexb [OF assms(2), of "[]"] by (simp add: parseElementaryStream_def)
qed

text \<open>
  \<open>parseElementaryStream\<close> is memory safe: on every byte string it returns without reading
  outside it, and when it reports success it has counted at least one NAL unit of a known codec and
  recorded the length of the input.
\<close>

lemma account_nal_frame: "account_nal h info = Some info' \<Longrightarrow>
    es_bytes info' = es_bytes info \<and> es_nalUnits info' = es_nalUnits info + 1 \<and>
    es_codec info' = detectCodec h \<and> detectCodec h \<noteq> VIDEO_CODEC_UNKNOWN"
  by (auto simp: account_nal_def classifyH264_def classifyH265_def Let_def split: if_splits)

lemma es_loop_cases:
  assumes "es_loop bs start info = Some (Stored b info')"
  obtains (stop) "b = hasVideo info'" "info' = info"
  | (step) h info1 where "start < length bs" "startCodeSize bs start \<noteq> 0"
      "\<not> findStartCode bs (start + startCodeSize bs start) \<le> start + startCodeSize bs start"
      "at bs (start + startCodeSize bs start) = Some h" "account_nal h info = Some info1"
      "es_loop bs (findStartCode bs (start + startCodeSize bs start)) info1 = Some (Stored b info')"
proof (cases "start < length bs")
  case False
  then have "es_loop bs start info = Some (Stored (hasVideo info) info)"
    by (subst es_loop.simps) simp
  then have "Stored (hasVideo info) info = Stored b info'"
    using assms by (metis option.inject)
  then show thesis by (intro stop) blast+
next
  case True
  let ?nal = "start + startCodeSize bs start"
  have ok: "startCodeSize bs start \<noteq> 0" "\<not> findStartCode bs ?nal \<le> ?nal"
    using assms True es_loop.simps [of bs start info] unfolding Let_def by (metis option.inject parsed.distinct(1))+
  then have *: "(case at bs ?nal of None \<Rightarrow> None
      | Some h \<Rightarrow> (case account_nal h info of None \<Rightarrow> Some Rejected
         | Some info1 \<Rightarrow> es_loop bs (findStartCode bs ?nal) info1)) = Some (Stored b info')"
    using assms True es_loop.simps [of bs start info] by (simp add: Let_def)
  then obtain h where h: "at bs ?nal = Some h" by (cases "at bs ?nal") auto
  with * obtain info1 where "account_nal h info = Some info1" by (cases "account_nal h info") auto
  with * h ok True show thesis by (intro step) auto
qed

lemma small_idr_stream:
  "parseElementaryStream [0, 0, 1, 0x65, 0x88] = Some (Stored True (new_es_info
      \<lparr>es_codec := VIDEO_CODEC_H264, es_bytes := 5, es_nalUnits := 1, es_h264Idr := 1\<rparr>))"
    by (simp add: parseElementaryStream_def findStartCode.simps startCodeSize_def es_loop.simps
      account_nal_def detectCodec_def classifyH264_def h264_type_def h265_type_def hasVideo_def new_es_info_def Let_def)

lemma es_loop_frame: "es_loop bs start info = Some (Stored b info') \<Longrightarrow>
    b = hasVideo info' \<and> es_bytes info' = es_bytes info"
proof (induction bs start info rule: es_loop.induct)
  case (1 bs start info)
  from "1.prems" show ?case
  proof (cases rule: es_loop_cases)
    case (step h info1)
    then have "b = hasVideo info' \<and> es_bytes info' = es_bytes info1"
      by (intro "1.IH" [OF step(1) refl step(2) refl refl step(3) step(4) step(5) step(6)])
    then show ?thesis using step(5) account_nal_frame by simp
  qed simp
qed

theorem parse_es_safe:
  "\<exists>r. parseElementaryStream bs = Some r \<and>
     (accepted r \<longrightarrow> (\<exists>info. r = Stored True info \<and> es_bytes info = length bs \<and>
        0 < es_nalUnits info \<and> es_codec info \<noteq> VIDEO_CODEC_UNKNOWN))"
proof (cases "bs = []")
  case False
  obtain r where r: "es_loop bs (findStartCode bs 0) (new_es_info\<lparr>es_bytes := length bs\<rparr>) = Some r"
    using es_loop_safe by blast
  show ?thesis
  proof (cases r)
    case (Stored b info)
    then show ?thesis
      using r False es_loop_frame [of bs _ _ b info]
      by (fastforce simp: parseElementaryStream_def hasVideo_def)
  qed (use r False in \<open>simp add: parseElementaryStream_def\<close>)
qed (simp add: parseElementaryStream_def)

text \<open>\<open>accepted r \<longrightarrow> \<dots>\<close> is not empty: a one-unit H.264 stream is accepted.\<close>

theorem parse_es_safe_witness:
  "\<exists>info. parseElementaryStream [0, 0, 1, 0x65, 0x88] = Some (Stored True info) \<and> es_bytes info = 5"
  using parse_es_safe [of "[0, 0, 1, 0x65, 0x88]"] small_idr_stream by auto

text \<open>
  C23: Parsing inverts the Annex-B byte format: for every non-empty list of well-formed NAL units, each
  behind a 3- or 4-byte start code, the parser visits exactly those units, in order; the result is the
  per-unit accounting of their header bytes and the stream is rejected exactly when that accounting
  fails (an unknown codec, or two codecs in one stream).
\<close>

theorem parse_annexb_units:
  assumes "units \<noteq> []" and "list_all (\<lambda>u. nal_ok (snd u)) units"
  shows "parseElementaryStream (annexb units) =
    Some (case account_all (map (\<lambda>u. hd (snd u)) units) (new_es_info\<lparr>es_bytes := length (annexb units)\<rparr>) of
            None \<Rightarrow> Rejected | Some info \<Rightarrow> Stored (hasVideo info) info)"
  using parse_annexb assms by (simp add: list_all_iff)

lemma nal_okI2: "b \<noteq> 0 \<Longrightarrow> nal_ok [a, b]"
  by (auto simp: nal_ok_def startCodeSize_def)

theorem parse_annexb_units_witness:
  "map_option accepted (parseElementaryStream (annexb [(True, [0x67, 0x42]), (False, [0x65, 0x88])])) = Some True"
  using parse_annexb_units [of "[(True, [0x67, 0x42]), (False, [0x65, 0x88])]"]
  by (simp add: nal_okI2 account_nal_def detectCodec_def classifyH264_def h264_type_def h265_type_def
      hasVideo_def new_es_info_def Let_def)

section \<open>Codec detection\<close>

text \<open>
  Every H.264 slice, IDR, SEI, SPS and PPS unit is recognised as H.264 whatever its
  \<open>nal_ref_idc\<close>, and the H.265 VPS, SPS and PPS units of the base layer as H.265.
\<close>

theorem detect_parameter_sets:
  "(h264_type header \<in> {1, 5, 6, 7, 8} \<longrightarrow> detectCodec header = VIDEO_CODEC_H264) \<and>
   (header \<in> {0x40, 0x42, 0x44} \<longrightarrow> detectCodec header = VIDEO_CODEC_H265)"
  by (auto simp: detectCodec_def Let_def h264_type_def h265_type_def)

theorem detect_parameter_sets_witness:
  "detectCodec 0x65 = VIDEO_CODEC_H264 \<and> detectCodec 0x40 = VIDEO_CODEC_H265"
  using detect_parameter_sets [of "0x65"] detect_parameter_sets [of "0x40"]
  by (simp add: h264_type_def)

text \<open>
  H.265 pictures coded with the two IDR types of the standard cannot be received: the headers of
  IDR_W_RADL (type 19, byte 0x26) and IDR_N_LP (type 20, byte 0x28) are taken for H.264 units, so a
  stream that carries the H.265 parameter sets followed by such a picture mixes codecs and is
  rejected as a whole, whatever the units contain.
\<close>

theorem h265_idr_rejected:
  assumes "list_all nal_ok [vps, sps, pps, idr]"
    and "hd vps = 0x40" and "hd sps = 0x42" and "hd pps = 0x44"
    and "hd idr \<in> {0x26, 0x28}"
  shows "parseElementaryStream (annexb [(True, vps), (True, sps), (True, pps), (True, idr)]) = Some Rejected"
proof -
  have "detectCodec (hd idr) = VIDEO_CODEC_H264"
    using assms(5) by (auto simp: detectCodec_def Let_def h264_type_def h265_type_def)
  moreover have "detectCodec 0x40 = VIDEO_CODEC_H265" "detectCodec 0x42 = VIDEO_CODEC_H265"
    "detectCodec 0x44 = VIDEO_CODEC_H265"
    by (simp_all add: detectCodec_def Let_def h264_type_def h265_type_def)
  ultimately have "account_all (map hd [vps, sps, pps, idr]) (new_es_info\<lparr>es_bytes := n\<rparr>) = None" for n
    using assms by (simp add: account_nal_def Let_def classifyH265_def h265_type_def new_es_info_def)
  then show ?thesis
    using assms parse_annexb [of "[(True, vps), (True, sps), (True, pps), (True, idr)]"] by simp
qed

theorem h265_idr_rejected_witness:
  "parseElementaryStream (annexb [(True, [0x40, 1]), (True, [0x42, 1]), (True, [0x44, 1]), (True, [0x26, 1])])
     = Some Rejected"
  by (rule h265_idr_rejected) (simp_all add: nal_okI2)

end
