(* ===== verification/ProgramStream.thy ===== *)
theory ProgramStream
  imports MF_Prelude
begin

text \<open>
  \<open>src/src/media/ProgramStream.{h,cpp}\<close>: the MPEG program-stream demultiplexer that finds the PES
  packets of a reassembled RTP payload, and the builder that wraps one video frame for sending.
  Section and packet offsets are \<open>size_t\<close> values that stay below the length of a vector plus
  \<open>0x10005\<close>, far from wrapping, so they are \<open>nat\<close>.
\<close>

record ps_info =
  ps_packHeaders :: nat
  ps_systemHeaders :: nat
  ps_programStreamMaps :: nat
  ps_pesPackets :: nat
  ps_videoPesPackets :: nat
  ps_audioPesPackets :: nat
  ps_privatePesPackets :: nat
  ps_pesPayloadBytes :: nat
  ps_videoPayloads :: "bytes list"

definition new_ps_info :: ps_info where
  "new_ps_info = \<lparr>ps_packHeaders = 0, ps_systemHeaders = 0, ps_programStreamMaps = 0, ps_pesPackets = 0,
     ps_videoPesPackets = 0, ps_audioPesPackets = 0, ps_privatePesPackets = 0, ps_pesPayloadBytes = 0,
     ps_videoPayloads = []\<rparr>"

definition hasMediaPayload :: "ps_info \<Rightarrow> bool" where
  "hasMediaPayload info \<longleftrightarrow>
     ps_videoPesPackets info > 0 \<or> ps_audioPesPackets info > 0 \<or> ps_privatePesPackets info > 0"

section \<open>Stream identifiers\<close>

definition isStartCode :: "bytes \<Rightarrow> nat \<Rightarrow> bool" where
  "isStartCode bs offset \<longleftrightarrow> offset + 3 < length bs \<and> bs ! offset = 0x00 \<and>
     bs ! (offset + 1) = 0x00 \<and> bs ! (offset + 2) = 0x01"

definition isPesStreamId :: "byte \<Rightarrow> bool" where
  "isPesStreamId streamId \<longleftrightarrow> streamId = 0xbd \<or> streamId = 0xbe \<or> streamId = 0xbf \<or> streamId = 0xfd \<or>
     (streamId \<ge> 0xc0 \<and> streamId \<le> 0xdf) \<or> (streamId \<ge> 0xe0 \<and> streamId \<le> 0xef)"

definition isVideoPes :: "byte \<Rightarrow> bool" where
  "isVideoPes streamId \<longleftrightarrow> streamId \<ge> 0xe0 \<and> streamId \<le> 0xef"

definition classifyPes :: "byte \<Rightarrow> ps_info \<Rightarrow> ps_info" where
  "classifyPes streamId info =
    (let info = info\<lparr>ps_pesPackets := ps_pesPackets info + 1\<rparr>
     in if streamId \<ge> 0xe0 \<and> streamId \<le> 0xef
        then info\<lparr>ps_videoPesPackets := ps_videoPesPackets info + 1\<rparr>
        else if streamId \<ge> 0xc0 \<and> streamId \<le> 0xdf
        then info\<lparr>ps_audioPesPackets := ps_audioPesPackets info + 1\<rparr>
        else if streamId = 0xbd \<or> streamId = 0xbf \<or> streamId = 0xfd
        then info\<lparr>ps_privatePesPackets := ps_privatePesPackets info + 1\<rparr>
        else info)"

section \<open>One iteration of the parser\<close>

text \<open>The body of the \<open>while (offset < bytes.size())\<close> loop of \<open>parseProgramStreamPayload\<close>, one
  definition per kind of unit. \<open>PsStop\<close> is \<open>return false\<close>, \<open>PsNext offset parsed\<close> goes on; the
  outer \<open>option\<close> is "no undefined behaviour".\<close>

datatype ps_step_result = PsStop | PsNext nat ps_info

definition ps_pack :: "bytes \<Rightarrow> nat \<Rightarrow> ps_info \<Rightarrow> ps_step_result option" where
  "ps_pack bs offset parsed =
    (if offset + 14 > length bs then Some PsStop
     else do {
       b \<leftarrow> at bs (offset + 13);
       let stuffing = unat (b AND 0x07);
       let offset = offset + (14 + stuffing);
       Some (if offset > length bs then PsStop
             else PsNext offset (parsed\<lparr>ps_packHeaders := ps_packHeaders parsed + 1\<rparr>)) })"

definition ps_section :: "bytes \<Rightarrow> byte \<Rightarrow> nat \<Rightarrow> ps_info \<Rightarrow> ps_step_result option" where
  "ps_section bs streamId offset parsed =
    (if offset + 6 > length bs then Some PsStop
     else do {
       sectionLength \<leftarrow> readUint16 bs (offset + 4);
       let offset = offset + (6 + unat sectionLength);
       Some (if offset > length bs then PsStop
             else PsNext offset
               (if streamId = 0xbb then parsed\<lparr>ps_systemHeaders := ps_systemHeaders parsed + 1\<rparr>
                else parsed\<lparr>ps_programStreamMaps := ps_programStreamMaps parsed + 1\<rparr>)) })"

text \<open>The payload of a PES packet starts after the optional PES header.\<close>

definition pes_payload_offset :: "bytes \<Rightarrow> byte \<Rightarrow> nat \<Rightarrow> nat \<Rightarrow> nat parsed option" where
  "pes_payload_offset bs streamId offset packetEnd =
    (let payloadOffset = offset + 6
     in if streamId \<noteq> 0xbe \<and> packetEnd \<ge> payloadOffset + 3
        then do {
          flags \<leftarrow> at bs payloadOffset;
          if flags AND 0xc0 = 0x80
          then do {
            headerDataLength \<leftarrow> at bs (payloadOffset + 2);
            let payloadOffset = payloadOffset + (3 + unat headerDataLength);
            Some (if payloadOffset > packetEnd then Rejected else Stored True payloadOffset) }
          else Some (Stored True payloadOffset) }
        else Some (Stored True payloadOffset))"

definition ps_pes :: "bytes \<Rightarrow> byte \<Rightarrow> nat \<Rightarrow> ps_info \<Rightarrow> ps_step_result option" where
  "ps_pes bs streamId offset parsed =
    (if \<not> isPesStreamId streamId \<or> offset + 6 > length bs then Some PsStop
     else do {
       packetLength \<leftarrow> readUint16 bs (offset + 4);
       let parsed = classifyPes streamId parsed;
       let packetEnd = (if packetLength = 0 then length bs else offset + 6 + unat packetLength);
       if packetLength \<noteq> 0 \<and> packetEnd > length bs then Some PsStop
       else do {
         po \<leftarrow> pes_payload_offset bs streamId offset packetEnd;
         case po of Rejected \<Rightarrow> Some PsStop
         | Stored _ payloadOffset \<Rightarrow>
             if streamId \<noteq> 0xbe
             then (let parsed = parsed\<lparr>ps_pesPayloadBytes := ps_pesPayloadBytes parsed + (packetEnd - payloadOffset)\<rparr>
                   in if isVideoPes streamId
                      then do {
                        body \<leftarrow> range_of bs payloadOffset packetEnd;
                        Some (PsNext packetEnd (parsed\<lparr>ps_videoPayloads := ps_videoPayloads parsed @ [body]\<rparr>)) }
                      else Some (PsNext packetEnd parsed))
             else Some (PsNext packetEnd parsed) } })"

definition ps_step :: "bytes \<Rightarrow> nat \<Rightarrow> ps_info \<Rightarrow> ps_step_result option" where
  "ps_step bs offset parsed =
    (if \<not> isStartCode bs offset then Some PsStop
     else do {
       streamId \<leftarrow> at bs (offset + 3);
       if streamId = 0xba then ps_pack bs offset parsed
       else if streamId = 0xbb \<or> streamId = 0xbc then ps_section bs streamId offset parsed
       else ps_pes bs streamId offset parsed })"

section \<open>Every iteration makes progress and stays in bounds\<close>

lemma pes_payload_offset_safe:
  "packetEnd \<le> length bs \<Longrightarrow> \<exists>r. pes_payload_offset bs streamId offset packetEnd = Some r"
  by (auto simp: pes_payload_offset_def Let_def)

lemma pes_payload_offset_bounds:
  "pes_payload_offset bs streamId offset packetEnd = Some (Stored b po) \<Longrightarrow> offset + 6 \<le> packetEnd \<Longrightarrow>
     offset + 6 \<le> po \<and> po \<le> packetEnd"
  by (auto simp: pes_payload_offset_def Let_def Option.bind_eq_Some_conv split: if_splits)

lemma ps_pack_safe: "\<exists>r. ps_pack bs offset parsed = Some r"
  by (auto simp: ps_pack_def Let_def)

lemma ps_section_safe: "\<exists>r. ps_section bs streamId offset parsed = Some r"
  by (auto simp: ps_section_def Let_def)

lemma ps_pes_cases:
  obtains (stop) "ps_pes bs streamId offset parsed = Some PsStop"
  | (advance) packetEnd po where "isPesStreamId streamId" "offset + 6 \<le> po" "po \<le> packetEnd" "packetEnd \<le> length bs"
      "ps_pes bs streamId offset parsed = Some (PsNext packetEnd
        (if streamId = 0xbe then classifyPes streamId parsed
         else if isVideoPes streamId
         then (classifyPes streamId parsed)
           \<lparr>ps_pesPayloadBytes := ps_pesPayloadBytes (classifyPes streamId parsed) + (packetEnd - po),
            ps_videoPayloads := ps_videoPayloads (classifyPes streamId parsed) @ [take (packetEnd - po) (drop po bs)]\<rparr>
         else (classifyPes streamId parsed)
           \<lparr>ps_pesPayloadBytes := ps_pesPayloadBytes (classifyPes streamId parsed) + (packetEnd - po)\<rparr>))"
proof (cases "isPesStreamId streamId \<and> offset + 6 \<le> length bs")
  case False
  then show thesis by (intro stop) (auto simp: ps_pes_def)
next
  case True
  then obtain n where n: "readUint16 bs (offset + 4) = Some n" by simp
  define packetEnd where "packetEnd = (if n = 0 then length bs else offset + 6 + unat n)"
  show thesis
  proof (cases "n \<noteq> 0 \<and> packetEnd > length bs")
    case True
    then show thesis using n by (intro stop) (auto simp: ps_pes_def packetEnd_def)
  next
    case False
    then have e: "offset + 6 \<le> packetEnd" "packetEnd \<le> length bs"
      using True by (auto simp: packetEnd_def)
    then obtain r where r: "pes_payload_offset bs streamId offset packetEnd = Some r"
      using pes_payload_offset_safe by blast
    show thesis
    proof (cases r)
      case Rejected
      then show thesis using True False n r
        by (intro stop) (auto simp: ps_pes_def Let_def packetEnd_def [symmetric])
    next
      case (Stored b po)
      then have "offset + 6 \<le> po" "po \<le> packetEnd"
        using pes_payload_offset_bounds r e by blast+
      then show thesis using True False n r e Stored
        by (intro advance [of po packetEnd]) (auto simp: ps_pes_def Let_def packetEnd_def [symmetric])
    qed
  qed
qed

lemma ps_step_safe: "\<exists>r. ps_step bs offset parsed = Some r"
proof -
  have "\<exists>r. ps_pes bs s offset parsed = Some r" for s
    by (rule ps_pes_cases [of bs s offset parsed]) auto
  then show ?thesis
    using ps_pack_safe ps_section_safe by (auto simp: ps_step_def isStartCode_def)
qed

lemma ps_step_progress:
  assumes "ps_step bs offset parsed = Some (PsNext offset' parsed')"
  shows "offset < offset' \<and> offset' \<le> length bs"
proof -
  have pes: "ps_pes bs s offset parsed = Some (PsNext offset' parsed') \<Longrightarrow> ?thesis" for s
    by (rule ps_pes_cases [of bs s offset parsed]) auto
  have "ps_pack bs offset parsed = Some (PsNext offset' parsed') \<Longrightarrow> ?thesis"
    by (auto simp: ps_pack_def Let_def split: if_splits)
  moreover have "ps_section bs s offset parsed = Some (PsNext offset' parsed') \<Longrightarrow> ?thesis" for s
    by (auto simp: ps_section_def Let_def split: if_splits)
  ultimately show ?thesis
    using assms pes by (auto simp: ps_step_def isStartCode_def split: if_splits)
qed

section \<open>The parser\<close>

function ps_loop :: "bytes \<Rightarrow> nat \<Rightarrow> ps_info \<Rightarrow> ps_info parsed option" where
  "ps_loop bs offset parsed =
    (if offset < length bs then
       (case ps_step bs offset parsed of
          None \<Rightarrow> None
        | Some PsStop \<Rightarrow> Some Rejected
        | Some (PsNext offset' parsed') \<Rightarrow> ps_loop bs offset' parsed')
     else Some (Stored (ps_packHeaders parsed > 0 \<and> hasMediaPayload parsed) parsed))"
  by pat_completeness auto
termination
  by (relation "measure (\<lambda>(bs, offset, _). length bs - offset)") (auto dest: ps_step_progress)

declare ps_loop.simps [simp del]

definition parseProgramStreamPayload :: "bytes \<Rightarrow> ps_info parsed option" where
  "parseProgramStreamPayload bs = (if bs = [] then Some Rejected else ps_loop bs 0 new_ps_info)"

definition packHeader :: bytes where
  "packHeader = [0x00, 0x00, 0x01, 0xba, 0x44, 0x00, 0x04, 0x00, 0x04, 0x01, 0x00, 0x00, 0x03, 0xf8]"

definition buildProgramStreamSample :: "bytes \<Rightarrow> bytes" where
  "buildProgramStreamSample videoPayload =
    (let bs = packHeader;
         bs = bs @ [0x00, 0x00, 0x01, 0xe0];
         pesLength = 3 + length videoPayload;
         bs = appendUint16 bs (if pesLength \<le> 0xffff then of_nat pesLength else 0);
         bs = bs @ [0x80, 0x00, 0x00]
     in bs @ videoPayload)"

lemma ps_loop_safe: "\<exists>r. ps_loop bs offset parsed = Some r"
proof (induction bs offset parsed rule: ps_loop.induct)
  case (1 bs offset parsed)
  obtain r where "ps_step bs offset parsed = Some r" using ps_step_safe by blast
  with 1 show ?case
    by (subst ps_loop.simps) (auto split: ps_step_result.split)
qed


section \<open>What a parsed stream says\<close>

text \<open>Invariant of the parser's accumulator at a section boundary.\<close>

definition ps_info_ok :: "nat \<Rightarrow> ps_info \<Rightarrow> bool" where
  "ps_info_ok offset info \<longleftrightarrow>
     sum_list (map length (ps_videoPayloads info)) \<le> ps_pesPayloadBytes info \<and>
     ps_pesPayloadBytes info + 6 * ps_pesPackets info \<le> offset \<and>
     length (ps_videoPayloads info) = ps_videoPesPackets info \<and>
     ps_videoPesPackets info + ps_audioPesPackets info + ps_privatePesPackets info \<le> ps_pesPackets info"

lemma ps_step_ok:
  assumes "ps_info_ok offset parsed" "ps_step bs offset parsed = Some (PsNext offset' parsed')"
  shows "ps_info_ok offset' parsed'"
proof -
  have pes: "ps_pes bs s offset parsed = Some (PsNext offset' parsed') \<Longrightarrow> ?thesis" for s
    using assms(1)
    by (rule_tac ps_pes_cases [of bs s offset parsed])
      (auto simp: ps_info_ok_def classifyPes_def Let_def isVideoPes_def isPesStreamId_def)
  have "ps_pack bs offset parsed = Some (PsNext offset' parsed') \<Longrightarrow> ?thesis"
    using assms(1) by (auto simp: ps_info_ok_def ps_pack_def Let_def split: if_splits)
  moreover have "ps_section bs s offset parsed = Some (PsNext offset' parsed') \<Longrightarrow> ?thesis" for s
    using assms(1) by (auto simp: ps_info_ok_def ps_section_def Let_def split: if_splits)
  ultimately show ?thesis
    using assms pes by (auto simp: ps_step_def isStartCode_def split: if_splits)
qed

lemma ps_loop_ok:
  assumes "ps_info_ok offset parsed" "offset \<le> length bs" "ps_loop bs offset parsed = Some (Stored b info)"
  shows "ps_info_ok (length bs) info \<and> b = (ps_packHeaders info > 0 \<and> hasMediaPayload info)"
  using assms
proof (induction bs offset parsed rule: ps_loop.induct)
  case (1 bs offset parsed)
  note r = "1.prems"(3) [unfolded ps_loop.simps [of bs offset parsed]]
  show ?case
  proof (cases "offset < length bs")
    case True
    with r obtain offset' parsed' where s: "ps_step bs offset parsed = Some (PsNext offset' parsed')"
      and l: "ps_loop bs offset' parsed' = Some (Stored b info)"
      by (auto split: option.splits ps_step_result.splits)
    have ok: "ps_info_ok offset' parsed'"
      using "1.prems"(1) s by (rule ps_step_ok)
    have le: "offset' \<le> length bs"
      using ps_step_progress [OF s] by simp
    show ?thesis
      by (rule "1.IH" [OF True s _ ok le l]) simp
  next
    case False
    with r "1.prems" have "parsed = info" "offset = length bs"
      "b = (ps_packHeaders info > 0 \<and> hasMediaPayload info)" by auto
    with "1.prems"(1) show ?thesis by simp
  qed
qed

section \<open>The stream grammar\<close>

text \<open>The units of a program stream as abstract values with their wire encoding. A PES packet has
  the MPEG-2 form (flag bits \<open>10\<close>) with an optional header of declared length.\<close>

datatype ps_unit =
    PackUnit bytes byte bytes
  | SectionUnit byte bytes
  | PesUnit byte byte byte bytes bytes
  | PaddingUnit bytes

fun ps_unit_ok :: "ps_unit \<Rightarrow> bool" where
  "ps_unit_ok (PackUnit clock rate stuffing) \<longleftrightarrow> length clock = 9 \<and> length stuffing = unat (rate AND 0x07)"
| "ps_unit_ok (SectionUnit sid body) \<longleftrightarrow> (sid = 0xbb \<or> sid = 0xbc) \<and> length body < 0x10000"
| "ps_unit_ok (PesUnit sid flags flags2 header body) \<longleftrightarrow>
     isPesStreamId sid \<and> sid \<noteq> 0xbe \<and> flags AND 0xc0 = 0x80 \<and> length header < 0x100 \<and>
     3 + length header + length body < 0x10000"
| "ps_unit_ok (PaddingUnit body) \<longleftrightarrow> body \<noteq> [] \<and> length body < 0x10000"

definition ps_framed :: "byte \<Rightarrow> bytes \<Rightarrow> bytes" where
  "ps_framed sid body = appendUint16 [0x00, 0x00, 0x01, sid] (of_nat (length body)) @ body"

fun ps_encode :: "ps_unit \<Rightarrow> bytes" where
  "ps_encode (PackUnit clock rate stuffing) = [0x00, 0x00, 0x01, 0xba] @ clock @ [rate] @ stuffing"
| "ps_encode (SectionUnit sid body) = ps_framed sid body"
| "ps_encode (PesUnit sid flags flags2 header body) =
     ps_framed sid ([flags, flags2, of_nat (length header)] @ header @ body)"
| "ps_encode (PaddingUnit body) = ps_framed 0xbe body"

fun ps_account :: "ps_unit \<Rightarrow> ps_info \<Rightarrow> ps_info" where
  "ps_account (PackUnit _ _ _) info = info\<lparr>ps_packHeaders := ps_packHeaders info + 1\<rparr>"
| "ps_account (SectionUnit sid _) info =
     (if sid = 0xbb then info\<lparr>ps_systemHeaders := ps_systemHeaders info + 1\<rparr>
      else info\<lparr>ps_programStreamMaps := ps_programStreamMaps info + 1\<rparr>)"
| "ps_account (PesUnit sid _ _ _ body) info =
     (let info = classifyPes sid info;
          info = info\<lparr>ps_pesPayloadBytes := ps_pesPayloadBytes info + length body\<rparr>
      in if isVideoPes sid then info\<lparr>ps_videoPayloads := ps_videoPayloads info @ [body]\<rparr> else info)"
| "ps_account (PaddingUnit _) info = classifyPes 0xbe info"

lemma length_ps_framed [simp]: "length (ps_framed sid body) = 6 + length body"
  by (simp add: ps_framed_def)

lemma ps_encode_nonempty: "ps_encode u \<noteq> []"
  by (cases u) (auto simp: ps_framed_def appendUint16_def)

lemma ps_framed_at:
  "isStartCode (pre @ ps_framed sid body @ rest) (length pre)"
  "at (pre @ ps_framed sid body @ rest) (length pre + 3) = Some sid"
  "readUint16 (pre @ ps_framed sid body @ rest) (length pre + 4) = Some (of_nat (length body))"
  "drop (length pre + 6) (pre @ ps_framed sid body @ rest) = body @ rest"
  "\<And>k. k < length body \<Longrightarrow> (pre @ ps_framed sid body @ rest) ! (length pre + 6 + k) = body ! k"
proof -
  define hi lo :: byte where "hi = ucast (drop_bit 8 (of_nat (length body) :: u16) AND 0xff)"
    and "lo = ucast ((of_nat (length body) :: u16) AND 0xff)"
  have enc: "ps_framed sid body = 0x00 # 0x00 # 0x01 # sid # hi # lo # body"
    by (simp add: ps_framed_def appendUint16_def hi_def lo_def)
  have len: "push_bit 8 (ucast hi) OR ucast lo = (of_nat (length body) :: u16)"
    unfolding hi_def lo_def by (rule u16_join)
  let ?bs = "pre @ ps_framed sid body @ rest"
  have n: "?bs ! (length pre + k) = (0x00 # 0x00 # 0x01 # sid # hi # lo # body @ rest) ! k" for k
    by (simp add: enc nth_append)
  have n0: "?bs ! length pre = 0x00"
    using n [of 0] by simp
  have d: "drop (length pre + k) ?bs = drop k (0x00 # 0x00 # 0x01 # sid # hi # lo # body @ rest)" for k
    by (simp add: enc)
  show "isStartCode ?bs (length pre)" "at ?bs (length pre + 3) = Some sid"
    by (simp_all add: isStartCode_def n0 n [of 1, simplified] n [of 2, simplified] n [of 3, simplified]
        del: append_assoc)
  have "?bs ! (length pre + 4 + 1) = lo"
    using n [of 5] by (simp add: add.commute)
  then show "readUint16 ?bs (length pre + 4) = Some (of_nat (length body))"
    using n [of 4] len by simp
  show "drop (length pre + 6) ?bs = body @ rest"
    using d [of 6] by simp
  show "?bs ! (length pre + 6 + k) = body ! k" if "k < length body" for k
    using n [of "6 + k"] that by (simp add: nth_append add.assoc)
qed

lemma unat_u16_length: "n < 0x10000 \<Longrightarrow> unat (of_nat n :: u16) = n"
  by (simp add: unat_of_nat take_bit_nat_eq_self)

lemma of_nat_u16_eq_0: "n < 0x10000 \<Longrightarrow> (of_nat n :: u16) = 0 \<longleftrightarrow> n = 0"
  by (metis unat_u16_length unat_eq_zero)

lemma unat_byte_length: "n < 0x100 \<Longrightarrow> unat (of_nat n :: byte) = n"
  by (simp add: unat_of_nat take_bit_nat_eq_self)


lemma isPesStreamId_units: "isPesStreamId sid \<Longrightarrow> sid \<noteq> 0xba \<and> sid \<noteq> 0xbb \<and> sid \<noteq> 0xbc"
  by (auto simp: isPesStreamId_def)

lemma ps_step_framed:
  "ps_step (pre @ ps_framed sid body @ rest) (length pre) info =
     (if sid = 0xba then ps_pack (pre @ ps_framed sid body @ rest) (length pre) info
      else if sid = 0xbb \<or> sid = 0xbc then ps_section (pre @ ps_framed sid body @ rest) sid (length pre) info
      else ps_pes (pre @ ps_framed sid body @ rest) sid (length pre) info)"
  by (simp add: ps_step_def ps_framed_at del: append_assoc)

lemma ps_step_pack:
  assumes "length clock = 9" "length stuffing = unat (rate AND 0x07)"
  shows "ps_step (pre @ ([0x00, 0x00, 0x01, 0xba] @ clock @ [rate] @ stuffing) @ rest) (length pre) info =
    Some (PsNext (length pre + 14 + length stuffing) (info\<lparr>ps_packHeaders := ps_packHeaders info + 1\<rparr>))"
proof -
  let ?bs = "pre @ ([0x00, 0x00, 0x01, 0xba] @ clock @ [rate] @ stuffing) @ rest"
  have n: "?bs ! (length pre + k) = (0x00 # 0x00 # 0x01 # 0xba # clock @ rate # stuffing @ rest) ! k" for k
    by (simp add: nth_append)
  have sc: "isStartCode ?bs (length pre)" "at ?bs (length pre + 3) = Some 0xba"
    using n [of 0] n [of 1] n [of 2] n [of 3] assms by (simp_all add: isStartCode_def)
  have rate: "at ?bs (length pre + 13) = Some rate"
    using n [of 13] assms by (simp add: nth_append)
  have len: "length ?bs = length pre + 14 + length stuffing + length rest"
    using assms by simp
  show ?thesis
    unfolding ps_step_def ps_pack_def Let_def using sc rate assms(2)
    by (simp add: len del: append_assoc append_Cons append.simps length_append)
qed

lemma pes_payload_offset_mpeg2:
  assumes "sid \<noteq> 0xbe" "flags AND 0xc0 = 0x80" "length header < 0x100"
  shows "pes_payload_offset (pre @ ps_framed sid ([flags, flags2, of_nat (length header)] @ header @ body) @ rest)
      sid (length pre) (length pre + 9 + length header + length body) =
    Some (Stored True (length pre + 9 + length header))"
  using assms ps_framed_at(5) [of 0 "[flags, flags2, of_nat (length header)] @ header @ body" pre sid rest]
    ps_framed_at(5) [of 2 "[flags, flags2, of_nat (length header)] @ header @ body" pre sid rest]
  by (simp add: pes_payload_offset_def Let_def unat_byte_length add.commute add.left_commute)


lemma ps_step_pes:
  assumes "ps_unit_ok (PesUnit sid flags flags2 header body)"
  shows "ps_step (pre @ ps_encode (PesUnit sid flags flags2 header body) @ rest) (length pre) info =
    Some (PsNext (length pre + length (ps_encode (PesUnit sid flags flags2 header body)))
      (ps_account (PesUnit sid flags flags2 header body) info))"
proof -
  define pl where "pl = [flags, flags2, of_nat (length header)] @ header @ body"
  let ?bs = "pre @ ps_framed sid pl @ rest"
  have ok: "isPesStreamId sid" "sid \<noteq> 0xbe" "flags AND 0xc0 = 0x80" "length header < 0x100"
    "length pl < 0x10000" "length pl = 3 + length header + length body"
    using assms by (auto simp: pl_def)
  have ne: "(of_nat (length pl) :: u16) \<noteq> 0"
    unfolding of_nat_u16_eq_0 [OF ok(5)] using ok(6) by simp
  have len: "length ?bs = length pre + 6 + length pl + length rest" by simp
  have po: "pes_payload_offset ?bs sid (length pre) (length pre + 6 + length pl) =
      Some (Stored True (length pre + 9 + length header))"
    using pes_payload_offset_mpeg2 [OF ok(2-4), of pre flags2 body rest] ok(6)
    unfolding pl_def [symmetric] by (simp add: add.assoc)
  have "drop (length pre + 9 + length header) ?bs = drop (3 + length header) (drop (length pre + 6) ?bs)"
    by (simp add: add.commute add.left_commute)
  also have "\<dots> = body @ rest"
    unfolding ps_framed_at(4) by (simp add: pl_def numeral_3_eq_3)
  finally have range: "range_of ?bs (length pre + 9 + length header) (length pre + 6 + length pl) = Some body"
    unfolding range_of_def len using ok(6) by simp
  have diff: "6 + length pl - (9 + length header) = length body" "6 + length pl - 9 - length header = length body"
    "length pre + 6 + length pl - (length pre + 9 + length header) = length body"
    using ok(6) by simp_all
  have "ps_pes ?bs sid (length pre) info = Some (PsNext (length pre + 6 + length pl)
      (ps_account (PesUnit sid flags flags2 header body) info))"
    using ok(1-5) ne po range diff
    by (simp add: ps_pes_def ps_framed_at unat_u16_length len Let_def del: append_assoc length_append)
  moreover have "ps_encode (PesUnit sid flags flags2 header body) = ps_framed sid pl"
    by (simp add: pl_def)
  ultimately show ?thesis
    using isPesStreamId_units [OF ok(1)] by (simp only: ps_step_framed) (simp add: add.assoc)
qed

lemma ps_step_section:
  assumes "ps_unit_ok (SectionUnit sid body)"
  shows "ps_step (pre @ ps_framed sid body @ rest) (length pre) info =
    Some (PsNext (length pre + 6 + length body) (ps_account (SectionUnit sid body) info))"
  using assms
  by (auto simp: ps_step_framed ps_section_def ps_framed_at unat_u16_length Let_def simp del: append_assoc)

lemma ps_step_padding:
  assumes "ps_unit_ok (PaddingUnit body)"
  shows "ps_step (pre @ ps_framed 0xbe body @ rest) (length pre) info =
    Some (PsNext (length pre + 6 + length body) (ps_account (PaddingUnit body) info))"
  using assms
  by (simp add: ps_step_framed ps_pes_def isPesStreamId_def ps_framed_at pes_payload_offset_def
      unat_u16_length of_nat_u16_eq_0 Let_def del: append_assoc)

lemma ps_step_unit:
  assumes "ps_unit_ok u"
  shows "ps_step (pre @ ps_encode u @ rest) (length pre) info =
    Some (PsNext (length pre + length (ps_encode u)) (ps_account u info))"
proof (cases u)
  case (PackUnit clock rate stuffing)
  then show ?thesis using assms ps_step_pack [of clock stuffing rate pre rest info] by simp
next
  case (SectionUnit sid body)
  then show ?thesis using assms ps_step_section [of sid body pre rest info] by (simp add: add.assoc)
next
  case (PesUnit sid flags flags2 header body)
  then show ?thesis using assms ps_step_pes by blast
next
  case (PaddingUnit body)
  then show ?thesis using assms ps_step_padding [of body pre rest info] by (simp add: add.assoc)
qed

definition ps_result :: "ps_info \<Rightarrow> ps_info parsed" where
  "ps_result info = Stored (ps_packHeaders info > 0 \<and> hasMediaPayload info) info"

lemma ps_loop_units:
  "list_all ps_unit_ok us \<Longrightarrow>
     ps_loop (pre @ concat (map ps_encode us)) (length pre) info = Some (ps_result (fold ps_account us info))"
proof (induction us arbitrary: pre info)
  case Nil
  then show ?case by (simp add: ps_loop.simps ps_result_def)
next
  case (Cons u us)
  let ?bs = "pre @ ps_encode u @ concat (map ps_encode us)"
  have "ps_loop ?bs (length pre) info = ps_loop ?bs (length pre + length (ps_encode u)) (ps_account u info)"
    using ps_step_unit [of u pre "concat (map ps_encode us)" info] Cons.prems ps_encode_nonempty [of u]
    by (subst ps_loop.simps) simp
  also have "\<dots> = Some (ps_result (fold ps_account us (ps_account u info)))"
    using Cons.IH [of "pre @ ps_encode u" "ps_account u info"] Cons.prems by simp
  finally show ?case by simp
qed

section \<open>The sample of the sender\<close>

lemma parse_built_sample:
  "parseProgramStreamPayload (buildProgramStreamSample v) =
     Some (Stored True (new_ps_info\<lparr>ps_packHeaders := 1, ps_pesPackets := 1, ps_videoPesPackets := 1,
       ps_pesPayloadBytes := length v, ps_videoPayloads := [v]\<rparr>))"
proof (cases "3 + length v < 0x10000")
  case True
  let ?us = "[PackUnit [0x44, 0x00, 0x04, 0x00, 0x04, 0x01, 0x00, 0x00, 0x03] 0xf8 [],
    PesUnit 0xe0 0x80 0 [] v]"
  have "buildProgramStreamSample v = concat (map ps_encode ?us)"
    using True by (simp add: buildProgramStreamSample_def packHeader_def ps_framed_def appendUint16_def Let_def)
  moreover have "list_all ps_unit_ok ?us"
    using True by (simp add: isPesStreamId_def)
  ultimately have "parseProgramStreamPayload (buildProgramStreamSample v) =
      Some (ps_result (fold ps_account ?us new_ps_info))"
    using ps_loop_units [of ?us "[]" new_ps_info]
    by (simp add: parseProgramStreamPayload_def buildProgramStreamSample_def packHeader_def Let_def)
  then show ?thesis
    by (simp add: ps_result_def hasMediaPayload_def new_ps_info_def classifyPes_def isVideoPes_def Let_def)
next
  case False
  let ?pes = "[0x00, 0x00, 0x01, 0xe0, 0x00, 0x00, 0x80, 0x00, 0x00] @ v"
  let ?bs = "packHeader @ ?pes"
  have bs: "buildProgramStreamSample v = ?bs"
    using False by (simp add: buildProgramStreamSample_def appendUint16_def Let_def)
  have 1: "ps_step ?bs 0 new_ps_info = Some (PsNext 14 (new_ps_info\<lparr>ps_packHeaders := 1\<rparr>))"
    by (simp add: ps_step_def ps_pack_def isStartCode_def packHeader_def new_ps_info_def Let_def)
  have 2: "ps_step ?bs 14 (new_ps_info\<lparr>ps_packHeaders := 1\<rparr>) = Some (PsNext (length ?bs)
      (new_ps_info\<lparr>ps_packHeaders := 1, ps_pesPackets := 1, ps_videoPesPackets := 1,
       ps_pesPayloadBytes := length v, ps_videoPayloads := [v]\<rparr>))"
    by (simp add: ps_step_def ps_pes_def pes_payload_offset_def isStartCode_def isPesStreamId_def packHeader_def
        new_ps_info_def classifyPes_def isVideoPes_def readUint16_def at_def range_of_def Let_def)
  have len: "length ?bs = 23 + length v"
    by (simp add: packHeader_def)
  have "ps_loop ?bs 0 new_ps_info = Some (Stored True
      (new_ps_info\<lparr>ps_packHeaders := 1, ps_pesPackets := 1, ps_videoPesPackets := 1,
       ps_pesPayloadBytes := length v, ps_videoPayloads := [v]\<rparr>))"
  proof -
    have "ps_loop ?bs 0 new_ps_info = ps_loop ?bs 14 (new_ps_info\<lparr>ps_packHeaders := 1\<rparr>)"
      by (subst ps_loop.simps) (use 1 len in simp)
    also have "\<dots> = ps_loop ?bs (length ?bs) (new_ps_info\<lparr>ps_packHeaders := 1, ps_pesPackets := 1,
        ps_videoPesPackets := 1, ps_pesPayloadBytes := length v, ps_videoPayloads := [v]\<rparr>)"
      by (subst ps_loop.simps) (use 2 len in simp)
    also have "\<dots> = Some (Stored True (new_ps_info\<lparr>ps_packHeaders := 1, ps_pesPackets := 1,
        ps_videoPesPackets := 1, ps_pesPayloadBytes := length v, ps_videoPayloads := [v]\<rparr>))"
      by (subst ps_loop.simps) (simp add: hasMediaPayload_def)
    finally show ?thesis .
  qed
  then show ?thesis
    unfolding bs parseProgramStreamPayload_def by simp
qed

section \<open>Properties\<close>

text \<open>Demultiplexing never reads outside the payload and never loops, and what it stores is
  consistent: one video payload per video PES packet, the payload bytes of all packets fit in the
  buffer beside six header bytes per packet, and the packet is accepted exactly when it has a pack
  header and a media packet.\<close>

theorem parse_ps_safe:
  "case parseProgramStreamPayload bs of
     None \<Rightarrow> False
   | Some Rejected \<Rightarrow> True
   | Some (Stored b info) \<Rightarrow> ps_info_ok (length bs) info \<and> b = (ps_packHeaders info > 0 \<and> hasMediaPayload info)"
proof -
  obtain r where r: "ps_loop bs 0 new_ps_info = Some r" using ps_loop_safe by blast
  have "ps_info_ok 0 new_ps_info" by (simp add: ps_info_ok_def new_ps_info_def)
  then show ?thesis
    using r ps_loop_ok [of 0 new_ps_info bs]
    by (cases r) (auto simp: parseProgramStreamPayload_def)
qed

text \<open>C28: for every sequence of well-formed units (pack headers with stuffing, system headers, stream
  maps, MPEG-2 PES packets and padding), the parser recovers exactly those units from their encoding:
  its counters and video payloads are the fold of the units' contributions.\<close>

theorem parse_ps_units:
  assumes "list_all ps_unit_ok us" "us \<noteq> []"
  shows "parseProgramStreamPayload (concat (map ps_encode us)) =
    Some (ps_result (fold ps_account us new_ps_info))"
proof -
  have "concat (map ps_encode us) \<noteq> []"
    using assms(2) ps_encode_nonempty by (cases us) auto
  then show ?thesis
    using ps_loop_units [OF assms(1), of "[]" new_ps_info]
    unfolding parseProgramStreamPayload_def by (simp del: concat_eq_Nil_conv)
qed

theorem parse_ps_units_witness:
  "parseProgramStreamPayload (concat (map ps_encode
      [PackUnit (replicate 9 0) 0xf9 [0xff], PesUnit 0xe0 0x80 0 [] [1, 2, 3]])) =
   Some (ps_result (fold ps_account
      [PackUnit (replicate 9 0) 0xf9 [0xff], PesUnit 0xe0 0x80 0 [] [1, 2, 3]] new_ps_info))"
  by (rule parse_ps_units) (simp_all add: isPesStreamId_def)

text \<open>The sample the sender builds around a video payload of any length is accepted and gives
  back exactly that payload, also when it is too long for the 16-bit PES length field and the field
  is 0.\<close>

theorem parse_built_ps_sample:
  "parseProgramStreamPayload (buildProgramStreamSample v) =
     Some (Stored True (new_ps_info\<lparr>ps_packHeaders := 1, ps_pesPackets := 1, ps_videoPesPackets := 1,
       ps_pesPayloadBytes := length v, ps_videoPayloads := [v]\<rparr>))"
  by (rule parse_built_sample)

end
