(* ===== verification/RtpSession.thy ===== *)
theory RtpSession
  imports MF_Prelude
begin

text \<open>
  \<open>src/src/media/RtpSessionAdapter.{h,cpp}\<close> and \<open>src/src/adapters/jrtplib/JrtplibRtpSessionAdapter.cpp\<close>:
  the abstract class the media manager sends through, and its implementation on top of JRTPLIB.

  \<^item> The abstract class is a record of functions \<open>rtp_adapter_ops\<close> on the adapter's state, one field
    per virtual function; a \<open>bool\<close> result with an error text is \<open>string + unit\<close>.
  \<^item> JRTPLIB is not part of the repository's own code: the result codes and the error texts of the
    functions the adapter calls are the record \<open>jrtplib\<close>, a parameter. The adapter object carries
    a log of the packets \<open>SendPacket\<close> accepted, so that what leaves the program can be stated.
  \<^item> The locale \<open>rtp_adapter\<close> is the contract the media manager relies on; it is interpreted on the
    JRTPLIB adapter, for every behaviour of the library.
\<close>

record rtp_payload_packet =
  rp_payload :: bytes
  rp_payloadType :: byte
  rp_marker :: bool
  rp_timestampIncrement :: u32

definition new_rtp_payload_packet :: rtp_payload_packet where
  "new_rtp_payload_packet = \<lparr>rp_payload = [], rp_payloadType = 96, rp_marker = False, rp_timestampIncrement = 0\<rparr>"

record rtp_session_options =
  ro_sessionId :: string
  ro_localRtpPort :: int
  ro_remoteIp :: string
  ro_remoteRtpPort :: int
  ro_maximumPacketSize :: nat
  ro_receiveBufferBytes :: int
  ro_sendBufferBytes :: int
  ro_multicastTtl :: int
  ro_usePollThread :: bool

definition new_rtp_session_options :: rtp_session_options where
  "new_rtp_session_options = \<lparr>ro_sessionId = [], ro_localRtpPort = 0, ro_remoteIp = [], ro_remoteRtpPort = 0,
     ro_maximumPacketSize = 1500, ro_receiveBufferBytes = 1024 * 1024, ro_sendBufferBytes = 30 * 1024,
     ro_multicastTtl = 255, ro_usePollThread = True\<rparr>"

record 'a rtp_adapter_ops =
  ra_start :: "rtp_session_options \<Rightarrow> 'a \<Rightarrow> (string + unit) \<times> 'a"
  ra_sendPayloadPacket :: "rtp_payload_packet \<Rightarrow> 'a \<Rightarrow> (string + unit) \<times> 'a"
  ra_stop :: "'a \<Rightarrow> 'a"
  ra_running :: "'a \<Rightarrow> bool"

section \<open>The contract\<close>

locale rtp_adapter =
  fixes ops :: "'a rtp_adapter_ops"
    and sent :: "'a \<Rightarrow> rtp_payload_packet list"
  assumes start_ok: "ra_start ops opts a = (Inr (), a') \<Longrightarrow> ra_running ops a' \<and> ro_sessionId opts \<noteq> [] \<and> ro_localRtpPort opts > 0"
    and start_fails: "ra_start ops opts a = (Inl e, a') \<Longrightarrow> ra_running ops a' = ra_running ops a"
    and start_silent: "sent (snd (ra_start ops opts a)) = sent a"
    and start_twice: "ra_running ops a \<Longrightarrow> \<exists>e. ra_start ops opts a = (Inl e, a)"
    and send_ok: "ra_sendPayloadPacket ops p a = (Inr (), a') \<Longrightarrow>
      ra_running ops a \<and> rp_payload p \<noteq> [] \<and> sent a' = sent a @ [p]"
    and send_fails: "ra_sendPayloadPacket ops p a = (Inl e, a') \<Longrightarrow> sent a' = sent a"
    and send_running: "ra_running ops (snd (ra_sendPayloadPacket ops p a)) = ra_running ops a"
    and stop_stops: "\<not> ra_running ops (ra_stop ops a)"
    and stop_silent: "sent (ra_stop ops a) = sent a"
begin

lemma sent_grows: "\<exists>ps. sent (snd (ra_sendPayloadPacket ops p a)) = sent a @ ps"
proof (cases "ra_sendPayloadPacket ops p a")
  case (Pair r a')
  then show ?thesis using send_ok send_fails by (cases r) fastforce+
qed

lemma send_stopped: "\<exists>e. fst (ra_sendPayloadPacket ops p (ra_stop ops a)) = Inl e"
proof (cases "ra_sendPayloadPacket ops p (ra_stop ops a)")
  case (Pair r a')
  then show ?thesis using send_ok [of p "ra_stop ops a" a'] stop_stops [of a] by (cases r) auto
qed

end

section \<open>The JRTPLIB adapter\<close>

record 'j jrtplib =
  j_Create :: "rtp_session_options \<Rightarrow> 'j \<Rightarrow> int \<times> 'j"
  j_SetMaximumPacketSize :: "nat \<Rightarrow> 'j \<Rightarrow> int \<times> 'j"
  j_AddDestination :: "u32 \<Rightarrow> u16 \<Rightarrow> 'j \<Rightarrow> int \<times> 'j"
  j_SendPacket :: "bytes \<Rightarrow> byte \<Rightarrow> bool \<Rightarrow> u32 \<Rightarrow> 'j \<Rightarrow> int \<times> 'j"
  j_Destroy :: "'j \<Rightarrow> 'j"
  j_BYEDestroy :: "'j \<Rightarrow> 'j"
  j_ErrorString :: "int \<Rightarrow> string"
  j_inet_addr :: "string \<Rightarrow> u32"

text \<open>\<open>jr_callback\<close> is \<open>None\<close> for the empty \<open>std::function\<close>; a callback is represented by the media
  session it reports to, which is all the media manager's closure depends on. \<open>start\<close>'s guard for
  an empty callback is not modelled: its only caller passes a closure.\<close>

record 'j jrtp_adapter =
  jr_session :: 'j
  jr_options :: rtp_session_options
  jr_callback :: "unit option"
  jr_running :: bool
  jr_sent :: "rtp_payload_packet list"

definition new_jrtp_adapter :: "'j \<Rightarrow> 'j jrtp_adapter" where
  "new_jrtp_adapter j = \<lparr>jr_session = j, jr_options = new_rtp_session_options, jr_callback = None,
     jr_running = False, jr_sent = []\<rparr>"

text \<open>\<open>INADDR_NONE\<close> is what \<open>inet_addr\<close> gives for a malformed address.\<close>

definition jr_destination ::
  "'j jrtplib \<Rightarrow> rtp_session_options \<Rightarrow> 'j \<Rightarrow> (string + unit) \<times> 'j" where
  "jr_destination J options j =
    (if ro_remoteIp options \<noteq> [] \<and> ro_remoteRtpPort options > 0
     then (let remoteAddress = j_inet_addr J (ro_remoteIp options)
           in if remoteAddress = 0xffffffff
              then (Inl (''invalid RTP remote IP: '' @ ro_remoteIp options), j_Destroy J j)
              else (let (destinationResult, j) = j_AddDestination J remoteAddress (word_of_int (ro_remoteRtpPort options)) j
                    in if destinationResult < 0
                       then (Inl (j_ErrorString J destinationResult), j_Destroy J j)
                       else (Inr (), j)))
     else (Inr (), j))"

definition jr_start ::
  "'j jrtplib \<Rightarrow> rtp_session_options \<Rightarrow> 'j jrtp_adapter \<Rightarrow> (string + unit) \<times> 'j jrtp_adapter" where
  "jr_start J options a =
    (if jr_running a then (Inl ''JRTPLIB RTP session already running'', a)
     else if ro_sessionId options = [] then (Inl ''empty RTP media session id'', a)
     else if ro_localRtpPort options \<le> 0 then (Inl ''invalid RTP local port'', a)
     else (let (createResult, j) = j_Create J options (jr_session a)
       in if createResult < 0 then (Inl (j_ErrorString J createResult), a\<lparr>jr_session := j\<rparr>)
          else (let (maxPacketResult, j) = j_SetMaximumPacketSize J (ro_maximumPacketSize options) j
            in if maxPacketResult < 0
               then (Inl (j_ErrorString J maxPacketResult), a\<lparr>jr_session := j_Destroy J j\<rparr>)
               else (case jr_destination J options j of
                       (Inl e, j) \<Rightarrow> (Inl e, a\<lparr>jr_session := j\<rparr>)
                     | (Inr _, j) \<Rightarrow> (Inr (), a\<lparr>jr_session := j, jr_options := options,
                         jr_callback := Some (), jr_running := True\<rparr>)))))"

definition jr_sendPayloadPacket ::
  "'j jrtplib \<Rightarrow> rtp_payload_packet \<Rightarrow> 'j jrtp_adapter \<Rightarrow> (string + unit) \<times> 'j jrtp_adapter" where
  "jr_sendPayloadPacket J packet a =
    (if \<not> jr_running a then (Inl ''JRTPLIB RTP session is not running'', a)
     else if rp_payload packet = [] then (Inl ''empty RTP payload packet'', a)
     else (let (result, j) = j_SendPacket J (rp_payload packet) (rp_payloadType packet) (rp_marker packet)
                               (rp_timestampIncrement packet) (jr_session a);
               a = a\<lparr>jr_session := j\<rparr>
           in if result < 0 then (Inl (j_ErrorString J result), a)
              else (Inr (), a\<lparr>jr_sent := jr_sent a @ [packet]\<rparr>)))"

definition jr_stop :: "'j jrtplib \<Rightarrow> 'j jrtp_adapter \<Rightarrow> 'j jrtp_adapter" where
  "jr_stop J a =
    (if \<not> jr_running a then a
     else a\<lparr>jr_session := j_BYEDestroy J (jr_session a), jr_callback := None, jr_running := False\<rparr>)"

text \<open>What the library's packet hook hands to the callback: the session id of the options and the
  packet's bytes; \<open>None\<close> when nothing is delivered (no packet, no callback, no data).\<close>

definition jr_OnRTPPacket :: "bytes option \<Rightarrow> 'j jrtp_adapter \<Rightarrow> (string \<times> bytes) option" where
  "jr_OnRTPPacket packet a =
    (case packet of None \<Rightarrow> None
     | Some data \<Rightarrow>
         if jr_callback a = None then None
         else if data = [] then None
         else Some (ro_sessionId (jr_options a), data))"

definition jr_ops :: "'j jrtplib \<Rightarrow> 'j jrtp_adapter rtp_adapter_ops" where
  "jr_ops J = \<lparr>ra_start = jr_start J, ra_sendPayloadPacket = jr_sendPayloadPacket J, ra_stop = jr_stop J,
     ra_running = jr_running\<rparr>"

lemma jr_start_cases:
  obtains (failed) e j where "jr_start J options a = (Inl e, a\<lparr>jr_session := j\<rparr>)"
  | (started) j where "\<not> jr_running a" "ro_sessionId options \<noteq> []" "ro_localRtpPort options > 0"
      "jr_start J options a = (Inr (), a\<lparr>jr_session := j, jr_options := options,
         jr_callback := Some (), jr_running := True\<rparr>)"
proof -
  have id: "a\<lparr>jr_session := jr_session a\<rparr> = a" by simp
  consider "jr_running a \<or> ro_sessionId options = [] \<or> ro_localRtpPort options \<le> 0"
    | "\<not> jr_running a" "ro_sessionId options \<noteq> []" "ro_localRtpPort options > 0" by linarith
  then show thesis
  proof cases
    case 1
    then have "\<exists>e. jr_start J options a = (Inl e, a)"
      by (auto simp: jr_start_def)
    then show thesis using failed [of _ "jr_session a"] by auto
  next
    case 2
    obtain c j1 where c: "j_Create J options (jr_session a) = (c, j1)" by fastforce
    obtain m j2 where m: "j_SetMaximumPacketSize J (ro_maximumPacketSize options) j1 = (m, j2)" by fastforce
    obtain r j3 where r: "jr_destination J options j2 = (r, j3)" by fastforce
    have "(\<exists>e j. jr_start J options a = (Inl e, a\<lparr>jr_session := j\<rparr>)) \<or>
      jr_start J options a = (Inr (), a\<lparr>jr_session := j3, jr_options := options, jr_callback := Some (), jr_running := True\<rparr>)"
      using 2 c m r by (cases "c < 0"; cases "m < 0"; cases r) (fastforce simp: jr_start_def)+
    then show thesis using failed started [OF 2] by blast
  qed
qed

interpretation jr: rtp_adapter "jr_ops J" jr_sent for J :: "'j jrtplib"
proof unfold_locales
  fix opts :: rtp_session_options and p and a a' :: "'j jrtp_adapter" and e
  show "ra_start (jr_ops J) opts a = (Inr (), a') \<Longrightarrow>
      ra_running (jr_ops J) a' \<and> ro_sessionId opts \<noteq> [] \<and> ro_localRtpPort opts > 0"
    by (cases rule: jr_start_cases [of J opts a]) (auto simp: jr_ops_def)
  show "ra_start (jr_ops J) opts a = (Inl e, a') \<Longrightarrow> ra_running (jr_ops J) a' = ra_running (jr_ops J) a"
    by (cases rule: jr_start_cases [of J opts a]) (auto simp: jr_ops_def)
  show "jr_sent (snd (ra_start (jr_ops J) opts a)) = jr_sent a"
    by (cases rule: jr_start_cases [of J opts a]) (auto simp: jr_ops_def)
  show "ra_running (jr_ops J) a \<Longrightarrow> \<exists>e. ra_start (jr_ops J) opts a = (Inl e, a)"
    by (simp add: jr_ops_def jr_start_def)
  show "ra_sendPayloadPacket (jr_ops J) p a = (Inr (), a') \<Longrightarrow>
      ra_running (jr_ops J) a \<and> rp_payload p \<noteq> [] \<and> jr_sent a' = jr_sent a @ [p]"
    by (auto simp: jr_ops_def jr_sendPayloadPacket_def Let_def split: prod.splits if_splits)
  show "ra_sendPayloadPacket (jr_ops J) p a = (Inl e, a') \<Longrightarrow> jr_sent a' = jr_sent a"
    by (auto simp: jr_ops_def jr_sendPayloadPacket_def Let_def split: prod.splits if_splits)
  show "ra_running (jr_ops J) (snd (ra_sendPayloadPacket (jr_ops J) p a)) = ra_running (jr_ops J) a"
    by (auto simp: jr_ops_def jr_sendPayloadPacket_def Let_def split: prod.splits if_splits)
  show "\<not> ra_running (jr_ops J) (ra_stop (jr_ops J) a)"
    by (simp add: jr_ops_def jr_stop_def)
  show "jr_sent (ra_stop (jr_ops J) a) = jr_sent a"
    by (simp add: jr_ops_def jr_stop_def)
qed

end
