(* ===== verification/FrameSink.thy ===== *)
theory FrameSink
  imports ElementaryStream "HOL-Library.Sublist"
begin

text \<open>
  \<open>src/src/media/MediaFrameSink.{h,cpp}\<close> and \<open>src/src/media/StreamFileFrameSource.{h,cpp}\<close>: where
  received frames go and where frames to send come from.

  The abstract class \<open>MediaFrameSink\<close> is the function \<open>writeFrame\<close> on the sink's state; the locale
  \<open>frame_sink\<close> is its contract, interpreted on \<open>FileMediaFrameSink\<close>. The file system is outside the
  program: its answer to opening a file for appending and writing to it is the parameter \<open>disk\<close>,
  and the files that can be read are the parameter \<open>files\<close>.
\<close>

record media_frame =
  fr_sessionId :: string
  fr_peerId :: string
  fr_codec :: video_codec
  fr_timestamp :: u32
  fr_packets :: u64
  fr_keyFrame :: bool
  fr_data :: bytes

definition new_media_frame :: media_frame where
  "new_media_frame = \<lparr>fr_sessionId = [], fr_peerId = [], fr_codec = VIDEO_CODEC_UNKNOWN, fr_timestamp = 0,
     fr_packets = 0, fr_keyFrame = False, fr_data = []\<rparr>"

type_synonym 's frame_writer = "media_frame \<Rightarrow> 's \<Rightarrow> (string + unit) \<times> 's"

locale frame_sink =
  fixes writeFrame :: "'s frame_writer"
    and written :: "'s \<Rightarrow> bytes"
  assumes write_ok: "writeFrame f s = (Inr (), s') \<Longrightarrow> fr_data f \<noteq> [] \<and> written s' = written s @ fr_data f"
    and write_fails: "writeFrame f s = (Inl e, s') \<Longrightarrow> \<exists>part. prefix part (fr_data f) \<and> written s' = written s @ part"
begin

lemma write_appends: "\<exists>part. prefix part (fr_data f) \<and> written (snd (writeFrame f s)) = written s @ part"
proof (cases "writeFrame f s")
  case (Pair r s')
  then show ?thesis using write_ok write_fails by (cases r) fastforce+
qed

end

section \<open>The file sink\<close>

text \<open>Outcome of \<open>ofstream(path, app)\<close> and \<open>write\<close>: a failed write may leave a prefix of the data.\<close>

datatype disk_outcome = OpenFailed | WriteFailed nat | Written

record file_sink =
  fs_path :: string
  fs_frameCount :: nat
  fs_bytesWritten :: u64
  fs_file :: bytes

definition new_file_sink :: "string \<Rightarrow> file_sink" where
  "new_file_sink path = \<lparr>fs_path = path, fs_frameCount = 0, fs_bytesWritten = 0, fs_file = []\<rparr>"

definition fs_writeFrame :: "(string \<Rightarrow> bytes \<Rightarrow> bytes \<Rightarrow> disk_outcome) \<Rightarrow> file_sink frame_writer" where
  "fs_writeFrame disk frame s =
    (if fs_path s = [] then (Inl ''empty media frame output path'', s)
     else if fr_data frame = [] then (Inl ''empty media frame'', s)
     else (case disk (fs_path s) (fs_file s) (fr_data frame) of
             OpenFailed \<Rightarrow> (Inl (''failed to open media frame output: '' @ fs_path s), s)
           | WriteFailed n \<Rightarrow> (Inl (''failed to write media frame output: '' @ fs_path s),
                              s\<lparr>fs_file := fs_file s @ take n (fr_data frame)\<rparr>)
           | Written \<Rightarrow> (Inr (), s\<lparr>fs_file := fs_file s @ fr_data frame, fs_frameCount := fs_frameCount s + 1,
                          fs_bytesWritten := fs_bytesWritten s + of_nat (length (fr_data frame))\<rparr>)))"

interpretation fs: frame_sink "fs_writeFrame disk" fs_file for disk
  by unfold_locales
    (auto simp: fs_writeFrame_def take_is_prefix split: if_splits disk_outcome.splits)

text \<open>Writing a sequence of frames, as a receiving session does.\<close>

fun fs_writeAll :: "(string \<Rightarrow> bytes \<Rightarrow> bytes \<Rightarrow> disk_outcome) \<Rightarrow> media_frame list \<Rightarrow> file_sink \<Rightarrow> file_sink" where
  "fs_writeAll disk [] s = s"
| "fs_writeAll disk (f # fs) s = fs_writeAll disk fs (snd (fs_writeFrame disk f s))"

section \<open>The stream-file frame source\<close>

text \<open>The frames of a stream file: a 16-byte little-endian header (\<open>char type\<close>, three bytes of
  padding, \<open>int pts\<close>, \<open>int length\<close>, \<open>int keyFrame\<close>) and \<open>length\<close> bytes. An \<open>ifstream\<close> is its remaining
  input and its state: a read past the end takes what is left and sets \<open>failbit\<close>.\<close>

record stream_frame =
  sf_type :: int
  sf_pts :: int
  sf_keyFrame :: bool
  sf_data :: bytes

record frame_source =
  src_path :: string
  src_input :: bytes
  src_good :: bool

definition kVideoFrameType :: int where "kVideoFrameType = 2"
definition kMaxFrameBytes :: int where "kMaxFrameBytes = 16 * 1024 * 1024"
definition stream_header_size :: nat where "stream_header_size = 16"

definition new_frame_source :: frame_source where
  "new_frame_source = \<lparr>src_path = [], src_input = [], src_good = True\<rparr>"

definition src_open :: "(string \<Rightarrow> bytes option) \<Rightarrow> string \<Rightarrow> frame_source \<Rightarrow> (string + unit) \<times> frame_source" where
  "src_open files path s =
    (if path = [] then (Inl ''empty stream file path'', s)
     else (case files path of
             None \<Rightarrow> (Inl (''failed to open stream file: '' @ path), s\<lparr>src_input := [], src_good := False\<rparr>)
           | Some contents \<Rightarrow> (Inr (), s\<lparr>src_input := contents, src_good := True, src_path := path\<rparr>)))"

definition src_reopen :: "(string \<Rightarrow> bytes option) \<Rightarrow> frame_source \<Rightarrow> (string + unit) \<times> frame_source" where
  "src_reopen files s =
    (if src_path s = [] then (Inl ''stream file path is empty'', s) else src_open files (src_path s) s)"

definition le_int32 :: "bytes \<Rightarrow> nat \<Rightarrow> int" where
  "le_int32 bs i = sint ((ucast (bs ! i) OR push_bit 8 (ucast (bs ! (i + 1))) OR
     push_bit 16 (ucast (bs ! (i + 2))) OR push_bit 24 (ucast (bs ! (i + 3)))) :: u32)"

text \<open>\<open>m_input.read(buffer, n)\<close>: what was read (\<open>gcount\<close> bytes) and the stream afterwards.\<close>

definition src_read :: "nat \<Rightarrow> frame_source \<Rightarrow> bytes \<times> frame_source" where
  "src_read n s = (take n (src_input s),
     s\<lparr>src_input := drop n (src_input s), src_good := (n \<le> length (src_input s))\<rparr>)"

function src_loop :: "frame_source \<Rightarrow> (string + stream_frame) \<times> frame_source" where
  "src_loop s =
    (if \<not> src_good s then (Inl ''end of stream file'', s)
     else let (header, s1) = src_read stream_header_size s
          in if header = [] then (Inl ''end of stream file'', s1)
             else if \<not> src_good s1 \<or> length header \<noteq> stream_header_size
             then (Inl (''failed to read stream frame header: '' @ src_path s), s1)
             else let len = le_int32 header 8 in
               if len \<le> 0 \<or> len > kMaxFrameBytes then (Inl ''invalid stream frame length'', s1)
               else let (data, s2) = src_read (nat len) s1 in
                 if \<not> src_good s2 \<or> length data \<noteq> nat len
                 then (Inl (''failed to read stream frame payload: '' @ src_path s), s2)
                 else if sint (header ! 0) \<noteq> kVideoFrameType then src_loop s2
                 else (Inr \<lparr>sf_type = sint (header ! 0), sf_pts = le_int32 header 4,
                        sf_keyFrame = (le_int32 header 12 \<noteq> 0), sf_data = data\<rparr>, s2))"
  by pat_completeness auto
termination
  by (relation "measure (\<lambda>s. length (src_input s))") (auto simp: src_read_def stream_header_size_def)

declare src_loop.simps [simp del]

definition readNextVideoFrame :: "frame_source \<Rightarrow> (string + stream_frame) \<times> frame_source" where
  "readNextVideoFrame s =
    (if \<not> src_good s then (Inl ''stream file is not open'', s) else src_loop s)"

end
