(* ===== verification/NodeConfig.thy ===== *)
theory NodeConfig
  imports CppText CppMap
begin

text \<open>
  \<open>src/src/core/NodeConfig.{h,cpp}\<close>: the node's configuration and its INI file. \<open>load\<close> reads the file
  (the parameter \<open>files\<close> stands for the file system), keeps the last value of each key, falls back to
  the legacy sections \<open>sub\<close> and \<open>sup\<close>, and leaves the configuration alone when it fails.
\<close>

record endpoint_config =
  ep_name :: string
  ep_sipId :: string
  ep_sipIp :: string
  ep_sipPort :: int
  ep_realm :: string
  ep_username :: string
  ep_password :: string
  ep_rtpPortBegin :: int
  ep_rtpPortEnd :: int

record peer_config =
  pc_name :: string
  pc_relation :: string
  pc_sipId :: string
  pc_remoteIp :: string
  pc_remotePort :: int
  pc_registerTo :: bool
  pc_allowRegister :: bool
  pc_expires :: int
  pc_realm :: string
  pc_username :: string
  pc_password :: string

record media_config =
  mc_streamFile :: string
  mc_catalogFile :: string
  mc_rtpPayloadBytes :: u64
  mc_rtpTimestampIncrement :: u32
  mc_streamSendIntervalMs :: int
  mc_streamLoop :: bool

record timer_config =
  tc_heartbeatIntervalSeconds :: int
  tc_registerRefreshSeconds :: int

record node_config =
  nc_configPath :: string
  nc_node :: endpoint_config
  nc_sipEndpoints :: "endpoint_config list"
  nc_peers :: "peer_config list"
  nc_media :: media_config
  nc_timers :: timer_config
  nc_managementSocketPath :: string

definition new_endpoint_config :: endpoint_config where
  "new_endpoint_config = \<lparr>ep_name = [], ep_sipId = [], ep_sipIp = [], ep_sipPort = 0, ep_realm = [],
     ep_username = [], ep_password = [], ep_rtpPortBegin = 0, ep_rtpPortEnd = 0\<rparr>"

definition ep_valid :: "endpoint_config \<Rightarrow> bool" where
  "ep_valid e \<longleftrightarrow> ep_sipId e \<noteq> [] \<and> ep_sipIp e \<noteq> [] \<and> ep_sipPort e > 0"

definition new_peer_config :: peer_config where
  "new_peer_config = \<lparr>pc_name = [], pc_relation = [], pc_sipId = [], pc_remoteIp = [], pc_remotePort = 0,
     pc_registerTo = False, pc_allowRegister = False, pc_expires = 0, pc_realm = [], pc_username = [], pc_password = []\<rparr>"

definition pc_valid :: "peer_config \<Rightarrow> bool" where
  "pc_valid p \<longleftrightarrow> pc_sipId p \<noteq> [] \<and> (pc_relation p = ''upstream'' \<or> pc_relation p = ''downstream'')"

definition new_media_config :: media_config where
  "new_media_config = \<lparr>mc_streamFile = [], mc_catalogFile = [], mc_rtpPayloadBytes = 1300,
     mc_rtpTimestampIncrement = 3600, mc_streamSendIntervalMs = 1000, mc_streamLoop = True\<rparr>"

definition new_timer_config :: timer_config where
  "new_timer_config = \<lparr>tc_heartbeatIntervalSeconds = 60, tc_registerRefreshSeconds = 300\<rparr>"

definition new_node_config :: node_config where
  "new_node_config = \<lparr>nc_configPath = [], nc_node = new_endpoint_config, nc_sipEndpoints = [], nc_peers = [],
     nc_media = new_media_config, nc_timers = new_timer_config, nc_managementSocketPath = []\<rparr>"

section \<open>Values\<close>

definition toSize :: "string \<Rightarrow> u64 \<Rightarrow> u64" where
  "toSize s fallback =
    (if s = [] then fallback
     else let (n, good, _) = extract_unsigned (2 ^ 64 - 1) s in if good then of_nat n else fallback)"

definition toUint32 :: "string \<Rightarrow> u32 \<Rightarrow> u32" where
  "toUint32 s fallback =
    (if s = [] then fallback
     else let (n, good, _) = extract_unsigned (2 ^ 32 - 1) s in if good then of_nat n else fallback)"

definition toBool :: "string \<Rightarrow> bool \<Rightarrow> bool" where
  "toBool s fallback =
    (if s = [] then fallback
     else let normalized = map tolower s
       in if normalized \<in> {''1'', ''true'', ''yes'', ''on''} then True
          else if normalized \<in> {''0'', ''false'', ''no'', ''off''} then False
          else fallback)"

type_synonym ini_data = "(string, (string, string) omap) omap"

definition getValue :: "ini_data \<Rightarrow> string \<Rightarrow> string \<Rightarrow> string" where
  "getValue data sec key =
    (case om_find data sec of None \<Rightarrow> ''''
     | Some values \<Rightarrow> (case om_find values key of None \<Rightarrow> '''' | Some v \<Rightarrow> v))"

definition readEndpoint :: "ini_data \<Rightarrow> string \<Rightarrow> endpoint_config" where
  "readEndpoint data sec =
    \<lparr>ep_name = sec, ep_sipId = getValue data sec ''sip_id'', ep_sipIp = getValue data sec ''sip_ip'',
     ep_sipPort = toInt (getValue data sec ''sip_port''), ep_realm = getValue data sec ''sip_realm'',
     ep_username = getValue data sec ''sip_usr'', ep_password = getValue data sec ''sip_pwd'',
     ep_rtpPortBegin = toInt (getValue data sec ''rtp_port_begin''),
     ep_rtpPortEnd = toInt (getValue data sec ''rtp_port_end'')\<rparr>"

definition readPeer :: "ini_data \<Rightarrow> string \<Rightarrow> string \<Rightarrow> peer_config" where
  "readPeer data sec relation =
    \<lparr>pc_name = sec, pc_relation = relation, pc_sipId = getValue data sec ''sip_id'',
     pc_remoteIp = getValue data sec ''remote_ip'', pc_remotePort = toInt (getValue data sec ''remote_port''),
     pc_registerTo = toBool (getValue data sec ''register_to'') (relation = ''upstream''),
     pc_allowRegister = toBool (getValue data sec ''allow_register'') (relation = ''downstream''),
     pc_expires = toInt (getValue data sec ''expires''), pc_realm = getValue data sec ''sip_realm'',
     pc_username = getValue data sec ''sip_usr'', pc_password = getValue data sec ''sip_pwd''\<rparr>"

definition readMediaConfig :: "ini_data \<Rightarrow> media_config" where
  "readMediaConfig data =
    (let interval = toInt (getValue data ''media'' ''stream_send_interval_ms'')
     in \<lparr>mc_streamFile = getValue data ''media'' ''stream_file'',
         mc_catalogFile = getValue data ''media'' ''catalog_file'',
         mc_rtpPayloadBytes = toSize (getValue data ''media'' ''rtp_payload_bytes'')
           (mc_rtpPayloadBytes new_media_config),
         mc_rtpTimestampIncrement = toUint32 (getValue data ''media'' ''rtp_timestamp_increment'')
           (mc_rtpTimestampIncrement new_media_config),
         mc_streamSendIntervalMs =
           (if interval \<le> 0 then mc_streamSendIntervalMs new_media_config else interval),
         mc_streamLoop = toBool (getValue data ''media'' ''stream_loop'') (mc_streamLoop new_media_config)\<rparr>)"

definition readTimerConfig :: "ini_data \<Rightarrow> timer_config" where
  "readTimerConfig data =
    (let heartbeat = toInt (getValue data ''timers'' ''heartbeat_interval_seconds'');
         refresh = toInt (getValue data ''timers'' ''register_refresh_seconds'')
     in \<lparr>tc_heartbeatIntervalSeconds =
           (if heartbeat \<le> 0 then tc_heartbeatIntervalSeconds new_timer_config else heartbeat),
         tc_registerRefreshSeconds =
           (if refresh \<le> 0 then tc_registerRefreshSeconds new_timer_config else refresh)\<rparr>)"

section \<open>The INI parser\<close>

text \<open>One line of the \<open>while (std::getline(input, line))\<close> loop, on the current section and the data.
  \<open>data[currentSection][key] = value\<close> creates the section when it is absent.\<close>

definition ini_line :: "string \<Rightarrow> string \<times> ini_data \<Rightarrow> string \<times> ini_data" where
  "ini_line line = (\<lambda>(currentSection, data).
    (let content = trim line
     in if content = [] \<or> hd content = CHR ''#'' \<or> hd content = CHR '';'' then (currentSection, data)
        else if hd content = CHR ''['' \<and> last content = CHR '']''
        then (trim (butlast (tl content)), data)
        else if CHR ''='' \<notin> set content \<or> currentSection = [] then (currentSection, data)
        else let key = trim (takeWhile (\<lambda>c. c \<noteq> CHR ''='') content);
                 val = trim (tl (dropWhile (\<lambda>c. c \<noteq> CHR ''='') content));
                 values = (case om_find data currentSection of None \<Rightarrow> [] | Some vs \<Rightarrow> vs)
             in (currentSection, om_set currentSection (om_set key val values) data)))"

definition parse_ini :: "string \<Rightarrow> ini_data" where
  "parse_ini contents = snd (fold ini_line (getlines contents) ([], []))"

section \<open>load\<close>

definition choose_node :: "ini_data \<Rightarrow> endpoint_config" where
  "choose_node data =
    (let node = readEndpoint data ''node''
     in if ep_valid node then node
        else let legacySub = readEndpoint data ''sub''; legacySup = readEndpoint data ''sup''
          in if ep_valid legacySub then legacySub\<lparr>ep_name := ''node''\<rparr>
             else if ep_valid legacySup then legacySup\<lparr>ep_name := ''node''\<rparr>
             else node)"

definition section_peer :: "ini_data \<Rightarrow> string \<Rightarrow> peer_config list" where
  "section_peer data sec =
    (if startsWith sec ''peer.upstream.''
     then (let peer = readPeer data sec ''upstream'' in if pc_valid peer then [peer] else [])
     else if startsWith sec ''peer.downstream.''
     then (let peer = readPeer data sec ''downstream'' in if pc_valid peer then [peer] else [])
     else [])"

definition legacy_peers :: "ini_data \<Rightarrow> peer_config list" where
  "legacy_peers data =
    (let legacySup = readEndpoint data ''sup''; legacySub = readEndpoint data ''sub''
     in (if ep_valid legacySup
         then [new_peer_config\<lparr>pc_name := ''peer.upstream.legacy'', pc_relation := ''upstream'',
                pc_sipId := ep_sipId legacySup, pc_remoteIp := ep_sipIp legacySup,
                pc_remotePort := ep_sipPort legacySup, pc_registerTo := True, pc_expires := 300,
                pc_realm := ep_realm legacySup, pc_username := ep_username legacySup,
                pc_password := ep_password legacySup\<rparr>]
         else []) @
        (if ep_valid legacySub
         then [new_peer_config\<lparr>pc_name := ''peer.downstream.legacy'', pc_relation := ''downstream'',
                pc_sipId := ep_sipId legacySub, pc_remoteIp := ep_sipIp legacySub,
                pc_remotePort := ep_sipPort legacySub, pc_allowRegister := True\<rparr>]
         else []))"

definition load_peers :: "ini_data \<Rightarrow> peer_config list" where
  "load_peers data =
    (let peers = concat (map (\<lambda>e. section_peer data (fst e)) data)
     in if peers = [] then legacy_peers data else peers)"

definition load_config :: "(string \<Rightarrow> string option) \<Rightarrow> string \<Rightarrow> node_config \<Rightarrow> bool \<times> node_config" where
  "load_config files configPath config =
    (if configPath = [] then (False, config)
     else (case files configPath of None \<Rightarrow> (False, config)
       | Some contents \<Rightarrow>
           let data = parse_ini contents; node = choose_node data
           in if \<not> ep_valid node then (False, config)
              else let socketPath = getValue data ''management'' ''socket_path''
                in (True, \<lparr>nc_configPath = configPath, nc_node = node, nc_sipEndpoints = [node],
                      nc_peers = load_peers data, nc_media = readMediaConfig data,
                      nc_timers = readTimerConfig data,
                      nc_managementSocketPath =
                        (if socketPath = [] then ''/tmp/media-fabric.sock'' else socketPath)\<rparr>)))"


section \<open>The INI format\<close>

text \<open>A writer of INI files, the inverse of the parser on clean data: trimmed names and values without
  newlines, keys that do not look like comments, section headers or contain \<open>=\<close>.\<close>

definition ini_word :: "string \<Rightarrow> bool" where
  "ini_word s \<longleftrightarrow> trim s = s \<and> CHR 0x0A \<notin> set s"

definition ini_key :: "string \<Rightarrow> bool" where
  "ini_key s \<longleftrightarrow> s \<noteq> [] \<and> ini_word s \<and> CHR ''='' \<notin> set s \<and>
     hd s \<noteq> CHR ''#'' \<and> hd s \<noteq> CHR '';'' \<and> hd s \<noteq> CHR ''[''"

definition ini_clean :: "ini_data \<Rightarrow> bool" where
  "ini_clean data \<longleftrightarrow> om_ok data \<and>
     list_all (\<lambda>(sec, values). sec \<noteq> [] \<and> ini_word sec \<and> values \<noteq> [] \<and> om_ok values \<and>
       list_all (\<lambda>(k, v). ini_key k \<and> ini_word v) values) data"

definition ini_entry :: "string \<times> string \<Rightarrow> string" where
  "ini_entry kv = fst kv @ ''='' @ snd kv"

definition ini_section :: "string \<times> (string, string) omap \<Rightarrow> string list" where
  "ini_section s = (''['' @ fst s @ '']'') # map ini_entry (snd s)"

definition render_ini :: "ini_data \<Rightarrow> string" where
  "render_ini data = concat (map (\<lambda>l. l @ [CHR 0x0A]) (concat (map ini_section data)))"

lemma trim_ends: "trim s = s \<Longrightarrow> s \<noteq> [] \<Longrightarrow> \<not> isspace (hd s) \<and> \<not> isspace (last s)"
proof -
  assume t: "trim s = s" and ne: "s \<noteq> []"
  have "length (dropWhile isspace (rev (dropWhile isspace s))) = length s"
    using arg_cong [OF t, of length] by (simp add: trim_def)
  then have l: "length (dropWhile isspace s) = length s"
    "length (dropWhile isspace (rev (dropWhile isspace s))) = length (rev (dropWhile isspace s))"
    using length_dropWhile_le [of isspace s] length_dropWhile_le [of isspace "rev (dropWhile isspace s)"]
    by auto
  then have d: "dropWhile isspace s = s"
    by (metis append_eq_conv_conj dropWhile_eq_drop drop_0 length_drop takeWhile_dropWhile_id append_self_conv2
        diff_diff_cancel diff_self_eq_0 length_append add_diff_cancel_right' list.size(3) length_0_conv)
  with l(2) have "dropWhile isspace (rev s) = rev s"
    by (metis append_self_conv2 add_diff_cancel_right' diff_self_eq_0 length_0_conv length_append takeWhile_dropWhile_id)
  then have "\<not> isspace (hd (rev s))" "\<not> isspace (hd s)"
    using d ne by (metis hd_dropWhile rev_is_Nil_conv dropWhile_eq_Nil_conv)+
  then show ?thesis by (simp add: hd_rev)
qed

lemma ini_line_section:
  "sec \<noteq> [] \<Longrightarrow> ini_word sec \<Longrightarrow> ini_line (''['' @ sec @ '']'') (cur, data) = (sec, data)"
proof -
  assume s: "sec \<noteq> []" "ini_word sec"
  have "trim (''['' @ sec @ '']'') = ''['' @ sec @ '']''"
    by (rule trim_id) (simp add: isspace_def)
  with s show ?thesis by (simp add: ini_line_def Let_def ini_word_def butlast_append)
qed

lemma ini_line_entry:
  assumes "cur \<noteq> []" "ini_key k" "ini_word v"
  shows "ini_line (ini_entry (k, v)) (cur, data) =
    (cur, om_set cur (om_set k v (case om_find data cur of None \<Rightarrow> [] | Some vs \<Rightarrow> vs)) data)"
proof -
  have k: "k \<noteq> []" "trim k = k" "trim v = v" "CHR ''='' \<notin> set k"
    "hd k \<noteq> CHR ''#''" "hd k \<noteq> CHR '';''" "hd k \<noteq> CHR ''[''" "\<not> isspace (hd k)"
    using assms trim_ends [of k] by (auto simp: ini_key_def ini_word_def)
  let ?l = "ini_entry (k, v)"
  have "\<not> isspace (last ?l)"
    using trim_ends [OF k(3)] by (cases "v = []") (simp_all add: ini_entry_def isspace_def)
  then have "trim ?l = ?l"
    using k by (intro trim_id) (simp add: ini_entry_def)
  moreover have "takeWhile (\<lambda>c. c \<noteq> CHR ''='') ?l = k" "dropWhile (\<lambda>c. c \<noteq> CHR ''='') ?l = ''='' @ v"
    using k(4) by (auto simp: ini_entry_def takeWhile_append dropWhile_append)
  moreover have "?l \<noteq> []" "hd ?l = hd k" "CHR ''='' \<in> set ?l"
    using k(1) by (auto simp: ini_entry_def)
  ultimately show ?thesis
    using assms(1) k by (simp add: ini_line_def Let_def)
qed


lemma om_set_last: "om_ok (data @ [(s, x)]) \<Longrightarrow> om_set s y (data @ [(s, x)]) = data @ [(s, y)]"
  by (induction data) (auto simp: om_ok_def dest: order.asym)

lemma om_ok_snoc: "om_ok (data @ [(s, x)]) \<longleftrightarrow> om_ok data \<and> (\<forall>k \<in> fst ` set data. k < s)"
  by (auto simp: om_ok_def sorted_wrt_append)

lemma om_ok_appendD: "om_ok (a @ b) \<Longrightarrow> om_ok a"
  by (auto simp: om_ok_def sorted_wrt_append)

lemma map_of_fresh: "om_ok (data @ [(s, x)]) \<Longrightarrow> map_of data s = None"
  by (force simp: om_ok_snoc map_of_eq_None_iff)

lemma ini_entries:
  assumes "om_ok (data @ [(sec, [])])" "sec \<noteq> []" "om_ok (acc @ vals)" "acc @ vals \<noteq> []"
    "list_all (\<lambda>(k, v). ini_key k \<and> ini_word v) vals"
  shows "fold ini_line (map ini_entry vals) (sec, if acc = [] then data else data @ [(sec, acc)]) =
    (sec, data @ [(sec, acc @ vals)])"
  using assms(3-)
proof (induction vals arbitrary: acc)
  case (Cons kv vals)
  obtain k v where kv: "kv = (k, v)" by fastforce
  let ?data = "if acc = [] then data else data @ [(sec, acc)]"
  have acc: "om_ok (acc @ [(k, v)])"
    using Cons.prems(1) om_ok_appendD [of "acc @ [(k, v)]" vals] kv by simp
  have "om_set k v acc = acc @ [(k, v)]"
    using acc by (intro om_set_fresh_greatest) (auto simp: om_ok_snoc)
  moreover have "(case om_find ?data sec of None \<Rightarrow> [] | Some vs \<Rightarrow> vs) = acc"
    using map_of_fresh [OF assms(1)] by (auto simp: map_add_def)
  moreover have "om_set sec (acc @ [(k, v)]) ?data = data @ [(sec, acc @ [(k, v)])]"
    using assms(1) by (auto simp: om_ok_snoc om_set_last intro!: om_set_fresh_greatest)
  ultimately have "ini_line (ini_entry kv) (sec, ?data) = (sec, data @ [(sec, acc @ [(k, v)])])"
    using Cons.prems assms(2) kv by (simp add: ini_line_entry del: om_find_def)
  then show ?case
    using Cons.IH [of "acc @ [(k, v)]"] Cons.prems by (simp add: kv)
qed simp

lemma ini_sections:
  assumes "om_ok (prev @ data)"
    "list_all (\<lambda>(sec, values). sec \<noteq> [] \<and> ini_word sec \<and> values \<noteq> [] \<and> om_ok values \<and>
       list_all (\<lambda>(k, v). ini_key k \<and> ini_word v) values) data"
  shows "snd (fold ini_line (concat (map ini_section data)) (cur, prev)) = prev @ data"
  using assms
proof (induction data arbitrary: cur prev)
  case (Cons s data)
  obtain sec vals where s: "s = (sec, vals)" by fastforce
  have "om_ok (prev @ [(sec, [])])"
    using Cons.prems(1) s by (auto simp: om_ok_def sorted_wrt_append)
  then have "fold ini_line (ini_section s) (cur, prev) = (sec, prev @ [s])"
    using Cons.prems(2) s ini_entries [of prev sec "[]" vals]
    by (simp add: ini_section_def ini_line_section [simplified])
  then show ?case
    using Cons.IH [of "prev @ [s]" sec] Cons.prems by simp
qed simp

lemma ini_lines_clean:
  "ini_clean data \<Longrightarrow> list_all (\<lambda>l. CHR 0x0A \<notin> set l) (concat (map ini_section data))"
  by (fastforce simp: ini_clean_def ini_section_def ini_entry_def ini_key_def ini_word_def list_all_iff)

lemma parse_rendered: "ini_clean data \<Longrightarrow> parse_ini (render_ini data) = data"
  using ini_sections [of "[]" data "[]"] getlines_unlines [OF ini_lines_clean]
  by (simp add: parse_ini_def render_ini_def ini_clean_def)

section \<open>Properties\<close>

text \<open>parsing a written configuration gives the data back: on every clean set of sections the
  INI parser is the left inverse of the writer.\<close>

theorem parse_render_ini:
  assumes "ini_clean data"
  shows "parse_ini (render_ini data) = data"
  by (rule parse_rendered [OF assms])

theorem parse_render_ini_witness:
  "parse_ini (render_ini [(''media'', [(''stream_file'', ''a b'')]), (''node'', [(''sip_id'', ''34'')])]) =
     [(''media'', [(''stream_file'', ''a b'')]), (''node'', [(''sip_id'', ''34'')])]"
  by (rule parse_render_ini) (simp add: ini_clean_def om_ok_def ini_key_def ini_word_def trim_def isspace_def)

text \<open>What a loaded configuration satisfies.\<close>

definition config_ok :: "node_config \<Rightarrow> bool" where
  "config_ok c \<longleftrightarrow> nc_configPath c \<noteq> [] \<and> ep_valid (nc_node c) \<and> nc_sipEndpoints c = [nc_node c] \<and>
     list_all pc_valid (nc_peers c) \<and> mc_streamSendIntervalMs (nc_media c) > 0 \<and>
     tc_heartbeatIntervalSeconds (nc_timers c) > 0 \<and> tc_registerRefreshSeconds (nc_timers c) > 0 \<and>
     nc_managementSocketPath c \<noteq> []"

lemma load_peers_valid: "list_all pc_valid (load_peers data)"
  by (auto simp: load_peers_def legacy_peers_def section_peer_def list_all_iff Let_def pc_valid_def
      ep_valid_def split: if_splits)

text \<open>C37: \<open>load\<close> either fails and leaves the configuration as it was, or stores one whose node and
  every peer are valid, with positive timers and send interval and a management socket, whatever the
  file holds; the legacy sections count only when the \<open>node\<close> section, respectively every \<open>peer.\<close>
  section, is missing or invalid.\<close>

theorem load_config_ok:
  "case load_config files path c of
     (True, c') \<Rightarrow> config_ok c' \<and> nc_configPath c' = path \<and>
       (\<exists>contents. files path = Some contents \<and> nc_peers c' = load_peers (parse_ini contents) \<and>
         (if ep_valid (readEndpoint (parse_ini contents) ''node'')
          then nc_node c' = readEndpoint (parse_ini contents) ''node''
          else nc_node c' \<in> (\<lambda>sec. (readEndpoint (parse_ini contents) sec)\<lparr>ep_name := ''node''\<rparr>) ` {''sub'', ''sup''}))
   | (False, c') \<Rightarrow> c' = c"
  by (auto simp: load_config_def config_ok_def load_peers_valid readMediaConfig_def readTimerConfig_def
      choose_node_def new_media_config_def new_timer_config_def Let_def
      split: option.splits if_splits)

end
