(* ===== verification/MediaSession.thy ===== *)
theory MediaSession
  imports RtpPacket ElementaryStream ProgramStream FrameSink CppText
begin

text \<open>
  \<open>MediaSessionInfo\<close> of \<open>src/src/media/MediaManager.{h,cpp}\<close> and the part of \<open>receiveRtpPacket\<close> that
  works on one session: it reassembles RTP payloads up to the marker, demultiplexes them, and
  accumulates a video frame. The state of all sessions is in \<open>MediaManager\<close>.
\<close>

record media_session =
  ms_id :: string
  ms_peerId :: string
  ms_targetDeviceId :: string
  ms_localIp :: string
  ms_localRtpPort :: int
  ms_remoteIp :: string
  ms_remoteRtpPort :: int
  ms_transport :: string
  ms_direction :: string
  ms_ssrc :: string
  ms_callId :: string
  ms_inviteCseq :: string
  ms_remoteContact :: string
  ms_state :: string
  ms_receivedRtpPackets :: u64
  ms_receivedRtpBytes :: u64
  ms_receivedPayloadBytes :: u64
  ms_sentRtpPayloadPackets :: u64
  ms_sentRtpPayloadBytes :: u64
  ms_sentVideoFrames :: u64
  ms_receivedPsPacks :: u64
  ms_receivedPesPackets :: u64
  ms_receivedVideoPesPackets :: u64
  ms_receivedAudioPesPackets :: u64
  ms_receivedPsPayloadBytes :: u64
  ms_receivedVideoNalUnits :: u64
  ms_receivedH264NalUnits :: u64
  ms_receivedH265NalUnits :: u64
  ms_receivedH264Sps :: u64
  ms_receivedH264Pps :: u64
  ms_receivedH264Idr :: u64
  ms_receivedH265Vps :: u64
  ms_receivedH265Sps :: u64
  ms_receivedH265Pps :: u64
  ms_receivedH265Idr :: u64
  ms_completedVideoFrames :: u64
  ms_incompleteVideoFrames :: u64
  ms_incompleteRtpPayloads :: u64
  ms_currentRtpPayloadBytes :: u64
  ms_currentRtpPayloadPackets :: u64
  ms_currentRtpPayloadTimestamp :: u32
  ms_hasCurrentRtpPayload :: bool
  ms_currentRtpPayloadData :: bytes
  ms_currentVideoFrameBytes :: u64
  ms_currentVideoFramePackets :: u64
  ms_lastVideoFrameBytes :: u64
  ms_lastVideoFramePackets :: u64
  ms_currentVideoFrameTimestamp :: u32
  ms_currentVideoFrameCodec :: video_codec
  ms_lastVideoFrameCodec :: video_codec
  ms_currentVideoFrameKey :: bool
  ms_lastVideoFrameKey :: bool
  ms_hasCurrentVideoFrame :: bool
  ms_currentVideoFrameData :: bytes
  ms_lastRtpTimestamp :: u32
  ms_lastRtpSsrc :: u32
  ms_lastRtpSequence :: u16
  ms_outOfOrderRtpPackets :: u64
  ms_hasRtpSequence :: bool

definition new_media_session :: media_session where
  "new_media_session = \<lparr>ms_id = [], ms_peerId = [], ms_targetDeviceId = [], ms_localIp = [], ms_localRtpPort = 0,
     ms_remoteIp = [], ms_remoteRtpPort = 0, ms_transport = [], ms_direction = [], ms_ssrc = [],
     ms_callId = [], ms_inviteCseq = [], ms_remoteContact = [], ms_state = [], ms_receivedRtpPackets = 0,
     ms_receivedRtpBytes = 0, ms_receivedPayloadBytes = 0, ms_sentRtpPayloadPackets = 0,
     ms_sentRtpPayloadBytes = 0, ms_sentVideoFrames = 0, ms_receivedPsPacks = 0, ms_receivedPesPackets =
     0, ms_receivedVideoPesPackets = 0, ms_receivedAudioPesPackets = 0, ms_receivedPsPayloadBytes = 0,
     ms_receivedVideoNalUnits = 0, ms_receivedH264NalUnits = 0, ms_receivedH265NalUnits = 0,
     ms_receivedH264Sps = 0, ms_receivedH264Pps = 0, ms_receivedH264Idr = 0, ms_receivedH265Vps = 0,
     ms_receivedH265Sps = 0, ms_receivedH265Pps = 0, ms_receivedH265Idr = 0, ms_completedVideoFrames = 0,
     ms_incompleteVideoFrames = 0, ms_incompleteRtpPayloads = 0, ms_currentRtpPayloadBytes = 0,
     ms_currentRtpPayloadPackets = 0, ms_currentRtpPayloadTimestamp = 0, ms_hasCurrentRtpPayload = False,
     ms_currentRtpPayloadData = [], ms_currentVideoFrameBytes = 0, ms_currentVideoFramePackets = 0,
     ms_lastVideoFrameBytes = 0, ms_lastVideoFramePackets = 0, ms_currentVideoFrameTimestamp = 0,
     ms_currentVideoFrameCodec = VIDEO_CODEC_UNKNOWN, ms_lastVideoFrameCodec = VIDEO_CODEC_UNKNOWN,
     ms_currentVideoFrameKey = False, ms_lastVideoFrameKey = False, ms_hasCurrentVideoFrame = False,
     ms_currentVideoFrameData = [], ms_lastRtpTimestamp = 0, ms_lastRtpSsrc = 0, ms_lastRtpSequence = 0,
     ms_outOfOrderRtpPackets = 0, ms_hasRtpSequence = False\<rparr>"

section \<open>SSRC texts\<close>

definition uint32ToString :: "u32 \<Rightarrow> string" where
  "uint32ToString v = dec (unat v)"

definition stringToUint32 :: "string \<Rightarrow> u32 option" where
  "stringToUint32 s =
    (if s = [] then None
     else let (n, good, rest) = extract_unsigned (2 ^ 32 - 1) s
       in if \<not> good \<or> rest \<noteq> [] then None else Some (of_nat n))"

lemma stringToUint32_inverse [simp]: "stringToUint32 (uint32ToString v) = Some v"
proof -
  have "unat v \<le> 2 ^ 32 - 1"
    using unsigned_less [of v, where 'a = nat] by simp
  then show ?thesis
    using dec_nonempty by (simp add: stringToUint32_def uint32ToString_def extract_unsigned_dec)
qed

lemma uint32ToString_inject [simp]: "uint32ToString a = uint32ToString b \<longleftrightarrow> a = b"
  by (simp add: uint32ToString_def word_unat_eq_iff)

section \<open>Reassembly of RTP payloads\<close>

definition resetCurrentRtpPayload :: "media_session \<Rightarrow> media_session" where
  "resetCurrentRtpPayload s = s\<lparr>ms_currentRtpPayloadBytes := 0, ms_currentRtpPayloadPackets := 0,
     ms_currentRtpPayloadTimestamp := 0, ms_currentRtpPayloadData := [], ms_hasCurrentRtpPayload := False\<rparr>"

text \<open>What \<open>receiveRtpPacket\<close> records of every packet that passes the SSRC check.\<close>

definition record_packet :: "rtp_packet \<Rightarrow> nat \<Rightarrow> media_session \<Rightarrow> media_session" where
  "record_packet packet packetSize s =
    (let s = (if ms_hasRtpSequence s
              then let expected = ms_lastRtpSequence s + 1
                in if pkt_sequenceNumber packet \<noteq> expected
                   then s\<lparr>ms_outOfOrderRtpPackets := ms_outOfOrderRtpPackets s + 1\<rparr> else s
              else s)
     in s\<lparr>ms_hasRtpSequence := True, ms_lastRtpSequence := pkt_sequenceNumber packet,
          ms_lastRtpTimestamp := pkt_timestamp packet, ms_lastRtpSsrc := pkt_ssrc packet,
          ms_receivedRtpPackets := ms_receivedRtpPackets s + 1,
          ms_receivedRtpBytes := ms_receivedRtpBytes s + of_nat packetSize,
          ms_receivedPayloadBytes := ms_receivedPayloadBytes s + of_nat (length (pkt_payload packet))\<rparr>)"

definition append_payload :: "rtp_packet \<Rightarrow> media_session \<Rightarrow> media_session" where
  "append_payload packet s =
    (let s = (if ms_hasCurrentRtpPayload s \<and> ms_currentRtpPayloadTimestamp s \<noteq> pkt_timestamp packet
              then resetCurrentRtpPayload (s\<lparr>ms_incompleteRtpPayloads := ms_incompleteRtpPayloads s + 1\<rparr>)
              else s);
         s = (if \<not> ms_hasCurrentRtpPayload s
              then s\<lparr>ms_currentRtpPayloadTimestamp := pkt_timestamp packet, ms_hasCurrentRtpPayload := True\<rparr>
              else s)
     in s\<lparr>ms_currentRtpPayloadData := ms_currentRtpPayloadData s @ pkt_payload packet,
          ms_currentRtpPayloadBytes := ms_currentRtpPayloadBytes s + of_nat (length (pkt_payload packet)),
          ms_currentRtpPayloadPackets := ms_currentRtpPayloadPackets s + 1\<rparr>)"

section \<open>The video payloads of a complete RTP payload\<close>

text \<open>The local variables of \<open>receiveRtpPacket\<close> that collect the video PES payloads, and the loop over
  them.\<close>

record video_acc =
  va_videoNalUnits :: u64
  va_h264NalUnits :: u64
  va_h265NalUnits :: u64
  va_h264Sps :: u64
  va_h264Pps :: u64
  va_h264Idr :: u64
  va_h265Vps :: u64
  va_h265Sps :: u64
  va_h265Pps :: u64
  va_h265Idr :: u64
  va_videoFrameBytes :: u64
  va_videoFrameCodec :: video_codec
  va_videoFrameKey :: bool
  va_videoFrameData :: bytes

definition new_video_acc :: video_acc where
  "new_video_acc = \<lparr>va_videoNalUnits = 0, va_h264NalUnits = 0, va_h265NalUnits = 0, va_h264Sps = 0,
     va_h264Pps = 0, va_h264Idr = 0, va_h265Vps = 0, va_h265Sps = 0, va_h265Pps = 0, va_h265Idr = 0,
     va_videoFrameBytes = 0, va_videoFrameCodec = VIDEO_CODEC_UNKNOWN, va_videoFrameKey = False,
     va_videoFrameData = []\<rparr>"

definition account_es :: "es_info \<Rightarrow> bytes \<Rightarrow> video_acc \<Rightarrow> video_acc" where
  "account_es es payload a =
    (let a = a\<lparr>va_videoFrameBytes := va_videoFrameBytes a + of_nat (length payload),
               va_videoFrameData := va_videoFrameData a @ payload,
               va_videoNalUnits := va_videoNalUnits a + of_nat (es_nalUnits es)\<rparr>
     in if es_codec es = VIDEO_CODEC_H264
        then a\<lparr>va_h264NalUnits := va_h264NalUnits a + of_nat (es_nalUnits es),
               va_h264Sps := va_h264Sps a + of_nat (es_h264Sps es),
               va_h264Pps := va_h264Pps a + of_nat (es_h264Pps es),
               va_h264Idr := va_h264Idr a + of_nat (es_h264Idr es),
               va_videoFrameKey := va_videoFrameKey a \<or> es_h264Idr es > 0\<rparr>
        else if es_codec es = VIDEO_CODEC_H265
        then a\<lparr>va_h265NalUnits := va_h265NalUnits a + of_nat (es_nalUnits es),
               va_h265Vps := va_h265Vps a + of_nat (es_h265Vps es),
               va_h265Sps := va_h265Sps a + of_nat (es_h265Sps es),
               va_h265Pps := va_h265Pps a + of_nat (es_h265Pps es),
               va_h265Idr := va_h265Idr a + of_nat (es_h265Idr es),
               va_videoFrameKey := va_videoFrameKey a \<or> es_h265Idr es > 0\<rparr>
        else a)"

fun collect_video :: "bytes list \<Rightarrow> video_acc \<Rightarrow> (string + video_acc) option" where
  "collect_video [] a = Some (Inr a)"
| "collect_video (payload # rest) a =
    (case parseElementaryStream payload of
       None \<Rightarrow> None
     | Some (Stored True es) \<Rightarrow>
         if va_videoFrameCodec a = VIDEO_CODEC_UNKNOWN
         then collect_video rest (account_es es payload (a\<lparr>va_videoFrameCodec := es_codec es\<rparr>))
         else if va_videoFrameCodec a \<noteq> es_codec es
         then Some (Inl ''mixed video codecs in RTP payload'')
         else collect_video rest (account_es es payload a)
     | Some _ \<Rightarrow> Some (Inl ''invalid elementary stream payload''))"

definition add_counters :: "ps_info \<Rightarrow> video_acc \<Rightarrow> media_session \<Rightarrow> media_session" where
  "add_counters ps a s = s\<lparr>
     ms_receivedPsPacks := ms_receivedPsPacks s + of_nat (ps_packHeaders ps),
     ms_receivedPesPackets := ms_receivedPesPackets s + of_nat (ps_pesPackets ps),
     ms_receivedVideoPesPackets := ms_receivedVideoPesPackets s + of_nat (ps_videoPesPackets ps),
     ms_receivedAudioPesPackets := ms_receivedAudioPesPackets s + of_nat (ps_audioPesPackets ps),
     ms_receivedPsPayloadBytes := ms_receivedPsPayloadBytes s + of_nat (ps_pesPayloadBytes ps),
     ms_receivedVideoNalUnits := ms_receivedVideoNalUnits s + va_videoNalUnits a,
     ms_receivedH264NalUnits := ms_receivedH264NalUnits s + va_h264NalUnits a,
     ms_receivedH265NalUnits := ms_receivedH265NalUnits s + va_h265NalUnits a,
     ms_receivedH264Sps := ms_receivedH264Sps s + va_h264Sps a,
     ms_receivedH264Pps := ms_receivedH264Pps s + va_h264Pps a,
     ms_receivedH264Idr := ms_receivedH264Idr s + va_h264Idr a,
     ms_receivedH265Vps := ms_receivedH265Vps s + va_h265Vps a,
     ms_receivedH265Sps := ms_receivedH265Sps s + va_h265Sps a,
     ms_receivedH265Pps := ms_receivedH265Pps s + va_h265Pps a,
     ms_receivedH265Idr := ms_receivedH265Idr s + va_h265Idr a\<rparr>"

definition begin_frame :: "rtp_packet \<Rightarrow> u64 \<Rightarrow> video_acc \<Rightarrow> media_session \<Rightarrow> media_session" where
  "begin_frame packet rtpPacketsInFrame a s =
    (if va_videoFrameBytes a > 0
     then s\<lparr>ms_currentVideoFrameTimestamp := pkt_timestamp packet,
            ms_currentVideoFrameCodec := va_videoFrameCodec a,
            ms_currentVideoFrameBytes := ms_currentVideoFrameBytes s + va_videoFrameBytes a,
            ms_currentVideoFramePackets := ms_currentVideoFramePackets s + rtpPacketsInFrame,
            ms_currentVideoFrameKey := ms_currentVideoFrameKey s \<or> va_videoFrameKey a,
            ms_currentVideoFrameData := ms_currentVideoFrameData s @ va_videoFrameData a,
            ms_hasCurrentVideoFrame := True\<rparr>
     else s)"

definition session_frame :: "media_session \<Rightarrow> media_frame" where
  "session_frame s = \<lparr>fr_sessionId = ms_id s, fr_peerId = ms_peerId s, fr_codec = ms_currentVideoFrameCodec s,
     fr_timestamp = ms_currentVideoFrameTimestamp s, fr_packets = ms_currentVideoFramePackets s,
     fr_keyFrame = ms_currentVideoFrameKey s, fr_data = ms_currentVideoFrameData s\<rparr>"

definition finish_frame :: "media_session \<Rightarrow> media_session" where
  "finish_frame s = s\<lparr>
     ms_completedVideoFrames := ms_completedVideoFrames s + 1,
     ms_lastVideoFrameBytes := ms_currentVideoFrameBytes s,
     ms_lastVideoFramePackets := ms_currentVideoFramePackets s,
     ms_lastVideoFrameCodec := ms_currentVideoFrameCodec s,
     ms_lastVideoFrameKey := ms_currentVideoFrameKey s,
     ms_currentVideoFrameBytes := 0, ms_currentVideoFramePackets := 0,
     ms_currentVideoFrameCodec := VIDEO_CODEC_UNKNOWN, ms_currentVideoFrameKey := False,
     ms_currentVideoFrameData := [], ms_hasCurrentVideoFrame := False\<rparr>"

text \<open>The end of \<open>receiveRtpPacket\<close>, from the complete payload on. The sink is \<open>None\<close> when no sink is
  set; an error leaves the session as it is at that point.\<close>

definition complete_payload ::
  "'s frame_writer \<Rightarrow> rtp_packet \<Rightarrow> bytes \<Rightarrow> u64 \<Rightarrow> media_session \<Rightarrow> 's option \<Rightarrow>
     ((string + unit) \<times> media_session \<times> 's option) option" where
  "complete_payload writeFrame packet completePayload rtpPacketsInFrame s sink =
    (case parseProgramStreamPayload completePayload of
       None \<Rightarrow> None
     | Some (Stored True ps) \<Rightarrow>
         (case collect_video (ps_videoPayloads ps) new_video_acc of
            None \<Rightarrow> None
          | Some (Inl e) \<Rightarrow> Some (Inl e, s, sink)
          | Some (Inr a) \<Rightarrow>
              let s = begin_frame packet rtpPacketsInFrame a (add_counters ps a s)
              in if ms_hasCurrentVideoFrame s \<and> ms_currentVideoFrameBytes s > 0
                 then (case sink of
                     None \<Rightarrow> Some (Inr (), (finish_frame s)\<lparr>ms_state := ''stream-receiving''\<rparr>, None)
                   | Some k \<Rightarrow>
                       (case writeFrame (session_frame s) k of
                          (Inl e, k') \<Rightarrow> Some (Inl e, s, Some k')
                        | (Inr _, k') \<Rightarrow> Some (Inr (), (finish_frame s)\<lparr>ms_state := ''stream-receiving''\<rparr>, Some k')))
                 else Some (Inr (), s\<lparr>ms_state := ''stream-receiving''\<rparr>, sink))
     | Some _ \<Rightarrow> Some (Inl ''invalid PS payload'', s, sink))"

definition session_receive ::
  "'s frame_writer \<Rightarrow> bytes \<Rightarrow> media_session \<Rightarrow> 's option \<Rightarrow>
     ((string + unit) \<times> media_session \<times> 's option) option" where
  "session_receive writeFrame packetBytes s sink =
    (case parseRtpPacket packetBytes of
       None \<Rightarrow> None
     | Some (Stored True packet) \<Rightarrow>
         if ms_ssrc s \<noteq> [] \<and> ms_ssrc s \<noteq> uint32ToString (pkt_ssrc packet)
         then Some (Inl ''RTP SSRC does not match media session'', s, sink)
         else let s = append_payload packet (record_packet packet (length packetBytes) s)
           in if \<not> pkt_marker packet
              then Some (Inr (), s\<lparr>ms_state := ''stream-receiving''\<rparr>, sink)
              else complete_payload writeFrame packet (ms_currentRtpPayloadData s)
                     (ms_currentRtpPayloadPackets s) (resetCurrentRtpPayload s) sink
     | Some _ \<Rightarrow> Some (Inl ''invalid RTP packet'', s, sink))"

section \<open>Receiving is defined\<close>

lemma parse_es_defined: "\<exists>r. parseElementaryStream bs = Some r"
  using es_loop_safe by (auto simp: parseElementaryStream_def)
lemma parse_ps_defined: "\<exists>r. parseProgramStreamPayload bs = Some r"
  using ps_loop_safe by (auto simp: parseProgramStreamPayload_def)
lemma parse_rtp_defined: "\<exists>r. parseRtpPacket bs = Some r"
proof (cases "12 \<le> length bs")
  case True
  obtain o1 where "rtp_payload_offset bs (bs ! 0) = Some o1"
    using rtp_payload_offset_safe by blast
  with True show ?thesis
    by (cases rule: parse_shape) auto
qed (simp add: parseRtpPacket_def)

lemma collect_video_safe: "\<exists>r. collect_video payloads a = Some r"
proof (induction payloads arbitrary: a)
  case (Cons p payloads)
  obtain r where "parseElementaryStream p = Some r"
    using parse_es_defined by blast
  then show ?case
    using Cons.IH by (auto split: parsed.split bool.split)
qed simp

lemma complete_payload_safe: "\<exists>r. complete_payload w packet bs n s k = Some r"
proof -
  obtain r where r: "parseProgramStreamPayload bs = Some r"
    using parse_ps_defined by blast
  show ?thesis
  proof (cases r)
    case (Stored b ps)
    obtain c where "collect_video (ps_videoPayloads ps) new_video_acc = Some c"
      using collect_video_safe by blast
    then show ?thesis
      using r Stored
      by (cases c; cases b) (auto simp: complete_payload_def Let_def split: option.split prod.split sum.split)
  qed (simp add: complete_payload_def r)
qed

lemma session_receive_safe: "\<exists>r. session_receive w bs s k = Some r"
proof -
  obtain r where r: "parseRtpPacket bs = Some r"
    using parse_rtp_defined by blast
  then show ?thesis
    using complete_payload_safe
    by (auto simp: session_receive_def Let_def split: parsed.split bool.split)
qed

section \<open>Invariant of a receiving session\<close>

text \<open>Without a payload in progress nothing is kept of one, the byte counts are the lengths of the
  buffers, and a frame in progress is only left over by a failed write.\<close>

definition reassembly_ok :: "media_session \<Rightarrow> bool" where
  "reassembly_ok s \<longleftrightarrow>
     ms_currentRtpPayloadBytes s = of_nat (length (ms_currentRtpPayloadData s)) \<and>
     ms_currentVideoFrameBytes s = of_nat (length (ms_currentVideoFrameData s)) \<and>
     (ms_hasCurrentRtpPayload s \<or> ms_currentRtpPayloadData s = [] \<and> ms_currentRtpPayloadPackets s = 0) \<and>
     (ms_hasCurrentVideoFrame s \<or> ms_currentVideoFrameData s = [] \<and> ms_currentVideoFramePackets s = 0 \<and>
       \<not> ms_currentVideoFrameKey s)"

lemma reassembly_ok_new: "reassembly_ok new_media_session"
  by (simp add: reassembly_ok_def new_media_session_def)

lemma reassembly_ok_record [simp]: "reassembly_ok (record_packet p n s) = reassembly_ok s"
  by (simp add: reassembly_ok_def record_packet_def Let_def)

lemma reassembly_ok_reset: "reassembly_ok s \<Longrightarrow> reassembly_ok (resetCurrentRtpPayload s)"
  by (simp add: reassembly_ok_def resetCurrentRtpPayload_def)

lemma reassembly_ok_append: "reassembly_ok s \<Longrightarrow> reassembly_ok (append_payload p s)"
  by (auto simp: reassembly_ok_def append_payload_def resetCurrentRtpPayload_def Let_def)

lemma account_es_bytes:
  "va_videoFrameBytes a = of_nat (length (va_videoFrameData a)) \<Longrightarrow>
     va_videoFrameBytes (account_es es p a) = of_nat (length (va_videoFrameData (account_es es p a)))"
  by (simp add: account_es_def Let_def)

lemma collect_video_bytes:
  "collect_video ps a = Some (Inr a') \<Longrightarrow> va_videoFrameBytes a = of_nat (length (va_videoFrameData a)) \<Longrightarrow>
     va_videoFrameBytes a' = of_nat (length (va_videoFrameData a'))"
proof (induction ps arbitrary: a)
  case (Cons p ps)
  then obtain es b where "collect_video ps (account_es es p b) = Some (Inr a')"
    "va_videoFrameBytes b = of_nat (length (va_videoFrameData b))"
    by (auto split: option.splits parsed.splits bool.splits if_splits)
  then show ?case
    using Cons.IH account_es_bytes by blast
qed simp

lemma reassembly_ok_frame:
  assumes "reassembly_ok s" "va_videoFrameBytes a = of_nat (length (va_videoFrameData a))"
  shows "reassembly_ok (begin_frame p n a (add_counters ps a s))"
  using assms by (auto simp: reassembly_ok_def begin_frame_def add_counters_def)

lemma reassembly_ok_finish: "reassembly_ok s \<Longrightarrow> reassembly_ok ((finish_frame s)\<lparr>ms_state := st\<rparr>)"
  by (simp add: reassembly_ok_def finish_frame_def)

lemma reassembly_ok_state: "reassembly_ok s \<Longrightarrow> reassembly_ok (s\<lparr>ms_state := st\<rparr>)"
  by (simp add: reassembly_ok_def)

lemma complete_payload_ok:
  assumes "reassembly_ok s" "complete_payload w packet bs n s k = Some (r, s', k')"
  shows "reassembly_ok s'"
proof -
  have bytes: "collect_video ps new_video_acc = Some (Inr a) \<Longrightarrow> va_videoFrameBytes a = of_nat (length (va_videoFrameData a))" for ps a
    by (rule collect_video_bytes) (auto simp: new_video_acc_def)
  have "reassembly_ok (begin_frame packet n a (add_counters ps a s))"
    if "collect_video (ps_videoPayloads ps) new_video_acc = Some (Inr a)" for ps a
    using assms(1) bytes [OF that] by (rule reassembly_ok_frame)
  then show ?thesis
    using assms
    by (auto simp: complete_payload_def Let_def reassembly_ok_finish reassembly_ok_state
        split: option.splits parsed.splits bool.splits sum.splits prod.splits if_splits)
qed

lemma session_receive_ok:
  assumes "reassembly_ok s" "session_receive w bs s k = Some (r, s', k')"
  shows "reassembly_ok s'"
proof -
  have *: "reassembly_ok (append_payload p (record_packet p n s))" for p n
    using assms(1) by (simp add: reassembly_ok_append)
  show ?thesis
    using assms * complete_payload_ok [OF reassembly_ok_reset [OF *]]
    by (auto simp: session_receive_def Let_def reassembly_ok_state
        split: option.splits parsed.splits bool.splits if_splits)
qed

section \<open>Receiving a burst\<close>

fun receive_all ::
  "'s frame_writer \<Rightarrow> bytes list \<Rightarrow> media_session \<Rightarrow> 's option \<Rightarrow>
     ((string + unit) list \<times> media_session \<times> 's option) option" where
  "receive_all w [] s k = Some ([], s, k)"
| "receive_all w (b # bs) s k =
    (case session_receive w b s k of None \<Rightarrow> None
     | Some (r, s', k') \<Rightarrow> map_option (\<lambda>(rs, s'', k''). (r # rs, s'', k'')) (receive_all w bs s' k'))"

text \<open>The fields of a session that the reassembly of RTP payloads leaves alone.\<close>

definition frame_view :: "media_session \<Rightarrow> string \<times> string \<times> string \<times> u64 \<times> u64 \<times> bool \<times> bool \<times> bytes \<times> u64" where
  "frame_view s = (ms_id s, ms_peerId s, ms_ssrc s, ms_currentVideoFrameBytes s, ms_currentVideoFramePackets s,
     ms_currentVideoFrameKey s, ms_hasCurrentVideoFrame s, ms_currentVideoFrameData s, ms_completedVideoFrames s)"

lemma frame_view_steps [simp]:
  "frame_view (record_packet p n s) = frame_view s"
  "frame_view (append_payload p s) = frame_view s"
  "frame_view (resetCurrentRtpPayload s) = frame_view s"
  "frame_view (s\<lparr>ms_state := st\<rparr>) = frame_view s"
  by (simp_all add: frame_view_def record_packet_def append_payload_def resetCurrentRtpPayload_def Let_def)

text \<open>\<open>collecting s T n data\<close>: \<open>n\<close> packets with time stamp \<open>T\<close> and joint payload \<open>data\<close> have arrived.\<close>

definition collecting :: "media_session \<Rightarrow> u32 \<Rightarrow> nat \<Rightarrow> bytes \<Rightarrow> bool" where
  "collecting s T n data \<longleftrightarrow> ms_currentRtpPayloadData s = data \<and> ms_currentRtpPayloadPackets s = of_nat n \<and>
     (if n = 0 then \<not> ms_hasCurrentRtpPayload s
      else ms_hasCurrentRtpPayload s \<and> ms_currentRtpPayloadTimestamp s = T)"

lemma collecting_append:
  "collecting s T n data \<Longrightarrow> pkt_timestamp p = T \<Longrightarrow>
     collecting (append_payload p (record_packet p m s)) T (Suc n) (data @ pkt_payload p)"
  by (auto simp: collecting_def append_payload_def record_packet_def resetCurrentRtpPayload_def Let_def split: if_splits)

lemma collecting_state [simp]: "collecting (s\<lparr>ms_state := st\<rparr>) T n data = collecting s T n data"
  by (simp add: collecting_def)

definition ssrc_accepted :: "media_session \<Rightarrow> u32 \<Rightarrow> bool" where
  "ssrc_accepted s ssrc \<longleftrightarrow> ms_ssrc s = [] \<or> ms_ssrc s = uint32ToString ssrc"

lemma ssrc_accepted_view: "frame_view s = frame_view s' \<Longrightarrow> ssrc_accepted s c = ssrc_accepted s' c"
  by (simp add: frame_view_def ssrc_accepted_def)

lemma session_receive_middle:
  assumes "parseRtpPacket b = Some (Stored True p)" "\<not> pkt_marker p" "pkt_timestamp p = T"
    "ssrc_accepted s (pkt_ssrc p)" "collecting s T n data"
  obtains s' where "session_receive w b s k = Some (Inr (), s', k)" "collecting s' T (Suc n) (data @ pkt_payload p)"
    "frame_view s' = frame_view s"
  using assms collecting_append [OF assms(5), of p "length b"]
  by (intro that [of "(append_payload p (record_packet p (length b) s))\<lparr>ms_state := ''stream-receiving''\<rparr>"])
    (auto simp: session_receive_def ssrc_accepted_def Let_def)

text \<open>The marker packet hands the joint payload to the demultiplexer.\<close>

lemma session_receive_last:
  assumes "parseRtpPacket b = Some (Stored True p)" "pkt_marker p" "pkt_timestamp p = T"
    "ssrc_accepted s (pkt_ssrc p)" "collecting s T n data"
  obtains s' where
    "session_receive w b s k = complete_payload w p (data @ pkt_payload p) (of_nat (Suc n)) s' k"
    "frame_view s' = frame_view s" "collecting s' T' 0 []"
proof (rule that [of "resetCurrentRtpPayload (append_payload p (record_packet p (length b) s))"])
  have "collecting (append_payload p (record_packet p (length b) s)) T (Suc n) (data @ pkt_payload p)"
    using collecting_append assms(3,5) by blast
  then show "session_receive w b s k = complete_payload w p (data @ pkt_payload p) (of_nat (Suc n))
      (resetCurrentRtpPayload (append_payload p (record_packet p (length b) s))) k"
    using assms by (auto simp: session_receive_def ssrc_accepted_def Let_def collecting_def)
  show "collecting (resetCurrentRtpPayload (append_payload p (record_packet p (length b) s))) T' 0 []"
    by (simp add: collecting_def resetCurrentRtpPayload_def)
qed simp

lemma receive_all_burst:
  assumes "cs \<noteq> []" "map parseRtpPacket bs = map (\<lambda>p. Some (Stored True p)) (burst opts q cs)"
    "ssrc_accepted s (opt_ssrc opts)" "collecting s (opt_timestamp opts) n data"
  obtains s' p where "frame_view s' = frame_view s" "collecting s' T' 0 []" "pkt_timestamp p = opt_timestamp opts"
    "receive_all w bs s k =
       map_option (\<lambda>(r, s'', k'). (replicate (length cs - 1) (Inr ()) @ [r], s'', k'))
         (complete_payload w p (data @ concat cs) (of_nat (n + length cs)) s' k)"
  using assms
proof (induction cs arbitrary: bs q s n data thesis)
  case (Cons c cs)
  let ?p = "\<lparr>pkt_marker = (cs = []), pkt_payloadType = opt_payloadType opts AND 0x7f, pkt_sequenceNumber = q,
    pkt_timestamp = opt_timestamp opts, pkt_ssrc = opt_ssrc opts, pkt_payload = c\<rparr>"
  obtain b bs' where bs: "bs = b # bs'" "parseRtpPacket b = Some (Stored True ?p)"
    "map parseRtpPacket bs' = map (\<lambda>p. Some (Stored True p)) (burst opts (q + 1) cs)"
    using Cons.prems(3) by auto
  show ?case
  proof (cases "cs = []")
    case True
    obtain s' where s': "session_receive w b s k = complete_payload w ?p (data @ c) (of_nat (Suc n)) s' k"
      "frame_view s' = frame_view s" "collecting s' T' 0 []"
      using True session_receive_last [OF bs(2) _ _ _ Cons.prems(5), of w k T'] Cons.prems(4)
      by (auto simp: add.commute)
    show ?thesis
    proof (rule Cons.prems(1) [of s' ?p])
      show "receive_all w bs s k = map_option (\<lambda>(r, s'', k'). (replicate (length (c # cs) - 1) (Inr ()) @ [r], s'', k'))
         (complete_payload w ?p (data @ concat (c # cs)) (of_nat (n + length (c # cs))) s' k)"
        using True bs s'(1) by (auto split: option.split simp: add.commute)
    qed (use s' in auto)
  next
    case False
    obtain s1 where s1: "session_receive w b s k = Some (Inr (), s1, k)"
      "collecting s1 (opt_timestamp opts) (Suc n) (data @ c)" "frame_view s1 = frame_view s"
      using False session_receive_middle [OF bs(2) _ _ _ Cons.prems(5), of w k] Cons.prems(4) by auto
    have acc: "ssrc_accepted s1 (opt_ssrc opts)"
      using Cons.prems(4) ssrc_accepted_view [OF s1(3)] by simp
    obtain s' p where ih: "frame_view s' = frame_view s1" "collecting s' T' 0 []" "pkt_timestamp p = opt_timestamp opts"
      "receive_all w bs' s1 k = map_option (\<lambda>(r, s'', k'). (replicate (length cs - 1) (Inr ()) @ [r], s'', k'))
         (complete_payload w p ((data @ c) @ concat cs) (of_nat (Suc n + length cs)) s' k)"
      using Cons.IH [OF _ False bs(3) acc s1(2)] by blast
    have "replicate (length (c # cs) - 1) (Inr () :: string + unit) = Inr () # replicate (length cs - 1) (Inr ())"
      using False by (cases cs) auto
    then show ?thesis
      using Cons.prems(1) [of s' p] ih s1 bs(1)
      by (auto simp: option.map_comp comp_def split_beta)
  qed
qed simp

section \<open>Receiving what the sender builds\<close>

definition es_key :: "es_info \<Rightarrow> bool" where
  "es_key es \<longleftrightarrow> (es_codec es = VIDEO_CODEC_H264 \<and> es_h264Idr es > 0) \<or>
     (es_codec es = VIDEO_CODEC_H265 \<and> es_h265Idr es > 0)"

definition no_frame :: "media_session \<Rightarrow> bool" where
  "no_frame s \<longleftrightarrow> ms_currentVideoFrameBytes s = 0 \<and> ms_currentVideoFramePackets s = 0 \<and>
     \<not> ms_currentVideoFrameKey s \<and> \<not> ms_hasCurrentVideoFrame s \<and> ms_currentVideoFrameData s = []"

definition the_frame :: "media_session \<Rightarrow> es_info \<Rightarrow> u32 \<Rightarrow> nat \<Rightarrow> bytes \<Rightarrow> media_frame" where
  "the_frame s es timestamp n v = \<lparr>fr_sessionId = ms_id s, fr_peerId = ms_peerId s, fr_codec = es_codec es,
     fr_timestamp = timestamp, fr_packets = of_nat n, fr_keyFrame = es_key es, fr_data = v\<rparr>"

lemma of_nat_u64_eq_0: "n < 2 ^ 64 \<Longrightarrow> (of_nat n :: u64) = 0 \<longleftrightarrow> n = 0"
proof -
  assume "n < 2 ^ 64"
  then have "unat (of_nat n :: u64) = n" by (simp add: unat_of_nat take_bit_nat_eq_self)
  then show ?thesis by (metis unat_eq_zero)
qed

lemma collect_video_one:
  assumes "parseElementaryStream v = Some (Stored True es)"
  obtains a where "collect_video [v] new_video_acc = Some (Inr a)" "va_videoFrameBytes a = of_nat (length v)"
    "va_videoFrameData a = v" "va_videoFrameCodec a = es_codec es" "va_videoFrameKey a = es_key es"
  using assms
  by (intro that [of "account_es es v (new_video_acc\<lparr>va_videoFrameCodec := es_codec es\<rparr>)"])
    (auto simp: new_video_acc_def account_es_def es_key_def Let_def)

lemma complete_payload_sample:
  assumes "parseElementaryStream v = Some (Stored True es)" "v \<noteq> []" "length v < 2 ^ 64" "no_frame s"
    "\<And>q. k = Some q \<Longrightarrow> fst (w (the_frame s es (pkt_timestamp p) n v) q) = Inr ()"
  obtains s' where
    "complete_payload w p (buildProgramStreamSample v) (of_nat n) s k =
       Some (Inr (), s', map_option (\<lambda>q. snd (w (the_frame s es (pkt_timestamp p) n v) q)) k)"
    "no_frame s'" "ms_completedVideoFrames s' = ms_completedVideoFrames s + 1"
    "ms_lastVideoFrameBytes s' = of_nat (length v)" "ms_lastVideoFramePackets s' = of_nat n"
    "ms_lastVideoFrameCodec s' = es_codec es" "ms_lastVideoFrameKey s' = es_key es"
    "collecting s' 0 0 [] = collecting s 0 0 []" "ms_state s' = ''stream-receiving''"
proof -
  obtain ps where ps: "parseProgramStreamPayload (buildProgramStreamSample v) = Some (Stored True ps)"
    "ps_videoPayloads ps = [v]"
    using parse_built_sample by auto
  obtain a where a: "collect_video [v] new_video_acc = Some (Inr a)" "va_videoFrameBytes a = of_nat (length v)"
    "va_videoFrameData a = v" "va_videoFrameCodec a = es_codec es" "va_videoFrameKey a = es_key es"
    using collect_video_one assms(1) by blast
  have pos: "(of_nat (length v) :: u64) > 0"
    using assms(2,3) by (simp add: word_gt_0 of_nat_u64_eq_0)
  define s1 where "s1 = begin_frame p (of_nat n) a (add_counters ps a s)"
  have s1: "ms_hasCurrentVideoFrame s1" "ms_currentVideoFrameBytes s1 > 0"
    "session_frame s1 = the_frame s es (pkt_timestamp p) n v"
    using a assms(4) pos
    by (simp_all add: s1_def begin_frame_def add_counters_def session_frame_def the_frame_def no_frame_def)
  have "complete_payload w p (buildProgramStreamSample v) (of_nat n) s k =
       Some (Inr (), (finish_frame s1)\<lparr>ms_state := ''stream-receiving''\<rparr>,
         map_option (\<lambda>q. snd (w (the_frame s es (pkt_timestamp p) n v) q)) k)"
    using a(1) s1 assms(5)
    by (cases k) (auto simp: complete_payload_def ps Let_def s1_def [symmetric] simp del: collect_video.simps
        split: prod.split sum.split)
  then show thesis
    by (rule that) (use a assms(4) pos in \<open>simp_all add: collecting_def no_frame_def finish_frame_def s1_def begin_frame_def add_counters_def\<close>)
qed

lemma the_frame_view: "frame_view s = frame_view s' \<Longrightarrow> the_frame s = the_frame s'"
  by (simp add: frame_view_def the_frame_def fun_eq_iff)

lemma no_frame_view: "frame_view s = frame_view s' \<Longrightarrow> no_frame s = no_frame s'"
  by (auto simp: frame_view_def no_frame_def)

text \<open>A session between frames: no RTP payload and no video frame in progress.\<close>

definition between_frames :: "media_session \<Rightarrow> bool" where
  "between_frames s \<longleftrightarrow> no_frame s \<and> collecting s 0 0 []"

lemma collecting_0: "collecting s T 0 [] = collecting s T' 0 []"
  by (simp add: collecting_def)

lemma receive_burst:
  assumes "parseElementaryStream v = Some (Stored True es)" "length v < 2 ^ 64"
    "map parseRtpPacket bs = map (\<lambda>p. Some (Stored True p)) (burst opts q (chunks (opt_maxPayloadBytes opts) (buildProgramStreamSample v)))"
    "0 < opt_maxPayloadBytes opts"
    "ssrc_accepted s (opt_ssrc opts)" "between_frames s"
    "\<And>q. k = Some q \<Longrightarrow> fst (w (the_frame s es (opt_timestamp opts) (length bs) v) q) = Inr ()"
  obtains s' where
    "receive_all w bs s k = Some (replicate (length bs) (Inr ()), s',
       map_option (\<lambda>q. snd (w (the_frame s es (opt_timestamp opts) (length bs) v) q)) k)"
    "between_frames s'" "ms_completedVideoFrames s' = ms_completedVideoFrames s + 1"
    "ms_lastVideoFrameBytes s' = of_nat (length v)" "ms_lastVideoFramePackets s' = of_nat (length bs)"
    "ms_lastVideoFrameCodec s' = es_codec es" "ms_lastVideoFrameKey s' = es_key es"
    "ms_state s' = ''stream-receiving''"
proof -
  let ?ps = "buildProgramStreamSample v" and ?m = "opt_maxPayloadBytes opts"
  note bs = assms(3) and m = assms(4)
  have ne: "v \<noteq> []"
    using assms(1) by (auto simp: parseElementaryStream_def)
  have ne': "?ps \<noteq> []"
    by (simp add: buildProgramStreamSample_def packHeader_def Let_def)
  have len: "length (chunks ?m ?ps) = length bs"
    using bs by (metis length_burst length_map)
  have cs: "chunks ?m ?ps \<noteq> []" "collecting s (opt_timestamp opts) 0 []"
    using m ne' assms(6) collecting_0 by (auto simp: between_frames_def)
  obtain s1 p where s1: "frame_view s1 = frame_view s" "collecting s1 0 0 []" "pkt_timestamp p = opt_timestamp opts"
    and "receive_all w bs s k = map_option (\<lambda>(r, s'', k'). (replicate (length (chunks ?m ?ps) - 1) (Inr ()) @ [r], s'', k'))
         (complete_payload w p ([] @ concat (chunks ?m ?ps)) (of_nat (0 + length (chunks ?m ?ps))) s1 k)"
    by (rule receive_all_burst [OF cs(1) bs assms(5) cs(2), where T' = 0 and w = w and k = k])
  then have all: "receive_all w bs s k = map_option (\<lambda>(r, s'', k'). (replicate (length bs - 1) (Inr ()) @ [r], s'', k'))
         (complete_payload w p ?ps (of_nat (length bs)) s1 k)"
    by (simp only: len append_Nil add_0 concat_chunks [OF m])
  have f: "the_frame s1 = the_frame s" "no_frame s1"
    using the_frame_view [OF s1(1)] no_frame_view [OF s1(1)] assms(6) by (simp_all add: between_frames_def)
  have sink: "\<And>q. k = Some q \<Longrightarrow> fst (w (the_frame s1 es (pkt_timestamp p) (length bs) v) q) = Inr ()"
    using assms(7) f s1(3) by simp
  obtain s' where s': "complete_payload w p ?ps (of_nat (length bs)) s1 k =
       Some (Inr (), s', map_option (\<lambda>q. snd (w (the_frame s1 es (pkt_timestamp p) (length bs) v) q)) k)"
    "no_frame s'" "ms_completedVideoFrames s' = ms_completedVideoFrames s1 + 1"
    "ms_lastVideoFrameBytes s' = of_nat (length v)" "ms_lastVideoFramePackets s' = of_nat (length bs)"
    "ms_lastVideoFrameCodec s' = es_codec es" "ms_lastVideoFrameKey s' = es_key es"
    "collecting s' 0 0 [] = collecting s1 0 0 []" "ms_state s' = ''stream-receiving''"
    by (rule complete_payload_sample [where w = w and k = k and p = p and n = "length bs", OF assms(1) ne assms(2) f(2) sink])
  have "replicate (length bs - 1) (Inr () :: string + unit) @ [Inr ()] = replicate (length bs) (Inr ())"
    using cs(1) len by (cases "length bs") (simp_all add: replicate_append_same)
  then have final: "receive_all w bs s k = Some (replicate (length bs) (Inr ()), s',
       map_option (\<lambda>q. snd (w (the_frame s es (opt_timestamp opts) (length bs) v) q)) k)"
    unfolding all s'(1) f(1) s1(3) by simp
  have "ms_completedVideoFrames s1 = ms_completedVideoFrames s"
    using s1(1) by (simp add: frame_view_def)
  then show thesis
    using s' s1(2) by (intro that [OF final]) (simp_all add: between_frames_def)
qed

lemma receive_packetized:
  assumes "parseElementaryStream v = Some (Stored True es)" "length v < 2 ^ 64"
    "packetizeRtpPayload (buildProgramStreamSample v) opts = Stored True bs"
    "ssrc_accepted s (opt_ssrc opts)" "between_frames s"
    "\<And>q. k = Some q \<Longrightarrow> fst (w (the_frame s es (opt_timestamp opts) (length bs) v) q) = Inr ()"
  obtains s' where
    "receive_all w bs s k = Some (replicate (length bs) (Inr ()), s',
       map_option (\<lambda>q. snd (w (the_frame s es (opt_timestamp opts) (length bs) v) q)) k)"
    "between_frames s'" "ms_completedVideoFrames s' = ms_completedVideoFrames s + 1"
    "ms_lastVideoFrameBytes s' = of_nat (length v)" "ms_lastVideoFramePackets s' = of_nat (length bs)"
    "ms_lastVideoFrameCodec s' = es_codec es" "ms_lastVideoFrameKey s' = es_key es"
    "ms_state s' = ''stream-receiving''"
proof -
  have m: "0 < opt_maxPayloadBytes opts" and ne: "buildProgramStreamSample v \<noteq> []"
    using assms(3) by (auto simp: packetizeRtpPayload_def split: if_splits)
  have "map parseRtpPacket bs = map (\<lambda>p. Some (Stored True p))
      (burst opts (opt_firstSequenceNumber opts) (chunks (opt_maxPayloadBytes opts) (buildProgramStreamSample v)))"
    using packetize_parsed [OF ne m] assms(3) by auto
  from receive_burst [where w = w and k = k, OF assms(1,2) this m assms(4-6)] that show thesis by blast
qed

end
