(* ===== verification/MediaManager.thy ===== *)
theory MediaManager
  imports MediaSession RtpSession NodeConfig
begin

text \<open>
  \<open>src/src/media/MediaManager.{h,cpp}\<close>: the RTP port pool, the table of media sessions, the RTP session
  adapters and the frame sink. Every operation takes the state and returns it updated; a \<open>bool\<close>
  result with an error text is \<open>string + unit\<close>. The adapters and the sink are abstract classes: their
  functions are the parameters \<open>ops\<close> and \<open>writeFrame\<close>, their states are \<open>'a\<close> and \<open>'s\<close>.
  Guards against null output pointers and null adapters have no counterpart. An arriving packet is
  the operation \<open>receiveRtpPacket\<close>: the closure \<open>startRtpSessionAdapter\<close> hands to the adapter does
  nothing else.
\<close>

record ('a, 's) media_manager =
  mm_availablePorts :: "int list"
  mm_availablePortSet :: "int set"
  mm_allocatedPorts :: "int set"
  mm_sessions :: "(string, media_session) omap"
  mm_rtpSessionAdapters :: "(string, 'a) omap"
  mm_frameSink :: "'s option"

definition new_media_manager :: "('a, 's) media_manager" where
  "new_media_manager = \<lparr>mm_availablePorts = [], mm_availablePortSet = {}, mm_allocatedPorts = {},
     mm_sessions = [], mm_rtpSessionAdapters = [], mm_frameSink = None\<rparr>"

section \<open>The port pool\<close>

text \<open>The loop over one endpoint's range; \<open>None\<close> is the overflow of \<open>int\<close> in \<open>port += 2\<close> or \<open>++begin\<close>.\<close>

function port_loop :: "int \<Rightarrow> int \<Rightarrow> int list option" where
  "port_loop port hi =
    (if port > hi then Some []
     else if port + 2 > INT_MAX then None
     else map_option (\<lambda>ps. port # ps) (port_loop (port + 2) hi))"
  by pat_completeness auto
termination by (relation "measure (\<lambda>(port, hi). nat (hi + 1 - port))") auto

declare port_loop.simps [simp del]

definition range_ports :: "endpoint_config \<Rightarrow> int list option" where
  "range_ports e =
    (let first = ep_rtpPortBegin e; hi = ep_rtpPortEnd e
     in if first \<le> 0 \<or> hi \<le> 0 \<or> first > hi then Some []
        else if first mod 2 \<noteq> 0
        then (if first + 1 > INT_MAX then None else port_loop (first + 1) hi)
        else port_loop first hi)"

definition config_ports :: "endpoint_config list \<Rightarrow> int list option" where
  "config_ports endpoints = map_option (\<lambda>rs. sort (remdups (concat rs))) (those (map range_ports endpoints))"

text \<open>\<open>configure\<close> stops and destroys the running adapters before it drops them; the destroyed
  objects are not part of the state.\<close>

definition mm_configure ::
  "endpoint_config list \<Rightarrow> ('a, 's) media_manager \<Rightarrow> (bool \<times> ('a, 's) media_manager) option" where
  "mm_configure endpoints mm =
    (case config_ports endpoints of None \<Rightarrow> None
     | Some ports \<Rightarrow>
         Some (ports \<noteq> [], mm\<lparr>mm_availablePorts := ports, mm_availablePortSet := set ports,
           mm_allocatedPorts := {}, mm_rtpSessionAdapters := [], mm_sessions := []\<rparr>))"

definition setFrameSink :: "'s option \<Rightarrow> ('a, 's) media_manager \<Rightarrow> ('a, 's) media_manager" where
  "setFrameSink sink mm = mm\<lparr>mm_frameSink := sink\<rparr>"

fun pop_port :: "int list \<Rightarrow> ('a, 's) media_manager \<Rightarrow> int \<times> ('a, 's) media_manager" where
  "pop_port [] mm = (0, mm\<lparr>mm_availablePorts := []\<rparr>)"
| "pop_port (port # rest) mm =
     (if port \<notin> mm_availablePortSet mm then pop_port rest mm
      else (port, mm\<lparr>mm_availablePorts := rest, mm_availablePortSet := mm_availablePortSet mm - {port},
                     mm_allocatedPorts := insert port (mm_allocatedPorts mm)\<rparr>))"

definition allocateRtpPort :: "('a, 's) media_manager \<Rightarrow> int \<times> ('a, 's) media_manager" where
  "allocateRtpPort mm = pop_port (mm_availablePorts mm) mm"

definition releaseRtpPort :: "int \<Rightarrow> ('a, 's) media_manager \<Rightarrow> ('a, 's) media_manager" where
  "releaseRtpPort port mm =
    (if port \<le> 0 then mm
     else if port \<in> mm_allocatedPorts mm
     then (let mm = mm\<lparr>mm_allocatedPorts := mm_allocatedPorts mm - {port}\<rparr>
           in if port \<notin> mm_availablePortSet mm
              then mm\<lparr>mm_availablePortSet := insert port (mm_availablePortSet mm),
                      mm_availablePorts := mm_availablePorts mm @ [port]\<rparr>
              else mm)
     else mm)"

definition availablePortCount :: "('a, 's) media_manager \<Rightarrow> nat" where
  "availablePortCount mm = card (mm_availablePortSet mm)"

section \<open>Sessions\<close>

definition createSession :: "media_session \<Rightarrow> ('a, 's) media_manager \<Rightarrow> bool \<times> ('a, 's) media_manager" where
  "createSession session mm =
    (if ms_id session = [] \<or> ms_localRtpPort session \<le> 0 then (False, mm)
     else if ms_localRtpPort session \<notin> mm_allocatedPorts mm then (False, mm)
     else let mm = (case om_find (mm_sessions mm) (ms_id session) of
              None \<Rightarrow> mm
            | Some existing \<Rightarrow>
                if ms_localRtpPort existing \<noteq> ms_localRtpPort session
                then releaseRtpPort (ms_localRtpPort existing) mm else mm)
       in (True, mm\<lparr>mm_sessions := om_set (ms_id session) session (mm_sessions mm)\<rparr>))"

definition updateSession :: "media_session \<Rightarrow> ('a, 's) media_manager \<Rightarrow> bool \<times> ('a, 's) media_manager" where
  "updateSession session mm =
    (case om_find (mm_sessions mm) (ms_id session) of
       None \<Rightarrow> (False, mm)
     | Some existing \<Rightarrow>
         if ms_localRtpPort session \<le> 0 \<or> ms_localRtpPort existing \<noteq> ms_localRtpPort session then (False, mm)
         else (True, mm\<lparr>mm_sessions := om_set (ms_id session) session (mm_sessions mm)\<rparr>))"

definition findSession :: "string \<Rightarrow> ('a, 's) media_manager \<Rightarrow> media_session option" where
  "findSession sessionId mm = om_find (mm_sessions mm) sessionId"

definition updateSessionState ::
  "string \<Rightarrow> string \<Rightarrow> ('a, 's) media_manager \<Rightarrow> bool \<times> ('a, 's) media_manager" where
  "updateSessionState sessionId state mm =
    (case om_find (mm_sessions mm) sessionId of
       None \<Rightarrow> (False, mm)
     | Some s \<Rightarrow> (True, mm\<lparr>mm_sessions := om_set sessionId (s\<lparr>ms_state := state\<rparr>) (mm_sessions mm)\<rparr>))"

definition sessionSnapshot :: "('a, 's) media_manager \<Rightarrow> media_session list" where
  "sessionSnapshot mm = map snd (mm_sessions mm)"

definition sessionCount :: "('a, 's) media_manager \<Rightarrow> nat" where
  "sessionCount mm = length (mm_sessions mm)"

section \<open>RTP session adapters\<close>

definition startRtpSessionAdapter ::
  "'a rtp_adapter_ops \<Rightarrow> string \<Rightarrow> 'a \<Rightarrow> ('a, 's) media_manager \<Rightarrow> (string + unit) \<times> ('a, 's) media_manager" where
  "startRtpSessionAdapter ops sessionId adapter mm =
    (case om_find (mm_sessions mm) sessionId of
       None \<Rightarrow> (Inl (''media session not found: '' @ sessionId), mm)
     | Some session \<Rightarrow>
         if om_find (mm_rtpSessionAdapters mm) sessionId \<noteq> None
         then (Inl (''RTP session adapter already running: '' @ sessionId), mm)
         else let options = new_rtp_session_options\<lparr>ro_sessionId := sessionId,
                    ro_localRtpPort := ms_localRtpPort session, ro_remoteIp := ms_remoteIp session,
                    ro_remoteRtpPort := ms_remoteRtpPort session\<rparr>
           in (case ra_start ops options adapter of
                 (Inl e, _) \<Rightarrow> (Inl e, mm)
               | (Inr _, adapter') \<Rightarrow>
                   (Inr (), mm\<lparr>mm_rtpSessionAdapters := om_set sessionId adapter' (mm_rtpSessionAdapters mm)\<rparr>)))"

definition stopRtpSessionAdapter :: "string \<Rightarrow> ('a, 's) media_manager \<Rightarrow> ('a, 's) media_manager" where
  "stopRtpSessionAdapter sessionId mm =
    mm\<lparr>mm_rtpSessionAdapters := om_erase sessionId (mm_rtpSessionAdapters mm)\<rparr>"

definition stopAllRtpSessionAdapters :: "('a, 's) media_manager \<Rightarrow> ('a, 's) media_manager" where
  "stopAllRtpSessionAdapters mm = mm\<lparr>mm_rtpSessionAdapters := []\<rparr>"

definition rtpSessionAdapterRunning :: "'a rtp_adapter_ops \<Rightarrow> string \<Rightarrow> ('a, 's) media_manager \<Rightarrow> bool" where
  "rtpSessionAdapterRunning ops sessionId mm =
    (case om_find (mm_rtpSessionAdapters mm) sessionId of None \<Rightarrow> False | Some a \<Rightarrow> ra_running ops a)"

definition closeSession :: "string \<Rightarrow> ('a, 's) media_manager \<Rightarrow> bool \<times> ('a, 's) media_manager" where
  "closeSession sessionId mm =
    (case om_find (mm_sessions mm) sessionId of
       None \<Rightarrow> (False, mm)
     | Some session \<Rightarrow>
         let mm = releaseRtpPort (ms_localRtpPort session) (stopRtpSessionAdapter sessionId mm)
         in (True, mm\<lparr>mm_sessions := om_erase sessionId (mm_sessions mm)\<rparr>))"

section \<open>Receiving and sending\<close>

definition receiveRtpPacket ::
  "'s frame_writer \<Rightarrow> string \<Rightarrow> bytes \<Rightarrow> ('a, 's) media_manager \<Rightarrow>
     ((string + unit) \<times> ('a, 's) media_manager) option" where
  "receiveRtpPacket writeFrame sessionId packetBytes mm =
    (case om_find (mm_sessions mm) sessionId of
       None \<Rightarrow> Some (Inl (''media session not found: '' @ sessionId), mm)
     | Some s \<Rightarrow>
         map_option (\<lambda>(r, s', sink'). (r, mm\<lparr>mm_sessions := om_set sessionId s' (mm_sessions mm), mm_frameSink := sink'\<rparr>))
           (session_receive writeFrame packetBytes s (mm_frameSink mm)))"

definition buildOutboundRtpPackets ::
  "string \<Rightarrow> bytes \<Rightarrow> u16 \<Rightarrow> u32 \<Rightarrow> nat \<Rightarrow> ('a, 's) media_manager \<Rightarrow> string + bytes list" where
  "buildOutboundRtpPackets sessionId annexBFrame firstSequenceNumber timestamp maxPayloadBytes mm =
    (if annexBFrame = [] then Inl ''empty outbound Annex-B frame''
     else (case om_find (mm_sessions mm) sessionId of
             None \<Rightarrow> Inl (''media session not found: '' @ sessionId)
           | Some session \<Rightarrow>
               (case stringToUint32 (ms_ssrc session) of
                  None \<Rightarrow> Inl ''invalid outbound RTP SSRC''
                | Some ssrc \<Rightarrow>
                    let opts = default_rtp_options\<lparr>opt_payloadType := 96,
                                  opt_firstSequenceNumber := firstSequenceNumber, opt_timestamp := timestamp,
                                  opt_ssrc := ssrc, opt_maxPayloadBytes := maxPayloadBytes\<rparr>
                    in (case packetizeRtpPayload (buildProgramStreamSample annexBFrame) opts of
                          Stored True packets \<Rightarrow> Inr packets
                        | _ \<Rightarrow> Inl ''failed to packetize outbound RTP payload''))))"

text \<open>The loop of \<open>sendAnnexBFrame\<close>; the result counts the packets and bytes sent.\<close>

function send_loop ::
  "'a rtp_adapter_ops \<Rightarrow> bytes \<Rightarrow> u32 \<Rightarrow> nat \<Rightarrow> nat \<Rightarrow> nat \<Rightarrow> nat \<Rightarrow> 'a \<Rightarrow> (string + nat \<times> nat) \<times> 'a" where
  "send_loop ops psPayload timestampIncrement maxPayloadBytes offset sentPackets sentPayloadBytes a =
    (if offset < length psPayload \<and> maxPayloadBytes > 0
     then let remaining = length psPayload - offset;
              chunkBytes = (if remaining > maxPayloadBytes then maxPayloadBytes else remaining);
              marker = (offset + chunkBytes \<ge> length psPayload);
              packet = \<lparr>rp_payload = take chunkBytes (drop offset psPayload), rp_payloadType = 96,
                        rp_marker = marker, rp_timestampIncrement = (if marker then timestampIncrement else 0)\<rparr>
          in (case ra_sendPayloadPacket ops packet a of
                (Inl e, a') \<Rightarrow> (Inl e, a')
              | (Inr _, a') \<Rightarrow> send_loop ops psPayload timestampIncrement maxPayloadBytes (offset + chunkBytes)
                                (sentPackets + 1) (sentPayloadBytes + chunkBytes) a')
     else (Inr (sentPackets, sentPayloadBytes), a))"
  by pat_completeness auto
termination
  by (relation "measure (\<lambda>(ops, ps, inc, m, offset, n, b, a). length ps - offset)") auto

declare send_loop.simps [simp del]

definition sendAnnexBFrame ::
  "'a rtp_adapter_ops \<Rightarrow> string \<Rightarrow> bytes \<Rightarrow> u32 \<Rightarrow> nat \<Rightarrow> ('a, 's) media_manager \<Rightarrow>
     (string + unit) \<times> ('a, 's) media_manager" where
  "sendAnnexBFrame ops sessionId annexBFrame timestampIncrement maxPayloadBytes mm =
    (if annexBFrame = [] then (Inl ''empty outbound Annex-B frame'', mm)
     else if maxPayloadBytes = 0 then (Inl ''invalid outbound RTP payload size'', mm)
     else (case om_find (mm_sessions mm) sessionId of
         None \<Rightarrow> (Inl (''media session not found: '' @ sessionId), mm)
       | Some s \<Rightarrow>
           (case om_find (mm_rtpSessionAdapters mm) sessionId of
              None \<Rightarrow> (Inl (''RTP session adapter is not running: '' @ sessionId), mm)
            | Some a \<Rightarrow>
                (case send_loop ops (buildProgramStreamSample annexBFrame) timestampIncrement maxPayloadBytes 0 0 0 a of
                   (Inl e, a') \<Rightarrow>
                     (Inl e, mm\<lparr>mm_rtpSessionAdapters := om_set sessionId a' (mm_rtpSessionAdapters mm)\<rparr>)
                 | (Inr (n, b), a') \<Rightarrow>
                     (Inr (), mm\<lparr>mm_rtpSessionAdapters := om_set sessionId a' (mm_rtpSessionAdapters mm),
                        mm_sessions := om_set sessionId
                          (s\<lparr>ms_sentRtpPayloadPackets := ms_sentRtpPayloadPackets s + of_nat n,
                             ms_sentRtpPayloadBytes := ms_sentRtpPayloadBytes s + of_nat b,
                             ms_sentVideoFrames := ms_sentVideoFrames s + 1\<rparr>) (mm_sessions mm)\<rparr>)))))"

section \<open>The port pool is conserved\<close>

text \<open>The queue holds exactly the free ports, once each; no port is free and allocated.\<close>

definition ports_ok :: "('a, 's) media_manager \<Rightarrow> bool" where
  "ports_ok mm \<longleftrightarrow> distinct (mm_availablePorts mm) \<and> set (mm_availablePorts mm) = mm_availablePortSet mm \<and>
     mm_availablePortSet mm \<inter> mm_allocatedPorts mm = {} \<and>
     (\<forall>p \<in> mm_availablePortSet mm \<union> mm_allocatedPorts mm. 0 < p \<and> p < INT_MAX \<and> even p)"

definition port_pool :: "('a, 's) media_manager \<Rightarrow> int set" where
  "port_pool mm = mm_availablePortSet mm \<union> mm_allocatedPorts mm"

lemma port_loop_spec:
  "port_loop port hi = Some ps \<Longrightarrow> even port \<Longrightarrow> set ps = {p. port \<le> p \<and> p \<le> hi \<and> even p} \<and> (\<forall>p \<in> set ps. p < INT_MAX)"
proof (induction port hi arbitrary: ps rule: port_loop.induct)
  case (1 port hi)
  show ?case
  proof (cases "port > hi")
    case True
    then show ?thesis using "1.prems" by (auto simp: port_loop.simps [of port hi])
  next
    case False
    with "1.prems" obtain qs where qs: "\<not> port + 2 > INT_MAX" "port_loop (port + 2) hi = Some qs" "ps = port # qs"
      by (auto simp: port_loop.simps [of port hi] split: if_splits)
    have "set qs = {p. port + 2 \<le> p \<and> p \<le> hi \<and> even p} \<and> (\<forall>p \<in> set qs. p < INT_MAX)"
      using "1.IH" [OF False qs(1) qs(2)] "1.prems"(2) by simp
    moreover have "p = port \<or> port + 2 \<le> p" if "port \<le> p" "even p" for p
      using that "1.prems"(2) by presburger
    ultimately show ?thesis
      using False qs "1.prems"(2) by auto
  qed
qed

text \<open>The ports of an endpoint: the even numbers of its range.\<close>

definition endpoint_ports :: "endpoint_config \<Rightarrow> int set" where
  "endpoint_ports e = {p. 0 < ep_rtpPortBegin e \<and> ep_rtpPortBegin e \<le> p \<and> p \<le> ep_rtpPortEnd e \<and> even p}"

lemma range_ports_spec:
  "range_ports e = Some ps \<Longrightarrow> set ps = endpoint_ports e \<and> (\<forall>p \<in> set ps. p < INT_MAX)"
proof -
  assume r: "range_ports e = Some ps"
  let ?b = "ep_rtpPortBegin e" and ?h = "ep_rtpPortEnd e"
  consider "?b \<le> 0 \<or> ?h \<le> 0 \<or> ?b > ?h" | "0 < ?b" "?b \<le> ?h" "odd ?b" | "0 < ?b" "?b \<le> ?h" "even ?b"
    by linarith
  then show ?thesis
  proof cases
    case 1
    then show ?thesis using r by (auto simp: range_ports_def endpoint_ports_def)
  next
    case 2
    then have "port_loop (?b + 1) ?h = Some ps"
      using r by (auto simp: range_ports_def Let_def odd_iff_mod_2_eq_one split: if_splits)
    then have "set ps = {p. ?b + 1 \<le> p \<and> p \<le> ?h \<and> even p} \<and> (\<forall>p \<in> set ps. p < INT_MAX)"
      using 2 by (intro port_loop_spec) auto
    moreover have "?b + 1 \<le> p \<longleftrightarrow> ?b \<le> p" if "even p" for p
      using that 2 by presburger
    ultimately show ?thesis using 2 by (auto simp: endpoint_ports_def)
  next
    case 3
    then have "port_loop ?b ?h = Some ps"
      using r by (auto simp: range_ports_def Let_def even_iff_mod_2_eq_zero split: if_splits)
    then show ?thesis using 3 port_loop_spec [of ?b ?h ps] by (auto simp: endpoint_ports_def)
  qed
qed

lemma those_set: "those xs = Some ys \<Longrightarrow> set ys = {y. Some y \<in> set xs} \<and> None \<notin> set xs"
  by (induction xs arbitrary: ys) (auto split: option.splits)

lemma config_ports_spec:
  assumes "config_ports es = Some ps"
  shows "distinct ps \<and> sorted ps \<and> set ps = (\<Union>e \<in> set es. endpoint_ports e) \<and> (\<forall>p \<in> set ps. p < INT_MAX)"
proof -
  obtain rs where rs: "those (map range_ports es) = Some rs" "ps = sort (remdups (concat rs))"
    using assms by (auto simp: config_ports_def)
  have "set rs = {r. Some r \<in> range_ports ` set es}" "None \<notin> range_ports ` set es"
    using those_set [OF rs(1)] by auto
  then have "\<forall>r \<in> set rs. \<exists>e \<in> set es. set r = endpoint_ports e \<and> (\<forall>p \<in> set r. p < INT_MAX)"
    "\<forall>e \<in> set es. \<exists>r \<in> set rs. set r = endpoint_ports e"
    using range_ports_spec by (auto simp: image_iff) (metis option.exhaust)+
  then show ?thesis
    using rs(2) by (auto, blast+)
qed

lemma configure_ports_ok:
  assumes "mm_configure es mm = Some (b, mm')"
  shows "ports_ok mm' \<and> port_pool mm' = (\<Union>e \<in> set es. endpoint_ports e) \<and> mm_allocatedPorts mm' = {} \<and>
    (b \<longleftrightarrow> port_pool mm' \<noteq> {})"
proof -
  obtain ps where ps: "config_ports es = Some ps" "b = (ps \<noteq> [])"
    "mm' = mm\<lparr>mm_availablePorts := ps, mm_availablePortSet := set ps, mm_allocatedPorts := {},
       mm_rtpSessionAdapters := [], mm_sessions := []\<rparr>"
    using assms by (auto simp: mm_configure_def split: option.splits)
  have "\<forall>p \<in> set ps. 0 < p \<and> p < INT_MAX \<and> even p"
    using config_ports_spec [OF ps(1)] by (auto simp: endpoint_ports_def)
  moreover have "ps \<noteq> [] \<longleftrightarrow> set ps \<noteq> {}" by simp
  ultimately show ?thesis
    using ps(2-) config_ports_spec [OF ps(1)] by (simp add: ports_ok_def port_pool_def)
qed

lemma allocate_ports_ok:
  assumes "ports_ok mm" "allocateRtpPort mm = (p, mm')"
  shows "ports_ok mm' \<and> port_pool mm' = port_pool mm \<and>
    (if p = 0 then mm_availablePortSet mm = {} \<and> mm_allocatedPorts mm' = mm_allocatedPorts mm
     else p \<in> mm_availablePortSet mm \<and> mm_availablePortSet mm' = mm_availablePortSet mm - {p} \<and>
       mm_allocatedPorts mm' = insert p (mm_allocatedPorts mm) \<and> p \<notin> mm_allocatedPorts mm)"
proof (cases "mm_availablePorts mm")
  case Nil
  then show ?thesis using assms by (auto simp: allocateRtpPort_def ports_ok_def port_pool_def)
next
  case (Cons q rest)
  then have "q \<in> mm_availablePortSet mm" "0 < q"
    using assms(1) by (force simp: ports_ok_def)+
  then show ?thesis
    using assms Cons by (force simp: allocateRtpPort_def ports_ok_def port_pool_def)
qed

lemma allocate_frame:
  "allocateRtpPort mm = (p, mm') \<Longrightarrow> mm_sessions mm' = mm_sessions mm \<and>
     mm_rtpSessionAdapters mm' = mm_rtpSessionAdapters mm \<and> mm_frameSink mm' = mm_frameSink mm"
proof -
  have "pop_port q mm = (p, mm') \<Longrightarrow> ?thesis" for q
    by (induction q) (auto split: if_splits)
  then show "allocateRtpPort mm = (p, mm') \<Longrightarrow> ?thesis" by (simp add: allocateRtpPort_def)
qed

lemma release_ports_ok:
  assumes "ports_ok mm"
  shows "ports_ok (releaseRtpPort p mm)" "port_pool (releaseRtpPort p mm) = port_pool mm"
    "mm_allocatedPorts (releaseRtpPort p mm) = mm_allocatedPorts mm - {p}"
  using assms by (auto simp: releaseRtpPort_def ports_ok_def port_pool_def ball_Un Let_def)

lemma release_frame [simp]:
  "mm_sessions (releaseRtpPort p mm) = mm_sessions mm"
  "mm_rtpSessionAdapters (releaseRtpPort p mm) = mm_rtpSessionAdapters mm"
  "mm_frameSink (releaseRtpPort p mm) = mm_frameSink mm"
  by (simp_all add: releaseRtpPort_def Let_def)


section \<open>The manager's invariant\<close>

text \<open>Sessions are stored under their id, each on an allocated port that no other session uses, with a
  consistent reassembly state; an adapter belongs to a session.\<close>

definition sessions_ok :: "('a, 's) media_manager \<Rightarrow> bool" where
  "sessions_ok mm \<longleftrightarrow> om_ok (mm_sessions mm) \<and> om_ok (mm_rtpSessionAdapters mm) \<and>
     (\<forall>k s. map_of (mm_sessions mm) k = Some s \<longrightarrow> k \<noteq> [] \<and> ms_id s = k \<and>
        ms_localRtpPort s \<in> mm_allocatedPorts mm \<and> reassembly_ok s) \<and>
     inj_on (\<lambda>k. ms_localRtpPort (the (map_of (mm_sessions mm) k))) (dom (map_of (mm_sessions mm))) \<and>
     dom (map_of (mm_rtpSessionAdapters mm)) \<subseteq> dom (map_of (mm_sessions mm))"

definition mm_ok :: "('a, 's) media_manager \<Rightarrow> bool" where
  "mm_ok mm \<longleftrightarrow> ports_ok mm \<and> sessions_ok mm"

text \<open>No leak: the allocated ports are those of the sessions.\<close>

definition session_ports :: "('a, 's) media_manager \<Rightarrow> int set" where
  "session_ports mm = {ms_localRtpPort s | s k. map_of (mm_sessions mm) k = Some s}"

definition no_leak :: "('a, 's) media_manager \<Rightarrow> bool" where
  "no_leak mm \<longleftrightarrow> mm_allocatedPorts mm = session_ports mm"

lemma mm_okD:
  assumes "mm_ok mm" "map_of (mm_sessions mm) k = Some s"
  shows "k \<noteq> []" "ms_id s = k" "ms_localRtpPort s \<in> mm_allocatedPorts mm" "reassembly_ok s" "0 < ms_localRtpPort s"
proof -
  show "k \<noteq> []" "ms_id s = k" and a: "ms_localRtpPort s \<in> mm_allocatedPorts mm" and "reassembly_ok s"
    using assms unfolding mm_ok_def sessions_ok_def by blast+
  show "0 < ms_localRtpPort s"
    using assms(1) a by (auto simp: mm_ok_def ports_ok_def)
qed

lemma mm_ok_inj:
  assumes "mm_ok mm" "map_of (mm_sessions mm) k = Some s" "map_of (mm_sessions mm) k' = Some s'"
    "ms_localRtpPort s = ms_localRtpPort s'"
  shows "k = k'"
proof -
  have "inj_on (\<lambda>k. ms_localRtpPort (the (map_of (mm_sessions mm) k))) (dom (map_of (mm_sessions mm)))"
    using assms(1) by (simp add: mm_ok_def sessions_ok_def)
  then show ?thesis
    using assms(2-) by (auto dest: inj_onD [of _ _ k k'])
qed

lemma mm_ok_om [simp]:
  "mm_ok mm \<Longrightarrow> om_ok (mm_sessions mm)" "mm_ok mm \<Longrightarrow> om_ok (mm_rtpSessionAdapters mm)"
  by (auto simp: mm_ok_def sessions_ok_def)

lemma mm_okI:
  assumes "ports_ok mm" "om_ok (mm_sessions mm)" "om_ok (mm_rtpSessionAdapters mm)"
    "\<And>k s. map_of (mm_sessions mm) k = Some s \<Longrightarrow> k \<noteq> [] \<and> ms_id s = k \<and>
        ms_localRtpPort s \<in> mm_allocatedPorts mm \<and> reassembly_ok s"
    "\<And>k k' s s'. map_of (mm_sessions mm) k = Some s \<Longrightarrow> map_of (mm_sessions mm) k' = Some s' \<Longrightarrow>
        ms_localRtpPort s = ms_localRtpPort s' \<Longrightarrow> k = k'"
    "\<And>k a. map_of (mm_rtpSessionAdapters mm) k = Some a \<Longrightarrow> map_of (mm_sessions mm) k \<noteq> None"
  shows "mm_ok mm"
proof -
  have "inj_on (\<lambda>k. ms_localRtpPort (the (map_of (mm_sessions mm) k))) (dom (map_of (mm_sessions mm)))"
    using assms(5) by (intro inj_onI) fastforce
  moreover have "dom (map_of (mm_rtpSessionAdapters mm)) \<subseteq> dom (map_of (mm_sessions mm))"
    using assms(6) by fastforce
  ultimately show ?thesis
    using assms(1-4) unfolding mm_ok_def sessions_ok_def by blast
qed

lemma mm_ok_adapters:
  "mm_ok mm \<Longrightarrow> map_of (mm_rtpSessionAdapters mm) k = Some a \<Longrightarrow> map_of (mm_sessions mm) k \<noteq> None"
  unfolding mm_ok_def sessions_ok_def by blast

lemma mm_ok_ports: "mm_ok mm \<Longrightarrow> ports_ok mm"
  by (simp add: mm_ok_def)

text \<open>Rewriting one session in place (same id, same port) keeps everything.\<close>

lemma mm_ok_rewrite:
  assumes "mm_ok mm" "map_of (mm_sessions mm) k = Some s" "ms_id s' = ms_id s"
    "ms_localRtpPort s' = ms_localRtpPort s" "reassembly_ok s'"
  shows "mm_ok (mm\<lparr>mm_sessions := om_set k s' (mm_sessions mm), mm_frameSink := sink\<rparr>)"
proof (rule mm_okI)
  let ?mm = "mm\<lparr>mm_sessions := om_set k s' (mm_sessions mm), mm_frameSink := sink\<rparr>"
  have m: "map_of (mm_sessions ?mm) = (map_of (mm_sessions mm))(k \<mapsto> s')"
    using assms(1) by simp
  show "ports_ok ?mm"
    using mm_ok_ports [OF assms(1)] by (simp add: ports_ok_def)
  show "om_ok (mm_sessions ?mm)" "om_ok (mm_rtpSessionAdapters ?mm)"
    using assms(1) by simp_all
  show "k2 \<noteq> [] \<and> ms_id s2 = k2 \<and> ms_localRtpPort s2 \<in> mm_allocatedPorts ?mm \<and> reassembly_ok s2"
    if "map_of (mm_sessions ?mm) k2 = Some s2" for k2 s2
    using that assms mm_okD [OF assms(1)] unfolding m by (cases "k2 = k") auto
  show "k2 = k3" if "map_of (mm_sessions ?mm) k2 = Some s2" "map_of (mm_sessions ?mm) k3 = Some s3"
    "ms_localRtpPort s2 = ms_localRtpPort s3" for k2 k3 s2 s3
    using that assms(2,4) mm_ok_inj [OF assms(1)] unfolding m by (cases "k2 = k"; cases "k3 = k") auto
  show "map_of (mm_sessions ?mm) k2 \<noteq> None" if "map_of (mm_rtpSessionAdapters ?mm) k2 = Some a" for k2 a
    using that mm_ok_adapters [OF assms(1)] unfolding m by (cases "k2 = k") auto
qed

lemma session_ports_rewrite:
  assumes "om_ok (mm_sessions mm)" "map_of (mm_sessions mm) k = Some s" "ms_localRtpPort s' = ms_localRtpPort s"
    "mm_sessions mm' = om_set k s' (mm_sessions mm)"
  shows "session_ports mm' = session_ports mm"
proof -
  have "map_of (mm_sessions mm') = (map_of (mm_sessions mm))(k \<mapsto> s')"
    using assms by simp
  then show ?thesis
    using assms(2,3) unfolding session_ports_def by (auto split: if_splits) (metis option.inject)+
qed

lemma mm_ok_adapter:
  assumes "mm_ok mm" "map_of (mm_sessions mm) k \<noteq> None"
  shows "mm_ok (mm\<lparr>mm_rtpSessionAdapters := om_set k a (mm_rtpSessionAdapters mm)\<rparr>)"
proof (rule mm_okI)
  let ?mm = "mm\<lparr>mm_rtpSessionAdapters := om_set k a (mm_rtpSessionAdapters mm)\<rparr>"
  show "ports_ok ?mm"
    using mm_ok_ports [OF assms(1)] by (simp add: ports_ok_def)
  show "map_of (mm_sessions ?mm) k2 \<noteq> None" if "map_of (mm_rtpSessionAdapters ?mm) k2 = Some a2" for k2 a2
    using that assms mm_ok_adapters [OF assms(1), of k2] by (cases "k2 = k") auto
qed (use assms(1) mm_okD [OF assms(1)] mm_ok_inj [OF assms(1)] in auto)


section \<open>Every operation keeps the invariant\<close>

lemma mm_ok_new: "mm_ok new_media_manager"
  by (rule mm_okI) (auto simp: new_media_manager_def ports_ok_def)

lemma mm_ok_configure: "mm_configure es mm = Some (b, mm') \<Longrightarrow> mm_ok mm'"
  using configure_ports_ok [of es mm b mm']
  by (intro mm_okI) (auto simp: mm_configure_def split: option.splits)

lemma mm_ok_allocate:
  assumes "mm_ok mm" "allocateRtpPort mm = (p, mm')"
  shows "mm_ok mm'"
proof (rule mm_okI)
  note f = allocate_frame [OF assms(2)] and po = allocate_ports_ok [OF mm_ok_ports [OF assms(1)] assms(2)]
  show "ports_ok mm'" using po by simp
  show "k \<noteq> [] \<and> ms_id s = k \<and> ms_localRtpPort s \<in> mm_allocatedPorts mm' \<and> reassembly_ok s"
    if "map_of (mm_sessions mm') k = Some s" for k s
  proof -
    have "mm_allocatedPorts mm \<subseteq> mm_allocatedPorts mm'" using po by (auto split: if_splits)
    then show ?thesis using that f mm_okD [OF assms(1), of k s] by auto
  qed
qed (use allocate_frame [OF assms(2)] assms(1) mm_ok_inj [OF assms(1)] mm_ok_adapters [OF assms(1)] in auto)

text \<open>The client of \<open>createSession\<close> must not reuse the port of another session.\<close>

definition port_unshared :: "media_session \<Rightarrow> ('a, 's) media_manager \<Rightarrow> bool" where
  "port_unshared session mm \<longleftrightarrow>
     list_all (\<lambda>(k, s). ms_localRtpPort s = ms_localRtpPort session \<longrightarrow> k = ms_id session) (mm_sessions mm)"

lemma port_unsharedD:
  "port_unshared session mm \<Longrightarrow> map_of (mm_sessions mm) k = Some s \<Longrightarrow>
     ms_localRtpPort s = ms_localRtpPort session \<Longrightarrow> k = ms_id session"
  by (fastforce simp: port_unshared_def list_all_iff dest: map_of_SomeD)

lemma createSession_cases:
  obtains (rejected) "createSession session mm = (False, mm)"
  | (created) mm1 where "createSession session mm = (True, mm1\<lparr>mm_sessions := om_set (ms_id session) session (mm_sessions mm)\<rparr>)"
      "ms_id session \<noteq> []" "0 < ms_localRtpPort session" "ms_localRtpPort session \<in> mm_allocatedPorts mm"
      "mm1 = mm \<or> (\<exists>old. map_of (mm_sessions mm) (ms_id session) = Some old \<and>
         ms_localRtpPort old \<noteq> ms_localRtpPort session \<and> mm1 = releaseRtpPort (ms_localRtpPort old) mm)"
proof (cases "ms_id session = [] \<or> ms_localRtpPort session \<le> 0 \<or> ms_localRtpPort session \<notin> mm_allocatedPorts mm")
  case True
  then show thesis by (intro rejected) (auto simp: createSession_def)
next
  case False
  then show thesis
  proof (cases "map_of (mm_sessions mm) (ms_id session)")
    case None
    then show thesis using False by (intro created [of mm]) (auto simp: createSession_def)
  next
    case (Some old)
    then show thesis using False
      by (intro created [of "if ms_localRtpPort old \<noteq> ms_localRtpPort session
            then releaseRtpPort (ms_localRtpPort old) mm else mm"])
        (auto simp: createSession_def Let_def)
  qed
qed

lemma mm_ok_create:
  assumes "mm_ok mm" "createSession session mm = (b, mm')" "port_unshared session mm" "reassembly_ok session"
  shows "mm_ok mm'"
proof (cases rule: createSession_cases [of session mm])
  case rejected
  then show ?thesis using assms by simp
next
  case (created mm1)
  let ?id = "ms_id session"
  have mm': "mm' = mm1\<lparr>mm_sessions := om_set ?id session (mm_sessions mm)\<rparr>"
    using created(1) assms(2) by simp
  have frame: "mm_rtpSessionAdapters mm1 = mm_rtpSessionAdapters mm" "ports_ok mm1"
    using created(5) mm_ok_ports [OF assms(1)] release_ports_ok by auto
  have keep: "p \<in> mm_allocatedPorts mm1"
    if "p \<in> mm_allocatedPorts mm" "\<And>old. map_of (mm_sessions mm) ?id = Some old \<Longrightarrow>
          ms_localRtpPort old \<noteq> ms_localRtpPort session \<Longrightarrow> p \<noteq> ms_localRtpPort old" for p
    using created(5) that release_ports_ok(3) [OF mm_ok_ports [OF assms(1)]] by auto
  have m: "map_of (mm_sessions mm') = (map_of (mm_sessions mm))(?id \<mapsto> session)"
    using assms(1) mm' by simp
  show ?thesis
  proof (rule mm_okI)
    show "ports_ok mm'" using frame(2) mm' by (simp add: ports_ok_def)
    show "om_ok (mm_sessions mm')" "om_ok (mm_rtpSessionAdapters mm')"
      using assms(1) frame mm' by simp_all
    show "k \<noteq> [] \<and> ms_id s = k \<and> ms_localRtpPort s \<in> mm_allocatedPorts mm' \<and> reassembly_ok s"
      if ks: "map_of (mm_sessions mm') k = Some s" for k s
    proof (cases "k = ?id")
      case True
      then have "s = session" using ks unfolding m by simp
      then show ?thesis using True created(2,4) assms(4) keep [of "ms_localRtpPort session"] unfolding mm' by simp
    next
      case False
      then have s: "map_of (mm_sessions mm) k = Some s" using ks unfolding m by simp
      have "ms_localRtpPort s \<in> mm_allocatedPorts mm1"
        by (rule keep [OF mm_okD(3) [OF assms(1) s]]) (use False mm_ok_inj [OF assms(1) s] in blast)
      then show ?thesis
        using mm_okD [OF assms(1) s] unfolding mm' by simp
    qed
    show "k = k'" if "map_of (mm_sessions mm') k = Some s" "map_of (mm_sessions mm') k' = Some s'"
      "ms_localRtpPort s = ms_localRtpPort s'" for k k' s s'
      using that mm_ok_inj [OF assms(1)] port_unsharedD [OF assms(3)] unfolding m
      by (cases "k = ?id"; cases "k' = ?id") auto
    show "map_of (mm_sessions mm') k \<noteq> None" if "map_of (mm_rtpSessionAdapters mm') k = Some a" for k a
      using that mm_ok_adapters [OF assms(1)] frame(1) mm' unfolding m by (cases "k = ?id") auto
  qed
qed

lemma mm_ok_rewrite':
  assumes "mm_ok mm" "map_of (mm_sessions mm) k = Some s" "ms_id s' = ms_id s"
    "ms_localRtpPort s' = ms_localRtpPort s" "reassembly_ok s'"
  shows "mm_ok (mm\<lparr>mm_sessions := om_set k s' (mm_sessions mm)\<rparr>)"
  using mm_ok_rewrite [OF assms, of "mm_frameSink mm"] by simp

lemma mm_ok_update:
  assumes "mm_ok mm" "updateSession session mm = (b, mm')" "reassembly_ok session"
  shows "mm_ok mm'"
proof (cases b)
  case True
  then obtain old where old: "map_of (mm_sessions mm) (ms_id session) = Some old"
    "ms_localRtpPort session = ms_localRtpPort old"
    "mm' = mm\<lparr>mm_sessions := om_set (ms_id session) session (mm_sessions mm)\<rparr>"
    using assms(2) by (auto simp: updateSession_def split: option.splits if_splits)
  have "ms_id session = ms_id old"
    using mm_okD(2) [OF assms(1) old(1)] by simp
  then show ?thesis
    using mm_ok_rewrite' [OF assms(1) old(1) _ old(2) assms(3)] old(3) by simp
next
  case False
  then show ?thesis
    using assms(1,2) by (auto simp: updateSession_def split: option.splits if_splits)
qed

lemma mm_ok_state:
  assumes "mm_ok mm" "updateSessionState k st mm = (b, mm')"
  shows "mm_ok mm'"
proof (cases "map_of (mm_sessions mm) k")
  case None
  then show ?thesis using assms by (simp add: updateSessionState_def)
next
  case (Some s)
  then have "mm' = mm\<lparr>mm_sessions := om_set k (s\<lparr>ms_state := st\<rparr>) (mm_sessions mm)\<rparr>"
    using assms(2) by (simp add: updateSessionState_def)
  then show ?thesis
    using mm_ok_rewrite' [OF assms(1) Some, of "s\<lparr>ms_state := st\<rparr>"] mm_okD(4) [OF assms(1) Some]
    by (simp add: reassembly_ok_state)
qed

lemma mm_ok_start:
  assumes "mm_ok mm" "startRtpSessionAdapter ops k a mm = (r, mm')"
  shows "mm_ok mm'"
  using assms mm_ok_adapter [OF assms(1), of k]
  by (force simp: startRtpSessionAdapter_def Let_def split: option.splits prod.splits sum.splits if_splits)

lemma mm_ok_stop: "mm_ok mm \<Longrightarrow> mm_ok (stopRtpSessionAdapter k mm)"
proof (rule mm_okI)
  assume ok: "mm_ok mm"
  show "ports_ok (stopRtpSessionAdapter k mm)"
    using mm_ok_ports [OF ok] by (simp add: stopRtpSessionAdapter_def ports_ok_def)
  show "map_of (mm_sessions (stopRtpSessionAdapter k mm)) k2 \<noteq> None"
    if "map_of (mm_rtpSessionAdapters (stopRtpSessionAdapter k mm)) k2 = Some a" for k2 a
    using that mm_ok_adapters [OF ok] by (cases "k2 = k") (auto simp: stopRtpSessionAdapter_def)
qed (auto simp: stopRtpSessionAdapter_def mm_okD mm_ok_inj)

lemma mm_ok_close:
  assumes "mm_ok mm" "closeSession k mm = (b, mm')"
  shows "mm_ok mm'"
proof (cases "map_of (mm_sessions mm) k")
  case None
  then show ?thesis using assms by (simp add: closeSession_def)
next
  case (Some s)
  let ?p = "ms_localRtpPort s" and ?mm1 = "stopRtpSessionAdapter k mm"
  have mm': "mm' = (releaseRtpPort ?p ?mm1)\<lparr>mm_sessions := om_erase k (mm_sessions mm)\<rparr>"
    using Some assms(2) by (simp add: closeSession_def stopRtpSessionAdapter_def Let_def)
  have ok1: "mm_ok ?mm1" using assms(1) by (rule mm_ok_stop)
  note rel = release_ports_ok [OF mm_ok_ports [OF ok1], of ?p]
  have al: "mm_allocatedPorts mm' = mm_allocatedPorts mm - {?p}"
    using rel(3) mm' by (simp add: stopRtpSessionAdapter_def)
  have m: "map_of (mm_sessions mm') = (map_of (mm_sessions mm))(k := None)"
    using mm' by simp
  have ad: "mm_rtpSessionAdapters mm' = om_erase k (mm_rtpSessionAdapters mm)"
    using mm' by (simp add: stopRtpSessionAdapter_def)
  show ?thesis
  proof (rule mm_okI)
    show "ports_ok mm'" using rel(1) mm' by (simp add: ports_ok_def)
    show "om_ok (mm_sessions mm')" "om_ok (mm_rtpSessionAdapters mm')"
      using assms(1) mm' ad by simp_all
    show "k2 \<noteq> [] \<and> ms_id s2 = k2 \<and> ms_localRtpPort s2 \<in> mm_allocatedPorts mm' \<and> reassembly_ok s2"
      if "map_of (mm_sessions mm') k2 = Some s2" for k2 s2
      using that mm_okD [OF assms(1), of k2 s2] mm_ok_inj [OF assms(1) Some, of k2 s2]
      unfolding m al by (auto split: if_splits)
    show "k2 = k3" if "map_of (mm_sessions mm') k2 = Some s2" "map_of (mm_sessions mm') k3 = Some s3"
      "ms_localRtpPort s2 = ms_localRtpPort s3" for k2 k3 s2 s3
      using that mm_ok_inj [OF assms(1)] unfolding m by (auto split: if_splits)
    show "map_of (mm_sessions mm') k2 \<noteq> None" if "map_of (mm_rtpSessionAdapters mm') k2 = Some a" for k2 a
      using that mm_ok_adapters [OF assms(1)] unfolding m ad by (auto split: if_splits)
  qed
qed


lemma session_identity [simp]:
  "ms_id (record_packet p n s) = ms_id s" "ms_localRtpPort (record_packet p n s) = ms_localRtpPort s"
  "ms_id (append_payload p s) = ms_id s" "ms_localRtpPort (append_payload p s) = ms_localRtpPort s"
  "ms_id (resetCurrentRtpPayload s) = ms_id s" "ms_localRtpPort (resetCurrentRtpPayload s) = ms_localRtpPort s"
  "ms_id (begin_frame p m a (add_counters ps a s)) = ms_id s"
  "ms_localRtpPort (begin_frame p m a (add_counters ps a s)) = ms_localRtpPort s"
  "ms_id (finish_frame s) = ms_id s" "ms_localRtpPort (finish_frame s) = ms_localRtpPort s"
  by (simp_all add: record_packet_def append_payload_def resetCurrentRtpPayload_def begin_frame_def
      add_counters_def finish_frame_def Let_def)

lemma complete_payload_identity:
  "complete_payload w p bs n s k = Some (r, s', k') \<Longrightarrow> ms_id s' = ms_id s \<and> ms_localRtpPort s' = ms_localRtpPort s"
  by (auto simp: complete_payload_def Let_def
      split: option.splits parsed.splits bool.splits sum.splits prod.splits if_splits)

lemma session_receive_identity:
  assumes "session_receive w bs s k = Some (r, s', k')"
  shows "ms_id s' = ms_id s \<and> ms_localRtpPort s' = ms_localRtpPort s"
  using assms
  by (auto simp: session_receive_def Let_def dest!: complete_payload_identity
      split: option.splits parsed.splits bool.splits if_splits)

lemma mm_ok_receive:
  assumes "mm_ok mm" "receiveRtpPacket w k bs mm = Some (r, mm')"
  shows "mm_ok mm'"
proof (cases "map_of (mm_sessions mm) k")
  case None
  then show ?thesis using assms by (simp add: receiveRtpPacket_def)
next
  case (Some s)
  then obtain s' sink where r: "session_receive w bs s (mm_frameSink mm) = Some (r, s', sink)"
    "mm' = mm\<lparr>mm_sessions := om_set k s' (mm_sessions mm), mm_frameSink := sink\<rparr>"
    using assms(2) by (auto simp: receiveRtpPacket_def)
  have "reassembly_ok s'"
    using session_receive_ok [OF mm_okD(4) [OF assms(1) Some] r(1)] .
  then show ?thesis
    using mm_ok_rewrite [OF assms(1) Some, of s' sink] session_receive_identity [OF r(1)] r(2) by simp
qed

lemma mm_ok_send:
  assumes "mm_ok mm" "sendAnnexBFrame ops k v inc m mm = (r, mm')"
  shows "mm_ok mm'"
proof -
  have ad: "mm_ok (mm\<lparr>mm_rtpSessionAdapters := om_set k a (mm_rtpSessionAdapters mm)\<rparr>)"
    if "map_of (mm_sessions mm) k = Some s" for a s
    using that assms(1) by (intro mm_ok_adapter) auto
  have "mm_ok (mm\<lparr>mm_rtpSessionAdapters := om_set k a (mm_rtpSessionAdapters mm), mm_sessions := om_set k s' (mm_sessions mm)\<rparr>)"
    if s: "map_of (mm_sessions mm) k = Some s" "ms_id s' = ms_id s" "ms_localRtpPort s' = ms_localRtpPort s"
      "reassembly_ok s'" for a s s'
    using mm_ok_rewrite' [OF ad [OF s(1), of a], of k s s'] s by simp
  moreover have "reassembly_ok (s\<lparr>ms_sentRtpPayloadPackets := x, ms_sentRtpPayloadBytes := y, ms_sentVideoFrames := z\<rparr>)"
    if "map_of (mm_sessions mm) k = Some s" for s x y z
    using mm_okD(4) [OF assms(1) that] by (simp add: reassembly_ok_def)
  ultimately show ?thesis
    using assms ad
    by (auto simp: sendAnnexBFrame_def split: option.splits sum.splits prod.splits if_splits)
qed

section \<open>Reachable states\<close>

text \<open>Any sequence of calls from a new manager; the sessions handed in are fresh descriptions (nothing
  received yet, or copied from the table) on a port no other session uses.\<close>

inductive mm_step :: "'a rtp_adapter_ops \<Rightarrow> 's frame_writer \<Rightarrow> ('a, 's) media_manager \<Rightarrow> ('a, 's) media_manager \<Rightarrow> bool"
  for ops w where
  configure: "mm_configure es mm = Some (b, mm') \<Longrightarrow> mm_step ops w mm mm'"
| sink: "mm_step ops w mm (setFrameSink sink mm)"
| allocate: "allocateRtpPort mm = (p, mm') \<Longrightarrow> mm_step ops w mm mm'"
| release: "p \<notin> session_ports mm \<Longrightarrow> mm_step ops w mm (releaseRtpPort p mm)"
| create: "createSession s mm = (b, mm') \<Longrightarrow> port_unshared s mm \<Longrightarrow> reassembly_ok s \<Longrightarrow> mm_step ops w mm mm'"
| update: "updateSession s mm = (b, mm') \<Longrightarrow> reassembly_ok s \<Longrightarrow> mm_step ops w mm mm'"
| state: "updateSessionState k st mm = (b, mm') \<Longrightarrow> mm_step ops w mm mm'"
| start: "startRtpSessionAdapter ops k a mm = (r, mm') \<Longrightarrow> mm_step ops w mm mm'"
| stop: "mm_step ops w mm (stopRtpSessionAdapter k mm)"
| stop_all: "mm_step ops w mm (stopAllRtpSessionAdapters mm)"
| receive: "receiveRtpPacket w k bs mm = Some (r, mm') \<Longrightarrow> mm_step ops w mm mm'"
| send: "sendAnnexBFrame ops k v inc m mm = (r, mm') \<Longrightarrow> mm_step ops w mm mm'"
| close: "closeSession k mm = (b, mm') \<Longrightarrow> mm_step ops w mm mm'"

lemma mm_ok_release:
  assumes "mm_ok mm" "p \<notin> session_ports mm"
  shows "mm_ok (releaseRtpPort p mm)"
proof (rule mm_okI)
  note rel = release_ports_ok [OF mm_ok_ports [OF assms(1)], of p]
  show "ports_ok (releaseRtpPort p mm)" by (rule rel)
  show "k \<noteq> [] \<and> ms_id s = k \<and> ms_localRtpPort s \<in> mm_allocatedPorts (releaseRtpPort p mm) \<and> reassembly_ok s"
    if "map_of (mm_sessions (releaseRtpPort p mm)) k = Some s" for k s
    using that mm_okD [OF assms(1), of k s] assms(2) rel(3) by (auto simp: session_ports_def)
qed (use assms(1) mm_ok_inj [OF assms(1)] mm_ok_adapters [OF assms(1)] in auto)

lemma mm_ok_frame:
  assumes "mm_ok mm" "mm_availablePorts mm' = mm_availablePorts mm" "mm_availablePortSet mm' = mm_availablePortSet mm"
    "mm_allocatedPorts mm' = mm_allocatedPorts mm" "mm_sessions mm' = mm_sessions mm"
    "mm_rtpSessionAdapters mm' = mm_rtpSessionAdapters mm \<or> mm_rtpSessionAdapters mm' = []"
  shows "mm_ok mm'"
proof (rule mm_okI)
  show "ports_ok mm'" using mm_ok_ports [OF assms(1)] assms(2-4) by (simp add: ports_ok_def)
  show "map_of (mm_sessions mm') k \<noteq> None" if "map_of (mm_rtpSessionAdapters mm') k = Some a" for k a
    using that assms(5,6) mm_ok_adapters [OF assms(1)] by auto
qed (use assms mm_okD [OF assms(1)] mm_ok_inj [OF assms(1)] in auto)

lemma mm_ok_sink: "mm_ok mm \<Longrightarrow> mm_ok (setFrameSink k mm)"
  by (rule mm_ok_frame) (auto simp: setFrameSink_def)

lemma mm_ok_stop_all: "mm_ok mm \<Longrightarrow> mm_ok (stopAllRtpSessionAdapters mm)"
  by (rule mm_ok_frame) (auto simp: stopAllRtpSessionAdapters_def)

lemma mm_step_ok: "mm_step ops w mm mm' \<Longrightarrow> mm_ok mm \<Longrightarrow> mm_ok mm'"
  by (induction rule: mm_step.induct)
    (blast intro: mm_ok_configure mm_ok_sink mm_ok_allocate mm_ok_release mm_ok_create mm_ok_update mm_ok_state
      mm_ok_start mm_ok_stop mm_ok_stop_all mm_ok_receive mm_ok_send mm_ok_close)+

section \<open>What a send hands to the adapter\<close>

text \<open>The packets of one frame: its chunks in order, the marker and the time stamp increment on the
  last one.\<close>

fun stream_packets :: "u32 \<Rightarrow> bytes list \<Rightarrow> rtp_payload_packet list" where
  "stream_packets inc [] = []"
| "stream_packets inc (c # cs) =
     \<lparr>rp_payload = c, rp_payloadType = 96, rp_marker = (cs = []), rp_timestampIncrement = (if cs = [] then inc else 0)\<rparr>
     # stream_packets inc cs"

lemma stream_packets_payloads [simp]: "map rp_payload (stream_packets inc cs) = cs"
  by (induction cs) auto

lemma length_stream_packets [simp]: "length (stream_packets inc cs) = length cs"
  by (induction cs) auto

context rtp_adapter
begin

text \<open>Over any adapter that keeps the contract, the loop of \<open>sendAnnexBFrame\<close> sends a prefix of the
  frame's packets, all of them exactly when it succeeds.\<close>

lemma send_loop_sent:
  assumes "0 < m" "send_loop ops ps inc m offset n b a = (r, a')"
  shows "case r of
      Inr (n', b') \<Rightarrow> sent a' = sent a @ stream_packets inc (chunks m (drop offset ps)) \<and>
        n' = n + length (chunks m (drop offset ps)) \<and> b' = b + (length ps - offset)
    | Inl e \<Rightarrow> (\<exists>k < length (chunks m (drop offset ps)).
        sent a' = sent a @ take k (stream_packets inc (chunks m (drop offset ps))))"
  using assms
proof (induction "length ps - offset" arbitrary: offset n b a rule: less_induct)
  case less
  note unfold = send_loop.simps [of ops ps inc m offset n b a]
  show ?case
  proof (cases "offset < length ps")
    case False
    then have "r = Inr (n, b)" "a' = a"
      using less.prems(2) unfold by simp_all
    then show ?thesis using False by simp
  next
    case True
    define c where "c = take m (drop offset ps)"
    let ?cs = "chunks m (drop (offset + length c) ps)"
    have len: "length c = (if length ps - offset > m then m else length ps - offset)"
      by (simp add: c_def)
    have rest: "drop m (drop offset ps) = drop (offset + length c) ps"
      by (auto simp: len add.commute)
    have chunks: "chunks m (drop offset ps) = c # ?cs"
      using True less.prems(1) by (simp only: rest [symmetric]) (simp add: chunks_step c_def)
    have last: "(offset + length c \<ge> length ps) = (?cs = [])"
      using less.prems(1) by simp
    define packet where "packet = \<lparr>rp_payload = c, rp_payloadType = 96, rp_marker = (?cs = []),
      rp_timestampIncrement = (if ?cs = [] then inc else 0)\<rparr>"
    have step: "send_loop ops ps inc m offset n b a =
      (case ra_sendPayloadPacket ops packet a of (Inl e, a') \<Rightarrow> (Inl e, a')
       | (Inr _, a') \<Rightarrow> send_loop ops ps inc m (offset + length c) (n + 1) (b + length c) a')"
      using True less.prems(1)
      unfolding unfold Let_def len [symmetric] last packet_def by (simp add: c_def len)
    have sp: "stream_packets inc (chunks m (drop offset ps)) = packet # stream_packets inc ?cs"
      by (simp add: chunks packet_def)
    obtain r1 a1 where r1: "ra_sendPayloadPacket ops packet a = (r1, a1)" by fastforce
    show ?thesis
    proof (cases r1)
      case (Inl e)
      then have "sent a' = sent a" "r = Inl e"
        using less.prems(2) step r1 send_fails [of packet a e a1] by simp_all
      then show ?thesis unfolding chunks by (auto intro: exI [of _ 0])
    next
      case (Inr u)
      then have a1: "sent a1 = sent a @ [packet]"
        using r1 send_ok [of packet a a1] by simp
      have loop: "send_loop ops ps inc m (offset + length c) (n + 1) (b + length c) a1 = (r, a')"
        using less.prems(2) step r1 Inr by simp
      have "0 < length c" using True less.prems(1) by (simp add: len)
      then have "length ps - (offset + length c) < length ps - offset" using True by linarith
      note ih = less.hyps [OF this less.prems(1) loop]
      show ?thesis
      proof (cases r)
        case r: (Inl e)
        then obtain k where "k < length ?cs" "sent a' = sent a1 @ take k (stream_packets inc ?cs)"
          using ih by auto
        then have "Suc k < length (chunks m (drop offset ps)) \<and>
            sent a' = sent a @ take (Suc k) (stream_packets inc (chunks m (drop offset ps)))"
          unfolding sp by (simp add: a1 chunks)
        then show ?thesis using r by auto
      next
        case r: (Inr nb)
        have "b + length c + (length ps - (offset + length c)) = b + (length ps - offset)"
          using True by (simp add: len)
        then show ?thesis
          using ih r unfolding sp by (auto simp: a1 chunks)
      qed
    qed
  qed
qed

end


section \<open>Packets through the manager\<close>

fun receive_packets ::
  "'s frame_writer \<Rightarrow> string \<Rightarrow> bytes list \<Rightarrow> ('a, 's) media_manager \<Rightarrow>
     ((string + unit) list \<times> ('a, 's) media_manager) option" where
  "receive_packets w sid [] mm = Some ([], mm)"
| "receive_packets w sid (b # bs) mm =
    (case receiveRtpPacket w sid b mm of None \<Rightarrow> None
     | Some (r, mm') \<Rightarrow> map_option (\<lambda>(rs, mm''). (r # rs, mm'')) (receive_packets w sid bs mm'))"

lemma receive_packets_session:
  assumes "om_ok (mm_sessions mm)" "map_of (mm_sessions mm) sid = Some s"
    "receive_all w bs s (mm_frameSink mm) = Some (rs, s', sink')"
  shows "receive_packets w sid bs mm =
    Some (rs, mm\<lparr>mm_sessions := om_set sid s' (mm_sessions mm), mm_frameSink := sink'\<rparr>)"
  using assms
proof (induction bs arbitrary: mm s rs)
  case Nil
  then show ?case by (simp add: om_set_same)
next
  case (Cons b bs)
  obtain r s1 k1 where r: "session_receive w b s (mm_frameSink mm) = Some (r, s1, k1)"
    using Cons.prems(3) by (auto split: option.splits)
  let ?mm = "mm\<lparr>mm_sessions := om_set sid s1 (mm_sessions mm), mm_frameSink := k1\<rparr>"
  obtain rs1 where rs1: "receive_all w bs s1 k1 = Some (rs1, s', sink')" "rs = r # rs1"
    using Cons.prems(3) r by auto
  have "receive_packets w sid bs ?mm =
      Some (rs1, ?mm\<lparr>mm_sessions := om_set sid s' (mm_sessions ?mm), mm_frameSink := sink'\<rparr>)"
    using Cons.IH [of ?mm s1 rs1] Cons.prems(1) rs1(1) by simp
  then show ?case
    using Cons.prems r rs1(2) by (simp add: receiveRtpPacket_def om_set_twice)
qed

lemma build_outboundE:
  assumes "buildOutboundRtpPackets sid v q T m mm = Inr packets"
  obtains s c where "map_of (mm_sessions mm) sid = Some s" "stringToUint32 (ms_ssrc s) = Some c" "v \<noteq> []"
    "packetizeRtpPayload (buildProgramStreamSample v) (default_rtp_options\<lparr>opt_payloadType := 96,
       opt_firstSequenceNumber := q, opt_timestamp := T, opt_ssrc := c, opt_maxPayloadBytes := m\<rparr>) = Stored True packets"
  using assms
  by (auto simp: buildOutboundRtpPackets_def Let_def split: if_splits option.splits parsed.splits bool.splits)

section \<open>Properties\<close>

text \<open>C1: from sender to sink: when one manager builds the RTP packets of an Annex-B frame the
  elementary stream parser accepts, and another manager's idle session with the same SSRC (or none)
  receives them in order, every packet is accepted, the sink is handed exactly one frame, with the
  sent bytes, codec, key-frame flag, time stamp and packet count, and the session is idle again with
  one more completed frame, whatever the packet size and first sequence number.\<close>

theorem sent_frame_is_received:
  assumes "buildOutboundRtpPackets sid v q T m sender = Inr packets"
    and "map_of (mm_sessions sender) sid = Some s1" and "stringToUint32 (ms_ssrc s1) = Some c"
    and "parseElementaryStream v = Some (Stored True es)" and "length v < 2 ^ 64"
    and "om_ok (mm_sessions receiver)" and "map_of (mm_sessions receiver) sid' = Some s2"
    and "ms_ssrc s2 = [] \<or> ms_ssrc s2 = uint32ToString c" and "between_frames s2"
    and "mm_frameSink receiver = Some k"
    and "writeFrame (the_frame s2 es T (length packets) v) k = (Inr (), k')"
  shows "\<exists>s2'. receive_packets writeFrame sid' packets receiver =
      Some (replicate (length packets) (Inr ()),
        receiver\<lparr>mm_sessions := om_set sid' s2' (mm_sessions receiver), mm_frameSink := Some k'\<rparr>) \<and>
    between_frames s2' \<and> ms_completedVideoFrames s2' = ms_completedVideoFrames s2 + 1 \<and>
    ms_lastVideoFrameBytes s2' = of_nat (length v) \<and> ms_lastVideoFramePackets s2' = of_nat (length packets) \<and>
    ms_lastVideoFrameCodec s2' = es_codec es \<and> ms_lastVideoFrameKey s2' = es_key es \<and>
    ms_state s2' = ''stream-receiving''"
proof -
  let ?opts = "default_rtp_options\<lparr>opt_payloadType := 96, opt_firstSequenceNumber := q, opt_timestamp := T,
    opt_ssrc := c, opt_maxPayloadBytes := m\<rparr>"
  have p: "packetizeRtpPayload (buildProgramStreamSample v) ?opts = Stored True packets"
    using build_outboundE [OF assms(1)] assms(2,3) by (metis option.inject)
  have ssrc: "ssrc_accepted s2 (opt_ssrc ?opts)"
    using assms(8) by (simp add: ssrc_accepted_def)
  have sink: "fst (writeFrame (the_frame s2 es (opt_timestamp ?opts) (length packets) v) x) = Inr ()"
    if "Some k = Some x" for x
    using that assms(11) by simp
  obtain s2' where s2': "receive_all writeFrame packets s2 (Some k) = Some (replicate (length packets) (Inr ()), s2',
       map_option (\<lambda>x. snd (writeFrame (the_frame s2 es (opt_timestamp ?opts) (length packets) v) x)) (Some k))"
    "between_frames s2'" "ms_completedVideoFrames s2' = ms_completedVideoFrames s2 + 1"
    "ms_lastVideoFrameBytes s2' = of_nat (length v)" "ms_lastVideoFramePackets s2' = of_nat (length packets)"
    "ms_lastVideoFrameCodec s2' = es_codec es" "ms_lastVideoFrameKey s2' = es_key es"
    "ms_state s2' = ''stream-receiving''"
    by (rule receive_packetized [where w = writeFrame and k = "Some k", OF assms(4,5) p ssrc assms(9) sink])
  have "receive_all writeFrame packets s2 (mm_frameSink receiver) =
      Some (replicate (length packets) (Inr ()), s2', Some k')"
    using s2'(1) assms(10,11) by simp
  from receive_packets_session [OF assms(6,7) this] s2'(2-) show ?thesis by blast
qed


theorem sent_frame_is_received_witness:
  "\<exists>packets s2'. receive_packets (\<lambda>f k. (Inr (), k @ [fr_data f])) ''b'' packets
      (new_media_manager\<lparr>mm_sessions := [(''b'', new_media_session)], mm_frameSink := Some []\<rparr> :: (unit, bytes list) media_manager) =
    Some (replicate (length packets) (Inr ()),
      new_media_manager\<lparr>mm_sessions := [(''b'', s2')], mm_frameSink := Some [[0, 0, 1, 0x65, 0x88]]\<rparr>) \<and>
    ms_completedVideoFrames s2' = 1"
proof -
  let ?v = "[0, 0, 1, 0x65, 0x88] :: bytes"
  let ?s1 = "new_media_session\<lparr>ms_ssrc := ''7''\<rparr>"
  let ?sender = "new_media_manager\<lparr>mm_sessions := [(''a'', ?s1)]\<rparr> :: (unit, unit) media_manager"
  let ?recv = "new_media_manager\<lparr>mm_sessions := [(''b'', new_media_session)], mm_frameSink := Some []\<rparr> :: (unit, bytes list) media_manager"
  let ?w = "\<lambda>f k. (Inr (), k @ [fr_data f]) :: (string + unit) \<times> bytes list"
  have ssrc: "stringToUint32 ''7'' = Some 7"
    by (simp add: stringToUint32_def extract_unsigned_def split_sign_def isspace_def isdigit_def dec_value_def
        digit_value_def Let_def)
  obtain es where es: "parseElementaryStream ?v = Some (Stored True es)"
    using small_idr_stream by blast
  let ?opts = "default_rtp_options\<lparr>opt_payloadType := 96, opt_firstSequenceNumber := 5, opt_timestamp := 9000,
    opt_ssrc := 7, opt_maxPayloadBytes := 4\<rparr>"
  have ne: "buildProgramStreamSample ?v \<noteq> []"
    by (simp add: buildProgramStreamSample_def packHeader_def Let_def)
  obtain packets where "packetizeRtpPayload (buildProgramStreamSample ?v) ?opts = Stored True packets"
    by (rule packetize_parsed [OF ne, of ?opts]) simp
  then have p: "buildOutboundRtpPackets ''a'' ?v 5 9000 4 ?sender = Inr packets"
    by (simp add: buildOutboundRtpPackets_def ssrc)
  have bf: "between_frames new_media_session"
    by (simp add: between_frames_def no_frame_def collecting_def new_media_session_def)
  have maps: "map_of (mm_sessions ?sender) ''a'' = Some ?s1" "stringToUint32 (ms_ssrc ?s1) = Some 7"
    "map_of (mm_sessions ?recv) ''b'' = Some new_media_session" "om_ok (mm_sessions ?recv)"
    "ms_ssrc new_media_session = [] \<or> ms_ssrc new_media_session = uint32ToString 7" "mm_frameSink ?recv = Some []"
    "length ?v < 2 ^ 64"
    by (simp_all add: ssrc om_ok_def new_media_session_def)
  have w: "?w (the_frame new_media_session es 9000 (length packets) ?v) [] = (Inr (), [?v])"
    by (simp add: the_frame_def)
  obtain s2' where s2': "receive_packets ?w ''b'' packets ?recv = Some (replicate (length packets) (Inr ()),
      ?recv\<lparr>mm_sessions := om_set ''b'' s2' (mm_sessions ?recv), mm_frameSink := Some [?v]\<rparr>)"
    "ms_completedVideoFrames s2' = ms_completedVideoFrames new_media_session + 1"
    using sent_frame_is_received [where writeFrame = ?w, OF p maps(1,2) es maps(7,4,3,5) bf maps(6) w] by blast
  have "ms_completedVideoFrames s2' = 1"
    using s2'(2) by (simp add: new_media_session_def)
  then show ?thesis
    using s2'(1) by (intro exI [of _ packets] exI [of _ s2']) simp
qed

text \<open>No state reachable by any sequence of operations from a new manager (configuration,
  allocation, session bookkeeping, adapters, packets received and sent, in any order) violates the
  manager's invariant: the queue of free ports has no duplicates and is the free set, free and
  allocated ports are disjoint, positive and even, sessions are filed under their id on allocated
  ports no two of them share, every running adapter has its session, and the reassembly counters
  agree with their buffers.\<close>

theorem reachable_manager_ok:
  assumes "(mm_step ops w)\<^sup>*\<^sup>* new_media_manager mm"
  shows "mm_ok mm"
  using assms by (induction rule: rtranclp_induct) (auto intro: mm_ok_new mm_step_ok)

theorem reachable_manager_ok_witness:
  "mm_ok (setFrameSink (Some ()) (new_media_manager :: (unit, unit) media_manager))"
proof (rule reachable_manager_ok)
  show "(mm_step undefined (\<lambda>f k. (Inr (), k)))\<^sup>*\<^sup>* new_media_manager (setFrameSink (Some ()) new_media_manager)"
    by (rule r_into_rtranclp) (rule mm_step.sink)
qed

text \<open>C33: the port pool is conserved. A configured pool is exactly the even ports of the endpoints'
  ranges; allocating gives 0 only when no port is free, and otherwise a port that was free, belongs to
  no session and is withdrawn from the free ports; releasing it makes it the last in the queue again;
  neither loses or invents a port.\<close>

theorem port_pool_conserved:
  assumes "mm_configure endpoints mm0 = Some (b, mm1)"
    and "mm_ok mm" and "allocateRtpPort mm = (p, mm')"
  shows "port_pool mm1 = (\<Union>e \<in> set endpoints. endpoint_ports e) \<and> mm_allocatedPorts mm1 = {} \<and>
    port_pool mm' = port_pool mm \<and>
    (p = 0 \<and> mm_availablePortSet mm = {} \<or>
      p \<in> mm_availablePortSet mm - session_ports mm \<and> mm_allocatedPorts mm' = insert p (mm_allocatedPorts mm) \<and>
      mm_availablePortSet (releaseRtpPort p mm') = mm_availablePortSet mm \<and>
      mm_availablePorts (releaseRtpPort p mm') = mm_availablePorts mm' @ [p] \<and>
      mm_allocatedPorts (releaseRtpPort p mm') = mm_allocatedPorts mm)"
proof (intro conjI)
  show "port_pool mm1 = (\<Union>e \<in> set endpoints. endpoint_ports e)" "mm_allocatedPorts mm1 = {}"
    using configure_ports_ok [OF assms(1)] by simp_all
  note a = allocate_ports_ok [OF mm_ok_ports [OF assms(2)] assms(3)]
  show "port_pool mm' = port_pool mm" using a by simp
  show "p = 0 \<and> mm_availablePortSet mm = {} \<or>
      p \<in> mm_availablePortSet mm - session_ports mm \<and> mm_allocatedPorts mm' = insert p (mm_allocatedPorts mm) \<and>
      mm_availablePortSet (releaseRtpPort p mm') = mm_availablePortSet mm \<and>
      mm_availablePorts (releaseRtpPort p mm') = mm_availablePorts mm' @ [p] \<and>
      mm_allocatedPorts (releaseRtpPort p mm') = mm_allocatedPorts mm"
  proof (cases "p = 0")
    case False
    then have p: "p \<in> mm_availablePortSet mm" "p \<notin> mm_allocatedPorts mm"
      "mm_availablePortSet mm' = mm_availablePortSet mm - {p}" "mm_allocatedPorts mm' = insert p (mm_allocatedPorts mm)"
      using a by auto
    have "0 < p" using p(1) mm_ok_ports [OF assms(2)] by (auto simp: ports_ok_def)
    moreover have "p \<notin> session_ports mm"
      using p(2) mm_okD(3) [OF assms(2)] by (auto simp: session_ports_def)
    ultimately show ?thesis
      using p by (auto simp: releaseRtpPort_def Let_def)
  qed (use a in auto)
qed

theorem port_pool_conserved_witness:
  "\<exists>mm p mm'. mm_configure [new_endpoint_config\<lparr>ep_rtpPortBegin := 3, ep_rtpPortEnd := 6\<rparr>]
      (new_media_manager :: (unit, unit) media_manager) = Some (True, mm) \<and>
    allocateRtpPort mm = (p, mm') \<and> p = 4 \<and> port_pool mm' = {4, 6}"
proof -
  let ?e = "new_endpoint_config\<lparr>ep_rtpPortBegin := 3, ep_rtpPortEnd := 6\<rparr>"
  let ?mm0 = "new_media_manager :: (unit, unit) media_manager"
  define mm where "mm = ?mm0\<lparr>mm_availablePorts := [4, 6], mm_availablePortSet := {4, 6}\<rparr>"
  have c: "mm_configure [?e] ?mm0 = Some (True, mm)"
    by (simp add: mm_configure_def config_ports_def range_ports_def new_endpoint_config_def port_loop.simps INT_MAX_def
        new_media_manager_def mm_def)
  have a: "allocateRtpPort mm = (4, mm\<lparr>mm_availablePorts := [6], mm_availablePortSet := {6}, mm_allocatedPorts := {4}\<rparr>)"
    by (simp add: allocateRtpPort_def mm_def new_media_manager_def)
  have "port_pool (mm\<lparr>mm_availablePorts := [6], mm_availablePortSet := {6}, mm_allocatedPorts := {4}\<rparr>) = {4, 6}"
    using port_pool_conserved [OF c mm_ok_configure [OF c] a] by (simp add: mm_def port_pool_def new_media_manager_def)
  with c a show ?thesis by blast
qed

text \<open>Receiving is total: for any session id and any bytes, \<open>receiveRtpPacket\<close> reads no byte outside
  its buffers and returns; it keeps the invariant, and neither ports nor adapters nor other sessions
  change.\<close>

theorem receive_total:
  assumes "mm_ok mm"
  shows "\<exists>r mm'. receiveRtpPacket w sid bs mm = Some (r, mm') \<and> mm_ok mm' \<and>
    mm_availablePorts mm' = mm_availablePorts mm \<and> mm_allocatedPorts mm' = mm_allocatedPorts mm \<and>
    mm_rtpSessionAdapters mm' = mm_rtpSessionAdapters mm \<and>
    (map_of (mm_sessions mm'))(sid := None) = (map_of (mm_sessions mm))(sid := None)"
proof -
  obtain r mm' where r: "receiveRtpPacket w sid bs mm = Some (r, mm')"
    using session_receive_safe [of w bs _ "mm_frameSink mm"]
    by (fastforce simp: receiveRtpPacket_def split: option.split)
  moreover have "mm_ok mm'" using mm_ok_receive assms r by blast
  ultimately show ?thesis
    using assms by (auto simp: receiveRtpPacket_def split: option.splits)
qed

theorem receive_total_witness:
  "\<exists>r mm'. receiveRtpPacket (\<lambda>f k. (Inr (), k)) ''x'' [1, 2] (new_media_manager :: (unit, unit) media_manager) = Some (r, mm')
     \<and> mm_ok mm'"
  using receive_total [OF mm_ok_new, of "\<lambda>f k. (Inr (), k)" "''x''" "[1, 2]"] by blast


text \<open>C18: sending a frame through the JRTPLIB adapter, whatever the library answers: on success the
  library has accepted exactly the chunks of the frame's program stream, in order, with the marker and
  the time stamp increment on the last one, and the session's counters count them; on an error it has
  accepted a proper prefix, the error is reported, and no session changes.\<close>

theorem send_frame_packets:
  assumes "mm_ok mm" and "map_of (mm_sessions mm) k = Some s" and "map_of (mm_rtpSessionAdapters mm) k = Some a"
    and "v \<noteq> []" and "0 < m" and "sendAnnexBFrame (jr_ops J) k v inc m mm = (r, mm')"
  shows "\<exists>a'. map_of (mm_rtpSessionAdapters mm') k = Some a' \<and>
    (let ps = buildProgramStreamSample v; packets = stream_packets inc (chunks m ps)
     in case r of
          Inr _ \<Rightarrow> jr_sent a' = jr_sent a @ packets \<and> concat (map rp_payload packets) = ps \<and>
            map_of (mm_sessions mm') = (map_of (mm_sessions mm))(k \<mapsto>
              s\<lparr>ms_sentRtpPayloadPackets := ms_sentRtpPayloadPackets s + of_nat (length packets),
                ms_sentRtpPayloadBytes := ms_sentRtpPayloadBytes s + of_nat (length ps),
                ms_sentVideoFrames := ms_sentVideoFrames s + 1\<rparr>)
        | Inl e \<Rightarrow> mm_sessions mm' = mm_sessions mm \<and>
            (\<exists>n < length packets. jr_sent a' = jr_sent a @ take n packets))"
proof -
  let ?ps = "buildProgramStreamSample v"
  obtain r1 a1 where l: "send_loop (jr_ops J) ?ps inc m 0 0 0 a = (r1, a1)" by fastforce
  note sent = jr.send_loop_sent [OF assms(5) l]
  show ?thesis
  proof (cases r1)
    case (Inl e)
    then have "r = Inl e" "mm' = mm\<lparr>mm_rtpSessionAdapters := om_set k a1 (mm_rtpSessionAdapters mm)\<rparr>"
      using assms l by (auto simp: sendAnnexBFrame_def)
    then show ?thesis using assms(1) sent Inl by (auto simp: Let_def)
  next
    case (Inr nb)
    obtain n b where nb: "nb = (n, b)" by fastforce
    have "r = Inr ()" "mm' = mm\<lparr>mm_rtpSessionAdapters := om_set k a1 (mm_rtpSessionAdapters mm),
        mm_sessions := om_set k (s\<lparr>ms_sentRtpPayloadPackets := ms_sentRtpPayloadPackets s + of_nat n,
          ms_sentRtpPayloadBytes := ms_sentRtpPayloadBytes s + of_nat b,
          ms_sentVideoFrames := ms_sentVideoFrames s + 1\<rparr>) (mm_sessions mm)\<rparr>"
      using assms l Inr nb by (auto simp: sendAnnexBFrame_def)
    then show ?thesis using assms(1,5) sent Inr nb by (simp add: Let_def)
  qed
qed

lemma send_loop_succeeds:
  assumes "\<And>p t mk i j. 0 \<le> fst (j_SendPacket J p t mk i j)" "0 < m"
  shows "jr_running a \<Longrightarrow> \<exists>n b a'. send_loop (jr_ops J) ps inc m off n0 b0 a = (Inr (n, b), a')"
proof (induction "length ps - off" arbitrary: off n0 b0 a rule: less_induct)
  case less
  show ?case
  proof (cases "off < length ps")
    case True
    define c where "c = (if length ps - off > m then m else length ps - off)"
    define p where "p = \<lparr>rp_payload = take c (drop off ps), rp_payloadType = 96, rp_marker = (off + c \<ge> length ps),
      rp_timestampIncrement = (if off + c \<ge> length ps then inc else 0)\<rparr>"
    have c: "0 < c" "off + c \<le> length ps" using True assms(2) by (auto simp: c_def)
    then have "rp_payload p \<noteq> []" using True by (simp add: p_def)
    then obtain a1 where a1: "ra_sendPayloadPacket (jr_ops J) p a = (Inr (), a1)" "jr_running a1"
      using less.prems assms(1) [of "rp_payload p" "rp_payloadType p" "rp_marker p" "rp_timestampIncrement p" "jr_session a"]
      by (cases "j_SendPacket J (rp_payload p) (rp_payloadType p) (rp_marker p) (rp_timestampIncrement p) (jr_session a)")
        (auto simp: jr_ops_def jr_sendPayloadPacket_def Let_def)
    have "send_loop (jr_ops J) ps inc m off n0 b0 a = send_loop (jr_ops J) ps inc m (off + c) (n0 + 1) (b0 + c) a1"
      using True assms(2) a1(1)
      by (subst send_loop.simps) (simp only: Let_def c_def [symmetric] p_def [symmetric] if_True simp_thms prod.case sum.case)
    then show ?thesis using less.hyps [of "off + c", OF _ a1(2)] True c(1) by simp
  qed (simp add: send_loop.simps)
qed

theorem send_frame_packets_witness:
  "\<exists>a' :: unit jrtp_adapter. jr_sent a' = stream_packets 3600 (chunks 8 (buildProgramStreamSample [0, 0, 1, 0x65])) \<and>
     concat (map rp_payload (jr_sent a')) = buildProgramStreamSample [0, 0, 1, 0x65]"
proof -
  let ?J = "\<lparr>j_Create = \<lambda>_ j. (0, j), j_SetMaximumPacketSize = \<lambda>_ j. (0, j), j_AddDestination = \<lambda>_ _ j. (0, j),
    j_SendPacket = \<lambda>_ _ _ _ j. (0, j), j_Destroy = \<lambda>j. j, j_BYEDestroy = \<lambda>j. j, j_ErrorString = \<lambda>_. [],
    j_inet_addr = \<lambda>_. 0\<rparr> :: unit jrtplib"
  let ?a = "(new_jrtp_adapter ())\<lparr>jr_running := True\<rparr>"
  let ?s = "new_media_session\<lparr>ms_id := ''a'', ms_localRtpPort := 4\<rparr>"
  let ?mm = "new_media_manager\<lparr>mm_allocatedPorts := {4}, mm_sessions := [(''a'', ?s)],
    mm_rtpSessionAdapters := [(''a'', ?a)]\<rparr> :: (unit jrtp_adapter, unit) media_manager"
  let ?ps = "buildProgramStreamSample [0, 0, 1, 0x65]"
  have ok: "mm_ok ?mm"
    by (rule mm_okI) (auto simp: ports_ok_def new_media_manager_def om_ok_def new_media_session_def reassembly_ok_def
        INT_MAX_def split: if_splits)
  obtain n b a1 where "send_loop (jr_ops ?J) ?ps 3600 8 0 0 0 ?a = (Inr (n, b), a1)"
    using send_loop_succeeds [of ?J 8 ?a ?ps 3600 0 0 0] by auto
  then obtain mm' where "sendAnnexBFrame (jr_ops ?J) ''a'' [0, 0, 1, 0x65] 3600 8 ?mm = (Inr (), mm')"
    by (simp add: sendAnnexBFrame_def)
  from send_frame_packets [OF ok _ _ _ _ this, of ?s ?a]
  obtain a' :: "unit jrtp_adapter" where "jr_sent a' = stream_packets 3600 (chunks 8 ?ps)"
    by (auto simp: Let_def new_jrtp_adapter_def)
  then show ?thesis by (intro exI [of _ a']) simp
qed

text \<open>an SSRC text with a leading zero, the GB28181 form of a live stream's SSRC
  (\<open>0100000001\<close>), never matches: the session keeps the text while packets carry the number, so every
  packet, from any sender, is refused and the manager does not change.\<close>

theorem leading_zero_ssrc_receives_nothing:
  assumes "mm_ok mm" and "map_of (mm_sessions mm) sid = Some s" and "ms_ssrc s = CHR ''0'' # c # cs"
  shows "\<exists>e. receiveRtpPacket w sid bs mm = Some (Inl e, mm)"
proof -
  have "ms_ssrc s \<noteq> uint32ToString n" for n
  proof
    assume eq: "ms_ssrc s = uint32ToString n"
    then have "hd (dec (unat n)) = CHR ''0''"
      using assms(3) unfolding uint32ToString_def by (metis list.sel(1))
    then have "unat n = 0"
      by (rule dec_no_leading_zero)
    then have "uint32ToString n = [digit_char 0]"
      by (simp add: uint32ToString_def dec.simps [of 0])
    then show False using eq assms(3) by simp
  qed
  then have "\<exists>e. session_receive w bs s (mm_frameSink mm) = Some (Inl e, s, mm_frameSink mm)"
    using parse_rtp_defined [of bs] assms(3)
    by (auto simp: session_receive_def split: parsed.split bool.split)
  then show ?thesis
    using assms(1,2) by (auto simp: receiveRtpPacket_def om_set_same)
qed

theorem leading_zero_ssrc_receives_nothing_witness:
  "\<exists>e mm. receiveRtpPacket (\<lambda>f k. (Inr (), k)) ''a'' (buildRtpPacket 96 True 1 0 100000001 [1])
     (mm :: (unit, unit) media_manager) = Some (Inl e, mm) \<and> stringToUint32 ''0100000001'' = Some 100000001"
proof -
  let ?s = "new_media_session\<lparr>ms_id := ''a'', ms_localRtpPort := 4, ms_ssrc := ''0100000001''\<rparr>"
  let ?mm = "new_media_manager\<lparr>mm_allocatedPorts := {4}, mm_sessions := [(''a'', ?s)]\<rparr> :: (unit, unit) media_manager"
  have ok: "mm_ok ?mm"
    by (rule mm_okI) (auto simp: ports_ok_def new_media_manager_def om_ok_def new_media_session_def reassembly_ok_def
        INT_MAX_def split: if_splits)
  have "stringToUint32 ''0100000001'' = Some 100000001"
    by (simp add: stringToUint32_def extract_unsigned_def split_sign_def isspace_def isdigit_def dec_value_def
        digit_value_def Let_def)
  then show ?thesis
    using leading_zero_ssrc_receives_nothing [OF ok, of "''a''" ?s "CHR ''1''" "''00000001''" "\<lambda>f k. (Inr (), k)"
      "buildRtpPacket 96 True 1 0 100000001 [1]"] by (auto intro: exI [of _ ?mm])
qed

lemma session_ports_remove:
  assumes "mm_ok mm" "map_of (mm_sessions mm) k = Some s" and m: "map_of (mm_sessions mm') = (map_of (mm_sessions mm))(k := None)"
  shows "session_ports mm' = session_ports mm - {ms_localRtpPort s}"
proof (intro set_eqI iffI)
  fix q assume "q \<in> session_ports mm'"
  then obtain k2 s2 where "k2 \<noteq> k" "map_of (mm_sessions mm) k2 = Some s2" "q = ms_localRtpPort s2"
    unfolding session_ports_def m by (auto split: if_splits)
  then show "q \<in> session_ports mm - {ms_localRtpPort s}"
    using mm_ok_inj [OF assms(1,2), of k2 s2] unfolding session_ports_def by auto
next
  fix q assume "q \<in> session_ports mm - {ms_localRtpPort s}"
  then obtain k2 s2 where "map_of (mm_sessions mm) k2 = Some s2" "q = ms_localRtpPort s2" "q \<noteq> ms_localRtpPort s"
    unfolding session_ports_def by auto
  then have "map_of (mm_sessions mm') k2 = Some s2"
    using assms(2) unfolding m by auto
  then show "q \<in> session_ports mm'"
    using \<open>q = ms_localRtpPort s2\<close> unfolding session_ports_def by blast
qed

text \<open>closing a session stops its adapter, returns its port to the pool and forgets it, leaving the
  others alone; when the allocated ports were exactly the sessions' ports they still are.\<close>

theorem close_session_releases:
  assumes "mm_ok mm" and "map_of (mm_sessions mm) k = Some s" and "closeSession k mm = (b, mm')"
  shows "b \<and> mm_ok mm' \<and> map_of (mm_sessions mm') = (map_of (mm_sessions mm))(k := None) \<and>
    map_of (mm_rtpSessionAdapters mm') = (map_of (mm_rtpSessionAdapters mm))(k := None) \<and>
    ms_localRtpPort s \<in> mm_availablePortSet mm' \<and> port_pool mm' = port_pool mm \<and>
    (if no_leak mm then no_leak mm' else True)"
proof -
  let ?p = "ms_localRtpPort s"
  have mm': "b" "mm' = (releaseRtpPort ?p (stopRtpSessionAdapter k mm))\<lparr>mm_sessions := om_erase k (mm_sessions mm)\<rparr>"
    using assms(2,3) by (simp_all add: closeSession_def stopRtpSessionAdapter_def Let_def)
  note rel = release_ports_ok [OF mm_ok_ports [OF mm_ok_stop [OF assms(1)]], of ?p k]
  have m: "map_of (mm_sessions mm') = (map_of (mm_sessions mm))(k := None)"
    using mm'(2) by simp
  have al: "mm_allocatedPorts mm' = mm_allocatedPorts mm - {?p}"
    using rel(3) mm'(2) by (simp add: stopRtpSessionAdapter_def)
  have pool: "port_pool mm' = port_pool mm"
    using rel(2) mm'(2) by (simp add: port_pool_def stopRtpSessionAdapter_def)
  have "?p \<in> port_pool mm" "?p \<notin> mm_allocatedPorts mm'"
    using mm_okD(3) [OF assms(1,2)] al by (auto simp: port_pool_def)
  then have "?p \<in> mm_availablePortSet mm'"
    using pool by (auto simp: port_pool_def)
  moreover have "session_ports mm' = session_ports mm - {?p}"
    by (rule session_ports_remove [OF assms(1,2) m])
  ultimately show ?thesis
    using mm_ok_close [OF assms(1,3)] mm'(1) m al pool
    by (simp add: no_leak_def) (simp add: mm'(2) stopRtpSessionAdapter_def)
qed

theorem close_session_releases_witness:
  "\<exists>mm :: (unit, unit) media_manager. fst (closeSession ''a'' mm) \<and> no_leak (snd (closeSession ''a'' mm)) \<and> 4 \<in> mm_availablePortSet (snd (closeSession ''a'' mm))"
proof -
  let ?s = "new_media_session\<lparr>ms_id := ''a'', ms_localRtpPort := 4\<rparr>"
  let ?mm = "new_media_manager\<lparr>mm_allocatedPorts := {4}, mm_sessions := [(''a'', ?s)]\<rparr> :: (unit, unit) media_manager"
  have ok: "mm_ok ?mm"
    by (rule mm_okI) (auto simp: ports_ok_def new_media_manager_def om_ok_def new_media_session_def reassembly_ok_def
        INT_MAX_def split: if_splits)
  have "no_leak ?mm"
    by (auto simp: no_leak_def session_ports_def split: if_splits)
  then show ?thesis
    using close_session_releases [OF ok, of "''a''" ?s "fst (closeSession ''a'' ?mm)" "snd (closeSession ''a'' ?mm)"]
    by (intro exI [of _ ?mm]) simp
qed

end
