(* ===== verification/SdpSession.thy ===== *)
theory SdpSession
  imports CppText
begin

text \<open>
  \<open>src/src/media/SdpSession.{h,cpp}\<close>: the session descriptions of INVITE requests and responses.
  \<open>parseSdp\<close> gives \<open>None\<close> when the code returns \<open>false\<close> (the output is untouched then); \<open>long\<close> has
  64 bits.
\<close>

record sdp_info =
  sdp_originUser :: string
  sdp_sessionName :: string
  sdp_connectionIp :: string
  sdp_mediaPort :: int
  sdp_transport :: string
  sdp_direction :: string
  sdp_setup :: string
  sdp_ssrc :: string
  sdp_startTime :: int
  sdp_stopTime :: int

definition new_sdp_info :: sdp_info where
  "new_sdp_info = \<lparr>sdp_originUser = [], sdp_sessionName = [], sdp_connectionIp = [], sdp_mediaPort = 0,
     sdp_transport = [], sdp_direction = [], sdp_setup = [], sdp_ssrc = [], sdp_startTime = 0, sdp_stopTime = 0\<rparr>"

definition sdp_valid :: "sdp_info \<Rightarrow> bool" where
  "sdp_valid i \<longleftrightarrow> sdp_connectionIp i \<noteq> [] \<and> sdp_mediaPort i > 0 \<and> sdp_transport i \<noteq> []"

definition sdp_split :: "string \<Rightarrow> char \<Rightarrow> string list" where
  "sdp_split s delimiter = filter (\<lambda>part. part \<noteq> []) (delimited delimiter s)"

definition trimLine :: "string \<Rightarrow> string" where
  "trimLine s = dropWhile (\<lambda>c. c = CHR '' '' \<or> c = CHR 0x09)
     (rev (dropWhile (\<lambda>c. c = CHR 0x0D \<or> c = CHR 0x0A \<or> c = CHR '' '' \<or> c = CHR 0x09) (rev s)))"

definition toLong :: "string \<Rightarrow> int" where
  "toLong s = fst (extract_int (- (2 ^ 63)) (2 ^ 63 - 1) s)"

definition responseSetup :: "string \<Rightarrow> string" where
  "responseSetup requestSetup =
    (if requestSetup = ''active'' then ''passive''
     else if requestSetup = ''passive'' then ''active'' else '''')"

text \<open>The body of the loop over the lines; \<open>sdp_field\<close> is its chain of branches on \<open>line[0]\<close>.\<close>

definition sdp_field :: "char \<Rightarrow> string \<Rightarrow> sdp_info \<Rightarrow> sdp_info" where
  "sdp_field key val parsed =
    (let parts = sdp_split val (CHR '' '')
     in if key = CHR ''o''
        then (if parts \<noteq> [] then parsed\<lparr>sdp_originUser := parts ! 0\<rparr> else parsed)
        else if key = CHR ''s'' then parsed\<lparr>sdp_sessionName := val\<rparr>
        else if key = CHR ''c''
        then (if length parts \<ge> 3 then parsed\<lparr>sdp_connectionIp := parts ! 2\<rparr> else parsed)
        else if key = CHR ''t''
        then (if length parts \<ge> 2
              then parsed\<lparr>sdp_startTime := toLong (parts ! 0), sdp_stopTime := toLong (parts ! 1)\<rparr> else parsed)
        else if key = CHR ''m''
        then (if length parts \<ge> 3 \<and> parts ! 0 = ''video''
              then parsed\<lparr>sdp_mediaPort := toInt (parts ! 1), sdp_transport := parts ! 2\<rparr> else parsed)
        else if key = CHR ''a''
        then (if val = ''recvonly'' \<or> val = ''sendonly'' \<or> val = ''sendrecv''
              then parsed\<lparr>sdp_direction := val\<rparr>
              else if startsWith val ''setup:'' then parsed\<lparr>sdp_setup := drop 6 val\<rparr> else parsed)
        else if key = CHR ''y'' then parsed\<lparr>sdp_ssrc := val\<rparr>
        else parsed)"

definition sdp_line :: "string \<Rightarrow> sdp_info \<Rightarrow> sdp_info" where
  "sdp_line rawLine parsed =
    (let line = trimLine rawLine
     in if length line < 2 \<or> line ! 1 \<noteq> CHR ''='' then parsed else sdp_field (line ! 0) (drop 2 line) parsed)"

definition parseSdp :: "string \<Rightarrow> sdp_info option" where
  "parseSdp body =
    (if body = [] then None
     else let parsed = fold sdp_line (getlines body) new_sdp_info
       in if \<not> sdp_valid parsed then None else Some parsed)"

definition crlf :: string where "crlf = [CHR 0x0D, CHR 0x0A]"

definition buildInviteSdp :: "string \<Rightarrow> string \<Rightarrow> int \<Rightarrow> string \<Rightarrow> string" where
  "buildInviteSdp deviceId localIp localRtpPort ssrc =
     ''v=0'' @ crlf @
     ''o='' @ deviceId @ '' 0 0 IN IP4 '' @ localIp @ crlf @
     ''s=Play'' @ crlf @
     ''c=IN IP4 '' @ localIp @ crlf @
     ''t=0 0'' @ crlf @
     ''m=video '' @ dec_int localRtpPort @ '' RTP/AVP 96'' @ crlf @
     ''a=recvonly'' @ crlf @
     ''a=rtpmap:96 PS/90000'' @ crlf @
     ''y='' @ ssrc @ crlf"

definition buildInviteResponseSdp :: "string \<Rightarrow> string \<Rightarrow> int \<Rightarrow> sdp_info \<Rightarrow> string" where
  "buildInviteResponseSdp deviceId localIp localRtpPort request =
    (let transport = (if sdp_transport request = [] then ''RTP/AVP'' else sdp_transport request);
         body = ''v=0'' @ crlf @
           ''o='' @ deviceId @ '' 0 0 IN IP4 '' @ localIp @ crlf @
           ''s='' @ (if sdp_sessionName request = [] then ''Play'' else sdp_sessionName request) @ crlf @
           ''c=IN IP4 '' @ localIp @ crlf @
           ''t='' @ dec_int (sdp_startTime request) @ '' '' @ dec_int (sdp_stopTime request) @ crlf @
           ''m=video '' @ dec_int localRtpPort @ '' '' @ transport @ '' 96'' @ crlf @
           ''a=rtpmap:96 PS/90000'' @ crlf @
           ''a=sendonly'' @ crlf;
         setup = responseSetup (sdp_setup request);
         body = (if setup \<noteq> [] then body @ ''a=setup:'' @ setup @ crlf else body)
     in if sdp_ssrc request \<noteq> [] then body @ ''y='' @ sdp_ssrc request @ crlf else body)"

section \<open>Lines of well-formed descriptions\<close>

definition blank :: "char \<Rightarrow> bool" where
  "blank c \<longleftrightarrow> c = CHR 0x0D \<or> c = CHR 0x0A \<or> c = CHR '' '' \<or> c = CHR 0x09"

definition sdp_token :: "string \<Rightarrow> bool" where
  "sdp_token s \<longleftrightarrow> s \<noteq> [] \<and> list_all (\<lambda>c. \<not> blank c) s"

text \<open>Free text: no newline and no blank at its end.\<close>

definition sdp_text :: "string \<Rightarrow> bool" where
  "sdp_text s \<longleftrightarrow> CHR 0x0A \<notin> set s \<and> (s = [] \<or> \<not> blank (last s))"

lemma trimLine_CR:
  assumes "l \<noteq> []" "\<not> blank (hd l)" "\<not> blank (last l)"
  shows "trimLine (l @ [CHR 0x0D]) = l"
proof -
  have "dropWhile (\<lambda>c. c = CHR 0x0D \<or> c = CHR 0x0A \<or> c = CHR '' '' \<or> c = CHR 0x09) (rev l) = rev l"
    using assms by (cases l rule: rev_cases) (auto simp: blank_def)
  moreover have "dropWhile (\<lambda>c. c = CHR '' '' \<or> c = CHR 0x09) l = l"
    using assms by (cases l) (auto simp: blank_def)
  ultimately show ?thesis by (simp add: trimLine_def)
qed

lemma sdp_tokenD: "sdp_token w \<Longrightarrow> w \<noteq> [] \<and> CHR '' '' \<notin> set w \<and> CHR 0x0A \<notin> set w \<and> \<not> blank (hd w) \<and> \<not> blank (last w)"
proof -
  assume w: "sdp_token w"
  then have "w \<noteq> []" "\<And>c. c \<in> set w \<Longrightarrow> \<not> blank c"
    by (simp_all add: sdp_token_def list_all_iff)
  moreover have "blank (CHR '' '')" "blank (CHR 0x0A)" by (simp_all add: blank_def)
  ultimately show ?thesis by (metis hd_in_set last_in_set)
qed

lemma sdp_token_text: "sdp_token s \<Longrightarrow> sdp_text s"
  using sdp_tokenD [of s] by (simp add: sdp_text_def)

lemma sdp_split_token: "sdp_token w \<Longrightarrow> sdp_split (w @ CHR '' '' # rest) (CHR '' '') = w # sdp_split rest (CHR '' '')"
  using sdp_tokenD [of w] by (simp add: sdp_split_def)

lemma sdp_split_last: "sdp_token w \<Longrightarrow> sdp_split w (CHR '' '') = [w]"
  using sdp_tokenD [of w] by (simp add: sdp_split_def)

lemma digit_not_blank: "isdigit c \<Longrightarrow> \<not> blank c"
  by (auto simp: isdigit_def blank_def)

lemma sdp_token_dec: "sdp_token (dec n)"
  unfolding sdp_token_def using dec_digits [of n] digit_not_blank
  by (auto intro: list.pred_mono_strong)

lemma sdp_token_dec_int: "sdp_token (dec_int i)"
  using sdp_token_dec [of "nat i"] sdp_token_dec [of "nat (- i)"]
  by (simp add: sdp_token_def dec_int_def blank_def)

section \<open>Parsing what was built\<close>

lemma sdp_line_field:
  "\<not> blank k \<Longrightarrow> sdp_text val \<Longrightarrow> sdp_line (k # CHR ''='' # val @ [CHR 0x0D]) info = sdp_field k val info"
proof -
  assume k: "\<not> blank k" "sdp_text val"
  have "\<not> blank (last (k # CHR ''='' # val))"
    using k(2) by (auto simp: sdp_text_def blank_def)
  then have "trimLine ((k # CHR ''='' # val) @ [CHR 0x0D]) = k # CHR ''='' # val"
    using k(1) by (intro trimLine_CR) auto
  then show ?thesis by (simp add: sdp_line_def)
qed

text \<open>A description as the list of its fields.\<close>

definition sdp_body :: "(char \<times> string) list \<Rightarrow> string" where
  "sdp_body fs = concat (map (\<lambda>(k, val). k # CHR ''='' # val @ crlf) fs)"

lemma getlines_crlf: "CHR 0x0A \<notin> set l \<Longrightarrow> getlines (l @ crlf @ rest) = (l @ [CHR 0x0D]) # getlines rest"
  using delimited_piece [of "CHR 0x0A" "l @ [CHR 0x0D]" rest] by (simp add: crlf_def)

lemma sdp_lines_fields:
  "list_all (\<lambda>(k, val). \<not> blank k \<and> sdp_text val) fs \<Longrightarrow>
     fold sdp_line (getlines (sdp_body fs)) info = fold (\<lambda>(k, val). sdp_field k val) fs info"
proof (induction fs arbitrary: info)
  case (Cons f fs)
  obtain k val where f: "f = (k, val)" by fastforce
  have "CHR 0x0A \<notin> set (k # CHR ''='' # val)"
    using Cons.prems f by (auto simp: sdp_text_def blank_def)
  from getlines_crlf [OF this, of "sdp_body fs"]
  have "getlines (sdp_body (f # fs)) = (k # CHR ''='' # val @ [CHR 0x0D]) # getlines (sdp_body fs)"
    by (simp add: f sdp_body_def)
  then show ?case
    using Cons f by (simp add: sdp_line_field)
qed (simp add: sdp_body_def)

lemma sdp_field_origin:
  "sdp_token d \<Longrightarrow> sdp_field (CHR ''o'') (d @ CHR '' '' # rest) info = info\<lparr>sdp_originUser := d\<rparr>"
  by (simp add: sdp_field_def sdp_split_token)

lemma sdp_token_literals:
  "sdp_token ''IN''" "sdp_token ''IP4''" "sdp_token ''video''" "sdp_token ''96''" "sdp_token ''0''" "sdp_token ''RTP/AVP''"
  by (simp_all add: sdp_token_def blank_def)

lemma sdp_field_connection:
  assumes "sdp_token ip"
  shows "sdp_field (CHR ''c'') (''IN IP4 '' @ ip) info = info\<lparr>sdp_connectionIp := ip\<rparr>"
proof -
  have "sdp_split (''IN'' @ CHR '' '' # ''IP4'' @ CHR '' '' # ip) (CHR '' '') = [''IN'', ''IP4'', ip]"
    using assms by (simp only: sdp_split_token sdp_split_last sdp_token_literals)
  then show ?thesis by (simp add: sdp_field_def)
qed

lemma sdp_field_time:
  "sdp_token a \<Longrightarrow> sdp_token b \<Longrightarrow> sdp_field (CHR ''t'') (a @ CHR '' '' # b) info =
     info\<lparr>sdp_startTime := toLong a, sdp_stopTime := toLong b\<rparr>"
  by (simp add: sdp_field_def sdp_split_token sdp_split_last)

lemma sdp_field_media:
  assumes "sdp_token p" "sdp_token tr"
  shows "sdp_field (CHR ''m'') (''video '' @ p @ CHR '' '' # tr @ '' 96'') info =
     info\<lparr>sdp_mediaPort := toInt p, sdp_transport := tr\<rparr>"
proof -
  have "sdp_split (''video'' @ CHR '' '' # p @ CHR '' '' # tr @ CHR '' '' # ''96'') (CHR '' '') = [''video'', p, tr, ''96'']"
    using assms by (simp only: sdp_split_token sdp_split_last sdp_token_literals)
  then show ?thesis by (simp add: sdp_field_def)
qed

lemma sdp_field_misc:
  "sdp_field (CHR ''v'') x info = info"
  "sdp_field (CHR ''s'') x info = info\<lparr>sdp_sessionName := x\<rparr>"
  "sdp_field (CHR ''y'') x info = info\<lparr>sdp_ssrc := x\<rparr>"
  "sdp_field (CHR ''a'') ''recvonly'' info = info\<lparr>sdp_direction := ''recvonly''\<rparr>"
  "sdp_field (CHR ''a'') ''sendonly'' info = info\<lparr>sdp_direction := ''sendonly''\<rparr>"
  "sdp_field (CHR ''a'') ''rtpmap:96 PS/90000'' info = info"
  "sdp_field (CHR ''a'') (''setup:'' @ x) info = info\<lparr>sdp_setup := x\<rparr>"
  by (simp_all add: sdp_field_def startsWith_def)

lemmas sdp_fields = sdp_field_origin sdp_field_connection sdp_field_time sdp_field_media sdp_field_misc

lemma sdp_text_append: "sdp_text b \<Longrightarrow> b \<noteq> [] \<Longrightarrow> CHR 0x0A \<notin> set a \<Longrightarrow> sdp_text (a @ b)"
  by (simp add: sdp_text_def)

section \<open>Properties\<close>

lemma invite_sdp_parsed:
  assumes "sdp_token deviceId" and "sdp_token ip" and "0 < port" and "port \<le> INT_MAX" and "sdp_text ssrc"
  shows "parseSdp (buildInviteSdp deviceId ip port ssrc) =
    Some (new_sdp_info\<lparr>sdp_originUser := deviceId, sdp_sessionName := ''Play'', sdp_connectionIp := ip,
      sdp_mediaPort := port, sdp_transport := ''RTP/AVP'', sdp_direction := ''recvonly'', sdp_ssrc := ssrc\<rparr>)"
proof -
  let ?fs = "[(CHR ''v'', ''0''), (CHR ''o'', deviceId @ CHR '' '' # ''0 0 IN IP4 '' @ ip), (CHR ''s'', ''Play''),
    (CHR ''c'', ''IN IP4 '' @ ip), (CHR ''t'', ''0'' @ CHR '' '' # ''0''),
    (CHR ''m'', ''video '' @ dec_int port @ CHR '' '' # ''RTP/AVP'' @ '' 96''),
    (CHR ''a'', ''recvonly''), (CHR ''a'', ''rtpmap:96 PS/90000''), (CHR ''y'', ssrc)]"
  have b: "buildInviteSdp deviceId ip port ssrc = sdp_body ?fs"
    by (simp add: buildInviteSdp_def sdp_body_def)
  have p: "toInt (dec_int port) = port" using assms(3,4) by (intro toInt_dec_int) (auto simp: INT_MIN_def)
  have l: "fold sdp_line (getlines (sdp_body ?fs)) new_sdp_info = fold (\<lambda>(k, val). sdp_field k val) ?fs new_sdp_info"
    using assms sdp_tokenD [OF assms(1)] sdp_tokenD [OF assms(2)] sdp_tokenD [OF sdp_token_dec_int, of port]
    by (intro sdp_lines_fields) (simp add: sdp_text_def blank_def)
  have z: "toLong ''0'' = 0"
    by (simp add: toLong_def extract_int_def split_sign_def isspace_def isdigit_def dec_value_def digit_value_def Let_def)
  have f: "fold (\<lambda>(k, val). sdp_field k val) ?fs new_sdp_info =
    new_sdp_info\<lparr>sdp_originUser := deviceId, sdp_sessionName := ''Play'', sdp_connectionIp := ip,
      sdp_mediaPort := port, sdp_transport := ''RTP/AVP'', sdp_direction := ''recvonly'', sdp_ssrc := ssrc\<rparr>"
    unfolding fold_simps case_prod_conv sdp_field_misc sdp_field_origin [OF assms(1)] sdp_field_connection [OF assms(2)]
      sdp_field_time [OF sdp_token_literals(5) sdp_token_literals(5)] z id_apply
      sdp_field_media [OF sdp_token_dec_int sdp_token_literals(6)] p comp_def
    by (simp add: new_sdp_info_def)
  then show ?thesis
    using assms(3) sdp_tokenD [OF assms(2)] unfolding parseSdp_def b l f
    by (simp add: sdp_valid_def) (simp add: sdp_body_def)
qed

text \<open>the description of an INVITE parses to what it was built from, for every device id and
  address without blanks, every port an \<open>int\<close> can hold, and every SSRC text.\<close>

theorem parse_invite_sdp:
  assumes "sdp_token deviceId" and "sdp_token ip" and "0 < port" and "port \<le> INT_MAX" and "sdp_text ssrc"
  shows "parseSdp (buildInviteSdp deviceId ip port ssrc) =
    Some (new_sdp_info\<lparr>sdp_originUser := deviceId, sdp_sessionName := ''Play'', sdp_connectionIp := ip,
      sdp_mediaPort := port, sdp_transport := ''RTP/AVP'', sdp_direction := ''recvonly'', sdp_ssrc := ssrc\<rparr>)"
  using assms by (rule invite_sdp_parsed)

theorem parse_invite_sdp_witness:
  "parseSdp (buildInviteSdp ''34020000001320000001'' ''10.0.0.1'' 20000 ''0100000001'') =
    Some (new_sdp_info\<lparr>sdp_originUser := ''34020000001320000001'', sdp_sessionName := ''Play'',
      sdp_connectionIp := ''10.0.0.1'', sdp_mediaPort := 20000, sdp_transport := ''RTP/AVP'',
      sdp_direction := ''recvonly'', sdp_ssrc := ''0100000001''\<rparr>)"
  by (rule parse_invite_sdp) (simp_all add: sdp_token_def sdp_text_def blank_def INT_MAX_def)

text \<open>What the answer to a parsed offer says.\<close>

definition sdp_answer :: "string \<Rightarrow> string \<Rightarrow> int \<Rightarrow> sdp_info \<Rightarrow> sdp_info" where
  "sdp_answer deviceId ip port request = \<lparr>sdp_originUser = deviceId,
     sdp_sessionName = (if sdp_sessionName request = [] then ''Play'' else sdp_sessionName request),
     sdp_connectionIp = ip, sdp_mediaPort = port,
     sdp_transport = (if sdp_transport request = [] then ''RTP/AVP'' else sdp_transport request),
     sdp_direction = ''sendonly'', sdp_setup = responseSetup (sdp_setup request), sdp_ssrc = sdp_ssrc request,
     sdp_startTime = sdp_startTime request, sdp_stopTime = sdp_stopTime request\<rparr>"

text \<open>The fields of an answer: those every answer has, and the setup role and SSRC some have.\<close>

definition answer_base :: "string \<Rightarrow> string \<Rightarrow> int \<Rightarrow> sdp_info \<Rightarrow> (char \<times> string) list" where
  "answer_base deviceId ip port request =
    [(CHR ''v'', ''0''), (CHR ''o'', deviceId @ CHR '' '' # ''0 0 IN IP4 '' @ ip),
     (CHR ''s'', if sdp_sessionName request = [] then ''Play'' else sdp_sessionName request),
     (CHR ''c'', ''IN IP4 '' @ ip), (CHR ''t'', dec_int (sdp_startTime request) @ CHR '' '' # dec_int (sdp_stopTime request)),
     (CHR ''m'', ''video '' @ dec_int port @ CHR '' '' # (if sdp_transport request = [] then ''RTP/AVP'' else sdp_transport request) @ '' 96''),
     (CHR ''a'', ''rtpmap:96 PS/90000''), (CHR ''a'', ''sendonly'')]"

definition answer_tail :: "sdp_info \<Rightarrow> (char \<times> string) list" where
  "answer_tail request =
    (if responseSetup (sdp_setup request) \<noteq> [] then [(CHR ''a'', ''setup:'' @ responseSetup (sdp_setup request))] else []) @
    (if sdp_ssrc request \<noteq> [] then [(CHR ''y'', sdp_ssrc request)] else [])"

lemma answer_body:
  "buildInviteResponseSdp deviceId ip port request = sdp_body (answer_base deviceId ip port request @ answer_tail request)"
  by (simp add: buildInviteResponseSdp_def sdp_body_def answer_base_def answer_tail_def Let_def)

lemma sdp_text_literals: "sdp_text ''0''" "sdp_text ''rtpmap:96 PS/90000''" "sdp_text ''sendonly''" "sdp_text ''Play''"
  by (simp_all add: sdp_text_def blank_def)

lemma sdp_keys: "\<not> blank (CHR ''v'')" "\<not> blank (CHR ''o'')" "\<not> blank (CHR ''s'')" "\<not> blank (CHR ''c'')" "\<not> blank (CHR ''t'')"
  "\<not> blank (CHR ''m'')" "\<not> blank (CHR ''a'')" "\<not> blank (CHR ''y'')"
  by (simp_all add: blank_def)

lemma answer_transport:
  "sdp_transport request = [] \<or> sdp_token (sdp_transport request) \<Longrightarrow>
    sdp_token (if sdp_transport request = [] then ''RTP/AVP'' else sdp_transport request)"
  using sdp_token_literals(6) by auto

lemma answer_base_text:
  assumes "sdp_token deviceId" "sdp_token ip" "sdp_text (sdp_sessionName request)"
    "sdp_transport request = [] \<or> sdp_token (sdp_transport request)"
  shows "list_all (\<lambda>(k, val). \<not> blank k \<and> sdp_text val) (answer_base deviceId ip port request)"
proof -
  let ?tr = "if sdp_transport request = [] then ''RTP/AVP'' else sdp_transport request"
  have name: "sdp_text (if sdp_sessionName request = [] then ''Play'' else sdp_sessionName request)"
    using assms(3) sdp_text_literals(4) by presburger
  have tok: "sdp_text (a @ CHR '' '' # b)" if "sdp_token a" "sdp_token b" for a b
    using sdp_tokenD [OF that(1)] sdp_tokenD [OF that(2)] by (simp add: sdp_text_def blank_def)
  have origin: "sdp_text (deviceId @ CHR '' '' # ''0 0 IN IP4 '' @ ip)" "sdp_text (''IN IP4 '' @ ip)"
    using sdp_tokenD [OF assms(1)] sdp_tokenD [OF assms(2)] by (simp_all add: sdp_text_def blank_def)
  have media: "sdp_text (''video '' @ dec_int port @ CHR '' '' # ?tr @ '' 96'')"
    using sdp_tokenD [OF sdp_token_dec_int, of port] sdp_tokenD [OF answer_transport [OF assms(4)]]
    by (simp add: sdp_text_def blank_def)
  show ?thesis
    unfolding answer_base_def list.pred_inject case_prod_conv
    by (intro conjI sdp_keys sdp_text_literals origin media name tok sdp_token_dec_int) simp
qed

lemma answer_tail_text:
  assumes "sdp_text (sdp_ssrc request)" shows "list_all (\<lambda>(k, val). \<not> blank k \<and> sdp_text val) (answer_tail request)"
proof -
  have "sdp_text (''setup:'' @ responseSetup (sdp_setup request))"
    by (simp add: responseSetup_def sdp_text_def blank_def)
  then show ?thesis using assms sdp_keys by (simp add: answer_tail_def)
qed

lemma answer_sdp_parsed:
  assumes "sdp_token deviceId" and "sdp_token ip" and "0 < port" and "port \<le> INT_MAX"
    and "sdp_text (sdp_sessionName request)" and "sdp_text (sdp_ssrc request)"
    and "sdp_transport request = [] \<or> sdp_token (sdp_transport request)"
    and "\<bar>sdp_startTime request\<bar> < 2 ^ 63" and "\<bar>sdp_stopTime request\<bar> < 2 ^ 63"
  shows "parseSdp (buildInviteResponseSdp deviceId ip port request) = Some (sdp_answer deviceId ip port request)"
proof -
  let ?base = "answer_base deviceId ip port request" and ?tail = "answer_tail request"
  have p: "toInt (dec_int port) = port" using assms(3,4) by (intro toInt_dec_int) (auto simp: INT_MIN_def)
  have times: "toLong (dec_int (sdp_startTime request)) = sdp_startTime request"
    "toLong (dec_int (sdp_stopTime request)) = sdp_stopTime request"
    using assms(8,9) unfolding toLong_def by (subst extract_int_dec_int; simp)+
  note tr = answer_transport [OF assms(7)]
  have l: "fold sdp_line (getlines (sdp_body (?base @ ?tail))) new_sdp_info =
      fold (\<lambda>(k, val). sdp_field k val) ?tail (fold (\<lambda>(k, val). sdp_field k val) ?base new_sdp_info)"
    using answer_base_text [OF assms(1,2,5,7)] answer_tail_text [OF assms(6)]
    by (subst sdp_lines_fields) (simp_all only: list_all_append fold_append comp_def simp_thms)
  have f: "fold (\<lambda>(k, val). sdp_field k val) ?base new_sdp_info =
    (sdp_answer deviceId ip port request)\<lparr>sdp_setup := [], sdp_ssrc := []\<rparr>"
    unfolding answer_base_def fold_simps case_prod_conv sdp_field_misc sdp_field_origin [OF assms(1)]
      sdp_field_connection [OF assms(2)] sdp_field_time [OF sdp_token_dec_int sdp_token_dec_int] times id_apply
      sdp_field_media [OF sdp_token_dec_int tr] p comp_def
    by (simp add: new_sdp_info_def sdp_answer_def)
  have "fold (\<lambda>(k, val). sdp_field k val) ?tail ((sdp_answer deviceId ip port request)\<lparr>sdp_setup := [], sdp_ssrc := []\<rparr>) =
    sdp_answer deviceId ip port request"
    by (simp add: answer_tail_def sdp_field_misc(3) sdp_field_misc(7) [simplified] sdp_answer_def)
  moreover have "sdp_valid (sdp_answer deviceId ip port request)"
    using assms(3) sdp_tokenD [OF assms(2)] sdp_tokenD [OF tr] by (simp add: sdp_valid_def sdp_answer_def)
  moreover have "sdp_body (?base @ ?tail) \<noteq> []"
    by (simp add: sdp_body_def answer_base_def)
  ultimately show ?thesis
    unfolding parseSdp_def answer_body l f by (simp only: Let_def if_False simp_thms)
qed

text \<open>the answer to an offer parses to the offer's session name, transport, times and SSRC with the
  answerer's address and port, direction \<open>sendonly\<close>, and the complementary TCP setup role.\<close>

theorem parse_answer_sdp:
  assumes "sdp_token deviceId" and "sdp_token ip" and "0 < port" and "port \<le> INT_MAX"
    and "sdp_text (sdp_sessionName request)" and "sdp_text (sdp_ssrc request)"
    and "sdp_transport request = [] \<or> sdp_token (sdp_transport request)"
    and "\<bar>sdp_startTime request\<bar> < 2 ^ 63" and "\<bar>sdp_stopTime request\<bar> < 2 ^ 63"
  shows "parseSdp (buildInviteResponseSdp deviceId ip port request) = Some (sdp_answer deviceId ip port request)"
  using assms by (rule answer_sdp_parsed)

theorem parse_answer_sdp_witness:
  "parseSdp (buildInviteResponseSdp ''34'' ''10.0.0.2'' 30000
      (new_sdp_info\<lparr>sdp_setup := ''active'', sdp_transport := ''TCP/RTP/AVP'', sdp_ssrc := ''0100000001''\<rparr>)) =
    Some (sdp_answer ''34'' ''10.0.0.2'' 30000
      (new_sdp_info\<lparr>sdp_setup := ''active'', sdp_transport := ''TCP/RTP/AVP'', sdp_ssrc := ''0100000001''\<rparr>))"
  by (rule parse_answer_sdp) (simp_all add: sdp_token_def sdp_text_def blank_def INT_MAX_def new_sdp_info_def)

end
