(* ===== verification/DigestAuth.thy ===== *)
theory DigestAuth
  imports CppText
begin

text \<open>
  \<open>src/src/core/DigestAuth.{h,cpp}\<close>: MD5 and the HTTP digest response (RFC 2617) computed and verified
  with it. MD5 is the code's own implementation, on 32-bit words that wrap.
\<close>

record digest_fields =
  df_username :: string
  df_realm :: string
  df_nonce :: string
  df_uri :: string
  df_response :: string
  df_algorithm :: string
  df_opaque :: string
  df_qop :: string
  df_nc :: string
  df_cnonce :: string

definition new_digest_fields :: digest_fields where
  "new_digest_fields = \<lparr>df_username = [], df_realm = [], df_nonce = [], df_uri = [], df_response = [],
     df_algorithm = [], df_opaque = [], df_qop = [], df_nc = [], df_cnonce = []\<rparr>"

section \<open>MD5\<close>

definition leftRotate :: "u32 \<Rightarrow> nat \<Rightarrow> u32" where
  "leftRotate v n = push_bit n v OR drop_bit (32 - n) v"

definition loadLe32 :: "bytes \<Rightarrow> nat \<Rightarrow> u32" where
  "loadLe32 data i = ucast (data ! i) OR push_bit 8 (ucast (data ! (i + 1))) OR
     push_bit 16 (ucast (data ! (i + 2))) OR push_bit 24 (ucast (data ! (i + 3)))"

definition storeLe32 :: "u32 \<Rightarrow> bytes" where
  "storeLe32 v = [ucast (v AND 0xff), ucast (drop_bit 8 v AND 0xff), ucast (drop_bit 16 v AND 0xff),
     ucast (drop_bit 24 v AND 0xff)]"

definition toLowerCopy :: "string \<Rightarrow> string" where
  "toLowerCopy s = map tolower s"

definition md5_shifts :: "nat list" where
  "md5_shifts = [
     7, 12, 17, 22, 7, 12, 17, 22, 7, 12, 17, 22, 7, 12, 17, 22,
     5, 9, 14, 20, 5, 9, 14, 20, 5, 9, 14, 20, 5, 9, 14, 20,
     4, 11, 16, 23, 4, 11, 16, 23, 4, 11, 16, 23, 4, 11, 16, 23,
     6, 10, 15, 21, 6, 10, 15, 21, 6, 10, 15, 21, 6, 10, 15, 21]"

definition md5_constants :: "u32 list" where
  "md5_constants = [
     0xd76aa478, 0xe8c7b756, 0x242070db, 0xc1bdceee,
     0xf57c0faf, 0x4787c62a, 0xa8304613, 0xfd469501,
     0x698098d8, 0x8b44f7af, 0xffff5bb1, 0x895cd7be,
     0x6b901122, 0xfd987193, 0xa679438e, 0x49b40821,
     0xf61e2562, 0xc040b340, 0x265e5a51, 0xe9b6c7aa,
     0xd62f105d, 0x02441453, 0xd8a1e681, 0xe7d3fbc8,
     0x21e1cde6, 0xc33707d6, 0xf4d50d87, 0x455a14ed,
     0xa9e3e905, 0xfcefa3f8, 0x676f02d9, 0x8d2a4c8a,
     0xfffa3942, 0x8771f681, 0x6d9d6122, 0xfde5380c,
     0xa4beea44, 0x4bdecfa9, 0xf6bb4b60, 0xbebfbc70,
     0x289b7ec6, 0xeaa127fa, 0xd4ef3085, 0x04881d05,
     0xd9d4d039, 0xe6db99e5, 0x1fa27cf8, 0xc4ac5665,
     0xf4292244, 0x432aff97, 0xab9423a7, 0xfc93a039,
     0x655b59c3, 0x8f0ccc92, 0xffeff47d, 0x85845dd1,
     0x6fa87e4f, 0xfe2ce6e0, 0xa3014314, 0x4e0811a1,
     0xf7537e82, 0xbd3af235, 0x2ad7d2bb, 0xeb86d391]"

text \<open>\<open>while ((message.size() % 64) != 56) message.push_back(0);\<close>\<close>

function md5_zeros :: "bytes \<Rightarrow> bytes" where
  "md5_zeros message = (if length message mod 64 = 56 then message else md5_zeros (message @ [0]))"
  by pat_completeness auto
termination
proof (relation "measure (\<lambda>m. 63 - (length m + 7) mod 64)")
  fix message :: bytes
  assume "length message mod 64 \<noteq> 56"
  then have "length message mod 64 + 7 \<noteq> 63" "length message mod 64 < 64" by simp_all
  then have "(length message mod 64 + 7) mod 64 \<noteq> 63"
    by (cases "length message mod 64 + 7 < 64") (auto simp: le_mod_geq)
  then have r: "(length message + 7) mod 64 \<noteq> 63" by (simp add: mod_add_left_eq)
  have "Suc (length message + 7) mod 64 = Suc ((length message + 7) mod 64)"
    unfolding mod_Suc by (rule if_not_P) (use r in linarith)
  moreover have "(length message + 7) mod 64 < 64" by simp
  ultimately have "63 - Suc (length message + 7) mod 64 < 63 - (length message + 7) mod 64"
    using r by linarith
  then show "(message @ [0], message) \<in> measure (\<lambda>m. 63 - (length m + 7) mod 64)"
    by (simp add: add.commute)
qed simp

declare md5_zeros.simps [simp del]

definition md5_pad :: "bytes \<Rightarrow> bytes" where
  "md5_pad input =
    (let bitLength = (of_nat (length input) :: u64) * 8;
         message = md5_zeros (input @ [0x80])
     in message @ map (\<lambda>i. ucast (drop_bit (8 * i) bitLength AND 0xff)) [0..<8])"

type_synonym md5_state = "u32 \<times> u32 \<times> u32 \<times> u32"

definition md5_round :: "u32 list \<Rightarrow> nat \<Rightarrow> md5_state \<Rightarrow> md5_state" where
  "md5_round w i = (\<lambda>(a, b, c, d).
    (let (f, g) =
        (if i < 16 then ((b AND c) OR (NOT b AND d), i)
         else if i < 32 then ((d AND b) OR (NOT d AND c), (5 * i + 1) mod 16)
         else if i < 48 then (b XOR c XOR d, (3 * i + 5) mod 16)
         else (c XOR (b OR NOT d), (7 * i) mod 16))
     in (d, b + leftRotate (a + f + md5_constants ! i + w ! g) (md5_shifts ! i), b, c)))"

definition md5_block :: "bytes \<Rightarrow> md5_state \<Rightarrow> md5_state" where
  "md5_block block = (\<lambda>(a0, b0, c0, d0).
    (let w = map (\<lambda>i. loadLe32 block (i * 4)) [0..<16];
         (a, b, c, d) = fold (md5_round w) [0..<64] (a0, b0, c0, d0)
     in (a0 + a, b0 + b, c0 + c, d0 + d)))"

definition hex_char :: "nat \<Rightarrow> char" where
  "hex_char n = (if n < 10 then char_of (48 + n) else char_of (87 + n))"

definition hex_byte :: "byte \<Rightarrow> string" where
  "hex_byte b = [hex_char (unat b div 16), hex_char (unat b mod 16)]"

definition md5_digest :: "bytes \<Rightarrow> bytes" where
  "md5_digest input =
    (let (a, b, c, d) = fold md5_block (chunks 64 (md5_pad input)) (0x67452301, 0xefcdab89, 0x98badcfe, 0x10325476)
     in storeLe32 a @ storeLe32 b @ storeLe32 c @ storeLe32 d)"

definition md5Hex :: "string \<Rightarrow> string" where
  "md5Hex input = concat (map hex_byte (md5_digest (map of_char input)))"

section \<open>Digest responses\<close>

definition computeDigestResponse where
  "computeDigestResponse method username realm password nonce uri qop nc cnonce =
    (let ha1 = md5Hex (username @ '':'' @ realm @ '':'' @ password);
         ha2 = md5Hex (method @ '':'' @ uri)
     in if qop \<noteq> []
        then md5Hex (ha1 @ '':'' @ nonce @ '':'' @ nc @ '':'' @ cnonce @ '':'' @ qop @ '':'' @ ha2)
        else md5Hex (ha1 @ '':'' @ nonce @ '':'' @ ha2))"

definition verifyDigestResponse :: "string \<Rightarrow> digest_fields \<Rightarrow> string \<Rightarrow> string \<Rightarrow> string \<Rightarrow> bool" where
  "verifyDigestResponse method f expectedUsername expectedRealm password =
    (if df_username f = [] \<or> df_realm f = [] \<or> df_nonce f = [] \<or> df_uri f = [] \<or> df_response f = [] \<or> password = []
     then False
     else if expectedUsername \<noteq> [] \<and> df_username f \<noteq> expectedUsername then False
     else if df_realm f \<noteq> expectedRealm then False
     else if df_algorithm f \<noteq> [] \<and> toLowerCopy (df_algorithm f) \<noteq> ''md5'' then False
     else toLowerCopy (df_response f) =
       computeDigestResponse method (df_username f) (df_realm f) password (df_nonce f) (df_uri f)
         (df_qop f) (df_nc f) (df_cnonce f))"

section \<open>The shape of a digest\<close>

definition lower_hex :: "string \<Rightarrow> bool" where
  "lower_hex s \<longleftrightarrow> list_all (\<lambda>c. isdigit c \<or> (97 \<le> (of_char c :: nat) \<and> (of_char c :: nat) \<le> 102)) s"

lemma length_md5_zeros: "length (md5_zeros m) mod 64 = 56"
proof (induction m rule: md5_zeros.induct)
  case (1 m)
  then show ?case by (cases "length m mod 64 = 56") (simp_all add: md5_zeros.simps [of m])
qed

lemma length_md5_pad: "length (md5_pad input) mod 64 = 0"
proof -
  have "(length (md5_zeros (input @ [0x80])) + 8) mod 64 = 0"
    using length_md5_zeros [of "input @ [0x80]"]
    by (metis mod_add_left_eq mod_self numeral_plus_numeral semiring_norm(2,3,6,8,10,11) add_One)
  then show ?thesis by (simp add: md5_pad_def Let_def)
qed

lemma length_md5_digest: "length (md5_digest input) = 16"
  by (simp add: md5_digest_def storeLe32_def split: prod.split)

lemma hex_char_code: "n < 16 \<Longrightarrow> (of_char (hex_char n) :: nat) = (if n < 10 then 48 + n else 87 + n)"
  by (simp add: hex_char_def)

lemma hex_byte_shape: "length (hex_byte b) = 2 \<and> lower_hex (hex_byte b)"
proof -
  have "unat b < 256" using unsigned_less [of b, where 'a = nat] by simp
  then have "unat b div 16 < 16" "unat b mod 16 < 16" by auto
  then show ?thesis
    by (auto simp: hex_byte_def lower_hex_def hex_char_code isdigit_def)
qed

lemma md5Hex_shape: "length (md5Hex s) = 32 \<and> lower_hex (md5Hex s)"
proof -
  have "length (concat (map hex_byte ds)) = 2 * length ds \<and> lower_hex (concat (map hex_byte ds))" for ds
    using hex_byte_shape by (induction ds) (auto simp: lower_hex_def)
  then show ?thesis using length_md5_digest by (simp add: md5Hex_def)
qed

lemma tolower_lower_hex: "lower_hex s \<Longrightarrow> toLowerCopy s = s"
  by (induction s) (auto simp: lower_hex_def toLowerCopy_def tolower_def isdigit_def Let_def)


lemma toLowerCopy_toupper: "lower_hex s \<Longrightarrow> toLowerCopy (map toupper s) = s"
proof (induction s)
  case (Cons c s)
  have "tolower (toupper c) = c"
  proof (cases "isdigit c")
    case True
    then show ?thesis by (simp add: toupper_def tolower_def isdigit_def Let_def)
  next
    case False
    then have c: "97 \<le> (of_char c :: nat)" "(of_char c :: nat) \<le> 102"
      using Cons.prems by (auto simp: lower_hex_def)
    then have "(of_char (toupper c) :: nat) = of_char c - 32"
      by (simp add: toupper_def Let_def)
    then have "tolower (toupper c) = char_of ((of_char c :: nat) - 32 + 32)"
      using c unfolding tolower_def Let_def by auto
    also have "\<dots> = c" using c by simp
    finally show ?thesis .
  qed
  then show ?case using Cons by (simp add: toLowerCopy_def lower_hex_def)
qed (simp add: toLowerCopy_def)

lemma computeDigestResponse_shape:
  "length (computeDigestResponse m u r p n uri q nc cn) = 32 \<and> lower_hex (computeDigestResponse m u r p n uri q nc cn)"
  using md5Hex_shape by (simp add: computeDigestResponse_def Let_def)

lemma length_toLowerCopy [simp]: "length (toLowerCopy s) = length s"
  by (simp add: toLowerCopy_def)

lemma verify_sound:
  "verifyDigestResponse method f user realm pw \<Longrightarrow>
     pw \<noteq> [] \<and> df_realm f = realm \<and> (user = [] \<or> df_username f = user) \<and>
     toLowerCopy (df_response f) = computeDigestResponse method (df_username f) realm pw (df_nonce f) (df_uri f)
       (df_qop f) (df_nc f) (df_cnonce f)"
  by (auto simp: verifyDigestResponse_def split: if_splits)

lemma verify_complete:
  assumes "df_username f \<noteq> []" "df_realm f = realm" "realm \<noteq> []" "df_nonce f \<noteq> []" "df_uri f \<noteq> []" "pw \<noteq> []"
    "user = [] \<or> user = df_username f" "df_algorithm f = [] \<or> toLowerCopy (df_algorithm f) = ''md5''"
    "df_response f = computeDigestResponse method (df_username f) realm pw (df_nonce f) (df_uri f)
       (df_qop f) (df_nc f) (df_cnonce f)"
  shows "verifyDigestResponse method f user realm pw" "df_response f \<noteq> []"
proof -
  have r: "length (df_response f) = 32" "lower_hex (df_response f)" using assms(9) computeDigestResponse_shape by auto
  then show "df_response f \<noteq> []" by auto
  show "verifyDigestResponse method f user realm pw"
    using assms r tolower_lower_hex [OF r(2)] by (auto simp: verifyDigestResponse_def)
qed

section \<open>Properties\<close>

text \<open>C36: a digest response computed for a request is accepted by the verifier that knows the same
  password, in lower or upper case, with or without quality of protection; a response is 32 hexadecimal
  digits; and the verifier accepts no other response text of the same case.\<close>

theorem digest_response_verified:
  assumes "df_username f \<noteq> []" and "df_realm f \<noteq> []" and "df_nonce f \<noteq> []" and "df_uri f \<noteq> []" and "pw \<noteq> []"
    and "user = [] \<or> user = df_username f" and "df_algorithm f = [] \<or> toLowerCopy (df_algorithm f) = ''md5''"
    and "r = computeDigestResponse method (df_username f) (df_realm f) pw (df_nonce f) (df_uri f)
           (df_qop f) (df_nc f) (df_cnonce f)"
  shows "verifyDigestResponse method (f\<lparr>df_response := r\<rparr>) user (df_realm f) pw \<and>
    verifyDigestResponse method (f\<lparr>df_response := map toupper r\<rparr>) user (df_realm f) pw \<and>
    length r = 32 \<and>
    (\<forall>r'. verifyDigestResponse method (f\<lparr>df_response := r'\<rparr>) user (df_realm f) pw = (toLowerCopy r' = r))"
proof -
  have r: "length r = 32" "lower_hex r" using assms(8) computeDigestResponse_shape by auto
  have "verifyDigestResponse method (f\<lparr>df_response := r'\<rparr>) user (df_realm f) pw = (toLowerCopy r' = r)" for r'
  proof (cases "r' = []")
    case True
    then show ?thesis using r(1) by (auto simp: verifyDigestResponse_def toLowerCopy_def)
  next
    case False
    then show ?thesis using assms by (auto simp: verifyDigestResponse_def)
  qed
  then show ?thesis
    using r tolower_lower_hex toLowerCopy_toupper by simp
qed

theorem digest_response_verified_witness:
  "\<exists>r. verifyDigestResponse ''REGISTER''
    (new_digest_fields\<lparr>df_username := ''u'', df_realm := ''r'', df_nonce := ''n'', df_uri := ''sip:a'', df_response := r\<rparr>)
    ''u'' ''r'' ''pw'' \<and> length r = 32"
  using digest_response_verified [of "new_digest_fields\<lparr>df_username := ''u'', df_realm := ''r'', df_nonce := ''n'',
      df_uri := ''sip:a''\<rparr>" "''pw''" "''u''" _ "''REGISTER''"]
  by (auto simp: new_digest_fields_def)

end
