(* ===== verification/Manscdp.thy ===== *)
theory Manscdp
  imports CppText
begin

text \<open>
  \<open>src/src/core/ManscdpMessage.{h,cpp}\<close>: the scanner for MANSCDP XML bodies. It is not an XML parser:
  an element is found as the first occurrence of \<open><name\<close>, its text reaches to the next \<open></name>\<close>.
  \<open>parseManscdpMessage\<close> gives \<open>None\<close> when the code returns \<open>false\<close>.
\<close>

record manscdp_item =
  mi_deviceId :: string
  mi_name :: string
  mi_manufacturer :: string
  mi_model :: string
  mi_owner :: string
  mi_civilCode :: string
  mi_parental :: string
  mi_address :: string
  mi_parentId :: string
  mi_safetyWay :: string
  mi_registerWay :: string
  mi_secrecy :: string
  mi_status :: string
  mi_longitude :: string
  mi_latitude :: string
  mi_filePath :: string
  mi_startTime :: string
  mi_endTime :: string

record manscdp_message =
  mx_root :: string
  mx_cmdType :: string
  mx_sn :: string
  mx_deviceId :: string
  mx_result :: string
  mx_startTime :: string
  mx_endTime :: string
  mx_sumNum :: int
  mx_items :: "manscdp_item list"

definition new_manscdp_message :: manscdp_message where
  "new_manscdp_message = \<lparr>mx_root = [], mx_cmdType = [], mx_sn = [], mx_deviceId = [], mx_result = [],
     mx_startTime = [], mx_endTime = [], mx_sumNum = 0, mx_items = []\<rparr>"

definition mx_valid :: "manscdp_message \<Rightarrow> bool" where
  "mx_valid m \<longleftrightarrow> mx_root m \<noteq> [] \<and> mx_cmdType m \<noteq> []"

definition mx_event :: "manscdp_message \<Rightarrow> string" where
  "mx_event m = (if mx_valid m then mx_root m @ ''/'' @ mx_cmdType m else '''')"

definition mx_itemCount :: "manscdp_message \<Rightarrow> nat" where
  "mx_itemCount m = length (mx_items m)"

section \<open>The scanner\<close>

definition xml_blank :: "char \<Rightarrow> bool" where
  "xml_blank c \<longleftrightarrow> c = CHR '' '' \<or> c = CHR 0x09 \<or> c = CHR 0x0D \<or> c = CHR 0x0A"

definition xml_trim :: "string \<Rightarrow> string" where
  "xml_trim s = rev (dropWhile xml_blank (rev (dropWhile xml_blank s)))"

text \<open>The loop of \<open>rootName\<close> that skips the declaration and comments.\<close>

function root_begin :: "string \<Rightarrow> nat option \<Rightarrow> nat option" where
  "root_begin body begin =
    (case begin of None \<Rightarrow> None
     | Some b \<Rightarrow>
         if b + 1 < length body \<and> (body ! (b + 1) = CHR ''?'' \<or> body ! (b + 1) = CHR ''!'')
         then root_begin body (find_from ''<'' body (b + 1))
         else Some b)"
  by pat_completeness auto
termination
proof (relation "measure (\<lambda>(body, begin). case begin of None \<Rightarrow> 0 | Some b \<Rightarrow> Suc (length body) - b)")
  fix body :: string and start :: "nat option" and b
  assume "start = Some b" "b + 1 < length body \<and> (body ! (b + 1) = CHR ''?'' \<or> body ! (b + 1) = CHR ''!'')"
  moreover have "b + 1 \<le> b'" if "find_from ''<'' body (b + 1) = Some b'" for b'
    using that by (auto simp: find_from_def split: if_splits)
  ultimately show "((body, find_from ''<'' body (b + 1)), (body, start)) \<in>
      measure (\<lambda>(body, begin). case begin of None \<Rightarrow> 0 | Some b \<Rightarrow> Suc (length body) - b)"
    by (fastforce split: option.split)
qed simp

declare root_begin.simps [simp del]

definition rootName :: "string \<Rightarrow> string" where
  "rootName body =
    (case root_begin body (find_from ''<'' body 0) of
       None \<Rightarrow> ''''
     | Some b \<Rightarrow>
         (case find_first_of [CHR '' '', CHR 0x09, CHR 0x0D, CHR 0x0A, CHR ''>'', CHR ''/''] body (b + 1) of
            None \<Rightarrow> ''''
          | Some e \<Rightarrow> if e \<le> b + 1 then '''' else substr body (b + 1) (e - b - 1)))"

definition elementBlock :: "string \<Rightarrow> string \<Rightarrow> string" where
  "elementBlock body name =
    (let beginTag = ''<'' @ name; endTag = ''</'' @ name @ ''>''
     in case find_from beginTag body 0 of None \<Rightarrow> ''''
        | Some b \<Rightarrow>
            (case find_from ''>'' body (b + length beginTag) of None \<Rightarrow> ''''
             | Some b \<Rightarrow>
                 (case find_from endTag body (b + 1) of None \<Rightarrow> ''''
                  | Some e \<Rightarrow> if e < b + 1 then '''' else substr body (b + 1) (e - (b + 1)))))"

text \<open>\<open>elementText\<close> repeats \<open>elementBlock\<close> and trims its result.\<close>

definition elementText :: "string \<Rightarrow> string \<Rightarrow> string" where
  "elementText body name = xml_trim (elementBlock body name)"

definition mx_toInt :: "string \<Rightarrow> int" where
  "mx_toInt s = (if s = [] then 0 else atoi s)"

definition parse_item :: "string \<Rightarrow> manscdp_item" where
  "parse_item itemBody = \<lparr>
     mi_deviceId = elementText itemBody ''DeviceID'',
     mi_name = elementText itemBody ''Name'',
     mi_manufacturer = elementText itemBody ''Manufacturer'',
     mi_model = elementText itemBody ''Model'',
     mi_owner = elementText itemBody ''Owner'',
     mi_civilCode = elementText itemBody ''CivilCode'',
     mi_parental = elementText itemBody ''Parental'',
     mi_address = elementText itemBody ''Address'',
     mi_parentId = elementText itemBody ''ParentID'',
     mi_safetyWay = elementText itemBody ''SafetyWay'',
     mi_registerWay = elementText itemBody ''RegisterWay'',
     mi_secrecy = elementText itemBody ''Secrecy'',
     mi_status = elementText itemBody ''Status'',
     mi_longitude = elementText itemBody ''Longitude'',
     mi_latitude = elementText itemBody ''Latitude'',
     mi_filePath = elementText itemBody ''FilePath'',
     mi_startTime = elementText itemBody ''StartTime'',
     mi_endTime = elementText itemBody ''EndTime''\<rparr>"

text \<open>One turn of the loop of \<open>parseItemsInBlock\<close> from a cursor: the body of the next item and the next
  cursor, \<open>None\<close> for \<open>break\<close>.\<close>

definition next_item :: "string \<Rightarrow> nat \<Rightarrow> (string \<times> nat) option" where
  "next_item block cursor =
    (let (start, endTag) =
       (case find_from ''<Item'' block cursor of
          Some b \<Rightarrow> (Some b, ''</Item>'')
        | None \<Rightarrow> (find_from ''<item'' block cursor, ''</item>''))
     in case start of None \<Rightarrow> None
        | Some b \<Rightarrow>
            (case find_from ''>'' block b of None \<Rightarrow> None
             | Some b \<Rightarrow>
                 (case find_from endTag block (b + 1) of None \<Rightarrow> None
                  | Some e \<Rightarrow> Some (substr block (b + 1) (e - (b + 1)), e + length endTag))))"

lemma find_from_ge: "find_from p s pos = Some i \<Longrightarrow> pos \<le> i \<and> i + length p \<le> length s"
  using find_sub_bound [of p "drop pos s"] by (fastforce simp: find_from_def split: if_splits)

lemma next_item_progress:
  "next_item block cursor = Some (body, cursor') \<Longrightarrow> cursor < cursor' \<and> cursor' \<le> length block"
  by (fastforce simp: next_item_def dest!: find_from_ge split: option.splits prod.splits)

function parseItemsInBlock :: "string \<Rightarrow> nat \<Rightarrow> manscdp_item list" where
  "parseItemsInBlock block cursor =
    (if cursor < length block
     then (case next_item block cursor of
             None \<Rightarrow> []
           | Some (itemBody, cursor') \<Rightarrow> parse_item itemBody # parseItemsInBlock block cursor')
     else [])"
  by pat_completeness auto
termination
  by (relation "measure (\<lambda>(block, cursor). length block - cursor)") (auto dest: next_item_progress)

declare parseItemsInBlock.simps [simp del]

definition parseItems :: "string \<Rightarrow> manscdp_item list" where
  "parseItems body = parseItemsInBlock (elementBlock body ''DeviceList'') 0 @
     parseItemsInBlock (elementBlock body ''RecordList'') 0"

definition parseManscdpMessage :: "string \<Rightarrow> manscdp_message option" where
  "parseManscdpMessage body =
    (if body = [] then None
     else let parsed = \<lparr>mx_root = rootName body, mx_cmdType = elementText body ''CmdType'',
                mx_sn = elementText body ''SN'', mx_deviceId = elementText body ''DeviceID'',
                mx_result = elementText body ''Result'', mx_startTime = elementText body ''StartTime'',
                mx_endTime = elementText body ''EndTime'', mx_sumNum = mx_toInt (elementText body ''SumNum''),
                mx_items = parseItems body\<rparr>
       in if \<not> mx_valid parsed then None else Some parsed)"

section \<open>Scanning rendered XML\<close>

text \<open>\<open>skips p w\<close>: the search for \<open>p\<close> passes over \<open>w\<close>, whatever follows.\<close>

definition skips :: "string \<Rightarrow> string \<Rightarrow> bool" where
  "skips p w \<longleftrightarrow> (\<forall>s. find_sub p (w @ s) = map_option (\<lambda>i. length w + i) (find_sub p s))"

text \<open>The patterns of the scanner: the beginning of a start tag and a whole end tag.\<close>

abbreviation begin_tag :: "string \<Rightarrow> string" where "begin_tag n \<equiv> ''<'' @ n"
abbreviation end_tag :: "string \<Rightarrow> string" where "end_tag n \<equiv> ''</'' @ n @ ''>''"

text \<open>A tag name: not empty, without markup and blanks. A text: trimmed, without a tag.\<close>

definition xml_name :: "string \<Rightarrow> bool" where
  "xml_name n \<longleftrightarrow> n \<noteq> [] \<and> list_all (\<lambda>c. c \<notin> {CHR ''<'', CHR ''>'', CHR ''/'', CHR ''?'', CHR ''!'',
     CHR '' '', CHR 0x09, CHR 0x0D, CHR 0x0A}) n"

definition xml_text :: "string \<Rightarrow> bool" where
  "xml_text t \<longleftrightarrow> CHR ''<'' \<notin> set t \<and> xml_trim t = t"

lemma skips_append: "skips p a \<Longrightarrow> skips p b \<Longrightarrow> skips p (a @ b)"
  by (auto simp: skips_def option.map_comp comp_def add.assoc)

lemma skips_Nil: "skips p []"
  by (simp add: skips_def option.map_ident)

lemma skips_concat: "list_all (skips p) ws \<Longrightarrow> skips p (concat ws)"
  by (induction ws) (auto intro: skips_Nil skips_append)

lemma skips_text: "p \<noteq> [] \<Longrightarrow> hd p = CHR ''<'' \<Longrightarrow> CHR ''<'' \<notin> set w \<Longrightarrow> skips p w"
  by (simp add: skips_def find_sub_skip)

lemma skips_marked:
  assumes "\<And>s. \<not> startsWith (CHR ''<'' # t @ s) (CHR ''<'' # p)" "CHR ''<'' \<notin> set t"
  shows "skips (CHR ''<'' # p) (CHR ''<'' # t)"
proof -
  have "find_sub (CHR ''<'' # p) (CHR ''<'' # t @ s) = map_option Suc (find_sub (CHR ''<'' # p) (t @ s))" for s
    using assms(1) [of s] by simp
  moreover have "find_sub (CHR ''<'' # p) (t @ s) = map_option (\<lambda>i. length t + i) (find_sub (CHR ''<'' # p) s)" for s
    using assms(2) by (intro find_sub_skip) auto
  ultimately show ?thesis by (simp add: skips_def option.map_comp comp_def)
qed

lemma not_prefix_tag:
  assumes "CHR ''>'' \<notin> set n" "\<not> startsWith t n"
  shows "\<not> startsWith (t @ CHR ''>'' # s) n"
proof
  assume "startsWith (t @ CHR ''>'' # s) n"
  then have n: "take (length n) (t @ CHR ''>'' # s) = n" by (simp add: startsWith_def)
  show False
  proof (cases "length n \<le> length t")
    case True
    then show False using n assms(2) by (simp add: startsWith_def)
  next
    case False
    then obtain k where "length n - length t = Suc k" by (cases "length n - length t") auto
    then have "take (length n) (t @ CHR ''>'' # s) = t @ CHR ''>'' # take k s" using False by simp
    then have "CHR ''>'' \<in> set n" using n by (metis in_set_conv_decomp)
    then show False using assms(1) by simp
  qed
qed

lemma not_same_tag:
  assumes "CHR ''>'' \<notin> set n" "CHR ''>'' \<notin> set t" "t \<noteq> n"
  shows "\<not> startsWith (t @ CHR ''>'' # s) (n @ ''>'')"
  using assms
proof (induction n arbitrary: t)
  case Nil
  then show ?case by (cases t) (auto simp: startsWith_def)
next
  case (Cons c n)
  then show ?case by (cases t) (auto simp: startsWith_def)
qed

lemma xml_nameD:
  assumes "xml_name n"
  shows "n \<noteq> []" "CHR ''<'' \<notin> set n" "CHR ''>'' \<notin> set n" "hd n \<noteq> CHR ''/''" "hd n \<noteq> CHR ''?''" "hd n \<noteq> CHR ''!''"
proof -
  have n: "n \<noteq> []" "\<forall>c \<in> set n. c \<notin> {CHR ''<'', CHR ''>'', CHR ''/'', CHR ''?'', CHR ''!'',
     CHR '' '', CHR 0x09, CHR 0x0D, CHR 0x0A}"
    using assms unfolding xml_name_def list_all_iff by blast+
  then show "n \<noteq> []" "CHR ''<'' \<notin> set n" "CHR ''>'' \<notin> set n" by auto
  have "hd n \<in> set n" using n(1) by simp
  then show "hd n \<noteq> CHR ''/''" "hd n \<noteq> CHR ''?''" "hd n \<noteq> CHR ''!''" using n(2) by auto
qed

text \<open>The four ways a tag of the document is passed over.\<close>

lemma skips_begin_open:
  assumes "xml_name n" "CHR ''<'' \<notin> set t" "\<not> startsWith t n"
  shows "skips (begin_tag n) (''<'' @ t @ ''>'')"
  using skips_marked [of "t @ ''>''" n] not_prefix_tag [OF xml_nameD(3) [OF assms(1)] assms(3)] assms(2)
  by (simp add: startsWith_def)

lemma skips_begin_close:
  assumes "xml_name n" "xml_name t"
  shows "skips (begin_tag n) (end_tag t)"
  using skips_marked [of "''/'' @ t @ ''>''" n] xml_nameD [OF assms(1)] xml_nameD(2) [OF assms(2)]
  by (cases n) (auto simp: startsWith_def)

lemma skips_end_open:
  assumes "xml_name t"
  shows "skips (end_tag n) (''<'' @ t @ ''>'')"
  using skips_marked [of "t @ ''>''" "''/'' @ n @ ''>''"] xml_nameD [OF assms(1)]
  by (cases t) (auto simp: startsWith_def)

lemma skips_end_close:
  assumes "xml_name n" "xml_name t" "t \<noteq> n"
  shows "skips (end_tag n) (end_tag t)"
  using skips_marked [of "''/'' @ t @ ''>''" "''/'' @ n @ ''>''"] xml_nameD(2,3) [OF assms(2)]
    not_same_tag [OF xml_nameD(3) [OF assms(1)] xml_nameD(3) [OF assms(2)] assms(3)]
  by (simp add: startsWith_def)

text \<open>An element on a line of its own, as the builders write it.\<close>

definition xml_crlf :: string where "xml_crlf = [CHR 0x0D, CHR 0x0A]"

definition xml_elem :: "string \<Rightarrow> string \<Rightarrow> string" where
  "xml_elem tag body = ''<'' @ tag @ ''>'' @ body @ end_tag tag @ xml_crlf"

definition xml_elems :: "(string \<times> string) list \<Rightarrow> string" where
  "xml_elems kvs = concat (map (\<lambda>(t, b). xml_elem t b) kvs)"

lemma skips_crlf: "p \<noteq> [] \<Longrightarrow> hd p = CHR ''<'' \<Longrightarrow> skips p xml_crlf"
  by (simp add: skips_text xml_crlf_def)

lemma skips_elem:
  assumes "xml_name n" "xml_name t" "\<not> startsWith t n" "skips (begin_tag n) body"
  shows "skips (begin_tag n) (xml_elem t body)"
  using skips_append [OF skips_begin_open [OF assms(1) xml_nameD(2) [OF assms(2)] assms(3)] skips_append [OF assms(4)
      skips_append [OF skips_begin_close [OF assms(1,2)] skips_crlf]]]
  by (simp add: xml_elem_def)

lemma skips_end_elem:
  assumes "xml_name n" "xml_name t" "t \<noteq> n" "skips (end_tag n) body"
  shows "skips (end_tag n) (xml_elem t body)"
  using skips_append [OF skips_end_open [OF assms(2)] skips_append [OF assms(4)
      skips_append [OF skips_end_close [OF assms(1-3)] skips_crlf]]]
  by (simp add: xml_elem_def)

text \<open>What a list of fields has to satisfy for the field \<open>n\<close> to be found in it.\<close>

definition flat_fields :: "string \<Rightarrow> (string \<times> string) list \<Rightarrow> bool" where
  "flat_fields n kvs \<longleftrightarrow> xml_name n \<and>
     list_all (\<lambda>(t, b). xml_name t \<and> xml_text b \<and> (t = n \<or> \<not> startsWith t n)) kvs"

lemma flat_fields_Cons: "flat_fields n ((t, b) # kvs) \<longleftrightarrow>
    xml_name t \<and> xml_text b \<and> (t = n \<or> \<not> startsWith t n) \<and> flat_fields n kvs"
  by (auto simp: flat_fields_def)

lemma skips_xml_elems:
  "flat_fields n kvs \<Longrightarrow> n \<notin> fst ` set kvs \<Longrightarrow> skips (begin_tag n) (xml_elems kvs)"
proof (induction kvs)
  case (Cons kv kvs)
  obtain t b where "kv = (t, b)" by (cases kv)
  then show ?case
    using Cons skips_append [OF skips_elem [of n t b] Cons.IH] skips_text [of "begin_tag n" b]
    by (auto simp: flat_fields_Cons xml_elems_def xml_text_def flat_fields_def)
qed (simp add: xml_elems_def skips_Nil)

lemma skips_end_elems:
  "xml_name n \<Longrightarrow> list_all (\<lambda>(t, b). xml_name t \<and> xml_text b \<and> t \<noteq> n) kvs \<Longrightarrow> skips (end_tag n) (xml_elems kvs)"
proof (induction kvs)
  case (Cons kv kvs)
  obtain t b where "kv = (t, b)" by (cases kv)
  then show ?case
    using Cons skips_append [OF skips_end_elem [of n t b] Cons.IH] skips_text [of "end_tag n" b]
    by (auto simp: xml_elems_def xml_text_def)
qed (simp add: xml_elems_def skips_Nil)

section \<open>What the scanner finds\<close>

lemma elementBlock_elem:
  assumes "skips (begin_tag n) pre" "CHR ''>'' \<notin> set attrs" "skips (end_tag n) body"
  shows "elementBlock (pre @ ''<'' @ n @ attrs @ ''>'' @ body @ end_tag n @ rest) n = body"
proof -
  let ?s = "pre @ ''<'' @ n @ attrs @ ''>'' @ body @ end_tag n @ rest"
  let ?w = "pre @ ''<'' @ n"
  have b: "find_from (begin_tag n) ?s 0 = Some (length pre)"
    using assms(1) find_sub_here [of "begin_tag n @ attrs @ ''>'' @ body @ end_tag n @ rest" "begin_tag n"]
    by (simp add: find_from_def skips_def startsWith_def)
  have g: "find_from ''>'' ?s (length pre + length (begin_tag n)) = Some (length pre + length (begin_tag n) + length attrs)"
    using find_from_mark [of "''>''" attrs ?w "body @ end_tag n @ rest"] assms(2) by simp
  have "find_sub (end_tag n) (body @ end_tag n @ rest) = Some (length body)"
    using assms(3) find_sub_here [of "end_tag n @ rest" "end_tag n"] by (simp add: skips_def startsWith_def)
  then have e: "find_from (end_tag n) ?s (length pre + length (begin_tag n) + length attrs + 1) =
      Some (length pre + length (begin_tag n) + length attrs + 1 + length body)"
    using find_from_append [of "end_tag n" "?w @ attrs @ ''>''" "body @ end_tag n @ rest"]
    by (simp add: add.commute add.left_commute)
  show ?thesis
    unfolding elementBlock_def Let_def b option.case g e by (simp add: substr_def)
qed

lemma elementBlock_absent:
  assumes "skips (begin_tag n) body"
  shows "elementBlock body n = ''''"
proof -
  have "find_sub (begin_tag n) body = None"
    using assms by (auto simp: skips_def dest: spec [of _ "[]"])
  then show ?thesis by (simp add: elementBlock_def find_from_def)
qed

lemma elementText_absent: "skips (begin_tag n) body \<Longrightarrow> elementText body n = ''''"
  by (simp add: elementText_def elementBlock_absent xml_trim_def)

lemma elementText_elem:
  assumes "skips (begin_tag n) pre" "xml_text t"
  shows "elementText (pre @ xml_elem n t @ rest) n = t"
  using assms elementBlock_elem [OF assms(1), of "[]" t "xml_crlf @ rest"] skips_text [of "end_tag n" t]
  by (simp add: elementText_def xml_elem_def xml_text_def)

text \<open>A flat list of fields between a prefix and a rest: the first field of the name is found.\<close>

lemma elementText_fields:
  "skips (begin_tag n) pre \<Longrightarrow> flat_fields n kvs \<Longrightarrow> map_of kvs n = Some t \<Longrightarrow>
     elementText (pre @ xml_elems kvs @ rest) n = t"
proof (induction kvs arbitrary: pre)
  case (Cons kv kvs)
  obtain k b where kv: "kv = (k, b)" by (cases kv)
  then have f: "xml_name k" "xml_text b" "k = n \<or> \<not> startsWith k n" "flat_fields n kvs"
    using Cons.prems(2) by (simp_all add: flat_fields_Cons)
  have n: "xml_name n" using f(4) by (simp add: flat_fields_def)
  show ?case
  proof (cases "k = n")
    case True
    then show ?thesis
      using elementText_elem [OF Cons.prems(1) f(2), of "xml_elems kvs @ rest"] Cons.prems(3) kv
      by (simp add: xml_elems_def)
  next
    case False
    then have "skips (begin_tag n) (pre @ xml_elem k b)"
      using f n skips_text [of "begin_tag n" b]
      by (intro skips_append [OF Cons.prems(1)] skips_elem) (auto simp: xml_text_def)
    from Cons.IH [OF this f(4)] show ?thesis
      using False Cons.prems(3) kv by (simp add: xml_elems_def)
  qed
qed simp

text \<open>The items of a block, each on lines of its own.\<close>

lemma next_item_elem:
  assumes "CHR ''<'' \<notin> set c" "skips (end_tag ''Item'') b"
  shows "next_item (pre @ c @ xml_elem ''Item'' b @ rest) (length pre) =
    Some (b, length (pre @ c @ ''<Item>'' @ b @ end_tag ''Item''))"
proof -
  let ?s = "pre @ c @ ''<Item>'' @ b @ end_tag ''Item'' @ xml_crlf @ rest"
  have f: "find_from ''<Item'' ?s (length pre) = Some (length pre + length c)"
    using find_from_mark [of "''<Item''" c pre "''>'' @ b @ end_tag ''Item'' @ xml_crlf @ rest"] assms(1) by simp
  have g: "find_from ''>'' ?s (length pre + length c) = Some (length pre + length c + 5)"
    using find_from_mark [of "''>''" "''<Item''" "pre @ c" "b @ end_tag ''Item'' @ xml_crlf @ rest"] by simp
  have "find_sub (end_tag ''Item'') (b @ end_tag ''Item'' @ xml_crlf @ rest) = Some (length b)"
    using assms(2) find_sub_here [of "end_tag ''Item'' @ xml_crlf @ rest" "end_tag ''Item''"]
    by (simp add: skips_def startsWith_def)
  then have e: "find_from ''</Item>'' ?s (length pre + length c + 5 + 1) = Some (length pre + length c + 6 + length b)"
    using find_from_append [of "end_tag ''Item''" "pre @ c @ ''<Item>''" "b @ end_tag ''Item'' @ xml_crlf @ rest"]
    by (simp add: eval_nat_numeral add.commute add.left_commute)
  have s: "pre @ c @ xml_elem ''Item'' b @ rest = ?s" by (simp add: xml_elem_def)
  show ?thesis
    unfolding s next_item_def f option.case Let_def prod.case g e by (simp add: substr_def)
qed

lemma parseItemsInBlock_end: "CHR ''<'' \<notin> set c \<Longrightarrow> parseItemsInBlock (pre @ c) (length pre) = []"
proof -
  assume c: "CHR ''<'' \<notin> set c"
  have "find_from p (pre @ c) (length pre) = None" if "p \<noteq> []" "hd p = CHR ''<''" for p
    using find_from_append [of p pre c] find_sub_skip [of p c "[]"] that c by simp
  then have "next_item (pre @ c) (length pre) = None" by (simp add: next_item_def)
  then show ?thesis by (subst parseItemsInBlock.simps) simp
qed

lemma parseItemsInBlock_items:
  "list_all (skips (end_tag ''Item'')) bs \<Longrightarrow>
    parseItemsInBlock (pre @ xml_crlf @ concat (map (xml_elem ''Item'') bs)) (length pre) = map parse_item bs"
proof (induction bs arbitrary: pre)
  case Nil
  then show ?case using parseItemsInBlock_end [of xml_crlf pre] by (simp add: xml_crlf_def)
next
  case (Cons b bs)
  let ?rest = "concat (map (xml_elem ''Item'') bs)"
  let ?pre = "pre @ xml_crlf @ ''<Item>'' @ b @ end_tag ''Item''"
  have n: "next_item (pre @ xml_crlf @ xml_elem ''Item'' b @ ?rest) (length pre) = Some (b, length ?pre)"
    using Cons.prems by (intro next_item_elem) (auto simp: xml_crlf_def)
  have "parseItemsInBlock (pre @ xml_crlf @ xml_elem ''Item'' b @ ?rest) (length pre) =
      parse_item b # parseItemsInBlock (?pre @ xml_crlf @ ?rest) (length ?pre)"
    by (subst parseItemsInBlock.simps, subst n) (simp add: xml_elem_def xml_crlf_def)
  then show ?case using Cons.IH [of ?pre] Cons.prems by simp
qed

section \<open>Whole messages\<close>

definition xml_prolog :: string where
  \<open>xml_prolog = ''<?xml version="1.0"?>'' @ xml_crlf\<close>

lemma rootName_doc:
  assumes "xml_name root"
  shows "rootName (xml_prolog @ ''<'' @ root @ ''>'' @ rest) = root"
proof -
  let ?s = "xml_prolog @ ''<'' @ root @ ''>'' @ rest"
  obtain c r where root: "root = c # r" using xml_nameD(1) [OF assms] by (cases root) auto
  have c: "c \<noteq> CHR ''?''" "c \<noteq> CHR ''!''" using xml_nameD(5,6) [OF assms] root by auto
  have p: "xml_prolog = CHR ''<'' # tl xml_prolog" "CHR ''<'' \<notin> set (tl xml_prolog)"
    "hd (tl xml_prolog) = CHR ''?''" "length xml_prolog = 23"
    by (simp_all add: xml_prolog_def xml_crlf_def)
  have f: "find_from ''<'' ?s 0 = Some 0"
    using find_from_mark [of "''<''" "[]" "[]" "tl xml_prolog @ ''<'' @ root @ ''>'' @ rest"]
    by (subst p(1)) simp
  have g: "find_from ''<'' ?s (0 + 1) = Some 23"
    using find_from_mark [of "''<''" "tl xml_prolog" "''<''" "root @ ''>'' @ rest"] p(2,4)
    by (subst p(1)) simp
  have i: "?s ! (0 + 1) = CHR ''?''" "?s ! (23 + 1) = c"
    by (simp_all add: xml_prolog_def xml_crlf_def root)
  have b: "root_begin ?s (find_from ''<'' ?s 0) = Some 23"
    unfolding f by (subst root_begin.simps, simp only: option.case i g, subst root_begin.simps, simp only: option.case i)
      (use c p(4) in simp)
  have d: "drop (23 + 1) ?s = root @ ''>'' @ rest" using p(4) by simp
  have "list_all (\<lambda>x. x \<notin> set [CHR '' '', CHR 0x09, CHR 0x0D, CHR 0x0A, CHR ''>'', CHR ''/'']) root"
    using assms by (auto simp: xml_name_def list_all_iff)
  then have "takeWhile (\<lambda>x. x \<notin> set [CHR '' '', CHR 0x09, CHR 0x0D, CHR 0x0A, CHR ''>'', CHR ''/'']) (root @ ''>'' @ rest) = root"
    by (simp add: takeWhile_append list_all_iff)
  then have e: "find_first_of [CHR '' '', CHR 0x09, CHR 0x0D, CHR 0x0A, CHR ''>'', CHR ''/''] ?s (23 + 1) = Some (23 + 1 + length root)"
    using p(4) by (simp only: find_first_of_def Let_def d) simp
  show ?thesis
    unfolding rootName_def b option.case e using p(4) root by (simp add: substr_def)
qed

text \<open>A document as the builders write it: the declaration, one root element, in it lines of fields and
  then perhaps more.\<close>

abbreviation xml_doc :: "string \<Rightarrow> (string \<times> string) list \<Rightarrow> string \<Rightarrow> string" where
  "xml_doc root kvs rest \<equiv> xml_prolog @ xml_elem root (xml_crlf @ xml_elems kvs @ rest)"

lemma skips_doc_head:
  assumes "xml_name n" "xml_name root" "\<not> startsWith root n"
  shows "skips (begin_tag n) (xml_prolog @ ''<'' @ root @ ''>'' @ xml_crlf)"
proof -
  have "skips (begin_tag n) (''<'' @ (tl ''<?xml version='' @ [CHR 0x22] @ ''1.0'' @ [CHR 0x22, CHR ''?'']) @ ''>'')"
    using xml_nameD(1,5) [OF assms(1)] by (intro skips_begin_open assms) (cases n; simp add: startsWith_def)+
  then have "skips (begin_tag n) xml_prolog"
    using skips_append [OF _ skips_crlf, of "begin_tag n" \<open>''<?xml version="1.0"?>''\<close>] by (simp add: xml_prolog_def)
  then show ?thesis
    using skips_append [OF _ skips_append [OF skips_begin_open [OF assms(1) xml_nameD(2) [OF assms(2)] assms(3)] skips_crlf]]
    by simp
qed

lemma doc_field:
  assumes "xml_name root" "\<not> startsWith root n" "flat_fields n kvs" "map_of kvs n = Some t"
  shows "elementText (xml_doc root kvs rest) n = t"
  using elementText_fields [OF skips_doc_head [OF _ assms(1,2)] assms(3,4)] assms(3)
  by (simp add: xml_elem_def flat_fields_def)

lemma skips_doc:
  assumes "xml_name root" "\<not> startsWith root n" "flat_fields n kvs" "n \<notin> fst ` set kvs" "skips (begin_tag n) rest"
  shows "skips (begin_tag n) (xml_doc root kvs rest)"
proof -
  have n: "xml_name n" using assms(3) by (simp add: flat_fields_def)
  have "skips (begin_tag n) ((xml_prolog @ ''<'' @ root @ ''>'' @ xml_crlf) @ xml_elems kvs @ rest @ end_tag root @ xml_crlf)"
    by (intro skips_append [OF skips_doc_head [OF n assms(1,2)] skips_append [OF skips_xml_elems [OF assms(3,4)]
      skips_append [OF assms(5) skips_append [OF skips_begin_close [OF n assms(1)] skips_crlf]]]]) simp_all
  then show ?thesis by (simp add: xml_elem_def)
qed

lemma doc_absent:
  "xml_name root \<Longrightarrow> \<not> startsWith root n \<Longrightarrow> flat_fields n kvs \<Longrightarrow> n \<notin> fst ` set kvs \<Longrightarrow> skips (begin_tag n) rest \<Longrightarrow>
    elementText (xml_doc root kvs rest) n = '''' \<and> elementBlock (xml_doc root kvs rest) n = ''''"
  using elementText_absent [OF skips_doc] elementBlock_absent [OF skips_doc] by blast

end
