(* ===== verification/MessageBodies.thy ===== *)
theory MessageBodies
  imports Manscdp
begin

text \<open>
  The MANSCDP bodies the node sends (\<open>src/src/capabilities/GB28181Capabilities.cpp\<close>): keepalive,
  queries, responses and the catalog read from a JSON file. \<open>nextSn\<close> is a static counter in the code;
  here the number is an argument and the callers thread the counter. An element on a line of its own is
  \<open>xml_elem\<close> of \<open>Manscdp\<close>, a sequence of them \<open>xml_elems\<close>. Every kind of body is read back by
  \<open>parseManscdpMessage\<close> of the peer with the fields that were written.
\<close>

definition makeKeepaliveBody :: "int \<Rightarrow> string \<Rightarrow> string" where
  "makeKeepaliveBody sn deviceId = xml_prolog @ xml_elem ''Notify'' (xml_crlf @ xml_elems [
     (''CmdType'', ''keepalive''),
     (''SN'', dec_int sn),
     (''DeviceID'', deviceId),
     (''Status'', ''OK'')])"

definition epoch_text :: string where
  "epoch_text = ''1970-01-01T00:00:00''"

definition makeQueryBody :: "int \<Rightarrow> string \<Rightarrow> string \<Rightarrow> string" where
  "makeQueryBody sn cmdType deviceId = xml_prolog @ xml_elem ''Query'' (xml_crlf @ xml_elems ([
     (''CmdType'', cmdType),
     (''SN'', dec_int sn),
     (''DeviceID'', deviceId)] @
     (if cmdType = ''RecordInfo''
      then [(''StartTime'', epoch_text), (''EndTime'', epoch_text)]
      else [])))"

text \<open>\<open><tag Num="n">\<close>, the items and the end tag.\<close>

definition xml_list :: "string \<Rightarrow> (string \<times> string) list \<Rightarrow> string" where
  \<open>xml_list tag item = ''<'' @ tag @ '' Num="1"'' @ ''>'' @ xml_crlf @
     xml_elem ''Item'' (xml_crlf @ xml_elems item) @ end_tag tag @ xml_crlf\<close>

definition default_catalog_item :: "string \<Rightarrow> (string \<times> string) list" where
  "default_catalog_item deviceId = [
     (''DeviceID'', deviceId),
     (''Name'', ''gb28181-node''),
     (''Manufacturer'', ''media-fabric''),
     (''Model'', ''GB28181Node''),
     (''Owner'', ''GB28181''),
     (''CivilCode'', ''000000''),
     (''Parental'', ''0''),
     (''ParentID'', deviceId),
     (''SafetyWay'', ''0''),
     (''RegisterWay'', ''1''),
     (''Secrecy'', ''0''),
     (''Status'', ''ON'')]"

definition default_record_item :: "string \<Rightarrow> (string \<times> string) list" where
  "default_record_item deviceId = [
     (''DeviceID'', deviceId),
     (''Name'', ''self-test-record''),
     (''FilePath'', ''/tmp/self-test.ps''),
     (''StartTime'', epoch_text),
     (''EndTime'', epoch_text)]"

definition makeResponseBody :: "int \<Rightarrow> string \<Rightarrow> string \<Rightarrow> string \<Rightarrow> string \<Rightarrow> string" where
  "makeResponseBody sn root cmdType deviceId result =
    (let head = [(''CmdType'', cmdType), (''SN'', dec_int sn), (''DeviceID'', deviceId), (''Result'', result)]
     in xml_prolog @ xml_elem root (xml_crlf @
         (if root = ''Response'' \<and> cmdType = ''Catalog''
          then xml_elems (head @ [(''SumNum'', ''1'')]) @ xml_list ''DeviceList'' (default_catalog_item deviceId)
          else if root = ''Response'' \<and> cmdType = ''RecordInfo''
          then xml_elems (head @ [(''SumNum'', ''1'')]) @ xml_list ''RecordList'' (default_record_item deviceId)
          else xml_elems head)))"

section \<open>The catalog file\<close>

text \<open>Reading and parsing the JSON file is the work of the vendored jsoncpp; what the code asks of a node
  are its members, \<open>None\<close> where a member is absent and \<open>get\<close> gives the default.\<close>

record catalog_node =
  cn_deviceID :: "string option"
  cn_name :: "string option"
  cn_manufacturer :: "string option"
  cn_model :: "string option"
  cn_parental :: "int option"
  cn_parentID :: "string option"
  cn_safetyWay :: "int option"
  cn_registerWay :: "int option"
  cn_secrecy :: "int option"
  cn_status :: "string option"
  cn_longitude :: "string option"
  cn_latitude :: "string option"

datatype catalog_load = CatalogMissing | CatalogInvalid | CatalogNodes "catalog_node list"

fun member :: "'a option \<Rightarrow> 'a \<Rightarrow> 'a" where
  "member None d = d"
| "member (Some v) d = v"

definition catalog_item :: "catalog_node \<Rightarrow> (string \<times> string) list" where
  "catalog_item item =
    (let itemDeviceId = member (cn_deviceID item) '''';
         manufacturer = member (cn_manufacturer item) ''unknown'';
         model = member (cn_model item) ''unknown''
     in [(''DeviceID'', itemDeviceId),
         (''Name'', member (cn_name item) ''''),
         (''Manufacturer'', if manufacturer = [] then ''unknown'' else manufacturer),
         (''Model'', if model = [] then ''unknown'' else model),
         (''Owner'', ''unknown''),
         (''CivilCode'', if length itemDeviceId \<ge> 6 then take 6 itemDeviceId else ''''),
         (''Parental'', dec_int (member (cn_parental item) 0)),
         (''ParentID'', member (cn_parentID item) ''''),
         (''SafetyWay'', dec_int (member (cn_safetyWay item) 0)),
         (''RegisterWay'', dec_int (member (cn_registerWay item) 1)),
         (''Secrecy'', dec_int (member (cn_secrecy item) 0)),
         (''Status'', member (cn_status item) ''ON''),
         (''Longitude'', member (cn_longitude item) ''''),
         (''Latitude'', member (cn_latitude item) '''')])"

definition catalog_head :: "string \<Rightarrow> string \<Rightarrow> nat \<Rightarrow> (string \<times> string) list" where
  "catalog_head sn deviceId n = [(''CmdType'', ''Catalog''), (''SN'', sn), (''DeviceID'', deviceId),
     (''Result'', ''OK''), (''SumNum'', dec n)]"

text \<open>\<open>ownSn\<close> is the number of the default response; \<open>sn\<close> repeats the query's. The second component
  is the error text.\<close>

definition makeCatalogResponseBodies ::
  "(string \<Rightarrow> catalog_load) \<Rightarrow> int \<Rightarrow> string \<Rightarrow> string \<Rightarrow> string \<Rightarrow> string list \<times> string" where
  "makeCatalogResponseBodies load ownSn catalogFile deviceId sn =
    (case load catalogFile of
       CatalogMissing \<Rightarrow> ([makeResponseBody ownSn ''Response'' ''Catalog'' deviceId ''OK''],
         ''cannot open catalog file: '' @ catalogFile)
     | CatalogInvalid \<Rightarrow> ([makeResponseBody ownSn ''Response'' ''Catalog'' deviceId ''OK''],
         ''invalid catalog JSON: '' @ catalogFile)
     | CatalogNodes items \<Rightarrow>
         if items = []
         then ([xml_prolog @ xml_elem ''Response'' (xml_crlf @ xml_elems (catalog_head sn deviceId 0) @
                  (CHR ''<'' # ''DeviceList Num='' @ [CHR 0x22] @ ''0'' @ [CHR 0x22] @ ''>'') @ xml_crlf @ end_tag ''DeviceList'' @ xml_crlf)], '''')
         else (map (\<lambda>item. xml_prolog @ xml_elem ''Response'' (xml_crlf @
                  xml_elems (catalog_head sn deviceId (length items)) @
                  xml_list ''DeviceList'' (catalog_item item))) items, ''''))"

section \<open>Reading the bodies back\<close>

lemma xml_text_dec_int: "xml_text (dec_int i)"
proof -
  have c: "c = CHR ''-'' \<or> isdigit c" if "c \<in> set (dec_int i)" for c
    using that dec_digits by (auto simp: dec_int_def list_all_iff split: if_splits)
  have ne: "dec_int i \<noteq> []" by (simp add: dec_int_def)
  have b: "\<not> xml_blank c" "c \<noteq> CHR ''<''" if "c \<in> set (dec_int i)" for c
    using c [OF that] by (auto simp: xml_blank_def isdigit_def)
  have "dropWhile xml_blank (dec_int i) = dec_int i"
    using b(1) [OF hd_in_set [OF ne]] ne by (cases "dec_int i") auto
  moreover have "dropWhile xml_blank (rev (dec_int i)) = rev (dec_int i)"
    using b(1) [of "hd (rev (dec_int i))"] ne hd_in_set [of "rev (dec_int i)"] by (cases "rev (dec_int i)") auto
  ultimately show ?thesis using b(2) by (auto simp: xml_text_def xml_trim_def)
qed

lemma xml_text_dec: "xml_text (dec n)"
  using xml_text_dec_int [of "int n"] by (simp add: dec_int_def)

lemma mx_toInt_dec: "int n \<le> INT_MAX \<Longrightarrow> mx_toInt (dec n) = int n"
proof -
  assume n: "int n \<le> INT_MAX"
  have "sint (word_of_int (int n) :: 32 word) = int n"
    unfolding sint_sbintrunc' by (rule signed_take_bit_int_eq_self) (use n in \<open>simp_all add: INT_MAX_def\<close>)
  then show ?thesis
    using extract_int_dec_int [of "- (2 ^ 63)" "int n" "2 ^ 63 - 1"] n
    by (simp add: mx_toInt_def atoi_def dec_int_def INT_MAX_def)
qed

text \<open>The names the parser looks for in a message and in an item.\<close>

definition top_names :: "string list" where
  "top_names = [''CmdType'', ''SN'', ''DeviceID'', ''Result'', ''StartTime'', ''EndTime'', ''SumNum'',
     ''DeviceList'', ''RecordList'']"

definition item_names :: "string list" where
  "item_names = [''DeviceID'', ''Name'', ''Manufacturer'', ''Model'', ''Owner'', ''CivilCode'', ''Parental'',
     ''Address'', ''ParentID'', ''SafetyWay'', ''RegisterWay'', ''Secrecy'', ''Status'', ''Longitude'',
     ''Latitude'', ''FilePath'', ''StartTime'', ''EndTime'']"

definition field :: "(string \<times> string) list \<Rightarrow> string \<Rightarrow> string" where
  "field kvs n = (case map_of kvs n of None \<Rightarrow> '''' | Some t \<Rightarrow> t)"

definition fields_ok :: "string list \<Rightarrow> (string \<times> string) list \<Rightarrow> bool" where
  "fields_ok names kvs \<longleftrightarrow> (\<forall>n \<in> set names. flat_fields n kvs)"

text \<open>Both conditions by the tags of the fields; the texts separately.\<close>

definition tags_ok :: "string list \<Rightarrow> string list \<Rightarrow> bool" where
  "tags_ok names tags \<longleftrightarrow> list_all xml_name names \<and> list_all xml_name tags \<and>
     list_all (\<lambda>n. list_all (\<lambda>t. t = n \<or> \<not> startsWith t n) tags) names"

lemma fields_okI:
  assumes "tags_ok names (map fst kvs)" "list_all xml_text (map snd kvs)"
  shows "fields_ok names kvs"
  using assms by (fastforce simp: tags_ok_def fields_ok_def flat_fields_def list_all_iff)

lemma item_fields:
  assumes "n \<in> set names" "fields_ok names kvs"
  shows "elementText (xml_crlf @ xml_elems kvs) n = field kvs n"
proof -
  have f: "flat_fields n kvs" and n: "n \<noteq> []" using assms by (auto simp: fields_ok_def flat_fields_def xml_name_def)
  have c: "skips (begin_tag n) xml_crlf" by (simp add: skips_crlf)
  show ?thesis
  proof (cases "map_of kvs n")
    case None
    then have "n \<notin> fst ` set kvs" by (simp add: map_of_eq_None_iff)
    then show ?thesis
      using elementText_absent [OF skips_append [OF c skips_xml_elems [OF f]]] None by (simp add: field_def)
  next
    case (Some t)
    then show ?thesis using elementText_fields [OF c f Some, of "[]"] by (simp add: field_def)
  qed
qed

definition field_item :: "(string \<times> string) list \<Rightarrow> manscdp_item" where
  "field_item kvs = \<lparr>
     mi_deviceId = field kvs ''DeviceID'', mi_name = field kvs ''Name'',
     mi_manufacturer = field kvs ''Manufacturer'', mi_model = field kvs ''Model'',
     mi_owner = field kvs ''Owner'', mi_civilCode = field kvs ''CivilCode'',
     mi_parental = field kvs ''Parental'', mi_address = field kvs ''Address'',
     mi_parentId = field kvs ''ParentID'', mi_safetyWay = field kvs ''SafetyWay'',
     mi_registerWay = field kvs ''RegisterWay'', mi_secrecy = field kvs ''Secrecy'',
     mi_status = field kvs ''Status'', mi_longitude = field kvs ''Longitude'',
     mi_latitude = field kvs ''Latitude'', mi_filePath = field kvs ''FilePath'',
     mi_startTime = field kvs ''StartTime'', mi_endTime = field kvs ''EndTime''\<rparr>"

lemma parse_item_fields:
  "fields_ok item_names kvs \<Longrightarrow> parse_item (xml_crlf @ xml_elems kvs) = field_item kvs"
  by (simp add: parse_item_def field_item_def item_fields [where names = item_names] item_names_def)

lemma doc_fields:
  assumes "xml_name root" "n \<in> set names" "\<not> startsWith root n" "fields_ok names kvs"
    "skips (begin_tag n) rest \<or> n \<in> fst ` set kvs"
  shows "elementText (xml_doc root kvs rest) n = field kvs n"
proof (cases "map_of kvs n")
  case None
  then have "n \<notin> fst ` set kvs" by (simp add: map_of_eq_None_iff)
  then show ?thesis
    using doc_absent [OF assms(1,3)] assms None by (simp add: field_def fields_ok_def)
next
  case (Some t)
  then show ?thesis using doc_field [OF assms(1,3) _ Some] assms by (simp add: field_def fields_ok_def)
qed

text \<open>A list of one item after the fields.\<close>

definition list_start :: "string \<Rightarrow> string" where
  \<open>list_start tag = ''<'' @ (tag @ '' Num='' @ [CHR 0x22] @ ''1'' @ [CHR 0x22]) @ ''>''\<close>

lemma xml_list_eq: "xml_list tag item =
    list_start tag @ xml_crlf @ xml_elem ''Item'' (xml_crlf @ xml_elems item) @ end_tag tag @ xml_crlf"
  by (simp add: xml_list_def list_start_def)

lemma skips_list_start:
  assumes "xml_name n" "xml_name tag" "\<not> startsWith tag n"
  shows "skips (begin_tag n) (list_start tag)"
proof -
  have "\<not> startsWith (tag @ '' Num='' @ [CHR 0x22] @ ''1'' @ [CHR 0x22]) n"
  proof
    assume s: "startsWith (tag @ '' Num='' @ [CHR 0x22] @ ''1'' @ [CHR 0x22]) n"
    show False
    proof (cases "length n \<le> length tag")
      case True
      then show False using s assms(3) by (simp add: startsWith_def)
    next
      case False
      then obtain k where "length n - length tag = Suc k" by (cases "length n - length tag") auto
      then have "CHR '' '' \<in> set n" using s False by (auto simp: startsWith_def)
      then show False using assms(1) by (auto simp: xml_name_def list_all_iff)
    qed
  qed
  moreover have "CHR ''<'' \<notin> set (tag @ '' Num='' @ [CHR 0x22] @ ''1'' @ [CHR 0x22])"
    using xml_nameD(2) [OF assms(2)] by simp
  ultimately show ?thesis
    unfolding list_start_def by (intro skips_begin_open assms(1))
qed

lemma skips_xml_list:
  assumes "xml_name n" "xml_name tag" "\<not> startsWith tag n" "\<not> startsWith ''Item'' n" "flat_fields n item"
    "n \<notin> fst ` set item"
  shows "skips (begin_tag n) (xml_list tag item)"
proof -
  have i: "xml_name ''Item''" by (simp add: xml_name_def)
  have "skips (begin_tag n) (xml_crlf @ xml_elems item)"
    using skips_append [OF skips_crlf skips_xml_elems [OF assms(5,6)]] by simp
  from skips_append [OF skips_list_start [OF assms(1-3)] skips_append [OF skips_crlf
      skips_append [OF skips_elem [OF assms(1) i assms(4) this] skips_append [OF skips_begin_close [OF assms(1,2)] skips_crlf]]]]
  show ?thesis by (simp add: xml_list_eq)
qed

lemma list_block:
  assumes "xml_name root" "xml_name tag" "\<not> startsWith root tag" "flat_fields tag kvs" "tag \<notin> fst ` set kvs"
    "list_all (\<lambda>(t, b). xml_name t \<and> xml_text b \<and> t \<noteq> tag) item" "tag \<noteq> ''Item''"
  shows "elementBlock (xml_doc root kvs (xml_list tag item)) tag =
    xml_crlf @ xml_elem ''Item'' (xml_crlf @ xml_elems item)"
proof -
  have i: "xml_name ''Item''" by (simp add: xml_name_def)
  have "skips (end_tag tag) (xml_crlf @ xml_elem ''Item'' (xml_crlf @ xml_elems item))"
    using skips_append [OF skips_crlf skips_end_elem [OF assms(2) i _ skips_append [OF skips_crlf skips_end_elems [OF assms(2,6)]]]]
      assms(7) by simp
  from elementBlock_elem [OF skips_append [OF skips_doc_head [OF assms(2,1,3)] skips_xml_elems [OF assms(4,5)]] _ this,
      of "'' Num='' @ [CHR 0x22] @ ''1'' @ [CHR 0x22]" "xml_crlf @ end_tag root @ xml_crlf"]
  show ?thesis by (simp add: xml_elem_def xml_list_def)
qed

lemma flat_fields_list:
  assumes "flat_fields n kvs" "tag \<notin> fst ` set kvs"
  shows "list_all (\<lambda>(t, b). xml_name t \<and> xml_text b \<and> t \<noteq> tag) kvs"
  using assms by (induction kvs) (auto simp: flat_fields_Cons)

lemma list_items:
  assumes "fields_ok item_names item" "''Item'' \<notin> fst ` set item"
  shows "parseItemsInBlock (xml_crlf @ xml_elem ''Item'' (xml_crlf @ xml_elems item)) 0 = [field_item item]"
proof -
  have "flat_fields ''Name'' item" using assms(1) by (simp add: fields_ok_def item_names_def)
  then have "list_all (\<lambda>(t, b). xml_name t \<and> xml_text b \<and> t \<noteq> ''Item'') item"
    by (rule flat_fields_list [OF _ assms(2)])
  then have "skips (end_tag ''Item'') (xml_crlf @ xml_elems item)"
    using skips_append [OF skips_crlf [of "end_tag ''Item''"] skips_end_elems] by (simp add: xml_name_def)
  then show ?thesis
    using parseItemsInBlock_items [of "[xml_crlf @ xml_elems item]" "[]"] parse_item_fields [OF assms(1)] by simp
qed

text \<open>In a document with a list a field that the head does not have is taken from the item.\<close>

lemma list_doc_fields:
  assumes "xml_name root" "xml_name tag" "n \<in> set names" "\<not> startsWith root n" "\<not> startsWith tag n"
    "\<not> startsWith ''Item'' n" "fields_ok names kvs" "fields_ok names item"
  shows "elementText (xml_doc root kvs (xml_list tag item)) n = field (kvs @ item) n"
proof -
  have k: "flat_fields n kvs" "flat_fields n item" and n: "xml_name n"
    using assms by (auto simp: fields_ok_def flat_fields_def)
  have i: "xml_name ''Item''" by (simp add: xml_name_def)
  have ap: "map_of (kvs @ item) n = (case map_of kvs n of None \<Rightarrow> map_of item n | Some t \<Rightarrow> Some t)"
    by (simp add: map_add_def split: option.split)
  show ?thesis
  proof (cases "map_of kvs n")
    case (Some t)
    then show ?thesis using doc_field [OF assms(1,4) k(1) Some] by (simp only: field_def ap option.case)
  next
    case None
    then have kn: "n \<notin> fst ` set kvs" by (simp only: map_of_eq_None_iff not_False_eq_True)
    show ?thesis
    proof (cases "map_of item n")
      case (Some t)
      note skips_append [OF skips_append [OF skips_append [OF skips_append [OF skips_append [OF
        skips_doc_head [OF n assms(1,4)] skips_xml_elems [OF k(1) kn]]
        skips_list_start [OF n assms(2,5)]] skips_crlf] skips_begin_open [OF n xml_nameD(2) [OF i] assms(6)]] skips_crlf]
      from elementText_fields [OF this k(2) Some, of "end_tag ''Item'' @ xml_crlf @ end_tag tag @ xml_crlf @ end_tag root @ xml_crlf"]
      have "elementText (xml_doc root kvs (xml_list tag item)) n = t"
        by (simp add: xml_elem_def xml_list_eq)
      then show ?thesis by (simp only: field_def ap None Some option.case)
    next
      case absent: None
      then have "n \<notin> fst ` set item" by (simp only: map_of_eq_None_iff not_False_eq_True)
      then have "elementText (xml_doc root kvs (xml_list tag item)) n = []"
        using doc_absent [OF assms(1,4) k(1) kn skips_xml_list [OF n assms(2,5,6) k(2)]] by blast
      then show ?thesis by (simp only: field_def ap None absent option.case)
    qed
  qed
qed

definition parsed_message :: "string \<Rightarrow> (string \<times> string) list \<Rightarrow> manscdp_item list \<Rightarrow> manscdp_message" where
  "parsed_message root kvs items = \<lparr>mx_root = root, mx_cmdType = field kvs ''CmdType'', mx_sn = field kvs ''SN'',
     mx_deviceId = field kvs ''DeviceID'', mx_result = field kvs ''Result'', mx_startTime = field kvs ''StartTime'',
     mx_endTime = field kvs ''EndTime'', mx_sumNum = mx_toInt (field kvs ''SumNum''), mx_items = items\<rparr>"

lemma root_names:
  "root \<in> {''Notify'', ''Query'', ''Response''} \<Longrightarrow> xml_name root \<and> (\<forall>n \<in> set top_names. \<not> startsWith root n)"
  by (auto simp: xml_name_def top_names_def startsWith_def)

lemma doc_nonempty: "xml_doc root kvs rest \<noteq> []"
  by (simp add: xml_prolog_def)

lemma rootName_xml_doc: "xml_name root \<Longrightarrow> rootName (xml_doc root kvs rest) = root"
  using rootName_doc [of root "xml_crlf @ xml_elems kvs @ rest @ end_tag root @ xml_crlf"] by (simp add: xml_elem_def)

lemma parse_flat_doc:
  assumes "root \<in> {''Notify'', ''Query'', ''Response''}" "fields_ok top_names kvs" "field kvs ''CmdType'' \<noteq> []"
    "''DeviceList'' \<notin> fst ` set kvs" "''RecordList'' \<notin> fst ` set kvs"
  shows "parseManscdpMessage (xml_doc root kvs []) = Some (parsed_message root kvs [])"
proof -
  note r = root_names [OF assms(1)]
  have f: "elementText (xml_doc root kvs []) n = field kvs n" if "n \<in> set top_names" for n
    using r that by (intro doc_fields [OF _ that _ assms(2)]) (auto simp: skips_Nil)
  have b: "elementBlock (xml_doc root kvs []) n = ''''" if "n \<in> set top_names" "n \<notin> fst ` set kvs" for n
    using r that assms(2) doc_absent [of root n kvs "[]"] by (auto simp: skips_Nil fields_ok_def)
  have "parseItems (xml_doc root kvs []) = []"
    using b assms(4,5) by (simp add: parseItems_def top_names_def parseItemsInBlock.simps)
  moreover have "root \<noteq> []" using r xml_nameD(1) by blast
  ultimately show ?thesis
    using f r assms(3) doc_nonempty [of root kvs "[]"] rootName_xml_doc [of root kvs "[]"]
    by (simp add: parseManscdpMessage_def parsed_message_def mx_valid_def rootName_xml_doc top_names_def Let_def)
qed

lemma list_tag_absent:
  assumes "tag \<in> {''DeviceList'', ''RecordList''}"
    "''DeviceList'' \<notin> fst ` set (kvs @ item)" "''RecordList'' \<notin> fst ` set (kvs @ item)"
  shows "tag \<notin> fst ` set kvs" "tag \<notin> fst ` set item" "tag \<in> set top_names"
proof -
  have t: "tag = ''DeviceList'' \<or> tag = ''RecordList''" using assms(1) by (simp only: insert_iff empty_iff simp_thms)
  then have "tag \<notin> fst ` set (kvs @ item)"
    using assms(2,3) by (elim disjE) (simp_all only: not_False_eq_True)
  then show "tag \<notin> fst ` set kvs" "tag \<notin> fst ` set item"
    by (simp_all only: set_append image_Un Un_iff de_Morgan_disj simp_thms)
  show "tag \<in> set top_names" using t by (auto simp: top_names_def)
qed

lemma list_tag_names:
  assumes "tag \<in> {''DeviceList'', ''RecordList''}"
  shows "xml_name tag" "tag \<noteq> ''Item''" "n \<in> set top_names \<Longrightarrow> n \<noteq> tag \<Longrightarrow> \<not> startsWith tag n"
    "n \<in> set top_names \<Longrightarrow> \<not> startsWith ''Item'' n"
  using assms by (auto simp: xml_name_def top_names_def startsWith_def)

lemma list_doc_parts:
  assumes root: "xml_name root" "\<forall>n \<in> set top_names. \<not> startsWith root n"
    and tag: "tag \<in> {''DeviceList'', ''RecordList''}"
    and ok: "fields_ok top_names kvs" "fields_ok top_names item"
    and no: "''DeviceList'' \<notin> fst ` set (kvs @ item)" "''RecordList'' \<notin> fst ` set (kvs @ item)"
    and n: "n \<in> set top_names"
  shows "n \<noteq> tag \<Longrightarrow> elementText (xml_doc root kvs (xml_list tag item)) n = field (kvs @ item) n"
    and "n = tag \<Longrightarrow> elementBlock (xml_doc root kvs (xml_list tag item)) n =
      xml_crlf @ xml_elem ''Item'' (xml_crlf @ xml_elems item)"
    and "n \<noteq> tag \<Longrightarrow> n \<in> {''DeviceList'', ''RecordList''} \<Longrightarrow> elementBlock (xml_doc root kvs (xml_list tag item)) n = ''''"
proof -
  note t = list_tag_names [OF tag] and absent = list_tag_absent [OF _ no]
  have ff: "flat_fields n kvs" "flat_fields n item" "xml_name n"
    using n ok by (auto simp: fields_ok_def flat_fields_def)
  show "elementText (xml_doc root kvs (xml_list tag item)) n = field (kvs @ item) n" if "n \<noteq> tag"
    by (rule list_doc_fields [OF root(1) t(1) n bspec [OF root(2) n] t(3) [OF n that] t(4) [OF n] ok])
  show "elementBlock (xml_doc root kvs (xml_list tag item)) n =
      xml_crlf @ xml_elem ''Item'' (xml_crlf @ xml_elems item)" if "n = tag"
    unfolding that
    using list_block [OF root(1) t(1) bspec [OF root(2) n [unfolded that]] ff(1) [unfolded that] absent(1) [OF tag]
      flat_fields_list [OF ff(2) absent(2) [OF tag]] t(2)] .
  show "elementBlock (xml_doc root kvs (xml_list tag item)) n = ''''" if "n \<noteq> tag" "n \<in> {''DeviceList'', ''RecordList''}"
    using doc_absent [OF root(1) bspec [OF root(2) n] ff(1) absent(1) [OF that(2)]
      skips_xml_list [OF ff(3) t(1) t(3) [OF n that(1)] t(4) [OF n] ff(2) absent(2) [OF that(2)]]] by blast
qed

lemma parse_list_doc:
  assumes root: "root \<in> {''Notify'', ''Query'', ''Response''}" and tag: "tag \<in> {''DeviceList'', ''RecordList''}"
    and ok: "fields_ok top_names kvs" "fields_ok top_names item" "fields_ok item_names item"
    and no: "''DeviceList'' \<notin> fst ` set (kvs @ item)" "''RecordList'' \<notin> fst ` set (kvs @ item)" "''Item'' \<notin> fst ` set item"
    and cmd: "field kvs ''CmdType'' \<noteq> []"
  shows "parseManscdpMessage (xml_doc root kvs (xml_list tag item)) =
    Some (parsed_message root (kvs @ item) [field_item item])"
proof -
  define d where "d = xml_doc root kvs (xml_list tag item)"
  note r = conjunct1 [OF root_names [OF root]] conjunct2 [OF root_names [OF root]]
  note parts = list_doc_parts [OF r tag ok(1,2) no(1,2), folded d_def]
  have top: "''DeviceList'' \<in> set top_names" "''RecordList'' \<in> set top_names"
    by (simp_all add: top_names_def)
  have i: "parseItemsInBlock (xml_crlf @ xml_elem ''Item'' (xml_crlf @ xml_elems item)) 0 = [field_item item]"
    by (rule list_items [OF ok(3) no(3)])
  have e: "parseItemsInBlock [] 0 = []" by (simp add: parseItemsInBlock.simps)
  have items: "parseItems d = [field_item item]"
  proof (cases "tag = ''DeviceList''")
    case True
    then show ?thesis unfolding parseItems_def using parts(2) [OF top(1)] parts(3) [OF top(2)] i e by simp
  next
    case False
    then have "tag = ''RecordList''" using tag by simp
    then show ?thesis unfolding parseItems_def using parts(3) [OF top(1)] parts(2) [OF top(2)] i e by simp
  qed
  have f: "elementText d n = field (kvs @ item) n" if "n \<in> set (take 7 top_names)" for n
    using that tag by (intro parts(1)) (auto simp: top_names_def)
  have fs: "elementText d ''CmdType'' = field (kvs @ item) ''CmdType''" "elementText d ''SN'' = field (kvs @ item) ''SN''"
    "elementText d ''DeviceID'' = field (kvs @ item) ''DeviceID''" "elementText d ''Result'' = field (kvs @ item) ''Result''"
    "elementText d ''StartTime'' = field (kvs @ item) ''StartTime''" "elementText d ''EndTime'' = field (kvs @ item) ''EndTime''"
    "elementText d ''SumNum'' = field (kvs @ item) ''SumNum''"
    by (intro f, simp add: top_names_def)+
  have c: "field (kvs @ item) ''CmdType'' \<noteq> []"
    using cmd by (auto simp: field_def map_add_def split: option.splits)
  have "rootName d = root" "d \<noteq> []" "root \<noteq> []"
    using rootName_xml_doc [OF r(1)] doc_nonempty xml_nameD(1) [OF r(1)] by (simp_all only: d_def) blast+
  then have "parseManscdpMessage d = Some (parsed_message root (kvs @ item) [field_item item])"
    unfolding parseManscdpMessage_def parsed_message_def mx_valid_def Let_def fs items using c by simp
  then show ?thesis by (simp only: d_def)
qed


lemma xml_text_literals [simp]:
  "xml_text ''keepalive''" "xml_text ''OK''" "xml_text epoch_text" "xml_text ''Catalog''" "xml_text ''1''" "xml_text ''''"
  "xml_text ''unknown''" "xml_text ''ON''"
  by (simp_all add: xml_text_def xml_trim_def xml_blank_def epoch_text_def)

lemma fields_names [simp]: "list_all P [] = True" "list_all P (x # xs) = (P x \<and> list_all P xs)"
  by simp_all

lemma tags_ok_sets:
  "tags_ok top_names [''CmdType'', ''SN'', ''DeviceID'']" "tags_ok top_names [''Result'']" "tags_ok top_names [''Status'']"
  "tags_ok top_names [''SumNum'']" "tags_ok top_names [''StartTime'', ''EndTime'']" "tags_ok top_names []"
  "tags_ok top_names [''DeviceID'', ''Name'', ''Manufacturer'', ''Model'', ''Owner'', ''CivilCode'',
      ''Parental'', ''ParentID'', ''SafetyWay'', ''RegisterWay'', ''Secrecy'', ''Status'', ''Longitude'', ''Latitude'']"
  "tags_ok item_names [''DeviceID'', ''Name'', ''Manufacturer'', ''Model'', ''Owner'', ''CivilCode'',
      ''Parental'', ''ParentID'', ''SafetyWay'', ''RegisterWay'', ''Secrecy'', ''Status'', ''Longitude'', ''Latitude'']"
  by code_simp+

lemma head_fields_ok:
  "xml_text a \<Longrightarrow> xml_text b \<Longrightarrow> xml_text c \<Longrightarrow> fields_ok top_names [(''CmdType'', a), (''SN'', b), (''DeviceID'', c)]"
  by (rule fields_okI) (simp_all add: tags_ok_sets)

lemma fields_ok_append: "fields_ok names kvs \<Longrightarrow> fields_ok names kvs' \<Longrightarrow> fields_ok names (kvs @ kvs')"
  by (simp add: fields_ok_def flat_fields_def)

lemma top_extra_ok:
  "xml_text a \<Longrightarrow> fields_ok top_names [(''Result'', a)]"
  "xml_text a \<Longrightarrow> fields_ok top_names [(''Status'', a)]"
  "xml_text a \<Longrightarrow> fields_ok top_names [(''SumNum'', a)]"
  "xml_text a \<Longrightarrow> xml_text b \<Longrightarrow> fields_ok top_names [(''StartTime'', a), (''EndTime'', b)]"
  by (rule fields_okI; simp add: tags_ok_sets)+

text \<open>a query body, parsed by the peer, is the query with the command, number and device that were
  asked for; a record query carries the fixed time range.\<close>

theorem parse_query_body:
  assumes "xml_text cmd" "cmd \<noteq> []" "xml_text dev"
  shows "parseManscdpMessage (makeQueryBody sn cmd dev) = Some (new_manscdp_message
    \<lparr>mx_root := ''Query'', mx_cmdType := cmd, mx_sn := dec_int sn, mx_deviceId := dev,
     mx_startTime := (if cmd = ''RecordInfo'' then epoch_text else ''''),
     mx_endTime := (if cmd = ''RecordInfo'' then epoch_text else '''')\<rparr>)"
proof -
  let ?kvs = "[(''CmdType'', cmd), (''SN'', dec_int sn), (''DeviceID'', dev)] @
    (if cmd = ''RecordInfo'' then [(''StartTime'', epoch_text), (''EndTime'', epoch_text)] else [])"
  have "fields_ok top_names (if cmd = ''RecordInfo'' then [(''StartTime'', epoch_text), (''EndTime'', epoch_text)] else [])"
    using top_extra_ok(4) [of epoch_text epoch_text] fields_okI [of top_names "[]"] by (simp add: tags_ok_sets)
  from fields_ok_append [OF head_fields_ok [OF assms(1) xml_text_dec_int assms(3)] this]
  have ok: "fields_ok top_names ?kvs" .
  have "parseManscdpMessage (xml_doc ''Query'' ?kvs []) = Some (parsed_message ''Query'' ?kvs [])"
    by (rule parse_flat_doc [OF _ ok]) (use assms(2) in \<open>auto simp: field_def\<close>)
  then show ?thesis
    by (simp add: makeQueryBody_def parsed_message_def new_manscdp_message_def field_def mx_toInt_def)
qed

theorem parse_query_body_witness:
  "parseManscdpMessage (makeQueryBody 7 ''Catalog'' ''34020000002000000001'') = Some (new_manscdp_message
    \<lparr>mx_root := ''Query'', mx_cmdType := ''Catalog'', mx_sn := dec_int 7, mx_deviceId := ''34020000002000000001''\<rparr>)"
  using parse_query_body [of "''Catalog''" "''34020000002000000001''" 7]
  by (simp add: xml_text_def xml_trim_def xml_blank_def new_manscdp_message_def)

lemma parse_keepalive_body:
  assumes "xml_text dev"
  shows "parseManscdpMessage (makeKeepaliveBody sn dev) = Some (new_manscdp_message
    \<lparr>mx_root := ''Notify'', mx_cmdType := ''keepalive'', mx_sn := dec_int sn, mx_deviceId := dev\<rparr>)"
proof -
  let ?kvs = "[(''CmdType'', ''keepalive''), (''SN'', dec_int sn), (''DeviceID'', dev)] @ [(''Status'', ''OK'')]"
  have ok: "fields_ok top_names ?kvs"
    by (intro fields_ok_append head_fields_ok top_extra_ok xml_text_dec_int assms) simp_all
  have "parseManscdpMessage (xml_doc ''Notify'' ?kvs []) = Some (parsed_message ''Notify'' ?kvs [])"
    by (rule parse_flat_doc [OF _ ok]) (simp_all add: field_def)
  then show ?thesis
    by (simp add: makeKeepaliveBody_def parsed_message_def new_manscdp_message_def field_def mx_toInt_def)
qed

text \<open>What a node of the catalog file becomes on the other side.\<close>

definition catalog_node_ok :: "catalog_node \<Rightarrow> bool" where
  "catalog_node_ok item \<longleftrightarrow> list_all xml_text (map snd (catalog_item item))"

definition catalog_device :: "catalog_node \<Rightarrow> manscdp_item" where
  "catalog_device item = field_item (catalog_item item)"

lemma catalog_item_ok:
  assumes "catalog_node_ok item"
  shows "fields_ok top_names (catalog_item item)" "fields_ok item_names (catalog_item item)"
proof -
  have n: "map fst (catalog_item item) = [''DeviceID'', ''Name'', ''Manufacturer'', ''Model'', ''Owner'', ''CivilCode'',
      ''Parental'', ''ParentID'', ''SafetyWay'', ''RegisterWay'', ''Secrecy'', ''Status'', ''Longitude'', ''Latitude'']"
    by (simp add: catalog_item_def Let_def)
  show "fields_ok top_names (catalog_item item)"
    by (rule fields_okI, unfold n) (use assms in \<open>simp_all only: tags_ok_sets catalog_node_ok_def\<close>)
  show "fields_ok item_names (catalog_item item)"
    by (rule fields_okI, unfold n) (use assms in \<open>simp_all only: tags_ok_sets catalog_node_ok_def\<close>)
qed

lemma catalog_field_absent:
  "map_of (catalog_item item) ''DeviceList'' = None" "map_of (catalog_item item) ''RecordList'' = None"
  "map_of (catalog_item item) ''Item'' = None" "map_of (catalog_item item) ''CmdType'' = None"
  "map_of (catalog_item item) ''StartTime'' = None" "map_of (catalog_item item) ''EndTime'' = None"
  by (simp_all add: catalog_item_def Let_def)

lemma catalog_head_fields:
  "field (catalog_head sn dev n @ kvs) ''CmdType'' = ''Catalog''" "field (catalog_head sn dev n @ kvs) ''SN'' = sn"
  "field (catalog_head sn dev n @ kvs) ''DeviceID'' = dev" "field (catalog_head sn dev n @ kvs) ''Result'' = ''OK''"
  "field (catalog_head sn dev n @ kvs) ''SumNum'' = dec n" "field (catalog_head sn dev n) ''CmdType'' = ''Catalog''"
  by (simp_all add: field_def catalog_head_def)

lemma catalog_head_absent:
  "t \<notin> {''CmdType'', ''SN'', ''DeviceID'', ''Result'', ''SumNum''} \<Longrightarrow> map_of kvs t = None \<Longrightarrow>
    t \<notin> fst ` set (catalog_head sn dev n @ kvs) \<and> field (catalog_head sn dev n @ kvs) t = ''''"
  using map_of_eq_None_iff [of kvs t] by (auto simp: field_def catalog_head_def)

lemma catalog_head_ok: "xml_text sn \<Longrightarrow> xml_text dev \<Longrightarrow> fields_ok top_names (catalog_head sn dev n)"
  using fields_ok_append [OF fields_ok_append [OF head_fields_ok [of "''Catalog''" sn dev] top_extra_ok(1) [of "''OK''"]]
    top_extra_ok(3) [OF xml_text_dec [of n]]]
  by (simp add: catalog_head_def)

lemma parse_catalog_body:
  assumes i: "catalog_node_ok item" and t: "xml_text sn" "xml_text dev" and n: "int n \<le> INT_MAX"
  shows "parseManscdpMessage (xml_doc ''Response'' (catalog_head sn dev n) (xml_list ''DeviceList'' (catalog_item item))) =
    Some (new_manscdp_message \<lparr>mx_root := ''Response'', mx_cmdType := ''Catalog'', mx_sn := sn,
      mx_deviceId := dev, mx_result := ''OK'', mx_sumNum := int n, mx_items := [catalog_device item]\<rparr>)"
proof -
  let ?h = "catalog_head sn dev n"
  have a: "t \<notin> fst ` set (?h @ catalog_item item)" "field (?h @ catalog_item item) t = ''''"
    if "t \<in> {''DeviceList'', ''RecordList'', ''StartTime'', ''EndTime''}" for t
    using that catalog_field_absent [of item]
    by (intro catalog_head_absent [THEN conjunct1] catalog_head_absent [THEN conjunct2]; auto)+
  have it: "''Item'' \<notin> fst ` set (catalog_item item)"
    using catalog_field_absent(3) [of item] by (simp only: map_of_eq_None_iff not_False_eq_True)
  have c: "field ?h ''CmdType'' \<noteq> []" by (simp only: catalog_head_fields) simp
  have p: "parseManscdpMessage (xml_doc ''Response'' ?h (xml_list ''DeviceList'' (catalog_item item))) =
      Some (parsed_message ''Response'' (?h @ catalog_item item) [field_item (catalog_item item)])"
    by (rule parse_list_doc [OF _ _ catalog_head_ok [OF t] catalog_item_ok [OF i] a(1) a(1) it c]) simp_all
  have s: "field (?h @ catalog_item item) ''StartTime'' = ''''" "field (?h @ catalog_item item) ''EndTime'' = ''''"
    by (intro a(2), simp)+
  note f = catalog_head_fields s
  show ?thesis
    unfolding p parsed_message_def f mx_toInt_dec [OF n]
    by (simp add: new_manscdp_message_def catalog_device_def)
qed

lemma catalog_bodies_parsed:
  assumes "load file = CatalogNodes items" "items \<noteq> []" "list_all catalog_node_ok items"
    "xml_text sn" "xml_text dev" "int (length items) \<le> INT_MAX"
  shows "map parseManscdpMessage (fst (makeCatalogResponseBodies load ownSn file dev sn)) =
    map (\<lambda>item. Some (new_manscdp_message \<lparr>mx_root := ''Response'', mx_cmdType := ''Catalog'', mx_sn := sn,
      mx_deviceId := dev, mx_result := ''OK'', mx_sumNum := int (length items),
      mx_items := [catalog_device item]\<rparr>)) items"
  using assms parse_catalog_body [of _ sn dev "length items"]
  by (simp add: makeCatalogResponseBodies_def list_all_iff)

text \<open>every body made from the catalog file reads back as a catalog response to the query's number:
  the total number of nodes and the one device of this body, with the code's defaults for absent members.\<close>

theorem parse_catalog_bodies:
  assumes "load file = CatalogNodes items" "items \<noteq> []" "list_all catalog_node_ok items"
    "xml_text sn" "xml_text dev" "int (length items) \<le> INT_MAX"
  shows "map parseManscdpMessage (fst (makeCatalogResponseBodies load ownSn file dev sn)) =
    map (\<lambda>item. Some (new_manscdp_message \<lparr>mx_root := ''Response'', mx_cmdType := ''Catalog'', mx_sn := sn,
      mx_deviceId := dev, mx_result := ''OK'', mx_sumNum := int (length items),
      mx_items := [catalog_device item]\<rparr>)) items"
  using assms by (rule catalog_bodies_parsed)

definition sample_node :: catalog_node where
  "sample_node = \<lparr>cn_deviceID = Some ''34020000001320000001'', cn_name = Some ''gate'', cn_manufacturer = None,
     cn_model = Some '''', cn_parental = None, cn_parentID = None, cn_safetyWay = None, cn_registerWay = None,
     cn_secrecy = None, cn_status = None, cn_longitude = None, cn_latitude = None\<rparr>"

lemma sample_node_ok: "catalog_node_ok sample_node"
  using xml_text_dec_int
  by (simp add: catalog_node_ok_def catalog_item_def sample_node_def Let_def)
    (simp add: xml_text_def xml_trim_def xml_blank_def)

theorem parse_catalog_bodies_witness:
  "map parseManscdpMessage (fst (makeCatalogResponseBodies (\<lambda>f. CatalogNodes [sample_node]) 1 ''catalog.json''
     ''34020000002000000001'' ''17'')) =
   [Some (new_manscdp_message \<lparr>mx_root := ''Response'', mx_cmdType := ''Catalog'', mx_sn := ''17'',
      mx_deviceId := ''34020000002000000001'', mx_result := ''OK'', mx_sumNum := 1, mx_items := [catalog_device sample_node]\<rparr>)]"
  using parse_catalog_bodies [of "\<lambda>f. CatalogNodes [sample_node]" "''catalog.json''" "[sample_node]" "''17''"
      "''34020000002000000001''" 1] sample_node_ok
  by (simp add: xml_text_def xml_trim_def xml_blank_def INT_MAX_def)

end
