(* ===== verification/BusinessState.thy ===== *)
theory BusinessState
  imports Manscdp CppMap
begin

text \<open>
  \<open>src/src/core/BusinessState.{h,cpp}\<close>: the catalogs and record lists the node has received, per peer,
  and their snapshot as text. A line of the snapshot is a type and the escaped fields of an item,
  separated by tabs. Operations with an error text return \<open>Inl\<close> of it; files are parameters.
\<close>

type_synonym item_map = "(string, manscdp_item list) omap"

record business_state =
  bs_catalogItems :: item_map
  bs_recordItems :: item_map

definition new_business_state :: business_state where
  "new_business_state = \<lparr>bs_catalogItems = [], bs_recordItems = []\<rparr>"

section \<open>Escaping\<close>

definition kSnapshotHeader :: string where "kSnapshotHeader = ''GB28181_BUSINESS_STATE_V1''"
definition kSnapshotFieldCountV1 :: nat where "kSnapshotFieldCountV1 = 19"
definition kSnapshotFieldCountWithParental :: nat where "kSnapshotFieldCountWithParental = 20"

abbreviation (input) bslash :: char where "bslash \<equiv> CHR 0x5C"
abbreviation (input) tab :: char where "tab \<equiv> CHR 0x09"
abbreviation (input) lf :: char where "lf \<equiv> CHR 0x0A"
abbreviation (input) cr :: char where "cr \<equiv> CHR 0x0D"

fun escapeValue :: "string \<Rightarrow> string" where
  "escapeValue [] = []"
| "escapeValue (c # s) =
     (if c = bslash then bslash # bslash # escapeValue s
      else if c = tab then bslash # CHR ''t'' # escapeValue s
      else if c = lf then bslash # CHR ''n'' # escapeValue s
      else if c = cr then bslash # CHR ''r'' # escapeValue s
      else c # escapeValue s)"

text \<open>\<open>None\<close> is \<open>return false\<close>.\<close>

fun unescapeValue :: "string \<Rightarrow> string option" where
  "unescapeValue [] = Some []"
| "unescapeValue [c] = (if c \<noteq> bslash then Some [c] else None)"
| "unescapeValue (c # escaped # s) =
     (if c \<noteq> bslash then map_option (Cons c) (unescapeValue (escaped # s))
      else if escaped = bslash then map_option (Cons bslash) (unescapeValue s)
      else if escaped = CHR ''t'' then map_option (Cons tab) (unescapeValue s)
      else if escaped = CHR ''n'' then map_option (Cons lf) (unescapeValue s)
      else if escaped = CHR ''r'' then map_option (Cons cr) (unescapeValue s)
      else None)"

fun splitFields_from :: "string \<Rightarrow> string \<Rightarrow> string list" where
  "splitFields_from current [] = [current]"
| "splitFields_from current (c # line) =
     (if c = tab then current # splitFields_from [] line else splitFields_from (current @ [c]) line)"

definition splitFields :: "string \<Rightarrow> string list" where
  "splitFields line = splitFields_from [] line"

definition appendField :: "string \<Rightarrow> string \<Rightarrow> string" where
  "appendField output v = output @ tab # escapeValue v"

definition appendItemLine :: "string \<Rightarrow> string \<Rightarrow> string \<Rightarrow> manscdp_item \<Rightarrow> string" where
  "appendItemLine output type peerId item =
    (let output = output @ type;
         output = appendField output peerId;
         output = appendField output (mi_deviceId item);
         output = appendField output (mi_name item);
         output = appendField output (mi_manufacturer item);
         output = appendField output (mi_model item);
         output = appendField output (mi_owner item);
         output = appendField output (mi_civilCode item);
         output = appendField output (mi_address item);
         output = appendField output (mi_parentId item);
         output = appendField output (mi_safetyWay item);
         output = appendField output (mi_registerWay item);
         output = appendField output (mi_secrecy item);
         output = appendField output (mi_status item);
         output = appendField output (mi_longitude item);
         output = appendField output (mi_latitude item);
         output = appendField output (mi_filePath item);
         output = appendField output (mi_startTime item);
         output = appendField output (mi_endTime item);
         output = appendField output (mi_parental item)
     in output @ [lf])"

definition new_item :: manscdp_item where
  "new_item = \<lparr>mi_deviceId = [], mi_name = [], mi_manufacturer = [], mi_model = [], mi_owner = [],
     mi_civilCode = [], mi_parental = [], mi_address = [], mi_parentId = [], mi_safetyWay = [],
     mi_registerWay = [], mi_secrecy = [], mi_status = [], mi_longitude = [], mi_latitude = [],
     mi_filePath = [], mi_startTime = [], mi_endTime = []\<rparr>"

definition decodeField :: "string list \<Rightarrow> nat \<Rightarrow> string + string" where
  "decodeField fs index =
    (case unescapeValue (fs ! index) of
       None \<Rightarrow> Inl ''invalid escape sequence in business state snapshot''
     | Some v \<Rightarrow> Inr v)"

text \<open>The chain of \<open>&&\<close>: decode a field, store it, go on.\<close>

definition and_then :: "string + 'a \<Rightarrow> ('a \<Rightarrow> string + 'b) \<Rightarrow> string + 'b" where
  "and_then r f = (case r of Inl e \<Rightarrow> Inl e | Inr x \<Rightarrow> f x)"

definition decodeItem :: "string list \<Rightarrow> string + (string \<times> manscdp_item)" where
  "decodeItem fs =
    and_then (decodeField fs 1) (\<lambda>peerId.
    and_then (decodeField fs 2) (\<lambda>deviceId.
    and_then (decodeField fs 3) (\<lambda>name.
    and_then (decodeField fs 4) (\<lambda>manufacturer.
    and_then (decodeField fs 5) (\<lambda>model.
    and_then (decodeField fs 6) (\<lambda>owner.
    and_then (decodeField fs 7) (\<lambda>civilCode.
    and_then (decodeField fs 8) (\<lambda>address.
    and_then (decodeField fs 9) (\<lambda>parentId.
    and_then (decodeField fs 10) (\<lambda>safetyWay.
    and_then (decodeField fs 11) (\<lambda>registerWay.
    and_then (decodeField fs 12) (\<lambda>secrecy.
    and_then (decodeField fs 13) (\<lambda>status.
    and_then (decodeField fs 14) (\<lambda>longitude.
    and_then (decodeField fs 15) (\<lambda>latitude.
    and_then (decodeField fs 16) (\<lambda>filePath.
    and_then (decodeField fs 17) (\<lambda>startTime.
    and_then (decodeField fs 18) (\<lambda>endTime.
    and_then (if length fs = kSnapshotFieldCountV1 then Inr [] else decodeField fs 19) (\<lambda>parental.
      Inr (peerId, \<lparr>mi_deviceId = deviceId, mi_name = name, mi_manufacturer = manufacturer, mi_model = model,
        mi_owner = owner, mi_civilCode = civilCode, mi_parental = parental, mi_address = address,
        mi_parentId = parentId, mi_safetyWay = safetyWay, mi_registerWay = registerWay, mi_secrecy = secrecy,
        mi_status = status, mi_longitude = longitude, mi_latitude = latitude, mi_filePath = filePath,
        mi_startTime = startTime, mi_endTime = endTime\<rparr>))))))))))))))))))))"

section \<open>Operations\<close>

definition bs_clear :: "business_state \<Rightarrow> business_state" where
  "bs_clear s = s\<lparr>bs_catalogItems := [], bs_recordItems := []\<rparr>"

definition updateCatalog :: "string \<Rightarrow> manscdp_item list \<Rightarrow> business_state \<Rightarrow> business_state" where
  "updateCatalog peerId items s = s\<lparr>bs_catalogItems := om_set peerId items (bs_catalogItems s)\<rparr>"

text \<open>The body of the loop of \<open>appendCatalog\<close>: replace the first entry of the same device or append.\<close>

fun append_item :: "manscdp_item \<Rightarrow> manscdp_item list \<Rightarrow> manscdp_item list" where
  "append_item item [] = [item]"
| "append_item item (candidate # catalog) =
     (if mi_deviceId candidate = mi_deviceId item then item # catalog
      else candidate # append_item item catalog)"

definition at_key :: "string \<Rightarrow> item_map \<Rightarrow> manscdp_item list" where
  "at_key peerId m = (case om_find m peerId of None \<Rightarrow> [] | Some items \<Rightarrow> items)"

definition appendCatalog :: "string \<Rightarrow> manscdp_item list \<Rightarrow> business_state \<Rightarrow> business_state" where
  "appendCatalog peerId items s =
     s\<lparr>bs_catalogItems := om_set peerId (fold append_item items (at_key peerId (bs_catalogItems s))) (bs_catalogItems s)\<rparr>"

definition updateRecords :: "string \<Rightarrow> manscdp_item list \<Rightarrow> business_state \<Rightarrow> business_state" where
  "updateRecords peerId items s = s\<lparr>bs_recordItems := om_set peerId items (bs_recordItems s)\<rparr>"

definition itemCount :: "item_map \<Rightarrow> nat" where
  "itemCount items = sum_list (map (\<lambda>e. length (snd e)) items)"

definition peer_itemCount :: "item_map \<Rightarrow> string \<Rightarrow> nat" where
  "peer_itemCount items peerId = (case om_find items peerId of None \<Rightarrow> 0 | Some is \<Rightarrow> length is)"

definition peerIds :: "item_map \<Rightarrow> string list" where
  "peerIds items = map fst items"

definition catalogItemCount :: "business_state \<Rightarrow> nat" where
  "catalogItemCount s = itemCount (bs_catalogItems s)"

definition recordItemCount :: "business_state \<Rightarrow> nat" where
  "recordItemCount s = itemCount (bs_recordItems s)"

definition catalogPeerIds :: "business_state \<Rightarrow> string list" where
  "catalogPeerIds s = peerIds (bs_catalogItems s)"

definition recordPeerIds :: "business_state \<Rightarrow> string list" where
  "recordPeerIds s = peerIds (bs_recordItems s)"

definition catalogOwners :: "string \<Rightarrow> business_state \<Rightarrow> string list" where
  "catalogOwners deviceId s =
    (if deviceId = [] then []
     else map fst (filter (\<lambda>peer. list_ex (\<lambda>item. mi_deviceId item = deviceId) (snd peer)) (bs_catalogItems s)))"

definition catalogItems :: "string \<Rightarrow> business_state \<Rightarrow> manscdp_item list" where
  "catalogItems peerId s = at_key peerId (bs_catalogItems s)"

definition recordItems :: "string \<Rightarrow> business_state \<Rightarrow> manscdp_item list" where
  "recordItems peerId s = at_key peerId (bs_recordItems s)"

definition serialize_items :: "string \<Rightarrow> item_map \<Rightarrow> string \<Rightarrow> string" where
  "serialize_items type m output =
     fold (\<lambda>(peerId, items). fold (\<lambda>item out. appendItemLine out type peerId item) items) m output"

definition serialize :: "business_state \<Rightarrow> string" where
  "serialize s = serialize_items ''RECORD'' (bs_recordItems s)
     (serialize_items ''CATALOG'' (bs_catalogItems s) (kSnapshotHeader @ [lf]))"

definition strip_cr :: "string \<Rightarrow> string" where
  "strip_cr line = (if line \<noteq> [] \<and> List.last line = cr then butlast line else line)"

definition push_item :: "string \<Rightarrow> manscdp_item \<Rightarrow> item_map \<Rightarrow> item_map" where
  "push_item peerId item m = om_set peerId (at_key peerId m @ [item]) m"

text \<open>The loop over the lines after the header; \<open>n\<close> is \<open>lineNumber\<close> before the increment.\<close>

fun restore_lines :: "string list \<Rightarrow> nat \<Rightarrow> item_map \<Rightarrow> item_map \<Rightarrow> string + (item_map \<times> item_map)" where
  "restore_lines [] n catalog records = Inr (catalog, records)"
| "restore_lines (line # ls) n catalog records =
    (let n = n + 1; line = strip_cr line
     in if line = [] then restore_lines ls n catalog records
        else let fs = splitFields line
          in if length fs \<noteq> kSnapshotFieldCountV1 \<and> length fs \<noteq> kSnapshotFieldCountWithParental
             then Inl (''invalid business state snapshot field count at line '' @ dec n)
             else case decodeItem fs of
                 Inl e \<Rightarrow> Inl e
               | Inr (peerId, item) \<Rightarrow>
                   if fs ! 0 = ''CATALOG'' then restore_lines ls n (push_item peerId item catalog) records
                   else if fs ! 0 = ''RECORD'' then restore_lines ls n catalog (push_item peerId item records)
                   else Inl (''unknown business state snapshot item type at line '' @ dec n))"

definition bs_restore :: "string \<Rightarrow> business_state \<Rightarrow> (string + unit) \<times> business_state" where
  "bs_restore data s =
    (case getlines data of
       [] \<Rightarrow> (Inl ''empty business state snapshot'', s)
     | line # ls \<Rightarrow>
         if strip_cr line \<noteq> kSnapshotHeader then (Inl ''unsupported business state snapshot header'', s)
         else case restore_lines ls 1 [] [] of
             Inl e \<Rightarrow> (Inl e, s)
           | Inr (catalog, records) \<Rightarrow> (Inr (), s\<lparr>bs_catalogItems := catalog, bs_recordItems := records\<rparr>))"

section \<open>Files\<close>

text \<open>What the file system answers: whether a file can be opened and read, or opened and written.\<close>

datatype file_read = ReadOpenFails | ReadFails | ReadData string
datatype file_write = WriteOpenFails | WriteFails | WriteDone

text \<open>The second component is the text written.\<close>

definition saveToFile :: "(string \<Rightarrow> file_write) \<Rightarrow> string \<Rightarrow> business_state \<Rightarrow> (string + unit) \<times> string option" where
  "saveToFile disk path s =
    (case disk path of
       WriteOpenFails \<Rightarrow> (Inl (''failed to open business state snapshot for writing: '' @ path), None)
     | WriteFails \<Rightarrow> (Inl (''failed to write business state snapshot: '' @ path), None)
     | WriteDone \<Rightarrow> (Inr (), Some (serialize s)))"

definition loadFromFile :: "(string \<Rightarrow> file_read) \<Rightarrow> string \<Rightarrow> business_state \<Rightarrow> (string + unit) \<times> business_state" where
  "loadFromFile disk path s =
    (case disk path of
       ReadOpenFails \<Rightarrow> (Inl (''failed to open business state snapshot for reading: '' @ path), s)
     | ReadFails \<Rightarrow> (Inl (''failed to read business state snapshot: '' @ path), s)
     | ReadData data \<Rightarrow> bs_restore data s)"

section \<open>Snapshots read back\<close>

lemma unescape_escape: "unescapeValue (escapeValue v) = Some v"
proof (induction v)
  case (Cons c v)
  then show ?case by (cases "escapeValue v") auto
qed simp

lemma escape_no_control: "tab \<notin> set (escapeValue v)" "lf \<notin> set (escapeValue v)" "cr \<notin> set (escapeValue v)"
  by (induction v) auto

lemma splitFields_from_field:
  "tab \<notin> set a \<Longrightarrow> splitFields_from cur (a @ tab # rest) = (cur @ a) # splitFields_from [] rest"
  "tab \<notin> set a \<Longrightarrow> splitFields_from cur a = [cur @ a]"
  by (induction a arbitrary: cur) auto

lemma splitFields_fields:
  "tab \<notin> set type \<Longrightarrow> splitFields (type @ concat (map (\<lambda>v. tab # escapeValue v) vs)) = type # map escapeValue vs"
proof (induction vs arbitrary: type)
  case (Cons v vs)
  then show ?case
    using Cons.IH [of "escapeValue v"] by (simp add: splitFields_def splitFields_from_field escape_no_control)
qed (simp add: splitFields_def splitFields_from_field)

definition item_fields_of :: "string \<Rightarrow> manscdp_item \<Rightarrow> string list" where
  "item_fields_of peerId item = [peerId, mi_deviceId item, mi_name item, mi_manufacturer item, mi_model item,
     mi_owner item, mi_civilCode item, mi_address item, mi_parentId item, mi_safetyWay item, mi_registerWay item,
     mi_secrecy item, mi_status item, mi_longitude item, mi_latitude item, mi_filePath item, mi_startTime item,
     mi_endTime item, mi_parental item]"

definition item_line :: "string \<Rightarrow> string \<Rightarrow> manscdp_item \<Rightarrow> string" where
  "item_line type peerId item = type @ concat (map (\<lambda>v. tab # escapeValue v) (item_fields_of peerId item))"

lemma appendItemLine_eq: "appendItemLine output type peerId item = output @ item_line type peerId item @ [lf]"
  by (simp add: appendItemLine_def appendField_def item_line_def item_fields_of_def Let_def)

lemma decode_field: "i < length vs \<Longrightarrow> decodeField (type # map escapeValue vs) (Suc i) = Inr (vs ! i)"
  by (simp add: decodeField_def unescape_escape)

lemma decode_item: "decodeItem (type # map escapeValue (item_fields_of peerId item)) = Inr (peerId, item)"
proof -
  let ?vs = "item_fields_of peerId item"
  have l: "length ?vs = 19" by (simp add: item_fields_of_def)
  have d: "decodeField (type # map escapeValue ?vs) n = Inr (?vs ! (n - 1))" if "0 < n" "n < 20" for n
    using decode_field [of "n - 1" ?vs type] that l by simp
  show ?thesis
    unfolding decodeItem_def and_then_def
    by (simp add: d l kSnapshotFieldCountV1_def) (simp add: item_fields_of_def eval_nat_numeral)
qed

lemma strip_cr_line: "cr \<notin> set l \<Longrightarrow> strip_cr l = l"
  by (metis last_in_set strip_cr_def)

lemma item_line_chars:
  "c \<notin> set type \<Longrightarrow> c = lf \<or> c = cr \<Longrightarrow> c \<notin> set (item_line type peerId item)"
  using escape_no_control by (auto simp: item_line_def)

text \<open>The entries of a map, one after the other, and the effect of pushing them all.\<close>

definition map_entries :: "item_map \<Rightarrow> (string \<times> manscdp_item) list" where
  "map_entries m = concat (map (\<lambda>(p, is). map (Pair p) is) m)"

abbreviation push_all :: "(string \<times> manscdp_item) list \<Rightarrow> item_map \<Rightarrow> item_map" where
  "push_all es \<equiv> fold (\<lambda>(p, i). push_item p i) es"

lemma restore_item_line:
  assumes "type = ''CATALOG'' \<or> type = ''RECORD''"
  shows "restore_lines (item_line type p i # ls) n catalog records =
    (if type = ''CATALOG'' then restore_lines ls (n + 1) (push_item p i catalog) records
     else restore_lines ls (n + 1) catalog (push_item p i records))"
proof -
  have c: "lf \<notin> set type" "cr \<notin> set type" "tab \<notin> set type" "type \<noteq> []" using assms by auto
  have l: "strip_cr (item_line type p i) = item_line type p i" "item_line type p i \<noteq> []"
    using strip_cr_line [OF item_line_chars [OF c(2)]] c(4) by (simp_all add: item_line_def)
  have s: "splitFields (item_line type p i) = type # map escapeValue (item_fields_of p i)"
    unfolding item_line_def by (rule splitFields_fields [OF c(3)])
  have n: "length (item_fields_of p i) = 19" by (simp add: item_fields_of_def)
  have w: "restore_lines (item_line type p i # ls) n catalog records =
      (if type = ''CATALOG'' then restore_lines ls (n + 1) (push_item p i catalog) records
       else if type = ''RECORD'' then restore_lines ls (n + 1) catalog (push_item p i records)
       else Inl (''unknown business state snapshot item type at line '' @ dec (n + 1)))"
    unfolding restore_lines.simps Let_def l(1) s decode_item
    by (simp only: l(2) if_False n length_map list.size kSnapshotFieldCountWithParental_def sum.case prod.case nth_Cons_0) simp
  then show ?thesis using assms by (elim disjE) simp_all
qed

lemma restore_catalog_lines:
  "restore_lines (map (\<lambda>(p, i). item_line ''CATALOG'' p i) es @ ls) n catalog records =
     restore_lines ls (n + length es) (push_all es catalog) records"
  by (induction es arbitrary: n catalog) (auto simp: restore_item_line simp del: restore_lines.simps)

lemma restore_record_lines:
  "restore_lines (map (\<lambda>(p, i). item_line ''RECORD'' p i) es @ ls) n catalog records =
     restore_lines ls (n + length es) catalog (push_all es records)"
  by (induction es arbitrary: n records) (auto simp: restore_item_line simp del: restore_lines.simps)

lemma append_lines: "fold (\<lambda>item out. appendItemLine out type p item) is out =
    out @ concat (map (\<lambda>l. l @ [lf]) (map (item_line type p) is))"
  by (induction "is" arbitrary: out) (simp_all add: appendItemLine_eq)

lemma serialize_items_eq:
  "serialize_items type m out =
     out @ concat (map (\<lambda>l. l @ [lf]) (map (\<lambda>(p, i). item_line type p i) (map_entries m)))"
  unfolding serialize_items_def map_entries_def
  by (induction m arbitrary: out) (auto simp: append_lines comp_def)

lemma om_set_greatest_same: "(\<And>x. x \<in> fst ` set m \<Longrightarrow> x < k) \<Longrightarrow> om_set k v (m @ [(k, u)]) = m @ [(k, v)]"
  by (induction m) (auto dest: order.asym)

lemma push_peer:
  assumes "om_ok m" "\<And>x. x \<in> fst ` set m \<Longrightarrow> x < p"
  shows "push_all (map (Pair p) is) m = (if is = [] then m else m @ [(p, is)])"
proof (induction "is" rule: rev_induct)
  case (snoc i "is")
  have a: "map_of m p = None" using assms(2) by (force simp: map_of_eq_None_iff)
  show ?case
  proof (cases "is = []")
    case True
    then show ?thesis using snoc assms a om_set_fresh_greatest [OF assms(1), of p "[i]"]
      by (simp add: push_item_def at_key_def)
  next
    case False
    then show ?thesis using snoc assms a om_set_greatest_same [of m p "is @ [i]" "is"]
      by (simp add: push_item_def at_key_def map_add_def)
  qed
qed simp

lemma om_ok_append_last: "om_ok m \<Longrightarrow> (\<And>x. x \<in> fst ` set m \<Longrightarrow> x < k) \<Longrightarrow> om_ok (m @ [(k, v)])"
  by (auto simp: om_ok_def sorted_wrt_append)

lemma push_entries:
  "om_ok (acc @ m) \<Longrightarrow> push_all (map_entries m) acc = acc @ filter (\<lambda>e. snd e \<noteq> []) m"
proof (induction m arbitrary: acc)
  case (Cons e m)
  obtain p "is" where e: "e = (p, is)" by (cases e)
  have ok: "om_ok acc" "\<And>x. x \<in> fst ` set acc \<Longrightarrow> x < p" "om_ok ((acc @ [(p, is)]) @ m)" "om_ok (acc @ m)"
    using Cons.prems by (auto simp: e om_ok_def sorted_wrt_append)
  show ?case
    using push_peer [OF ok(1,2), of "is"] Cons.IH [OF ok(3)] Cons.IH [OF ok(4)]
    by (auto simp: e map_entries_def)
qed (simp add: map_entries_def)

text \<open>A map without the peers that have no items: \<open>serialize\<close> writes nothing for them.\<close>

definition nonempty_peers :: "item_map \<Rightarrow> item_map" where
  "nonempty_peers m = filter (\<lambda>e. snd e \<noteq> []) m"

lemma serialize_restored:
  assumes "om_ok (bs_catalogItems s)" "om_ok (bs_recordItems s)"
  shows "bs_restore (serialize s) old = (Inr (), old
    \<lparr>bs_catalogItems := nonempty_peers (bs_catalogItems s), bs_recordItems := nonempty_peers (bs_recordItems s)\<rparr>)"
proof -
  let ?c = "map (\<lambda>(p, i). item_line ''CATALOG'' p i) (map_entries (bs_catalogItems s))"
  let ?r = "map (\<lambda>(p, i). item_line ''RECORD'' p i) (map_entries (bs_recordItems s))"
  have "serialize s = concat (map (\<lambda>l. l @ [lf]) (kSnapshotHeader # ?c @ ?r))"
    by (simp add: serialize_def serialize_items_eq)
  moreover have "list_all (\<lambda>l. lf \<notin> set l) (kSnapshotHeader # ?c @ ?r)"
    using item_line_chars [of lf] by (auto simp: list_all_iff kSnapshotHeader_def)
  ultimately have g: "getlines (serialize s) = kSnapshotHeader # ?c @ ?r"
    using getlines_unlines by presburger
  have h: "strip_cr kSnapshotHeader = kSnapshotHeader" by (rule strip_cr_line) (simp add: kSnapshotHeader_def)
  have "restore_lines (?c @ ?r) 1 [] [] = Inr (push_all (map_entries (bs_catalogItems s)) [], push_all (map_entries (bs_recordItems s)) [])"
    using restore_record_lines [of "map_entries (bs_recordItems s)" "[]"] by (simp add: restore_catalog_lines)
  then show ?thesis
    using push_entries [of "[]"] assms by (simp add: bs_restore_def g h nonempty_peers_def)
qed

text \<open>C38: a snapshot read back gives the state it was written from, whatever characters the texts hold
  (tabs, line ends and backslashes included); only peers with an empty list are not in it.\<close>

theorem restore_serialize:
  assumes "om_ok (bs_catalogItems s)" "om_ok (bs_recordItems s)"
  shows "bs_restore (serialize s) old = (Inr (), old
    \<lparr>bs_catalogItems := nonempty_peers (bs_catalogItems s), bs_recordItems := nonempty_peers (bs_recordItems s)\<rparr>)"
  using assms by (rule serialize_restored)

theorem restore_serialize_witness:
  "let item = new_item\<lparr>mi_deviceId := ''1'', mi_name := [CHR 0x09, CHR 0x5C, CHR 0x0A]\<rparr>;
       s = updateRecords ''peer'' [] (updateCatalog ''peer'' [item] new_business_state)
   in bs_restore (serialize s) new_business_state = (Inr (), updateCatalog ''peer'' [item] new_business_state)"
  using restore_serialize [of "updateRecords ''peer'' [] (updateCatalog ''peer''
      [new_item\<lparr>mi_deviceId := ''1'', mi_name := [CHR 0x09, CHR 0x5C, CHR 0x0A]\<rparr>] new_business_state)" new_business_state]
  by (simp add: updateRecords_def updateCatalog_def new_business_state_def nonempty_peers_def om_ok_def)

text \<open>What an accepted snapshot leaves behind: ordered maps without empty lists.\<close>

definition canonical :: "item_map \<Rightarrow> bool" where
  "canonical m \<longleftrightarrow> om_ok m \<and> nonempty_peers m = m"

lemma canonical_push: "canonical m \<Longrightarrow> canonical (push_item p i m)"
proof -
  assume m: "canonical m"
  have "snd e \<noteq> []" if "e \<in> set (om_set p (at_key p m @ [i]) m)" for e
  proof -
    have "om_ok (om_set p (at_key p m @ [i]) m)" using m by (simp add: canonical_def)
    then have "map_of (om_set p (at_key p m @ [i]) m) (fst e) = Some (snd e)"
      using that om_entries by (metis prod.collapse)
    moreover have "is \<noteq> []" if "map_of m k = Some is" for k "is"
      using that m by (auto simp: canonical_def nonempty_peers_def dest!: map_of_SomeD) (metis (mono_tags, lifting) filter_id_conv snd_conv)
    ultimately show ?thesis using m by (auto simp: canonical_def split: if_splits)
  qed
  then show ?thesis using m by (simp add: canonical_def nonempty_peers_def push_item_def filter_id_conv)
qed

lemma restore_lines_canonical:
  "restore_lines ls n c r = Inr (c', r') \<Longrightarrow> canonical c \<Longrightarrow> canonical r \<Longrightarrow> canonical c' \<and> canonical r'"
  by (induction ls arbitrary: n c r) (auto simp: Let_def canonical_push split: if_splits sum.splits)

text \<open>restoring is all or nothing: a refused snapshot leaves the state as it was, and after an accepted
  one the state is exactly what its own snapshot restores to, into any state.\<close>

theorem restore_stable:
  "case bs_restore data s of
     (Inl e, s') \<Rightarrow> s' = s
   | (Inr u, s') \<Rightarrow> bs_restore (serialize s') old = (Inr (), old
       \<lparr>bs_catalogItems := bs_catalogItems s', bs_recordItems := bs_recordItems s'\<rparr>)"
proof (cases "bs_restore data s")
  case (Pair res s')
  show ?thesis
  proof (cases res)
    case (Inl e)
    then show ?thesis using Pair by (auto simp: bs_restore_def split: list.splits if_splits sum.splits)
  next
    case (Inr u)
    then obtain ls c r where "restore_lines ls 1 [] [] = Inr (c, r)"
      "s' = s\<lparr>bs_catalogItems := c, bs_recordItems := r\<rparr>"
      using Pair by (auto simp: bs_restore_def split: list.splits if_splits sum.splits)
    moreover have "canonical []" by (simp add: canonical_def nonempty_peers_def)
    ultimately have "canonical (bs_catalogItems s')" "canonical (bs_recordItems s')"
      using restore_lines_canonical [of ls 1 "[]" "[]" c r] by auto
    then show ?thesis using serialize_restored [of s' old] Pair Inr by (simp add: canonical_def)
  qed
qed

section \<open>The catalog as a directory of devices\<close>

definition device_lookup :: "manscdp_item list \<Rightarrow> string \<Rightarrow> manscdp_item option" where
  "device_lookup items d = find (\<lambda>c. mi_deviceId c = d) items"

definition catalog_ids :: "manscdp_item list \<Rightarrow> string list" where
  "catalog_ids items = map mi_deviceId items"

lemma device_lookup_append: "device_lookup (append_item item items) = (device_lookup items)(mi_deviceId item \<mapsto> item)"
  by (induction items) (auto simp: device_lookup_def fun_eq_iff)

lemma append_item_ids: "set (catalog_ids (append_item item items)) = insert (mi_deviceId item) (set (catalog_ids items))"
  "distinct (catalog_ids items) \<Longrightarrow> distinct (catalog_ids (append_item item items))"
  by (induction items) (auto simp: catalog_ids_def)

lemma append_item_order:
  "catalog_ids (append_item item items) =
     (if mi_deviceId item \<in> set (catalog_ids items) then catalog_ids items else catalog_ids items @ [mi_deviceId item])"
  by (induction items) (auto simp: catalog_ids_def)

text \<open>The elements of a list, each where it first occurs.\<close>

definition first_occurrences :: "'a list \<Rightarrow> 'a list" where
  "first_occurrences xs = rev (remdups (rev xs))"

lemma first_occurrences_snoc:
  "first_occurrences [] = []"
  "first_occurrences (xs @ [x]) = (if x \<in> set xs then first_occurrences xs else first_occurrences xs @ [x])"
  "set (first_occurrences xs) = set xs"
  by (simp_all add: first_occurrences_def)

lemma append_items_order:
  "catalog_ids (fold append_item items c) =
     catalog_ids c @ filter (\<lambda>d. d \<notin> set (catalog_ids c)) (first_occurrences (catalog_ids items))"
proof (induction items rule: rev_induct)
  case (snoc item items)
  have "catalog_ids (items @ [item]) = catalog_ids items @ [mi_deviceId item]" by (simp add: catalog_ids_def)
  then show ?case using snoc by (auto simp: append_item_order first_occurrences_snoc)
qed (simp add: catalog_ids_def first_occurrences_snoc)

text \<open>C39: \<open>appendCatalog\<close> implements the update of a directory from device ids to devices: a device that is
  announced again replaces its earlier entry, a new one is added, other peers keep theirs, and a peer's
  catalog never lists a device twice. The order is kept: first the devices that were listed, where they were, then the new ones in
  the order in which they were first announced.\<close>

theorem append_catalog_refines:
  assumes "om_ok (bs_catalogItems s)"
  shows "device_lookup (catalogItems peer (appendCatalog peer items s)) =
      fold (\<lambda>item dir. dir(mi_deviceId item \<mapsto> item)) items (device_lookup (catalogItems peer s)) \<and>
    (\<forall>other. other \<noteq> peer \<longrightarrow> catalogItems other (appendCatalog peer items s) = catalogItems other s) \<and>
    (distinct (catalog_ids (catalogItems peer s)) \<longrightarrow>
      distinct (catalog_ids (catalogItems peer (appendCatalog peer items s)))) \<and>
    catalog_ids (catalogItems peer (appendCatalog peer items s)) =
      catalog_ids (catalogItems peer s) @
      filter (\<lambda>d. d \<notin> set (catalog_ids (catalogItems peer s))) (first_occurrences (catalog_ids items))"
proof -
  have at: "catalogItems p (appendCatalog peer items s) =
      (if p = peer then fold append_item items (catalogItems peer s) else catalogItems p s)" for p
    using assms by (simp add: catalogItems_def appendCatalog_def at_key_def)
  have "device_lookup (fold append_item items c) =
      fold (\<lambda>item dir. dir(mi_deviceId item \<mapsto> item)) items (device_lookup c)" for c
    by (induction items arbitrary: c) (simp_all add: device_lookup_append)
  moreover have "distinct (catalog_ids c) \<Longrightarrow> distinct (catalog_ids (fold append_item items c))" for c
    by (induction items arbitrary: c) (simp_all add: append_item_ids)
  ultimately show ?thesis by (simp add: at append_items_order)
qed

theorem append_catalog_refines_witness:
  "let item = (\<lambda>d. new_item\<lparr>mi_deviceId := d\<rparr>); s = new_business_state\<lparr>bs_catalogItems := [(''p'', [item ''a'', item ''b''])]\<rparr>
   in catalog_ids (catalogItems ''p'' (appendCatalog ''p'' [item ''d'', item ''c'', item ''d'', item ''a''] s)) = [''a'', ''b'', ''d'', ''c'']"
proof -
  let ?item = "\<lambda>d. new_item\<lparr>mi_deviceId := d\<rparr>"
  let ?s = "new_business_state\<lparr>bs_catalogItems := [(''p'', [?item ''a'', ?item ''b''])]\<rparr>"
  let ?new = "[?item ''d'', ?item ''c'', ?item ''d'', ?item ''a'']"
  have ok: "om_ok (bs_catalogItems ?s)" by (simp add: om_ok_def)
  have "catalog_ids (catalogItems ''p'' ?s) = [''a'', ''b'']" "catalog_ids ?new = [''d'', ''c'', ''d'', ''a'']"
    by (simp_all add: catalogItems_def at_key_def catalog_ids_def)
  moreover have "first_occurrences [''d'', ''c'', ''d'', ''a''] = [''d'', ''c'', ''a'']" by (simp add: first_occurrences_def)
  ultimately show ?thesis unfolding Let_def using append_catalog_refines [OF ok, of "''p''" ?new] by simp
qed

end
