(* ===== verification/BusinessQuery.thy ===== *)
theory BusinessQuery
  imports BusinessState
begin

text \<open>
  \<open>src/src/core/BusinessQueryService.cpp\<close>: the JSON texts the management interface gives of the business
  state. \<open>json_strings\<close> is a reader of JSON string arrays written from the JSON grammar (RFC 8259), and
  the arrays the service writes are read back by it.
\<close>

abbreviation (input) dquote :: char where "dquote \<equiv> CHR 0x22"

definition hex_digit :: "nat \<Rightarrow> char" where
  "hex_digit n = ''0123456789abcdef'' ! n"

definition jsonEscape_char :: "char \<Rightarrow> string" where
  "jsonEscape_char c =
    (if c = dquote then [bslash, dquote]
     else if c = bslash then [bslash, bslash]
     else if c = CHR 0x08 then [bslash, CHR ''b'']
     else if c = CHR 0x0C then [bslash, CHR ''f'']
     else if c = lf then [bslash, CHR ''n'']
     else if c = cr then [bslash, CHR ''r'']
     else if c = tab then [bslash, CHR ''t'']
     else if (of_char c :: nat) < 0x20
     then bslash # ''u00'' @ [hex_digit (of_char c div 16), hex_digit (of_char c mod 16)]
     else [c])"

definition jsonEscape :: "string \<Rightarrow> string" where
  "jsonEscape v = concat (map jsonEscape_char v)"

definition appendJsonString :: "string \<Rightarrow> string \<Rightarrow> string" where
  "appendJsonString out v = out @ [dquote] @ jsonEscape v @ [dquote]"

text \<open>The loops over an index that write a comma before every element but the first.\<close>

fun appendStrings :: "bool \<Rightarrow> string list \<Rightarrow> string \<Rightarrow> string" where
  "appendStrings first [] out = out"
| "appendStrings first (v # vs) out =
     appendStrings False vs (appendJsonString (if first then out else out @ '','') v)"

definition appendStringArray :: "string \<Rightarrow> string list \<Rightarrow> string" where
  "appendStringArray out vs = appendStrings True vs (out @ ''['') @ '']''"

text \<open>A member: \<open>,"name":\<close> and its value; the first one has no comma.\<close>

definition json_name :: "string \<Rightarrow> string" where
  "json_name n = [dquote] @ n @ [dquote, CHR '':'']"

definition appendItem :: "string \<Rightarrow> manscdp_item \<Rightarrow> string" where
  "appendItem out item =
    (let member = \<lambda>(n, v) out. appendJsonString (out @ '','' @ json_name n) v
     in fold member [
          (''name'', mi_name item), (''manufacturer'', mi_manufacturer item), (''model'', mi_model item),
          (''owner'', mi_owner item), (''civil_code'', mi_civilCode item), (''parental'', mi_parental item),
          (''address'', mi_address item), (''parent_id'', mi_parentId item), (''safety_way'', mi_safetyWay item),
          (''register_way'', mi_registerWay item), (''secrecy'', mi_secrecy item), (''status'', mi_status item),
          (''longitude'', mi_longitude item), (''latitude'', mi_latitude item), (''file_path'', mi_filePath item),
          (''start_time'', mi_startTime item), (''end_time'', mi_endTime item)]
        (appendJsonString (out @ ''{'' @ json_name ''device_id'') (mi_deviceId item)) @ ''}'')"

fun appendItem_list :: "bool \<Rightarrow> manscdp_item list \<Rightarrow> string \<Rightarrow> string" where
  "appendItem_list first [] out = out"
| "appendItem_list first (i # is) out =
     appendItem_list False is (appendItem (if first then out else out @ '','') i)"

definition appendItems :: "string \<Rightarrow> manscdp_item list \<Rightarrow> string" where
  "appendItems out items = appendItem_list True items (out @ ''['') @ '']''"

definition itemsJson :: "string \<Rightarrow> string \<Rightarrow> nat \<Rightarrow> manscdp_item list \<Rightarrow> string" where
  "itemsJson type peerId totalItems items =
    (let out = appendJsonString (''{'' @ json_name ''type'') type;
         out = appendJsonString (out @ '','' @ json_name ''peer_id'') peerId;
         out = out @ '','' @ json_name ''total_items'' @ dec totalItems;
         out = appendItems (out @ '','' @ json_name ''items'') items
     in out @ ''}'')"

definition summaryJson :: "business_state \<Rightarrow> string" where
  "summaryJson s =
    (let out = ''{'' @ json_name ''catalog_items'' @ dec (catalogItemCount s);
         out = out @ '','' @ json_name ''record_items'' @ dec (recordItemCount s);
         out = appendStringArray (out @ '','' @ json_name ''catalog_peers'') (catalogPeerIds s);
         out = appendStringArray (out @ '','' @ json_name ''record_peers'') (recordPeerIds s)
     in out @ ''}'')"

definition catalogJson :: "string \<Rightarrow> business_state \<Rightarrow> string" where
  "catalogJson peerId s = itemsJson ''catalog'' peerId (peer_itemCount (bs_catalogItems s) peerId) (catalogItems peerId s)"

definition recordJson :: "string \<Rightarrow> business_state \<Rightarrow> string" where
  "recordJson peerId s = itemsJson ''record'' peerId (peer_itemCount (bs_recordItems s) peerId) (recordItems peerId s)"

section \<open>A reader of JSON strings\<close>

definition hex_value :: "char \<Rightarrow> nat option" where
  "hex_value c = (let n = (of_char c :: nat) in
     if 48 \<le> n \<and> n \<le> 57 then Some (n - 48)
     else if 97 \<le> n \<and> n \<le> 102 then Some (n - 87)
     else if 65 \<le> n \<and> n \<le> 70 then Some (n - 55) else None)"

definition json_simple :: "(char \<times> char) list" where
  "json_simple = [(dquote, dquote), (bslash, bslash), (CHR ''/'', CHR ''/''), (CHR ''b'', CHR 0x08),
     (CHR ''f'', CHR 0x0C), (CHR ''n'', lf), (CHR ''r'', cr), (CHR ''t'', tab)]"

text \<open>The characters after an opening quote up to the closing one; bytes below 0x20 must be escaped. Code
  points above 0xff do not occur in the service's output and are refused.\<close>

fun json_chars :: "string \<Rightarrow> (string \<times> string) option" where
  "json_chars [] = None"
| "json_chars (c # s) =
    (if c = dquote then Some ([], s)
     else if c \<noteq> bslash
     then (if (of_char c :: nat) < 0x20 then None else map_option (\<lambda>(v, r). (c # v, r)) (json_chars s))
     else (case s of [] \<Rightarrow> None
       | e # s \<Rightarrow>
          (case map_of json_simple e of Some x \<Rightarrow> map_option (\<lambda>(v, r). (x # v, r)) (json_chars s)
           | None \<Rightarrow>
              (case (e, s) of
                 (k, z # y # a # b # s) \<Rightarrow>
                   (if k = CHR ''u'' \<and> z = CHR ''0'' \<and> y = CHR ''0''
                    then (case (hex_value a, hex_value b) of
                        (Some h, Some l) \<Rightarrow> map_option (\<lambda>(v, r). (char_of (16 * h + l) # v, r)) (json_chars s)
                      | _ \<Rightarrow> None)
                    else None)
               | _ \<Rightarrow> None))))"

definition json_string :: "string \<Rightarrow> (string \<times> string) option" where
  "json_string s = (case s of [] \<Rightarrow> None | c # s \<Rightarrow> if c = dquote then json_chars s else None)"

text \<open>The elements after \<open>[\<close>, with a bound on their number.\<close>

fun json_elements :: "nat \<Rightarrow> string \<Rightarrow> (string list \<times> string) option" where
  "json_elements 0 s = None"
| "json_elements (Suc n) s =
    (case json_string s of None \<Rightarrow> None
     | Some (v, r) \<Rightarrow>
         (case r of [] \<Rightarrow> None
          | c # r \<Rightarrow>
              if c = CHR '']'' then Some ([v], r)
              else if c = CHR '','' then map_option (\<lambda>(vs, t). (v # vs, t)) (json_elements n r)
              else None))"

definition json_strings :: "string \<Rightarrow> (string list \<times> string) option" where
  "json_strings s =
    (case s of [] \<Rightarrow> None
     | c # s \<Rightarrow>
         if c \<noteq> CHR ''['' then None
         else (case s of d # r \<Rightarrow> if d = CHR '']'' then Some ([], r) else json_elements (length s) s
               | [] \<Rightarrow> None))"

section \<open>What is written is read back\<close>

lemma hex_digit_value: "n < 16 \<Longrightarrow> hex_value (hex_digit n) = Some n"
proof -
  have "\<forall>n \<in> set [0..<16]. hex_value (hex_digit n) = Some n" by code_simp
  then show "n < 16 \<Longrightarrow> hex_value (hex_digit n) = Some n" by simp
qed

lemma json_simple_u: "map_of json_simple (CHR ''u'') = None"
  by (simp add: json_simple_def)

lemma jsonEscape_char_read:
  "json_chars (jsonEscape_char c @ s) = map_option (\<lambda>(v, r). (c # v, r)) (json_chars s)"
proof -
  have "of_char c < (256 :: nat)" by (rule nat_of_char_less_256)
  then have h: "hex_value (hex_digit (of_char c div 16)) = Some (of_char c div 16)"
    "hex_value (hex_digit (of_char c mod 16)) = Some (of_char c mod 16)"
    using nat_of_char_less_256 [of c] by (intro hex_digit_value less_mult_imp_div_less mod_less_divisor; simp)+
  have j: "char_of (16 * (of_char c div 16) + of_char c mod 16 :: nat) = c"
    by (simp only: mult_div_mod_eq char_of_char)
  show ?thesis
    using j by (simp add: jsonEscape_char_def h json_simple_u) (simp add: json_simple_def)
qed

lemma jsonEscape_read: "json_chars (jsonEscape v @ dquote # s) = Some (v, s)"
proof (induction v)
  case (Cons c v)
  then show ?case by (simp add: jsonEscape_def jsonEscape_char_read del: json_chars.simps)
qed (simp add: jsonEscape_def)

lemma json_string_read: "json_string (appendJsonString [] v @ s) = Some (v, s)"
  by (simp add: json_string_def appendJsonString_def jsonEscape_read)

definition comma_strings :: "string list \<Rightarrow> string" where
  "comma_strings vs = concat (map (\<lambda>v. '','' @ appendJsonString [] v) vs)"

lemma appendStrings_rest: "appendStrings False vs out = out @ comma_strings vs"
  by (induction vs arbitrary: out) (simp_all add: comma_strings_def appendJsonString_def)

lemma json_elements_read:
  "length vs < n \<Longrightarrow> json_elements n (appendJsonString [] v @ comma_strings vs @ '']'' @ s) = Some (v # vs, s)"
proof (induction vs arbitrary: v n)
  case Nil
  then obtain k where "n = Suc k" by (cases n) auto
  then show ?case using json_string_read [of v "'']'' @ s"] by (simp add: comma_strings_def)
next
  case (Cons w vs)
  then obtain k where k: "n = Suc k" "length vs < k" by (cases n) auto
  then show ?case
    using json_string_read [of v "comma_strings (w # vs) @ '']'' @ s"] Cons.IH [OF k(2), of w]
    by (simp add: comma_strings_def)
qed

lemma length_comma_strings: "length vs \<le> length (comma_strings vs)"
  by (induction vs) (simp_all add: comma_strings_def)

text \<open>A JSON reader gets exactly the strings that were written, for any bytes in them: quotes,
  backslashes and control characters cannot break out of a string of the service's output.\<close>

theorem string_array_reads_back:
  "json_strings (appendStringArray [] vs @ rest) = Some (vs, rest)"
proof (cases vs)
  case Nil
  then show ?thesis by (simp add: appendStringArray_def json_strings_def)
next
  case (Cons v ws)
  let ?t = "appendJsonString [] v @ comma_strings ws @ '']'' @ rest"
  have s: "appendStringArray [] vs @ rest = CHR ''['' # ?t"
    by (simp add: Cons appendStringArray_def appendStrings_rest appendJsonString_def)
  have q: "?t = dquote # (jsonEscape v @ [dquote] @ comma_strings ws @ '']'' @ rest)"
    by (simp add: appendJsonString_def)
  have "json_elements (length ?t) ?t = Some (vs, rest)"
    unfolding Cons using length_comma_strings [of ws] by (intro json_elements_read) simp
  moreover have "json_strings (CHR ''['' # dquote # r) = json_elements (length (dquote # r)) (dquote # r)" for r
    by (simp add: json_strings_def del: json_elements.simps)
  ultimately show ?thesis unfolding s q by (simp only:)
qed

end
