(* ===== verification/SipCore.thy ===== *)
theory SipCore
  imports NodeConfig DigestAuth Manscdp
begin

text \<open>
  The parts of \<open>src/src/core\<close> the capabilities work on: the SIP stack with its in-memory transport
  (\<open>SipStack\<close>, \<open>SipTransport\<close>), the peers (\<open>PeerRegistry\<close>), the sessions shown to the operator
  (\<open>SessionManager\<close>) and the scheduled tasks (\<open>TaskScheduler\<close>).

  The stack is that of a build without PJSIP: its transport is \<open>InMemorySipTransport\<close>, which keeps what
  was sent. The class \<open>SipTransport\<close> is a record of functions and the locale \<open>sip_transport\<close> its contract.
  The handler of a route is a value of a type \<open>'h\<close>; who dispatches runs it. Log output is not modelled.
  \<open>std::time(NULL)\<close> is an argument \<open>now\<close>.
\<close>

section \<open>Messages\<close>

record sip_request =
  rq_method :: string
  rq_event :: string
  rq_fromId :: string
  rq_toId :: string
  rq_callId :: string
  rq_cseq :: string
  rq_contact :: string
  rq_fromTag :: string
  rq_toTag :: string
  rq_body :: string
  rq_manscdp :: manscdp_message
  rq_digestAuth :: digest_fields
  rq_statusCode :: int
  rq_reason :: string
  rq_expires :: int
  rq_authenticated :: bool

definition new_sip_request :: sip_request where
  "new_sip_request = \<lparr>rq_method = [], rq_event = [], rq_fromId = [], rq_toId = [], rq_callId = [], rq_cseq = [],
     rq_contact = [], rq_fromTag = [], rq_toTag = [], rq_body = [], rq_manscdp = new_manscdp_message,
     rq_digestAuth = new_digest_fields, rq_statusCode = 0, rq_reason = [], rq_expires = 0, rq_authenticated = False\<rparr>"

record sip_message =
  sm_method :: string
  sm_event :: string
  sm_fromId :: string
  sm_toId :: string
  sm_localIp :: string
  sm_localPort :: int
  sm_remoteIp :: string
  sm_remotePort :: int
  sm_callId :: string
  sm_cseq :: string
  sm_contact :: string
  sm_fromTag :: string
  sm_toTag :: string
  sm_body :: string
  sm_contentType :: string
  sm_authRealm :: string
  sm_authNonce :: string
  sm_authOpaque :: string
  sm_authAlgorithm :: string
  sm_digestAuth :: digest_fields
  sm_expires :: int
  sm_response :: bool
  sm_statusCode :: int
  sm_reason :: string

definition new_sip_message :: sip_message where
  "new_sip_message = \<lparr>sm_method = [], sm_event = [], sm_fromId = [], sm_toId = [], sm_localIp = [], sm_localPort = 0,
     sm_remoteIp = [], sm_remotePort = 0, sm_callId = [], sm_cseq = [], sm_contact = [], sm_fromTag = [],
     sm_toTag = [], sm_body = [], sm_contentType = [], sm_authRealm = [], sm_authNonce = [], sm_authOpaque = [],
     sm_authAlgorithm = [], sm_digestAuth = new_digest_fields, sm_expires = 0, sm_response = False,
     sm_statusCode = 0, sm_reason = []\<rparr>"

record listen_endpoint =
  le_name :: string
  le_sipId :: string
  le_ip :: string
  le_port :: int

section \<open>Transport\<close>

record 't sip_transport_ops =
  tp_start :: "listen_endpoint list \<Rightarrow> 't \<Rightarrow> bool \<times> 't"
  tp_stop :: "'t \<Rightarrow> 't"
  tp_send :: "sip_message \<Rightarrow> 't \<Rightarrow> bool \<times> 't"
  tp_running :: "'t \<Rightarrow> bool"
  tp_sentMessageCount :: "'t \<Rightarrow> nat"

text \<open>What every transport promises, for the states \<open>ok\<close> it can be in; a stack only starts a transport that is
  not running. A transport that keeps what was sent promises more.\<close>

locale sip_transport =
  fixes ops :: "'t sip_transport_ops"
    and ok :: "'t \<Rightarrow> bool"
  assumes start_ok: "ok t \<Longrightarrow> \<not> tp_running ops t \<Longrightarrow> tp_start ops es t = (b, t') \<Longrightarrow>
      ok t' \<and> tp_running ops t' = b \<and> (b \<longrightarrow> es \<noteq> [])"
    and send_ok: "ok t \<Longrightarrow> tp_send ops m t = (b, t') \<Longrightarrow>
      ok t' \<and> tp_running ops t' = tp_running ops t \<and> (b \<longrightarrow> tp_running ops t \<and> sm_method m \<noteq> []) \<and>
      tp_sentMessageCount ops t' = tp_sentMessageCount ops t + (if b then 1 else 0)"
    and stop_ok: "ok t \<Longrightarrow> ok (tp_stop ops t) \<and> \<not> tp_running ops (tp_stop ops t)"
begin

lemma stopped_sends_nothing: "ok t \<Longrightarrow> fst (tp_send ops m (tp_stop ops t)) = False"
  using send_ok [of "tp_stop ops t" m] stop_ok [of t] by (metis (full_types) prod.collapse)

text \<open>A stopped transport can be started again, and sends counts each message once.\<close>

lemma restart: "ok t \<Longrightarrow> tp_start ops es (tp_stop ops t) = (b, t') \<Longrightarrow> ok t' \<and> tp_running ops t' = b"
  using start_ok [of "tp_stop ops t"] stop_ok [of t] by blast

lemma sends_ok: "ok t \<Longrightarrow> ok (fold (\<lambda>m t. snd (tp_send ops m t)) ms t) \<and>
    tp_running ops (fold (\<lambda>m t. snd (tp_send ops m t)) ms t) = tp_running ops t \<and>
    tp_sentMessageCount ops (fold (\<lambda>m t. snd (tp_send ops m t)) ms t) \<le> tp_sentMessageCount ops t + length ms"
proof (induction ms arbitrary: t)
  case (Cons m ms)
  obtain b t' where s: "tp_send ops m t = (b, t')" by fastforce
  show ?case using send_ok [OF Cons.prems s] Cons.IH [of t'] s by (cases b) auto
qed simp

end

locale recording_transport = sip_transport +
  fixes sent :: "'a \<Rightarrow> sip_message list"
  assumes start_silent: "sent (snd (tp_start ops es t)) = sent t"
    and send_records: "sent (snd (tp_send ops m t)) = sent t @ (if fst (tp_send ops m t) then [m] else [])"
    and stop_silent: "sent (tp_stop ops t) = sent t"
begin

lemma sends_recorded: "\<exists>ms'. sent (fold (\<lambda>m t. snd (tp_send ops m t)) ms t) = sent t @ ms' \<and> set ms' \<subseteq> set ms"
proof (induction ms arbitrary: t)
  case (Cons m ms)
  then obtain ms' where "sent (fold (\<lambda>m t. snd (tp_send ops m t)) ms (snd (tp_send ops m t))) =
      sent (snd (tp_send ops m t)) @ ms'" "set ms' \<subseteq> set ms" by blast
  then show ?case
    by (intro exI [of _ "(if fst (tp_send ops m t) then [m] else []) @ ms'"]) (auto simp: send_records)
qed simp

end

record in_memory_transport =
  im_running :: bool
  im_sentMessages :: "sip_message list"

definition new_in_memory_transport :: in_memory_transport where
  "new_in_memory_transport = \<lparr>im_running = False, im_sentMessages = []\<rparr>"

definition im_start :: "listen_endpoint list \<Rightarrow> in_memory_transport \<Rightarrow> bool \<times> in_memory_transport" where
  "im_start endpoints t = (if endpoints = [] then (False, t) else (True, t\<lparr>im_running := True\<rparr>))"

definition im_stop :: "in_memory_transport \<Rightarrow> in_memory_transport" where
  "im_stop t = t\<lparr>im_running := False\<rparr>"

definition im_send :: "sip_message \<Rightarrow> in_memory_transport \<Rightarrow> bool \<times> in_memory_transport" where
  "im_send message t =
    (if \<not> im_running t \<or> sm_method message = [] then (False, t)
     else (True, t\<lparr>im_sentMessages := im_sentMessages t @ [message]\<rparr>))"

definition im_ops :: "in_memory_transport sip_transport_ops" where
  "im_ops = \<lparr>tp_start = im_start, tp_stop = im_stop, tp_send = im_send, tp_running = im_running,
     tp_sentMessageCount = \<lambda>t. length (im_sentMessages t)\<rparr>"

interpretation im: recording_transport im_ops "\<lambda>_. True" im_sentMessages
  by unfold_locales (auto simp: im_ops_def im_start_def im_stop_def im_send_def split: if_splits)

section \<open>The SIP stack\<close>

record 'h sip_route =
  rt_method :: string
  rt_event :: string
  rt_capability :: string
  rt_handler :: 'h

record 'h sip_stack =
  st_endpoints :: "listen_endpoint list"
  st_routes :: "'h sip_route list"
  st_transport :: in_memory_transport
  st_started :: bool

definition new_sip_stack :: "'h sip_stack" where
  "new_sip_stack = \<lparr>st_endpoints = [], st_routes = [], st_transport = new_in_memory_transport, st_started = False\<rparr>"

definition st_configure :: "node_config \<Rightarrow> 'h sip_stack \<Rightarrow> bool \<times> 'h sip_stack" where
  "st_configure config s =
    (let node = nc_node config
     in if \<not> ep_valid node then (False, s\<lparr>st_endpoints := []\<rparr>)
        else (True, s\<lparr>st_endpoints := [\<lparr>le_name = ''node'', le_sipId = ep_sipId node, le_ip = ep_sipIp node,
                le_port = ep_sipPort node\<rparr>]\<rparr>))"

definition st_start :: "'h sip_stack \<Rightarrow> bool \<times> 'h sip_stack" where
  "st_start s =
    (if st_started s then (True, s)
     else let (ok, t) = tp_start im_ops (st_endpoints s) (st_transport s)
       in if \<not> ok then (False, s\<lparr>st_transport := t\<rparr>)
          else (True, s\<lparr>st_transport := t, st_started := True\<rparr>))"

definition st_stop :: "'h sip_stack \<Rightarrow> 'h sip_stack" where
  "st_stop s = s\<lparr>st_routes := [], st_transport := tp_stop im_ops (st_transport s), st_started := False\<rparr>"

text \<open>The empty \<open>std::function\<close> has no counterpart.\<close>

definition registerHandler :: "string \<Rightarrow> string \<Rightarrow> string \<Rightarrow> 'h \<Rightarrow> 'h sip_stack \<Rightarrow> bool \<times> 'h sip_stack" where
  "registerHandler method event capabilityName handler s =
    (if method = [] \<or> capabilityName = [] then (False, s)
     else (True, s\<lparr>st_routes := st_routes s @ [\<lparr>rt_method = method, rt_event = event,
             rt_capability = capabilityName, rt_handler = handler\<rparr>]\<rparr>))"

definition unregisterHandlers :: "string \<Rightarrow> 'h sip_stack \<Rightarrow> 'h sip_stack" where
  "unregisterHandlers capabilityName s =
     s\<lparr>st_routes := filter (\<lambda>r. rt_capability r \<noteq> capabilityName) (st_routes s)\<rparr>"

text \<open>The loop of \<open>dispatch\<close>: the handler it calls, \<open>None\<close> when it falls through.\<close>

fun find_route :: "sip_request \<Rightarrow> 'h sip_route list \<Rightarrow> 'h option" where
  "find_route request [] = None"
| "find_route request (it # rs) =
    (if rt_method it \<noteq> rq_method request then find_route request rs
     else if rt_event it \<noteq> [] \<and> rt_event it \<noteq> rq_event request then find_route request rs
     else Some (rt_handler it))"

definition st_dispatch :: "('h \<Rightarrow> sip_request \<Rightarrow> 'r \<Rightarrow> bool \<times> 'r) \<Rightarrow> 'h sip_stack \<Rightarrow> sip_request \<Rightarrow> 'r \<Rightarrow> bool \<times> 'r" where
  "st_dispatch run s request r =
    (case find_route request (st_routes s) of None \<Rightarrow> (False, r) | Some h \<Rightarrow> run h request r)"

definition st_send :: "sip_message \<Rightarrow> 'h sip_stack \<Rightarrow> bool \<times> 'h sip_stack" where
  "st_send message s =
    (if \<not> st_started s then (False, s)
     else let (sent, t) = tp_send im_ops message (st_transport s) in (sent, s\<lparr>st_transport := t\<rparr>))"

definition endpointCount :: "'h sip_stack \<Rightarrow> nat" where "endpointCount s = length (st_endpoints s)"
definition routeCount :: "'h sip_stack \<Rightarrow> nat" where "routeCount s = length (st_routes s)"

definition sentMessageCount :: "'h sip_stack \<Rightarrow> nat" where
  "sentMessageCount s = tp_sentMessageCount im_ops (st_transport s)"

definition lastSentMessage :: "'h sip_stack \<Rightarrow> sip_message option" where
  "lastSentMessage s =
    (let ms = im_sentMessages (st_transport s) in if ms = [] then None else Some (List.last ms))"

abbreviation sent_messages :: "'h sip_stack \<Rightarrow> sip_message list" where
  "sent_messages s \<equiv> im_sentMessages (st_transport s)"

section \<open>Peers\<close>

datatype peer_relation = PEER_UPSTREAM | PEER_DOWNSTREAM

record peer_info =
  pi_name :: string
  pi_sipId :: string
  pi_ip :: string
  pi_port :: int
  pi_relation :: peer_relation
  pi_registerTo :: bool
  pi_allowRegister :: bool
  pi_registerExpires :: int
  pi_realm :: string
  pi_username :: string
  pi_password :: string
  pi_registered :: bool
  pi_registrationRequested :: bool
  pi_expires :: int
  pi_lastRegisterTime :: int
  pi_lastKeepaliveTime :: int

definition new_peer_info :: peer_info where
  "new_peer_info = \<lparr>pi_name = [], pi_sipId = [], pi_ip = [], pi_port = 0, pi_relation = PEER_DOWNSTREAM,
     pi_registerTo = False, pi_allowRegister = False, pi_registerExpires = 0, pi_realm = [], pi_username = [],
     pi_password = [], pi_registered = False, pi_registrationRequested = False, pi_expires = 0,
     pi_lastRegisterTime = 0, pi_lastKeepaliveTime = 0\<rparr>"

definition config_peer :: "peer_config \<Rightarrow> peer_info" where
  "config_peer it = \<lparr>pi_name = pc_name it, pi_sipId = pc_sipId it, pi_ip = pc_remoteIp it, pi_port = pc_remotePort it,
     pi_relation = (if pc_relation it = ''upstream'' then PEER_UPSTREAM else PEER_DOWNSTREAM),
     pi_registerTo = pc_registerTo it, pi_allowRegister = pc_allowRegister it, pi_registerExpires = pc_expires it,
     pi_realm = pc_realm it, pi_username = pc_username it, pi_password = pc_password it, pi_registered = False,
     pi_registrationRequested = False, pi_expires = 0, pi_lastRegisterTime = 0, pi_lastKeepaliveTime = 0\<rparr>"

definition pr_configure :: "node_config \<Rightarrow> peer_info list \<Rightarrow> bool \<times> peer_info list" where
  "pr_configure config peers = (True, map config_peer (nc_peers config))"

definition findBySipId :: "string \<Rightarrow> peer_info list \<Rightarrow> peer_info option" where
  "findBySipId sipId peers = find (\<lambda>p. pi_sipId p = sipId) peers"

text \<open>Writing through the pointer \<open>findBySipId\<close> returned: the first peer with the id is updated.\<close>

fun update_peer :: "string \<Rightarrow> (peer_info \<Rightarrow> peer_info) \<Rightarrow> peer_info list \<Rightarrow> peer_info list" where
  "update_peer sipId f [] = []"
| "update_peer sipId f (p # ps) = (if pi_sipId p = sipId then f p # ps else p # update_peer sipId f ps)"

definition markRegistered :: "int \<Rightarrow> string \<Rightarrow> int \<Rightarrow> peer_info list \<Rightarrow> bool \<times> peer_info list" where
  "markRegistered now sipId expires peers =
    (if findBySipId sipId peers = None then (False, peers)
     else (True, update_peer sipId (\<lambda>p. p\<lparr>pi_registered := True, pi_expires := expires, pi_lastRegisterTime := now\<rparr>) peers))"

definition markUnregistered :: "string \<Rightarrow> peer_info list \<Rightarrow> bool \<times> peer_info list" where
  "markUnregistered sipId peers =
    (if findBySipId sipId peers = None then (False, peers)
     else (True, update_peer sipId (\<lambda>p. p\<lparr>pi_registered := False, pi_expires := 0, pi_lastRegisterTime := 0,
             pi_lastKeepaliveTime := 0\<rparr>) peers))"

definition markKeepalive :: "int \<Rightarrow> string \<Rightarrow> peer_info list \<Rightarrow> bool \<times> peer_info list" where
  "markKeepalive now sipId peers =
    (if findBySipId sipId peers = None then (False, peers)
     else (True, update_peer sipId (\<lambda>p. p\<lparr>pi_lastKeepaliveTime := now\<rparr>) peers))"

definition updateAddress :: "string \<Rightarrow> string \<Rightarrow> int \<Rightarrow> peer_info list \<Rightarrow> bool \<times> peer_info list" where
  "updateAddress sipId ip port peers =
    (if ip = [] \<or> port \<le> 0 then (False, peers)
     else if findBySipId sipId peers = None then (False, peers)
     else (True, update_peer sipId (\<lambda>p. p\<lparr>pi_ip := ip, pi_port := port\<rparr>) peers))"

definition upstreamCount :: "peer_info list \<Rightarrow> nat" where
  "upstreamCount peers = length (filter (\<lambda>p. pi_relation p = PEER_UPSTREAM) peers)"

definition downstreamCount :: "peer_info list \<Rightarrow> nat" where
  "downstreamCount peers = length (filter (\<lambda>p. pi_relation p = PEER_DOWNSTREAM) peers)"

definition registeredCount :: "peer_info list \<Rightarrow> nat" where
  "registeredCount peers = length (filter pi_registered peers)"

definition keepaliveCount :: "peer_info list \<Rightarrow> nat" where
  "keepaliveCount peers = length (filter (\<lambda>p. pi_lastKeepaliveTime p > 0) peers)"

section \<open>Sessions\<close>

record session_info =
  si_id :: string
  si_capability :: string
  si_peerId :: string
  si_state :: string

type_synonym session_map = "(string, session_info) omap"

definition sm_createSession :: "session_info \<Rightarrow> session_map \<Rightarrow> bool \<times> session_map" where
  "sm_createSession session m =
    (if si_id session = [] then (False, m) else (True, om_set (si_id session) session m))"

definition sm_closeSession :: "string \<Rightarrow> session_map \<Rightarrow> bool \<times> session_map" where
  "sm_closeSession sessionId m = (om_find m sessionId \<noteq> None, om_erase sessionId m)"

definition sm_sessionCount :: "session_map \<Rightarrow> nat" where
  "sm_sessionCount m = length m"

section \<open>Scheduled tasks\<close>

text \<open>A task is the name, the interval and what it runs; the thread that waits for the interval is not
  modelled, its ticks are steps of the node. \<open>None\<close> is the signed overflow of \<open>intervalSeconds * 1000\<close>.\<close>

record 'k scheduled_task =
  tk_taskName :: string
  tk_intervalMilliseconds :: int
  tk_task :: 'k

definition scheduleEveryMs :: "string \<Rightarrow> int \<Rightarrow> 'k \<Rightarrow> 'k scheduled_task list \<Rightarrow> bool \<times> 'k scheduled_task list" where
  "scheduleEveryMs taskName intervalMilliseconds task tasks =
    (if intervalMilliseconds \<le> 0 then (False, tasks)
     else (True, tasks @ [\<lparr>tk_taskName = taskName, tk_intervalMilliseconds = intervalMilliseconds, tk_task = task\<rparr>]))"

definition scheduleEvery ::
  "string \<Rightarrow> int \<Rightarrow> 'k \<Rightarrow> 'k scheduled_task list \<Rightarrow> (bool \<times> 'k scheduled_task list) option" where
  "scheduleEvery taskName intervalSeconds task tasks =
    (let intervalMilliseconds = intervalSeconds * 1000
     in if intervalMilliseconds < INT_MIN \<or> INT_MAX < intervalMilliseconds then None
        else Some (scheduleEveryMs taskName intervalMilliseconds task tasks))"

definition stopAll :: "'k scheduled_task list \<Rightarrow> 'k scheduled_task list" where
  "stopAll tasks = []"

definition taskCount :: "'k scheduled_task list \<Rightarrow> nat" where
  "taskCount tasks = length tasks"

section \<open>Facts the handlers share\<close>

lemma findBySipId_Some: "findBySipId i ps = Some p \<Longrightarrow> pi_sipId p = i \<and> p \<in> set ps"
  by (auto simp: findBySipId_def find_Some_iff)

lemma findBySipId_update:
  assumes "\<And>p. pi_sipId (f p) = pi_sipId p"
  shows "findBySipId j (update_peer i f ps) =
    (if j = i then map_option f (findBySipId i ps) else findBySipId j ps)"
  using assms by (induction ps) (auto simp: findBySipId_def)

lemma update_peer_others:
  "length (update_peer i f ps) = length ps"
  "(\<And>p. pi_sipId (f p) = pi_sipId p) \<Longrightarrow> map pi_sipId (update_peer i f ps) = map pi_sipId ps"
  by (induction ps) auto

definition route_matches :: "sip_request \<Rightarrow> 'h sip_route \<Rightarrow> bool" where
  "route_matches q r \<longleftrightarrow> rt_method r = rq_method q \<and> (rt_event r = [] \<or> rt_event r = rq_event q)"

lemma find_route_eq: "find_route q rs = map_option rt_handler (find (route_matches q) rs)"
  by (induction rs) (auto simp: route_matches_def)

end
