(* ===== verification/Runtime.thy ===== *)
theory Runtime
  imports SipCore BusinessQuery MessageBodies MediaManager SdpSession
begin

text \<open>
  \<open>NodeRuntime\<close>, the state the capabilities share (\<open>src/src/core/NodeRuntime.h\<close>), and the helper functions
  of the anonymous namespace of \<open>src/src/capabilities/GB28181Capabilities.cpp\<close>. The static counters of the
  code, the clock, the entropy source and the members of the stateful capability objects are fields of the
  same record, because every handler may touch them. A handler takes a request and the state and returns
  its \<open>bool\<close> and the new state; \<open>rt_now\<close> is what every \<open>std::time(NULL)\<close> within one handler reads.
\<close>

section \<open>State\<close>

text \<open>The classes derived from \<open>LifecycleCapability\<close>, and what a scheduled task runs.\<close>

datatype capability = RegisterClientCapability | RegisterServerCapability | KeepaliveClientCapability
  | KeepaliveServerCapability | CatalogClientCapability | CatalogServerCapability | RecordQueryClientCapability
  | RecordQueryServerCapability | InviteClientCapability | InviteServerCapability | MediaReceiveCapability
  | MediaSendCapability

datatype node_task = RegisterRefreshTask | KeepaliveTask | MediaSendTask

fun cap_name :: "capability \<Rightarrow> string" where
  "cap_name RegisterClientCapability = ''RegisterClientCapability''"
| "cap_name RegisterServerCapability = ''RegisterServerCapability''"
| "cap_name KeepaliveClientCapability = ''KeepaliveClientCapability''"
| "cap_name KeepaliveServerCapability = ''KeepaliveServerCapability''"
| "cap_name CatalogClientCapability = ''CatalogClientCapability''"
| "cap_name CatalogServerCapability = ''CatalogServerCapability''"
| "cap_name RecordQueryClientCapability = ''RecordQueryClientCapability''"
| "cap_name RecordQueryServerCapability = ''RecordQueryServerCapability''"
| "cap_name InviteClientCapability = ''InviteClientCapability''"
| "cap_name InviteServerCapability = ''InviteServerCapability''"
| "cap_name MediaReceiveCapability = ''MediaReceiveCapability''"
| "cap_name MediaSendCapability = ''MediaSendCapability''"

record digest_challenge =
  dc_nonce :: string
  dc_opaque :: string
  dc_expiresAt :: int
  dc_lastNonceCount :: u64
  dc_usedWithoutNonceCount :: bool

definition new_digest_challenge :: digest_challenge where
  "new_digest_challenge = \<lparr>dc_nonce = [], dc_opaque = [], dc_expiresAt = 0, dc_lastNonceCount = 0,
     dc_usedWithoutNonceCount = False\<rparr>"

text \<open>\<open>MediaSendCapability\<close>'s members.\<close>

record media_sender =
  md_source :: frame_source
  md_pendingFrame :: stream_frame
  md_sourceReady :: bool
  md_hasPendingFrame :: bool

definition new_media_sender :: media_sender where
  "new_media_sender = \<lparr>md_source = new_frame_source,
     md_pendingFrame = \<lparr>sf_type = 0, sf_pts = 0, sf_keyFrame = False, sf_data = []\<rparr>,
     md_sourceReady = False, md_hasPendingFrame = False\<rparr>"

record ('a, 's) runtime =
  rt_config :: node_config
  rt_business :: business_state
  rt_sip :: "capability sip_stack"
  rt_peers :: "peer_info list"
  rt_sessions :: session_map
  rt_tasks :: "node_task scheduled_task list"
  rt_media :: "('a, 's) media_manager"
  rt_challenges :: "(string, digest_challenge) omap"
  rt_sender :: media_sender
  rt_now :: int
  rt_nextSn :: int
  rt_callIdCounter :: u64
  rt_nonceCounter :: u64
  rt_random :: "nat \<Rightarrow> u32"
  rt_draws :: nat

text \<open>What is outside the program: the RTP library behind the adapter class, the JSON catalog files, the
  stream files.\<close>

record 'a node_env =
  en_adapter :: "'a rtp_adapter_ops"
  en_newAdapter :: 'a
  en_catalog :: "string \<Rightarrow> catalog_load"
  en_files :: "string \<Rightarrow> bytes option"

text \<open>A node before \<open>start\<close>: what the constructors leave, at a time and with an entropy source.\<close>

definition new_runtime :: "node_config \<Rightarrow> int \<Rightarrow> (nat \<Rightarrow> u32) \<Rightarrow> ('a, 's) runtime" where
  "new_runtime config now random = \<lparr>rt_config = config, rt_business = new_business_state, rt_sip = new_sip_stack,
     rt_peers = [], rt_sessions = [], rt_tasks = [], rt_media = new_media_manager, rt_challenges = [],
     rt_sender = new_media_sender, rt_now = now, rt_nextSn = 1, rt_callIdCounter = 0, rt_nonceCounter = 0,
     rt_random = random, rt_draws = 0\<rparr>"

section \<open>Effects\<close>

definition rt_send :: "sip_message \<Rightarrow> ('a, 's) runtime \<Rightarrow> bool \<times> ('a, 's) runtime" where
  "rt_send message rt = (let (sent, s) = st_send message (rt_sip rt) in (sent, rt\<lparr>rt_sip := s\<rparr>))"

definition rt_createSession :: "session_info \<Rightarrow> ('a, 's) runtime \<Rightarrow> ('a, 's) runtime" where
  "rt_createSession session rt = rt\<lparr>rt_sessions := snd (sm_createSession session (rt_sessions rt))\<rparr>"

text \<open>The serial number is an \<open>int\<close>: after the largest the increment is undefined in the language, and the model goes on with the
  smallest, as the machine does.\<close>

definition nextSn :: "('a, 's) runtime \<Rightarrow> int \<times> ('a, 's) runtime" where
  "nextSn rt = (rt_nextSn rt, rt\<lparr>rt_nextSn := sint (word_of_int (rt_nextSn rt + 1) :: 32 word)\<rparr>)"

definition nextOutboundCallId :: "string \<Rightarrow> string \<Rightarrow> ('a, 's) runtime \<Rightarrow> string \<times> ('a, 's) runtime" where
  "nextOutboundCallId pre localId rt =
    (let counter = rt_callIdCounter rt + 1
     in (pre @ ''-'' @ dec_int (rt_now rt) @ ''-'' @ dec (unat counter) @ ''@'' @ localId,
         rt\<lparr>rt_callIdCounter := counter\<rparr>))"

section \<open>Helpers\<close>

definition parseInt :: "string \<Rightarrow> int" where
  "parseInt s = (let (n, good, _) = extract_int INT_MIN INT_MAX s in if good then n else 0)"

definition kRegisterExpires :: int where "kRegisterExpires = 3600"
definition kRegisterChallengeExpiresSeconds :: int where "kRegisterChallengeExpiresSeconds = 300"

definition findEndpointByName :: "node_config \<Rightarrow> string \<Rightarrow> endpoint_config option" where
  "findEndpointByName config n = find (\<lambda>it. ep_name it = n) (nc_sipEndpoints config)"

definition findEndpointBySipId :: "node_config \<Rightarrow> string \<Rightarrow> endpoint_config option" where
  "findEndpointBySipId config sipId = find (\<lambda>it. ep_sipId it = sipId) (nc_sipEndpoints config)"

definition localEndpointForPeer :: "node_config \<Rightarrow> endpoint_config option" where
  "localEndpointForPeer config =
    (case findEndpointByName config ''node'' of
       Some node \<Rightarrow> Some node
     | None \<Rightarrow> (case nc_sipEndpoints config of [] \<Rightarrow> None | e # _ \<Rightarrow> Some e))"

definition endpointRequiresAuth :: "endpoint_config option \<Rightarrow> bool" where
  "endpointRequiresAuth endpoint =
    (case endpoint of None \<Rightarrow> False | Some e \<Rightarrow> ep_realm e \<noteq> [] \<and> ep_password e \<noteq> [])"

definition matchesManscdp :: "sip_request \<Rightarrow> string \<Rightarrow> string \<Rightarrow> bool" where
  "matchesManscdp request root cmdType \<longleftrightarrow>
     mx_root (rq_manscdp request) = root \<and> mx_cmdType (rq_manscdp request) = cmdType"

definition manscdpDeviceMatchesFrom :: "sip_request \<Rightarrow> bool" where
  "manscdpDeviceMatchesFrom request \<longleftrightarrow>
     mx_deviceId (rq_manscdp request) \<noteq> [] \<and> mx_deviceId (rq_manscdp request) = rq_fromId request"

definition manscdpTargetsKnownEndpoint :: "sip_request \<Rightarrow> node_config \<Rightarrow> bool" where
  "manscdpTargetsKnownEndpoint request config =
    (if mx_deviceId (rq_manscdp request) = [] then False
     else if mx_deviceId (rq_manscdp request) = rq_toId request then True
     else list_ex (\<lambda>it. mx_deviceId (rq_manscdp request) = ep_sipId it) (nc_sipEndpoints config))"

definition manscdpListConsistent :: "sip_request \<Rightarrow> bool" where
  "manscdpListConsistent request \<longleftrightarrow>
     mx_sumNum (rq_manscdp request) \<le> 0 \<or> mx_itemCount (rq_manscdp request) > 0"

definition responseState :: "string \<Rightarrow> manscdp_message \<Rightarrow> string" where
  "responseState base message =
     base @ '':sum='' @ dec_int (mx_sumNum message) @ '',items='' @ dec (mx_itemCount message) @
     (if mx_items message \<noteq> [] \<and> mi_deviceId (hd (mx_items message)) \<noteq> []
      then '',first='' @ mi_deviceId (hd (mx_items message)) else [])"

definition makeNonce :: "string \<Rightarrow> string" where
  "makeNonce seed = md5Hex (''gb28181-node:'' @ seed)"

definition makeRandomNonce :: "string \<Rightarrow> ('a, 's) runtime \<Rightarrow> string \<times> ('a, 's) runtime" where
  "makeRandomNonce seed rt =
    (let counter = rt_nonceCounter rt + 1;
         first = rt_random rt (rt_draws rt);
         second = rt_random rt (rt_draws rt + 1)
     in (md5Hex (''gb28181-node:'' @ seed @ '':'' @ dec_int (rt_now rt) @ '':'' @ dec (unat counter) @ '':'' @
           dec (unat first) @ '':'' @ dec (unat second)),
         rt\<lparr>rt_nonceCounter := counter, rt_draws := rt_draws rt + 2\<rparr>))"

definition challengeKey :: "sip_request \<Rightarrow> endpoint_config \<Rightarrow> string" where
  "challengeKey request endpoint = rq_fromId request @ '':'' @ ep_sipId endpoint @ '':'' @ ep_realm endpoint"

definition nonce_digit :: "char \<Rightarrow> nat option" where
  "nonce_digit ch =
    (let c = (of_char ch :: nat)
     in if 48 \<le> c \<and> c \<le> 57 then Some (c - 48)
        else if 97 \<le> c \<and> c \<le> 102 then Some (10 + c - 97)
        else if 65 \<le> c \<and> c \<le> 70 then Some (10 + c - 65)
        else None)"

definition ULONG_MAX :: nat where "ULONG_MAX = 2 ^ 64 - 1"

fun nonce_digits :: "string \<Rightarrow> nat \<Rightarrow> nat option" where
  "nonce_digits [] result = Some result"
| "nonce_digits (c # nc) result =
    (case nonce_digit c of None \<Rightarrow> None
     | Some digit \<Rightarrow>
         if result > (ULONG_MAX - digit) div 16 then None else nonce_digits nc (result * 16 + digit))"

definition parseNonceCount :: "string \<Rightarrow> u64 option" where
  "parseNonceCount nc = (if nc = [] then None else map_option of_nat (nonce_digits nc 0))"

definition makeRequest :: "peer_info \<Rightarrow> endpoint_config \<Rightarrow> string \<Rightarrow> string \<Rightarrow> sip_message" where
  "makeRequest peer local method event = new_sip_message
     \<lparr>sm_method := method, sm_event := event, sm_fromId := ep_sipId local, sm_toId := pi_sipId peer,
      sm_localIp := ep_sipIp local, sm_localPort := ep_sipPort local,
      sm_remoteIp := pi_ip peer, sm_remotePort := pi_port peer\<rparr>"

definition parseContactAddress :: "string \<Rightarrow> (string \<times> int) option" where
  "parseContactAddress contact =
    (case find_from ''sip:'' contact 0 of None \<Rightarrow> None
     | Some b \<Rightarrow>
       (case find_from ''@'' contact (b + 4) of None \<Rightarrow> None
        | Some atSign \<Rightarrow>
          (let e = (case find_first_of [CHR ''>'', CHR '';'', CHR '' '', CHR 0x09, CHR 0x0D, CHR 0x0A] contact (atSign + 1) of
                 None \<Rightarrow> length contact | Some e \<Rightarrow> e);
               hostPort = substr contact (atSign + 1) (e - atSign - 1)
           in if CHR '':'' \<notin> set hostPort then None
              else let parsedIp = rev (tl (dropWhile (\<lambda>c. c \<noteq> CHR '':'') (rev hostPort)));
                       parsedPort = parseInt (rev (takeWhile (\<lambda>c. c \<noteq> CHR '':'') (rev hostPort)))
                in if parsedIp = [] \<or> parsedPort \<le> 0 then None else Some (parsedIp, parsedPort))))"

definition sipUri :: "string \<Rightarrow> string \<Rightarrow> int \<Rightarrow> string" where
  "sipUri sipId ip port = ''sip:'' @ sipId @ ''@'' @ ip @ (if port > 0 then '':'' @ dec_int port else [])"

definition makeResponse :: "sip_request \<Rightarrow> int \<Rightarrow> string \<Rightarrow> sip_message" where
  "makeResponse request statusCode reason = new_sip_message
     \<lparr>sm_method := rq_method request, sm_event := rq_event request, sm_fromId := rq_toId request,
      sm_toId := rq_fromId request, sm_response := True, sm_statusCode := statusCode, sm_reason := reason\<rparr>"

definition inviteSessionId :: "string \<Rightarrow> sip_request \<Rightarrow> string" where
  "inviteSessionId capability request =
    (if rq_callId request \<noteq> [] then capability @ '':dialog:'' @ rq_callId request
     else capability @ '':'' @ rq_fromId request)"

definition makeAuthChallengeResponse :: "sip_request \<Rightarrow> endpoint_config \<Rightarrow> string \<Rightarrow> string \<Rightarrow> sip_message" where
  "makeAuthChallengeResponse request endpoint nonce opaque = (makeResponse request 401 ''Unauthorized'')
     \<lparr>sm_authRealm := ep_realm endpoint, sm_authNonce := nonce, sm_authOpaque := opaque, sm_authAlgorithm := ''MD5''\<rparr>"

definition verifyRegisterDigestValue :: "sip_request \<Rightarrow> endpoint_config \<Rightarrow> bool" where
  "verifyRegisterDigestValue request endpoint =
    (if df_response (rq_digestAuth request) = [] then False
     else let expectedUsername = (if ep_username endpoint = [] then rq_fromId request else ep_username endpoint)
       in verifyDigestResponse (rq_method request) (rq_digestAuth request) expectedUsername
            (ep_realm endpoint) (ep_password endpoint))"

definition createSendSession :: "string \<Rightarrow> peer_info \<Rightarrow> string \<Rightarrow> bool \<Rightarrow> ('a, 's) runtime \<Rightarrow> ('a, 's) runtime" where
  "createSendSession capability peer state sent rt =
     rt_createSession \<lparr>si_id = capability @ '':send:'' @ pi_sipId peer @ '':'' @ state, si_capability = capability,
       si_peerId = pi_sipId peer, si_state = (if sent then state @ ''-sent'' else state @ ''-send-failed'')\<rparr> rt"

section \<open>What every handler keeps\<close>

text \<open>A handler leaves the configuration, the routes and endpoints, the tasks and the identity of the peers
  alone; messages are only added to those sent.\<close>

definition same_node :: "('a, 's) runtime \<Rightarrow> ('a, 's) runtime \<Rightarrow> bool" where
  "same_node rt rt' \<longleftrightarrow> rt_config rt' = rt_config rt \<and> st_routes (rt_sip rt') = st_routes (rt_sip rt) \<and>
     st_endpoints (rt_sip rt') = st_endpoints (rt_sip rt) \<and> st_started (rt_sip rt') = st_started (rt_sip rt) \<and>
     rt_tasks rt' = rt_tasks rt \<and> map pi_sipId (rt_peers rt') = map pi_sipId (rt_peers rt) \<and>
     (\<exists>ms. sent_messages (rt_sip rt') = sent_messages (rt_sip rt) @ ms)"

definition rt_ok :: "('a, 's) runtime \<Rightarrow> bool" where
  "rt_ok rt \<longleftrightarrow> om_ok (rt_sessions rt) \<and> om_ok (rt_challenges rt) \<and> om_ok (bs_catalogItems (rt_business rt)) \<and>
     om_ok (bs_recordItems (rt_business rt)) \<and> mm_ok (rt_media rt) \<and> no_leak (rt_media rt)"

lemma new_runtime_ok: "rt_ok (new_runtime config now random)"
  by (simp add: rt_ok_def new_runtime_def new_business_state_def mm_ok_new)
    (simp add: no_leak_def session_ports_def new_media_manager_def)

lemma same_node_refl [simp]: "same_node rt rt"
  by (simp add: same_node_def)

lemma same_node_trans: "same_node r s \<Longrightarrow> same_node s t \<Longrightarrow> same_node r t"
  by (auto simp: same_node_def)

text \<open>The contract of a request handler and what follows for a sequence of requests.\<close>

type_synonym ('a, 's) handler = "sip_request \<Rightarrow> ('a, 's) runtime \<Rightarrow> bool \<times> ('a, 's) runtime"

text \<open>\<open>keeps rt rt'\<close>: from \<open>rt\<close> to \<open>rt'\<close> the node stays the same and the invariant is preserved.\<close>

definition keeps :: "('a, 's) runtime \<Rightarrow> ('a, 's) runtime \<Rightarrow> bool" where
  "keeps rt rt' \<longleftrightarrow> same_node rt rt' \<and> (rt_ok rt \<longrightarrow> rt_ok rt')"

lemma keeps_refl [simp]: "keeps rt rt"
  by (simp add: keeps_def)

lemma keeps_trans: "keeps r s \<Longrightarrow> keeps s t \<Longrightarrow> keeps r t"
  unfolding keeps_def using same_node_trans by blast

lemma keeps_fold: "(\<And>x r. keeps r (f x r)) \<Longrightarrow> keeps rt (fold f xs rt)"
proof (induction xs arbitrary: rt)
  case (Cons x xs)
  then show ?case using keeps_trans [of rt "f x rt" "fold f xs (f x rt)"] by simp
qed simp

locale request_handler =
  fixes handle :: "('a, 's) handler"
  assumes handle_keeps: "keeps rt (snd (handle request rt))"
begin

lemma handle_ok: "rt_ok rt \<Longrightarrow> rt_ok (snd (handle request rt))"
  using handle_keeps by (simp add: keeps_def)

lemma handle_same: "same_node rt (snd (handle request rt))"
  using handle_keeps by (simp add: keeps_def)

lemma requests_keep: "keeps rt (fold (\<lambda>q rt. snd (handle q rt)) qs rt)"
  by (rule keeps_fold) (rule handle_keeps)

lemma sent_grows: "\<exists>ms. sent_messages (rt_sip (snd (handle request rt))) = sent_messages (rt_sip rt) @ ms"
  using handle_same [of rt request] by (simp add: same_node_def)

end

section \<open>The effects keep it\<close>

lemma st_send_cases: "st_send m s = (sent, s') \<Longrightarrow>
    st_routes s' = st_routes s \<and> st_endpoints s' = st_endpoints s \<and> st_started s' = st_started s \<and>
    sent_messages s' = sent_messages s @ (if sent then [m] else [])"
  by (auto simp: st_send_def im_ops_def im_send_def split: if_splits)

lemma rt_send_same: "same_node rt (snd (rt_send m rt))"
proof (cases "st_send m (rt_sip rt)")
  case (Pair b s)
  then show ?thesis using st_send_cases [OF Pair] by (simp add: rt_send_def same_node_def)
qed

lemma rt_send_fields [simp]:
  "rt_config (snd (rt_send m rt)) = rt_config rt" "rt_business (snd (rt_send m rt)) = rt_business rt"
  "rt_peers (snd (rt_send m rt)) = rt_peers rt" "rt_sessions (snd (rt_send m rt)) = rt_sessions rt"
  "rt_media (snd (rt_send m rt)) = rt_media rt" "rt_challenges (snd (rt_send m rt)) = rt_challenges rt"
  "rt_tasks (snd (rt_send m rt)) = rt_tasks rt" "rt_now (snd (rt_send m rt)) = rt_now rt"
  by (simp_all add: rt_send_def split: prod.split)

lemma rt_send_ok [simp]: "rt_ok (snd (rt_send m rt)) = rt_ok rt"
  by (simp add: rt_ok_def)

lemma rt_createSession_ok: "rt_ok rt \<Longrightarrow> rt_ok (rt_createSession s rt)"
  by (simp add: rt_ok_def rt_createSession_def sm_createSession_def)

lemma rt_createSession_same: "same_node rt (rt_createSession s rt)"
  by (simp add: same_node_def rt_createSession_def)

lemma rt_createSession_fields [simp]:
  "rt_config (rt_createSession s rt) = rt_config rt" "rt_business (rt_createSession s rt) = rt_business rt"
  "rt_peers (rt_createSession s rt) = rt_peers rt" "rt_sip (rt_createSession s rt) = rt_sip rt"
  "rt_media (rt_createSession s rt) = rt_media rt" "rt_challenges (rt_createSession s rt) = rt_challenges rt"
  "rt_now (rt_createSession s rt) = rt_now rt"
  by (simp_all add: rt_createSession_def)

lemma same_node_update [simp]:
  "same_node rt (rt\<lparr>rt_media := m\<rparr>)" "same_node rt (rt\<lparr>rt_business := b\<rparr>)" "same_node rt (rt\<lparr>rt_challenges := c\<rparr>)"
  "same_node rt (rt\<lparr>rt_sessions := ss\<rparr>)" "same_node rt (rt\<lparr>rt_nextSn := n\<rparr>)" "same_node rt (rt\<lparr>rt_sender := sd\<rparr>)"
  "map pi_sipId ps = map pi_sipId (rt_peers rt) \<Longrightarrow> same_node rt (rt\<lparr>rt_peers := ps\<rparr>)"
  by (simp_all add: same_node_def)

lemma keeps_send: "keeps rt (snd (rt_send m rt))"
  by (simp add: keeps_def rt_send_same)

lemma keeps_session: "keeps rt (rt_createSession s rt)"
  by (simp add: keeps_def rt_createSession_same rt_createSession_ok)

lemma keeps_peers: "map pi_sipId ps = map pi_sipId (rt_peers rt) \<Longrightarrow> keeps rt (rt\<lparr>rt_peers := ps\<rparr>)"
  by (simp add: keeps_def) (simp add: rt_ok_def)

lemma keeps_challenges: "(om_ok (rt_challenges rt) \<Longrightarrow> om_ok c) \<Longrightarrow> keeps rt (rt\<lparr>rt_challenges := c\<rparr>)"
  by (simp add: keeps_def) (simp add: rt_ok_def)

lemma keeps_business:
  "(om_ok (bs_catalogItems (rt_business rt)) \<Longrightarrow> om_ok (bs_recordItems (rt_business rt)) \<Longrightarrow>
     om_ok (bs_catalogItems b) \<and> om_ok (bs_recordItems b)) \<Longrightarrow> keeps rt (rt\<lparr>rt_business := b\<rparr>)"
  by (simp add: keeps_def) (simp add: rt_ok_def)

lemma keeps_media: "(mm_ok (rt_media rt) \<Longrightarrow> no_leak (rt_media rt) \<Longrightarrow> mm_ok m \<and> no_leak m) \<Longrightarrow> keeps rt (rt\<lparr>rt_media := m\<rparr>)"
  by (simp add: keeps_def) (simp add: rt_ok_def)

lemma keeps_sessions: "(om_ok (rt_sessions rt) \<Longrightarrow> om_ok s) \<Longrightarrow> keeps rt (rt\<lparr>rt_sessions := s\<rparr>)"
  by (simp add: keeps_def) (simp add: rt_ok_def)

lemma keeps_counters:
  "keeps rt (rt\<lparr>rt_nextSn := n\<rparr>)" "keeps rt (rt\<lparr>rt_sender := s\<rparr>)" "keeps rt (rt\<lparr>rt_callIdCounter := c\<rparr>)"
  "keeps rt (rt\<lparr>rt_nonceCounter := c, rt_draws := d\<rparr>)"
  by (simp_all add: keeps_def same_node_def rt_ok_def)

lemma keeps_nextSn: "keeps rt (snd (nextSn rt))"
  by (simp add: nextSn_def keeps_counters)

lemma keeps_nextOutboundCallId: "keeps rt (snd (nextOutboundCallId p i rt))"
  by (simp add: nextOutboundCallId_def keeps_counters Let_def)

lemma keeps_makeRandomNonce: "keeps rt (snd (makeRandomNonce seed rt))"
  by (simp add: makeRandomNonce_def keeps_counters Let_def)

lemma keeps_createSendSession: "keeps rt (createSendSession c p state sent rt)"
  by (simp add: createSendSession_def keeps_session)

text \<open>A step after others: the last one is looked at, what came before is the hypothesis.\<close>

lemmas keeps_steps = keeps_trans [OF _ keeps_send] keeps_trans [OF _ keeps_session]
  keeps_trans [OF _ keeps_createSendSession] keeps_trans [OF _ keeps_nextSn]
  keeps_trans [OF _ keeps_nextOutboundCallId] keeps_trans [OF _ keeps_makeRandomNonce]

end
