(* ===== verification/Registration.thy ===== *)
theory Registration
  imports Runtime
begin

text \<open>
  Registration and keepalive (\<open>src/src/capabilities/GB28181Capabilities.cpp\<close>): the client that registers
  at upstream peers and answers challenges, the server with its digest challenges, and the keepalives of
  both sides. The handlers satisfy the contract \<open>request_handler\<close>.
\<close>

section \<open>Starting\<close>

definition registerSipHandler :: "capability \<Rightarrow> string \<Rightarrow> string \<Rightarrow> ('a, 's) runtime \<Rightarrow> bool \<times> ('a, 's) runtime" where
  "registerSipHandler cap method event rt =
    (let (ok, s) = registerHandler method event (cap_name cap) cap (rt_sip rt) in (ok, rt\<lparr>rt_sip := s\<rparr>))"

definition RegisterClient_onStart :: "('a, 's) runtime \<Rightarrow> (bool \<times> ('a, 's) runtime) option" where
  "RegisterClient_onStart rt =
    (let name = cap_name RegisterClientCapability;
         rt = fold (\<lambda>it rt. if pi_relation it \<noteq> PEER_UPSTREAM then rt
                else rt_createSession \<lparr>si_id = name @ '':intent:'' @ pi_sipId it, si_capability = name,
                       si_peerId = pi_sipId it, si_state = ''pending-register''\<rparr> rt) (rt_peers rt) rt;
         (ok, rt) = registerSipHandler RegisterClientCapability ''REGISTER'' ''response'' rt
     in if \<not> ok then Some (False, rt)
        else map_option (\<lambda>(_, tasks). (True, rt\<lparr>rt_tasks := tasks\<rparr>))
          (scheduleEvery (name @ '':register-refresh'') (tc_registerRefreshSeconds (nc_timers (rt_config rt)))
             RegisterRefreshTask (rt_tasks rt)))"

definition RegisterServer_onStart :: "('a, 's) runtime \<Rightarrow> bool \<times> ('a, 's) runtime" where
  "RegisterServer_onStart rt = registerSipHandler RegisterServerCapability ''REGISTER'' ''request'' rt"

definition RegisterServer_onStop :: "('a, 's) runtime \<Rightarrow> ('a, 's) runtime" where
  "RegisterServer_onStop rt = rt\<lparr>rt_challenges := []\<rparr>"

definition KeepaliveClient_onStart :: "('a, 's) runtime \<Rightarrow> (bool \<times> ('a, 's) runtime) option" where
  "KeepaliveClient_onStart rt =
    map_option (\<lambda>(_, tasks). (True, rt\<lparr>rt_tasks := tasks\<rparr>))
      (scheduleEvery (cap_name KeepaliveClientCapability @ '':keepalive'')
         (tc_heartbeatIntervalSeconds (nc_timers (rt_config rt))) KeepaliveTask (rt_tasks rt))"

definition KeepaliveServer_onStart :: "('a, 's) runtime \<Rightarrow> bool \<times> ('a, 's) runtime" where
  "KeepaliveServer_onStart rt = registerSipHandler KeepaliveServerCapability ''MESSAGE'' ''Notify/keepalive'' rt"

section \<open>The registering client\<close>

definition sendRegister :: "string \<Rightarrow> peer_info \<Rightarrow> ('a, 's) runtime \<Rightarrow> bool \<times> ('a, 's) runtime" where
  "sendRegister capability peer rt =
    (case localEndpointForPeer (rt_config rt) of
       None \<Rightarrow> (False, createSendSession capability peer ''register'' False rt)
     | Some local \<Rightarrow>
         (let message = (makeRequest peer local ''REGISTER'' ''request'')
                \<lparr>sm_expires := (if pi_registerExpires peer > 0 then pi_registerExpires peer else kRegisterExpires)\<rparr>;
              (sent, rt) = rt_send message rt
          in (sent, createSendSession capability peer ''register'' sent rt)))"

definition challengeSupportsAuthQop :: "string \<Rightarrow> bool" where
  "challengeSupportsAuthQop qop \<longleftrightarrow> find_from ''auth'' qop 0 \<noteq> None"

definition makeRegisterDigest ::
  "sip_request \<Rightarrow> peer_info \<Rightarrow> endpoint_config \<Rightarrow> ('a, 's) runtime \<Rightarrow> digest_fields \<times> ('a, 's) runtime" where
  "makeRegisterDigest response peer local rt =
    (let d = rq_digestAuth response;
         digest = new_digest_fields
           \<lparr>df_username := (if pi_username peer = [] then ep_sipId local else pi_username peer),
            df_realm := (if df_realm d = [] then pi_realm peer else df_realm d),
            df_nonce := df_nonce d,
            df_uri := sipUri (pi_sipId peer) (pi_ip peer) (pi_port peer),
            df_algorithm := (if df_algorithm d = [] then ''MD5'' else df_algorithm d),
            df_opaque := df_opaque d\<rparr>;
         (digest, rt) =
           (if challengeSupportsAuthQop (df_qop d)
            then let (cnonce, rt) = makeRandomNonce (ep_sipId local @ '':'' @ pi_sipId peer @ '':register'') rt
              in (digest\<lparr>df_qop := ''auth'', df_nc := ''00000001'', df_cnonce := cnonce\<rparr>, rt)
            else (digest, rt))
     in (digest\<lparr>df_response := computeDigestResponse ''REGISTER'' (df_username digest) (df_realm digest)
           (pi_password peer) (df_nonce digest) (df_uri digest) (df_qop digest) (df_nc digest) (df_cnonce digest)\<rparr>, rt))"

definition sendRegisterWithDigest ::
  "string \<Rightarrow> peer_info \<Rightarrow> endpoint_config \<Rightarrow> sip_request \<Rightarrow> ('a, 's) runtime \<Rightarrow> bool \<times> ('a, 's) runtime" where
  "sendRegisterWithDigest capability peer local response rt =
    (if pi_password peer = [] \<or> df_nonce (rq_digestAuth response) = []
     then (False, createSendSession capability peer ''register-auth'' False rt)
     else
       let challengedCseq = parseInt (rq_cseq response);
           message = (makeRequest peer local ''REGISTER'' ''request'')
             \<lparr>sm_expires := (if pi_registerExpires peer > 0 then pi_registerExpires peer else kRegisterExpires),
              sm_callId := rq_callId response,
              sm_fromTag := rq_fromTag response,
              sm_cseq := (if challengedCseq > 0 then dec_int (challengedCseq + 1) else [])\<rparr>;
           (digest, rt) = makeRegisterDigest response peer local rt;
           (sent, rt) = rt_send (message\<lparr>sm_digestAuth := digest\<rparr>) rt
       in (sent, createSendSession capability peer ''register-auth'' sent rt))"

text \<open>The task of the client.\<close>

definition sendRegisterToUpstreams :: "string \<Rightarrow> ('a, 's) runtime \<Rightarrow> ('a, 's) runtime" where
  "sendRegisterToUpstreams capability rt =
    fold (\<lambda>it rt. if pi_relation it = PEER_UPSTREAM \<and> pi_registrationRequested it
            then snd (sendRegister capability it rt) else rt) (rt_peers rt) rt"

definition upstreamPeerForRegisterResponse :: "peer_info list \<Rightarrow> sip_request \<Rightarrow> peer_info option" where
  "upstreamPeerForRegisterResponse peers response =
    (let upstream = \<lambda>i. (case findBySipId i peers of
           Some peer \<Rightarrow> if pi_relation peer = PEER_UPSTREAM then Some peer else None | None \<Rightarrow> None)
     in case upstream (rq_toId response) of Some peer \<Rightarrow> Some peer | None \<Rightarrow> upstream (rq_fromId response))"

definition RegisterClient_handle :: "('a, 's) handler" where
  "RegisterClient_handle request rt =
    (let name = cap_name RegisterClientCapability
     in if rq_method request \<noteq> ''REGISTER'' \<or> rq_event request \<noteq> ''response'' then (False, rt)
        else case upstreamPeerForRegisterResponse (rt_peers rt) request of
            None \<Rightarrow> (False, rt_createSession \<lparr>si_id = name @ '':response:unknown-peer'', si_capability = name,
              si_peerId = (if rq_fromId request = [] then rq_toId request else rq_fromId request),
              si_state = ''register-response-unknown-peer''\<rparr> rt)
          | Some peer \<Rightarrow>
              (let rt = rt_createSession \<lparr>si_id = name @ '':response:'' @ pi_sipId peer, si_capability = name,
                     si_peerId = pi_sipId peer,
                     si_state = ''register-response:'' @ dec_int (rq_statusCode request)\<rparr> rt
               in if rq_statusCode request = 401
                  then (case localEndpointForPeer (rt_config rt) of
                      None \<Rightarrow> (False, createSendSession name peer ''register-auth'' False rt)
                    | Some local \<Rightarrow> sendRegisterWithDigest name peer local request rt)
                  else if rq_statusCode request \<ge> 200 \<and> rq_statusCode request < 300
                  then let expires = (if pi_registerExpires peer > 0 then pi_registerExpires peer else kRegisterExpires);
                           (ok, peers) = markRegistered (rt_now rt) (pi_sipId peer) expires (rt_peers rt)
                    in (ok, rt\<lparr>rt_peers := peers\<rparr>)
                  else (rq_statusCode request > 0 \<and> rq_statusCode request < 400, rt)))"

section \<open>The registration server\<close>

definition cleanupExpiredChallenges :: "int \<Rightarrow> ('a, 's) runtime \<Rightarrow> ('a, 's) runtime" where
  "cleanupExpiredChallenges now rt = rt\<lparr>rt_challenges :=
     filter (\<lambda>it. \<not> (dc_expiresAt (snd it) > 0 \<and> dc_expiresAt (snd it) \<le> now)) (rt_challenges rt)\<rparr>"

definition issueChallenge :: "sip_request \<Rightarrow> endpoint_config \<Rightarrow> ('a, 's) runtime \<Rightarrow> string \<times> ('a, 's) runtime" where
  "issueChallenge request endpoint rt =
    (let rt = cleanupExpiredChallenges (rt_now rt) rt;
         (nonce, rt) = makeRandomNonce (challengeKey request endpoint) rt;
         challenge = new_digest_challenge\<lparr>dc_nonce := nonce,
           dc_opaque := makeNonce (ep_sipId endpoint @ '':'' @ ep_realm endpoint),
           dc_expiresAt := rt_now rt + kRegisterChallengeExpiresSeconds\<rparr>
     in (dc_nonce challenge,
         rt\<lparr>rt_challenges := om_set (challengeKey request endpoint) challenge (rt_challenges rt)\<rparr>))"

text \<open>The nonce-count guards of \<open>verifyChallenge\<close>: \<open>None\<close> when it rejects, else the count.\<close>

definition nonce_count_ok :: "digest_fields \<Rightarrow> digest_challenge \<Rightarrow> u64 option" where
  "nonce_count_ok d challenge =
    (if df_qop d \<noteq> []
     then (if df_cnonce d = [] then None
           else case parseNonceCount (df_nc d) of
               None \<Rightarrow> None
             | Some nonceCount \<Rightarrow> if nonceCount \<le> dc_lastNonceCount challenge then None else Some nonceCount)
     else if dc_usedWithoutNonceCount challenge then None else Some 0)"

definition verifyChallenge :: "sip_request \<Rightarrow> endpoint_config \<Rightarrow> ('a, 's) runtime \<Rightarrow> bool \<times> ('a, 's) runtime" where
  "verifyChallenge request endpoint rt =
    (let rt = cleanupExpiredChallenges (rt_now rt) rt;
         key = challengeKey request endpoint;
         d = rq_digestAuth request
     in case om_find (rt_challenges rt) key of
          None \<Rightarrow> (False, rt)
        | Some challenge \<Rightarrow>
            if df_nonce d \<noteq> dc_nonce challenge then (False, rt)
            else (case nonce_count_ok d challenge of
                None \<Rightarrow> (False, rt)
              | Some nonceCount \<Rightarrow>
                  if \<not> verifyRegisterDigestValue request endpoint then (False, rt)
                  else let challenge = (if df_qop d \<noteq> [] then challenge\<lparr>dc_lastNonceCount := nonceCount\<rparr>
                              else challenge\<lparr>dc_usedWithoutNonceCount := True\<rparr>)
                    in (True, rt\<lparr>rt_challenges := om_set key challenge (rt_challenges rt)\<rparr>)))"

definition register_session :: "string \<Rightarrow> sip_request \<Rightarrow> string \<Rightarrow> session_info" where
  "register_session part request state = \<lparr>si_id = cap_name RegisterServerCapability @ part @ rq_fromId request,
     si_capability = cap_name RegisterServerCapability, si_peerId = rq_fromId request, si_state = state\<rparr>"

text \<open>A refusal: the session and the 403.\<close>

definition refuse :: "string \<Rightarrow> string \<Rightarrow> ('a, 's) handler" where
  "refuse part state request rt =
    (False, snd (rt_send (makeResponse request 403 ''Forbidden'')
       (rt_createSession (register_session part request state) rt)))"

text \<open>The part of the handler after authentication.\<close>

definition accept_register :: "('a, 's) handler" where
  "accept_register request rt =
    (let (ok, peers) =
       (if rq_expires request = 0 then markUnregistered (rq_fromId request) (rt_peers rt)
        else let (ok, peers) = markRegistered (rt_now rt) (rq_fromId request) (rq_expires request) (rt_peers rt)
          in (ok, case (if ok then parseContactAddress (rq_contact request) else None) of
                None \<Rightarrow> peers
              | Some (contactIp, contactPort) \<Rightarrow> snd (updateAddress (rq_fromId request) contactIp contactPort peers)));
         state = (if ok then (if rq_expires request = 0 then ''unregistered'' else ''registered'') else ''unknown-peer'');
         rt = rt_createSession (register_session '':'' request state) (rt\<lparr>rt_peers := peers\<rparr>);
         (_, rt) = rt_send (makeResponse request (if ok then 200 else 403) (if ok then ''OK'' else ''Forbidden'')) rt
     in (ok, rt))"

definition RegisterServer_handle :: "('a, 's) handler" where
  "RegisterServer_handle request rt =
    (let rt = cleanupExpiredChallenges (rt_now rt) rt
     in if rq_fromId request = [] then (False, rt)
        else case findBySipId (rq_fromId request) (rt_peers rt) of
            None \<Rightarrow> refuse '':'' ''unknown-peer'' request rt
          | Some peer \<Rightarrow>
              if pi_relation peer = PEER_DOWNSTREAM \<and> \<not> pi_allowRegister peer
              then refuse '':register-not-allowed:'' ''register-not-allowed'' request rt
              else (case findEndpointBySipId (rt_config rt) (rq_toId request) of
                  None \<Rightarrow> accept_register request rt
                | Some targetEndpoint \<Rightarrow>
                    if endpointRequiresAuth (Some targetEndpoint) \<and> df_response (rq_digestAuth request) = []
                    then let rt = rt_createSession (register_session '':auth:'' request ''auth-challenge'') rt;
                             (nonce, rt) = issueChallenge request targetEndpoint rt;
                             opaque = (case om_find (rt_challenges rt) (challengeKey request targetEndpoint) of
                                 None \<Rightarrow> makeNonce (ep_sipId targetEndpoint)
                               | Some challenge \<Rightarrow> dc_opaque challenge);
                             (_, rt) = rt_send (makeAuthChallengeResponse request targetEndpoint nonce opaque) rt
                      in (True, rt)
                    else if endpointRequiresAuth (Some targetEndpoint)
                    then (let (verified, rt) = verifyChallenge request targetEndpoint rt
                          in if \<not> verified then refuse '':auth-failed:'' ''auth-failed'' request rt
                             else accept_register request rt)
                    else accept_register request rt))"

section \<open>Keepalives\<close>

definition sendKeepalive :: "string \<Rightarrow> peer_info \<Rightarrow> ('a, 's) runtime \<Rightarrow> bool \<times> ('a, 's) runtime" where
  "sendKeepalive capability peer rt =
    (case localEndpointForPeer (rt_config rt) of
       None \<Rightarrow> (False, createSendSession capability peer ''keepalive'' False rt)
     | Some local \<Rightarrow>
         (let (sn, rt) = nextSn rt;
              message = (makeRequest peer local ''MESSAGE'' ''Notify/keepalive'')
                \<lparr>sm_body := makeKeepaliveBody sn (ep_sipId local), sm_contentType := ''Application/MANSCDP+xml''\<rparr>;
              (sent, rt) = rt_send message rt
          in (sent, createSendSession capability peer ''keepalive'' sent rt)))"

definition sendKeepaliveToUpstreams :: "string \<Rightarrow> ('a, 's) runtime \<Rightarrow> ('a, 's) runtime" where
  "sendKeepaliveToUpstreams capability rt =
    fold (\<lambda>it rt. if pi_relation it = PEER_UPSTREAM \<and> pi_registrationRequested it \<and> pi_registered it
            then snd (sendKeepalive capability it rt) else rt) (rt_peers rt) rt"

definition keepalive_session :: "string \<Rightarrow> sip_request \<Rightarrow> string \<Rightarrow> session_info" where
  "keepalive_session part request state = \<lparr>si_id = cap_name KeepaliveServerCapability @ part @ rq_fromId request,
     si_capability = cap_name KeepaliveServerCapability, si_peerId = rq_fromId request, si_state = state\<rparr>"

definition KeepaliveServer_handle :: "('a, 's) handler" where
  "KeepaliveServer_handle request rt =
    (if \<not> matchesManscdp request ''Notify'' ''keepalive'' \<or> \<not> manscdpDeviceMatchesFrom request
     then (False, snd (rt_send (makeResponse request 400 ''Bad Request'')
            (rt_createSession (keepalive_session '':bad-xml:'' request ''bad-xml'') rt)))
     else let (knownPeer, peers) = markKeepalive (rt_now rt) (rq_fromId request) (rt_peers rt);
              rt = rt_createSession (keepalive_session '':'' request (if knownPeer then ''keepalive'' else ''unknown-peer''))
                     (rt\<lparr>rt_peers := peers\<rparr>);
              (_, rt) = rt_send (makeResponse request (if knownPeer then 200 else 403)
                     (if knownPeer then ''OK'' else ''Forbidden'')) rt
       in (knownPeer, rt))"

section \<open>The handlers satisfy the contract\<close>

lemma keeps_sendRegister: "keeps rt (snd (sendRegister c p rt))"
  by (auto simp: sendRegister_def Let_def split_beta keeps_createSendSession
      intro!: keeps_steps keeps_refl split: option.split)

lemma keeps_makeRegisterDigest: "keeps rt (snd (makeRegisterDigest q p l rt))"
  by (simp add: makeRegisterDigest_def Let_def split_beta keeps_makeRandomNonce)

lemma keeps_sendRegisterWithDigest: "keeps rt (snd (sendRegisterWithDigest c p l q rt))"
  by (auto simp: sendRegisterWithDigest_def Let_def split_beta keeps_makeRegisterDigest keeps_createSendSession
      intro!: keeps_steps)

lemma keeps_sendRegisterToUpstreams: "keeps rt (sendRegisterToUpstreams c rt)"
  unfolding sendRegisterToUpstreams_def by (rule keeps_fold) (simp add: keeps_sendRegister)

lemma mark_ids:
  "map pi_sipId (snd (markRegistered now i e ps)) = map pi_sipId ps"
  "map pi_sipId (snd (markUnregistered i ps)) = map pi_sipId ps"
  "map pi_sipId (snd (markKeepalive now i ps)) = map pi_sipId ps"
  "map pi_sipId (snd (updateAddress i a p ps)) = map pi_sipId ps"
  by (simp_all add: markRegistered_def markUnregistered_def markKeepalive_def updateAddress_def update_peer_others)

lemma keeps_RegisterClient: "keeps rt (snd (RegisterClient_handle q rt))"
  by (auto simp: RegisterClient_handle_def Let_def split_beta keeps_session keeps_createSendSession mark_ids
      intro!: keeps_steps keeps_trans [OF keeps_session keeps_sendRegisterWithDigest] keeps_trans [OF keeps_session keeps_peers]
      split: option.split)

interpretation rc: request_handler RegisterClient_handle
  by unfold_locales (rule keeps_RegisterClient)

lemma om_ok_filter: "om_ok m \<Longrightarrow> om_ok (filter P m)"
  by (auto simp: om_ok_def sorted_wrt_map sorted_wrt_filter)

lemma keeps_cleanup: "keeps rt (cleanupExpiredChallenges now rt)"
  unfolding cleanupExpiredChallenges_def by (rule keeps_challenges) (rule om_ok_filter)

lemma keeps_challenge_set: "keeps rt (rt\<lparr>rt_challenges := om_set k c (rt_challenges rt)\<rparr>)"
  by (rule keeps_challenges) simp

lemma keeps_issueChallenge: "keeps rt (snd (issueChallenge q e rt))"
  using keeps_trans [OF keeps_trans [OF keeps_cleanup keeps_makeRandomNonce] keeps_challenge_set]
  by (simp add: issueChallenge_def Let_def split_beta)

lemma keeps_verifyChallenge: "keeps rt (snd (verifyChallenge q e rt))"
  using keeps_trans [OF keeps_cleanup keeps_challenge_set] keeps_cleanup
  by (auto simp: verifyChallenge_def Let_def split: option.split)

lemma keeps_refuse: "keeps rt (snd (refuse i s q rt))"
  by (auto simp: refuse_def intro!: keeps_steps)

lemma keeps_accept: "keeps rt (snd (accept_register q rt))"
  by (auto simp: accept_register_def Let_def split_beta mark_ids
      intro!: keeps_steps keeps_peers split: option.split)

lemma keeps_RegisterServer: "keeps rt (snd (RegisterServer_handle q rt))"
proof -
  note t = keeps_trans [OF keeps_cleanup]
  show ?thesis
    by (auto simp: RegisterServer_handle_def Let_def split_beta keeps_cleanup
        intro!: t [OF keeps_refuse] t [OF keeps_accept] t [OF keeps_trans [OF keeps_session keeps_issueChallenge, THEN keeps_trans [OF _ keeps_send]]]
          t [OF keeps_trans [OF keeps_verifyChallenge keeps_refuse]] t [OF keeps_trans [OF keeps_verifyChallenge keeps_accept]]
        split: option.split)
qed

interpretation rs: request_handler RegisterServer_handle
  by unfold_locales (rule keeps_RegisterServer)

lemma keeps_sendKeepalive: "keeps rt (snd (sendKeepalive c p rt))"
  by (auto simp: sendKeepalive_def Let_def split_beta keeps_createSendSession
      intro!: keeps_steps keeps_nextSn split: option.split)

lemma keeps_sendKeepaliveToUpstreams: "keeps rt (sendKeepaliveToUpstreams c rt)"
  unfolding sendKeepaliveToUpstreams_def by (rule keeps_fold) (simp add: keeps_sendKeepalive)

lemma keeps_KeepaliveServer: "keeps rt (snd (KeepaliveServer_handle q rt))"
  by (auto simp: KeepaliveServer_handle_def Let_def split_beta mark_ids intro!: keeps_steps keeps_peers)

interpretation ks: request_handler KeepaliveServer_handle
  by unfold_locales (rule keeps_KeepaliveServer)

end
