(* ===== verification/Authentication.thy ===== *)
theory Authentication
  imports Registration
begin

text \<open>
  What authentication at the registration server guarantees: which requests change a registration, that a
  digest is not accepted twice, that a client that knows the password gets through the challenge, and the
  request that reaches the registration without a digest. The last section holds a small node, on which the
  properties are applied.
\<close>

section \<open>Challenges\<close>

lemma cleanup_fields [simp]:
  "rt_peers (cleanupExpiredChallenges n rt) = rt_peers rt" "rt_config (cleanupExpiredChallenges n rt) = rt_config rt"
  "rt_now (cleanupExpiredChallenges n rt) = rt_now rt" "rt_sip (cleanupExpiredChallenges n rt) = rt_sip rt"
  by (simp_all add: cleanupExpiredChallenges_def)

lemma cleanup_twice: "cleanupExpiredChallenges n (cleanupExpiredChallenges n rt) = cleanupExpiredChallenges n rt"
  by (simp add: cleanupExpiredChallenges_def)

lemma cleanup_ok: "rt_ok rt \<Longrightarrow> rt_ok (cleanupExpiredChallenges n rt)"
  using keeps_cleanup [of rt n] by (simp add: keeps_def)

lemma rt_ok_challenges: "rt_ok rt \<Longrightarrow> om_ok (rt_challenges rt)"
  by (simp add: rt_ok_def)

text \<open>A challenge that is still good at a time.\<close>

definition live_challenge :: "int \<Rightarrow> ('a, 's) runtime \<Rightarrow> string \<Rightarrow> digest_challenge option" where
  "live_challenge now rt key =
    (case map_of (rt_challenges rt) key of None \<Rightarrow> None
     | Some c \<Rightarrow> if dc_expiresAt c > 0 \<and> dc_expiresAt c \<le> now then None else Some c)"

lemma map_of_cleanup:
  assumes "rt_ok rt"
  shows "map_of (rt_challenges (cleanupExpiredChallenges now rt)) key = live_challenge now rt key"
proof -
  let ?m = "rt_challenges (cleanupExpiredChallenges now rt)"
  have ok: "om_ok ?m" "om_ok (rt_challenges rt)"
    using rt_ok_challenges [OF cleanup_ok [OF assms]] rt_ok_challenges [OF assms] by auto
  have "map_of ?m key = Some c \<longleftrightarrow> live_challenge now rt key = Some c" for c
    unfolding om_entries [OF ok(1), symmetric]
    using om_entries [OF ok(2), of key c]
    by (auto simp: cleanupExpiredChallenges_def live_challenge_def split: option.splits)
  then show ?thesis by (metis not_Some_eq)
qed

definition spent :: "digest_fields \<Rightarrow> u64 \<Rightarrow> digest_challenge \<Rightarrow> digest_challenge" where
  "spent d n c = (if df_qop d \<noteq> [] then c\<lparr>dc_lastNonceCount := n\<rparr> else c\<lparr>dc_usedWithoutNonceCount := True\<rparr>)"

lemma verifyChallenge_eq:
  assumes "rt_ok rt"
  shows "verifyChallenge q e rt =
    (case live_challenge (rt_now rt) rt (challengeKey q e) of
       None \<Rightarrow> (False, cleanupExpiredChallenges (rt_now rt) rt)
     | Some c \<Rightarrow>
         (case (if df_nonce (rq_digestAuth q) = dc_nonce c \<and> verifyRegisterDigestValue q e
                then nonce_count_ok (rq_digestAuth q) c else None) of
            None \<Rightarrow> (False, cleanupExpiredChallenges (rt_now rt) rt)
          | Some n \<Rightarrow> (True, (cleanupExpiredChallenges (rt_now rt) rt)\<lparr>rt_challenges :=
              om_set (challengeKey q e) (spent (rq_digestAuth q) n c)
                (rt_challenges (cleanupExpiredChallenges (rt_now rt) rt))\<rparr>)))"
  unfolding verifyChallenge_def Let_def om_find_def map_of_cleanup [OF assms]
  by (auto simp: spent_def split: option.split)

lemma live_cleanup: "rt_ok rt \<Longrightarrow> live_challenge now (cleanupExpiredChallenges now rt) k = live_challenge now rt k"
  using map_of_cleanup [of "cleanupExpiredChallenges now rt" now k] map_of_cleanup [of rt now k]
  by (simp add: cleanup_ok cleanup_twice)

lemma verify_cleanup: "verifyChallenge q e (cleanupExpiredChallenges (rt_now rt) rt) = verifyChallenge q e rt"
  by (simp only: verifyChallenge_def cleanup_fields cleanup_twice)

text \<open>What happens to the peers and the challenges in the branches of the handler.\<close>

lemma refuse_fields: "fst (refuse p s q rt) = False" "rt_peers (snd (refuse p s q rt)) = rt_peers rt"
  "rt_challenges (snd (refuse p s q rt)) = rt_challenges rt" "rt_config (snd (refuse p s q rt)) = rt_config rt"
  by (simp_all add: refuse_def)

lemma accept_fields: "rt_challenges (snd (accept_register q rt)) = rt_challenges rt"
  "rt_config (snd (accept_register q rt)) = rt_config rt"
  by (simp_all add: accept_register_def Let_def split_beta)

lemma issue_fields: "rt_peers (snd (issueChallenge q e rt)) = rt_peers rt" "rt_config (snd (issueChallenge q e rt)) = rt_config rt"
  by (simp_all add: issueChallenge_def makeRandomNonce_def Let_def)

lemma verify_fields: "rt_peers (snd (verifyChallenge q e rt)) = rt_peers rt"
  "rt_config (snd (verifyChallenge q e rt)) = rt_config rt" "rt_now (snd (verifyChallenge q e rt)) = rt_now rt"
  by (simp_all add: verifyChallenge_def Let_def split: option.split)

text \<open>The request is addressed to an endpoint of the node that has a realm and a password.\<close>

definition auth_target :: "('a, 's) runtime \<Rightarrow> sip_request \<Rightarrow> endpoint_config \<Rightarrow> bool" where
  "auth_target rt q e \<longleftrightarrow> findEndpointBySipId (rt_config rt) (rq_toId q) = Some e \<and> endpointRequiresAuth (Some e)"

lemma server_unverified:
  assumes "rt_ok rt" "auth_target rt q e" "df_response (rq_digestAuth q) \<noteq> []" "fst (verifyChallenge q e rt) = False"
  shows "fst (RegisterServer_handle q rt) = False \<and> rt_peers (snd (RegisterServer_handle q rt)) = rt_peers rt"
  using assms verify_cleanup [of q e rt] verify_fields
  by (auto simp: RegisterServer_handle_def auth_target_def Let_def split_beta refuse_fields split: option.split)

lemma server_challenges:
  assumes "rt_ok rt" "auth_target rt q e" "df_response (rq_digestAuth q) = []"
  shows "rt_peers (snd (RegisterServer_handle q rt)) = rt_peers rt"
  using assms by (auto simp: RegisterServer_handle_def auth_target_def Let_def split_beta refuse_fields issue_fields split: option.split)

lemma server_verified:
  assumes "rt_ok rt" "auth_target rt q e" "df_response (rq_digestAuth q) \<noteq> []" "verifyChallenge q e rt = (True, rt1)"
    "RegisterServer_handle q rt = (b, rt')"
  shows "rt_challenges rt' = rt_challenges rt1 \<or> \<not> b \<and> rt_peers rt' = rt_peers rt"
proof -
  let ?c = "cleanupExpiredChallenges (rt_now rt) rt"
  have "RegisterServer_handle q rt \<in> {(False, ?c), refuse '':'' ''unknown-peer'' q ?c,
      refuse '':register-not-allowed:'' ''register-not-allowed'' q ?c, accept_register q rt1}"
    using assms(2-4) verify_cleanup [of q e rt]
    by (simp add: RegisterServer_handle_def auth_target_def Let_def split: option.split)
  then show ?thesis
    using assms(5) accept_fields(1) [of q rt1] refuse_fields(1,2) [of _ _ q ?c] by auto (metis fst_conv snd_conv cleanup_fields(1))+
qed

text \<open>C6: when the addressed endpoint has a realm and a password, a REGISTER request changes the registration
  of a peer only if it carries the nonce of a challenge the server issued to this sender that has not
  expired, a digest of the endpoint's password over it, and a nonce count that was not used before.\<close>

theorem registration_needs_digest:
  assumes "rt_ok rt" and "auth_target rt q e" and "RegisterServer_handle q rt = (b, rt')" and "rt_peers rt' \<noteq> rt_peers rt"
  shows "\<exists>c. live_challenge (rt_now rt) rt (challengeKey q e) = Some c \<and>
    (let d = rq_digestAuth q in df_nonce d = dc_nonce c \<and> nonce_count_ok d c \<noteq> None \<and> df_realm d = ep_realm e \<and>
      df_username d = (if ep_username e = [] then rq_fromId q else ep_username e) \<and>
      toLowerCopy (df_response d) = computeDigestResponse (rq_method q) (df_username d) (ep_realm e) (ep_password e)
        (df_nonce d) (df_uri d) (df_qop d) (df_nc d) (df_cnonce d))"
proof -
  have r: "df_response (rq_digestAuth q) \<noteq> []"
    using server_challenges [OF assms(1,2)] assms(3,4) by auto
  have "fst (verifyChallenge q e rt)"
    using server_unverified [OF assms(1,2) r] assms(3,4) by auto
  then obtain c where c: "live_challenge (rt_now rt) rt (challengeKey q e) = Some c"
    "df_nonce (rq_digestAuth q) = dc_nonce c" "nonce_count_ok (rq_digestAuth q) c \<noteq> None" "verifyRegisterDigestValue q e"
    by (auto simp: verifyChallenge_eq [OF assms(1)] split: option.splits if_splits)
  have "rq_fromId q \<noteq> []"
    using assms(3,4) by (auto simp: RegisterServer_handle_def Let_def)
  then show ?thesis
    using c verify_sound [of "rq_method q" "rq_digestAuth q" _ "ep_realm e" "ep_password e"]
    by (auto simp: verifyRegisterDigestValue_def Let_def split: if_splits)
qed

section \<open>No replay\<close>

text \<open>The nonce the server draws when it answers a request with a challenge.\<close>

definition drawn_nonce :: "sip_request \<Rightarrow> endpoint_config \<Rightarrow> ('a, 's) runtime \<Rightarrow> string" where
  "drawn_nonce q e rt = fst (makeRandomNonce (challengeKey q e) rt)"

lemma issue_drawn: "issueChallenge q e (rt_createSession s (cleanupExpiredChallenges (rt_now rt) rt)) = (n, rt') \<Longrightarrow> n = drawn_nonce q e rt"
  by (auto simp: issueChallenge_def drawn_nonce_def makeRandomNonce_def rt_createSession_def cleanupExpiredChallenges_def Let_def)

text \<open>What a node may have been through since: any number of REGISTER requests at any times, of anybody and with any
  digest, the end of the capability, and any other step of the node that keeps the challenges and the configuration.
  What is excluded is that a challenge of the server draws the same nonce once more.\<close>

inductive later_node :: "string \<Rightarrow> ('a, 's) runtime \<Rightarrow> ('a, 's) runtime \<Rightarrow> bool" for nonce rt where
  later_same: "later_node nonce rt rt"
| later_request: "later_node nonce rt rt' \<Longrightarrow>
    (\<And>e. findEndpointBySipId (rt_config rt') (rq_toId q) = Some e \<Longrightarrow> endpointRequiresAuth (Some e) \<Longrightarrow>
       df_response (rq_digestAuth q) = [] \<Longrightarrow> drawn_nonce q e (rt'\<lparr>rt_now := t\<rparr>) \<noteq> nonce) \<Longrightarrow>
    RegisterServer_handle q (rt'\<lparr>rt_now := t\<rparr>) = (b, rt'') \<Longrightarrow> later_node nonce rt rt''"
| later_stop: "later_node nonce rt rt' \<Longrightarrow> later_node nonce rt (RegisterServer_onStop rt')"
| later_other: "later_node nonce rt rt' \<Longrightarrow> rt_challenges rt'' = rt_challenges rt' \<Longrightarrow> rt_config rt'' = rt_config rt' \<Longrightarrow> rt_ok rt'' \<Longrightarrow>
    later_node nonce rt rt''"

text \<open>The challenge under a key, if it has the nonce of the digest, does not take the digest.\<close>

definition spent_for :: "digest_fields \<Rightarrow> string \<Rightarrow> ('a, 's) runtime \<Rightarrow> bool" where
  "spent_for d key rt \<longleftrightarrow> (\<forall>c. map_of (rt_challenges rt) key = Some c \<longrightarrow> df_nonce d = dc_nonce c \<longrightarrow> nonce_count_ok d c = None)"

lemma spent_refuses: "nonce_count_ok d c = Some n \<Longrightarrow> nonce_count_ok d (spent d n c) = None"
  by (auto simp: nonce_count_ok_def spent_def split: if_splits option.splits)

lemma spent_stays:
  "nonce_count_ok d c = None \<Longrightarrow> nonce_count_ok d' c = Some n \<Longrightarrow> nonce_count_ok d (spent d' n c) = None"
  by (auto simp: nonce_count_ok_def spent_def split: if_splits option.splits)

lemma spent_nonce [simp]: "dc_nonce (spent d n c) = dc_nonce c"
  by (simp add: spent_def)

lemma issue_challenges:
  "\<exists>c. dc_nonce c = fst (issueChallenge q e rt) \<and>
     rt_challenges (snd (issueChallenge q e rt)) = om_set (challengeKey q e) c (rt_challenges (cleanupExpiredChallenges (rt_now rt) rt))"
  by (intro exI conjI) (simp_all add: issueChallenge_def makeRandomNonce_def Let_def split_beta)

lemma cleanup_session:
  "rt_challenges (cleanupExpiredChallenges now (rt_createSession s rt)) = rt_challenges (cleanupExpiredChallenges now rt)"
  by (simp add: cleanupExpiredChallenges_def)

text \<open>The challenges after any REGISTER request: nothing new, a new challenge, or one use of a live challenge.\<close>

lemma handler_challenges:
  assumes "rt_ok rt" "RegisterServer_handle q rt = (b, rt')"
  obtains (kept) "rt_challenges rt' = rt_challenges (cleanupExpiredChallenges (rt_now rt) rt)"
  | (issued) e c where "findEndpointBySipId (rt_config rt) (rq_toId q) = Some e" "endpointRequiresAuth (Some e)"
      "df_response (rq_digestAuth q) = []" "dc_nonce c = drawn_nonce q e rt"
      "rt_challenges rt' = om_set (challengeKey q e) c (rt_challenges (cleanupExpiredChallenges (rt_now rt) rt))"
  | (used) e c n where "live_challenge (rt_now rt) rt (challengeKey q e) = Some c" "nonce_count_ok (rq_digestAuth q) c = Some n"
      "rt_challenges rt' = om_set (challengeKey q e) (spent (rq_digestAuth q) n c) (rt_challenges (cleanupExpiredChallenges (rt_now rt) rt))"
proof -
  let ?r = "cleanupExpiredChallenges (rt_now rt) rt" and ?d = "rq_digestAuth q"
  let ?i = "\<lambda>e. rt_challenges (snd (issueChallenge q e (rt_createSession (register_session '':auth:'' q ''auth-challenge'') ?r)))"
  have rt': "rt' = snd (RegisterServer_handle q rt)" using assms(2) by simp
  have "rt_challenges rt' = rt_challenges ?r \<or>
     (\<exists>e. findEndpointBySipId (rt_config rt) (rq_toId q) = Some e \<and> endpointRequiresAuth (Some e) \<and> df_response ?d = [] \<and>
        rt_challenges rt' = ?i e) \<or> (\<exists>e. rt_challenges rt' = rt_challenges (snd (verifyChallenge q e rt)))"
    unfolding rt' by (simp add: RegisterServer_handle_def Let_def split_beta refuse_fields accept_fields verify_cleanup split: option.split) blast
  then consider (keep) "rt_challenges rt' = rt_challenges ?r"
    | (issue) e where "findEndpointBySipId (rt_config rt) (rq_toId q) = Some e" "endpointRequiresAuth (Some e)" "df_response ?d = []"
        "rt_challenges rt' = ?i e"
    | (verify) e where "rt_challenges rt' = rt_challenges (snd (verifyChallenge q e rt))" by blast
  then show thesis
  proof cases
    case (issue e)
    obtain n rti where i: "issueChallenge q e (rt_createSession (register_session '':auth:'' q ''auth-challenge'') ?r) = (n, rti)"
      by fastforce
    have "\<exists>c. dc_nonce c = n \<and> rt_challenges rti = om_set (challengeKey q e) c (rt_challenges ?r)"
      using issue_challenges [of q e "rt_createSession (register_session '':auth:'' q ''auth-challenge'') ?r"] i
      by (simp add: cleanup_session cleanup_twice)
    then show thesis using issue i issue_drawn [OF i] issued by auto
  next
    case (verify e)
    show thesis
    proof (cases "fst (verifyChallenge q e rt)")
      case False
      then have "rt_challenges (snd (verifyChallenge q e rt)) = rt_challenges ?r"
        by (auto simp: verifyChallenge_eq [OF assms(1)] split: option.splits if_splits)
      with verify show thesis by (intro kept) simp
    next
      case True
      then show thesis using verify used by (auto simp: verifyChallenge_eq [OF assms(1)] split: option.splits if_splits)
    qed
  qed (rule kept)
qed

lemma spent_request:
  assumes "rt_ok rt" "spent_for d key rt"
    and "\<And>e. findEndpointBySipId (rt_config rt) (rq_toId q) = Some e \<Longrightarrow> endpointRequiresAuth (Some e) \<Longrightarrow>
       df_response (rq_digestAuth q) = [] \<Longrightarrow> drawn_nonce q e rt \<noteq> df_nonce d"
    and "RegisterServer_handle q rt = (b, rt')"
  shows "spent_for d key rt'"
proof -
  let ?m = "rt_challenges (cleanupExpiredChallenges (rt_now rt) rt)"
  have m: "map_of ?m k = live_challenge (rt_now rt) rt k" for k by (rule map_of_cleanup [OF assms(1)])
  have live: "map_of ?m key = Some c \<Longrightarrow> map_of (rt_challenges rt) key = Some c" for c
    unfolding m by (auto simp: live_challenge_def split: option.splits if_splits)
  have ok: "om_ok ?m" by (rule rt_ok_challenges [OF cleanup_ok [OF assms(1)]])
  show ?thesis using assms(1,4)
  proof (cases rule: handler_challenges)
    case kept
    then show ?thesis using assms(2) live by (auto simp: spent_for_def)
  next
    case (issued e c)
    then show ?thesis using assms(2,3) live ok by (auto simp: spent_for_def)
  next
    case (used e c n)
    show ?thesis
    proof (cases "key = challengeKey q e")
      case True
      then show ?thesis using used assms(2) ok live [of c]
        by (auto simp: spent_for_def m intro: spent_stays)
    next
      case False
      then show ?thesis using used assms(2) live ok by (auto simp: spent_for_def)
    qed
  qed
qed

lemma later_spent:
  assumes "later_node (df_nonce d) rt rt'" "rt_ok rt" "spent_for d key rt"
  shows "rt_ok rt' \<and> rt_config rt' = rt_config rt \<and> spent_for d key rt'"
  using assms(1)
proof induction
  case later_same
  then show ?case using assms by simp
next
  case (later_request rt' q t b rt'')
  let ?r = "rt'\<lparr>rt_now := t\<rparr>"
  have ok: "rt_ok ?r" using later_request.IH by (simp add: rt_ok_def)
  have "spent_for d key ?r" using later_request.IH by (simp add: spent_for_def)
  from spent_request [OF ok this _ later_request.hyps(3)] have "spent_for d key rt''"
    using later_request.hyps(2) by simp
  then show ?case
    using keeps_RegisterServer [of ?r q] ok later_request by (simp add: keeps_def same_node_def)
next
  case (later_stop rt')
  then show ?case by (simp add: RegisterServer_onStop_def spent_for_def rt_ok_def)
next
  case (later_other rt' rt'')
  then show ?case by (simp add: spent_for_def)
qed

lemma accepted_spends:
  assumes "rt_ok rt" and "auth_target rt q e" and "df_response (rq_digestAuth q) \<noteq> []" and "RegisterServer_handle q rt = (True, rt1)"
  shows "\<exists>c n. live_challenge (rt_now rt) rt (challengeKey q e) = Some c \<and> nonce_count_ok (rq_digestAuth q) c = Some n \<and>
    map_of (rt_challenges rt1) (challengeKey q e) = Some (spent (rq_digestAuth q) n c) \<and> rt_ok rt1 \<and> rt_config rt1 = rt_config rt"
proof -
  let ?d = "rq_digestAuth q" and ?k = "challengeKey q e"
  have v: "fst (verifyChallenge q e rt)" using server_unverified [OF assms(1-3)] assms(4) by fastforce
  then obtain rtv where rtv: "verifyChallenge q e rt = (True, rtv)" by (metis (full_types) prod.collapse)
  then obtain c n where c: "rt_challenges rtv =
      om_set ?k (spent ?d n c) (rt_challenges (cleanupExpiredChallenges (rt_now rt) rt))" "nonce_count_ok ?d c = Some n"
    "live_challenge (rt_now rt) rt ?k = Some c"
    by (auto simp: verifyChallenge_eq [OF assms(1)] split: option.splits if_splits)
  have ch: "rt_challenges rt1 = rt_challenges rtv" using server_verified [OF assms(1-3) rtv assms(4)] by simp
  have "map_of (rt_challenges rt1) ?k = Some (spent ?d n c)"
    using rt_ok_challenges [OF cleanup_ok [OF assms(1)]] by (simp add: ch c(1))
  then show ?thesis using c keeps_RegisterServer [of rt q] assms(1,4) by (simp add: keeps_def same_node_def)
qed

text \<open>C9: a digest that was accepted is never accepted again, however long the node goes on: after any later requests of
  anybody, accepted ones with further nonce counts included, restarts of the capability and other steps of the node, a request of the same
  sender to the same endpoint with the same digest, whatever else it carries and at whatever time it comes, is answered with
  \<open>False\<close> and changes no registration. Excluded is only that the server draws the same nonce a second time.\<close>

theorem accepted_digest_is_not_replayed:
  assumes "rt_ok rt" and "auth_target rt q e" and "df_response (rq_digestAuth q) \<noteq> []"
    and "RegisterServer_handle q rt = (True, rt1)"
    and "later_node (df_nonce (rq_digestAuth q)) rt1 rt2"
    and "rq_digestAuth q' = rq_digestAuth q" and "rq_fromId q' = rq_fromId q" and "rq_toId q' = rq_toId q"
    and "RegisterServer_handle q' (rt2\<lparr>rt_now := t\<rparr>) = (b, rt3)"
  shows "\<not> b \<and> rt_peers rt3 = rt_peers rt2"
proof -
  let ?d = "rq_digestAuth q" and ?k = "challengeKey q e" and ?rt2 = "rt2\<lparr>rt_now := t\<rparr>"
  obtain c n where c: "nonce_count_ok ?d c = Some n" "map_of (rt_challenges rt1) ?k = Some (spent ?d n c)" "rt_ok rt1"
    "rt_config rt1 = rt_config rt" using accepted_spends [OF assms(1-4)] by blast
  have "spent_for ?d ?k rt1" using c(1,2) by (simp add: spent_for_def spent_refuses)
  from later_spent [OF assms(5) c(3) this] have l: "rt_ok rt2" "rt_config rt2 = rt_config rt" "spent_for ?d ?k rt2"
    using c(4) by simp_all
  have ok: "rt_ok ?rt2" using l(1) by (simp add: rt_ok_def)
  have t: "auth_target ?rt2 q' e" using assms(2,8) l(2) by (simp add: auth_target_def)
  have k: "challengeKey q' e = ?k" using assms(7) by (simp add: challengeKey_def)
  have "\<And>c'. live_challenge t ?rt2 ?k = Some c' \<Longrightarrow> df_nonce ?d = dc_nonce c' \<Longrightarrow> nonce_count_ok ?d c' = None"
    using l(3) by (auto simp: spent_for_def live_challenge_def split: option.splits if_splits)
  then have "fst (verifyChallenge q' e ?rt2) = False"
    by (auto simp: verifyChallenge_eq [OF ok] k assms(6) split: option.split)
  then show ?thesis using server_unverified [OF ok t] assms(3,6,9) by simp
qed

lemma accept_registers:
  assumes "findBySipId (rq_fromId q) (rt_peers rt) = Some p" "rq_expires q \<noteq> 0"
  shows "\<exists>rt' p'. accept_register q rt = (True, rt') \<and> findBySipId (rq_fromId q) (rt_peers rt') = Some p' \<and>
    pi_registered p' \<and> pi_expires p' = rq_expires q \<and> pi_lastRegisterTime p' = rt_now rt \<and>
    pi_relation p' = pi_relation p \<and> pi_allowRegister p' = pi_allowRegister p"
proof -
  let ?i = "rq_fromId q"
  obtain ps where m: "markRegistered (rt_now rt) ?i (rq_expires q) (rt_peers rt) = (True, ps)"
    and f: "findBySipId ?i ps = Some (p\<lparr>pi_registered := True, pi_expires := rq_expires q, pi_lastRegisterTime := rt_now rt\<rparr>)"
    using assms(1) by (simp add: markRegistered_def findBySipId_update)
  have u: "\<exists>p'. findBySipId ?i (snd (updateAddress ?i ip port ps)) = Some p' \<and> pi_registered p' \<and>
      pi_expires p' = rq_expires q \<and> pi_lastRegisterTime p' = rt_now rt \<and>
      pi_relation p' = pi_relation p \<and> pi_allowRegister p' = pi_allowRegister p" for ip port
    using f by (simp add: updateAddress_def findBySipId_update)
  show ?thesis
    using f u assms(2) by (auto simp: accept_register_def m Let_def split_beta split: option.split)
qed

lemma server_accepts:
  assumes "rt_ok rt" "auth_target rt q e" "findBySipId (rq_fromId q) (rt_peers rt) = Some p"
    "pi_relation p = PEER_UPSTREAM \<or> pi_allowRegister p" "rq_fromId q \<noteq> []"
    "live_challenge (rt_now rt) rt (challengeKey q e) = Some c" "df_nonce (rq_digestAuth q) = dc_nonce c"
    "nonce_count_ok (rq_digestAuth q) c = Some n" "verifyRegisterDigestValue q e" "rq_expires q \<noteq> 0"
  shows "\<exists>rt' p'. RegisterServer_handle q rt = (True, rt') \<and> findBySipId (rq_fromId q) (rt_peers rt') = Some p' \<and>
    pi_registered p' \<and> pi_expires p' = rq_expires q \<and> pi_lastRegisterTime p' = rt_now rt \<and>
    pi_relation p' = pi_relation p \<and> pi_allowRegister p' = pi_allowRegister p"
proof -
  obtain rtv where v: "verifyChallenge q e rt = (True, rtv)"
    using verifyChallenge_eq [OF assms(1), of q e] assms(6-9) by simp
  have f: "rt_peers rtv = rt_peers rt" "rt_now rtv = rt_now rt" using verify_fields [of q e rt] v by simp_all
  have r: "df_response (rq_digestAuth q) \<noteq> []" using assms(9) by (auto simp: verifyRegisterDigestValue_def)
  have "RegisterServer_handle q rt = accept_register q rtv"
    using assms(2-5) r v verify_cleanup [of q e rt] 
    by (auto simp: RegisterServer_handle_def auth_target_def Let_def)
  then show ?thesis using accept_registers [of q rtv p] assms(3,10) f by simp
qed

lemma sent_one: "sent_messages (rt_sip (snd (rt_send m' rt))) = sent_messages (rt_sip rt) @ [m] \<Longrightarrow> m = m'"
proof (cases "st_send m' (rt_sip rt)")
  case (Pair b s)
  assume "sent_messages (rt_sip (snd (rt_send m' rt))) = sent_messages (rt_sip rt) @ [m]"
  then show ?thesis using st_send_cases [OF Pair] by (simp add: rt_send_def Pair split: if_splits)
qed

lemma issue_live:
  assumes "rt_ok rt" "issueChallenge q e rt = (nonce, rt')"
  shows "\<exists>c. map_of (rt_challenges rt') (challengeKey q e) = Some c \<and> dc_nonce c = nonce \<and> length nonce = 32 \<and>
    dc_expiresAt c = rt_now rt + 300 \<and> dc_lastNonceCount c = 0 \<and> \<not> dc_usedWithoutNonceCount c"
proof -
  let ?r = "cleanupExpiredChallenges (rt_now rt) rt"
  obtain r2 where m: "makeRandomNonce (challengeKey q e) ?r = (nonce, r2)"
    and rt': "rt' = r2\<lparr>rt_challenges := om_set (challengeKey q e) (new_digest_challenge\<lparr>dc_nonce := nonce,
      dc_opaque := makeNonce (ep_sipId e @ '':'' @ ep_realm e), dc_expiresAt := rt_now r2 + kRegisterChallengeExpiresSeconds\<rparr>)
      (rt_challenges r2)\<rparr>"
    using assms(2) by (cases "makeRandomNonce (challengeKey q e) ?r") (auto simp: issueChallenge_def Let_def)
  have "length nonce = 32" "rt_challenges r2 = rt_challenges ?r" "rt_now r2 = rt_now rt"
    using m md5Hex_shape by (auto simp: makeRandomNonce_def Let_def)
  then show ?thesis using rt' rt_ok_challenges [OF cleanup_ok [OF assms(1), of "rt_now rt"]]
    by (simp add: new_digest_challenge_def kRegisterChallengeExpiresSeconds_def)
qed

lemma md5Hex_nonempty: "md5Hex s \<noteq> []"
  using md5Hex_shape [of s] by (metis list.size(3) zero_neq_numeral)

lemma register_digest:
  assumes "makeRegisterDigest r peer local client = (d, client')"
  shows "df_realm (rq_digestAuth r) \<noteq> [] \<Longrightarrow> df_realm d = df_realm (rq_digestAuth r)"
    "df_nonce d = df_nonce (rq_digestAuth r)" "df_uri d \<noteq> []"
    "df_algorithm (rq_digestAuth r) = ''MD5'' \<Longrightarrow> df_algorithm d = ''MD5''"
    "df_qop d = ''auth'' \<and> df_nc d = ''00000001'' \<and> df_cnonce d \<noteq> [] \<or> df_qop d = []"
    "df_response d = computeDigestResponse ''REGISTER'' (df_username d) (df_realm d) (pi_password peer) (df_nonce d) (df_uri d)
       (df_qop d) (df_nc d) (df_cnonce d)"
  using assms
  by (simp_all add: makeRegisterDigest_def Let_def sipUri_def new_digest_fields_def split_beta split: if_splits)
    (auto simp: makeRandomNonce_def Let_def md5Hex_nonempty)

lemma server_challenge_sent:
  assumes "rt_ok rt" "auth_target rt q e" "df_response (rq_digestAuth q) = []" "rq_fromId q \<noteq> []"
    "findBySipId (rq_fromId q) (rt_peers rt) = Some p" "pi_relation p = PEER_UPSTREAM \<or> pi_allowRegister p"
    "RegisterServer_handle q rt = (b, rt1)"
  shows "\<exists>nonce opaque rti c. rt1 = snd (rt_send (makeAuthChallengeResponse q e nonce opaque) rti) \<and>
    sent_messages (rt_sip rti) = sent_messages (rt_sip rt) \<and> rt_peers rti = rt_peers rt \<and>
    map_of (rt_challenges rti) (challengeKey q e) = Some c \<and> dc_nonce c = nonce \<and> length nonce = 32 \<and>
    dc_expiresAt c = rt_now rt + 300 \<and> dc_lastNonceCount c = 0 \<and> \<not> dc_usedWithoutNonceCount c"
proof -
  let ?r0 = "rt_createSession (register_session '':auth:'' q ''auth-challenge'') (cleanupExpiredChallenges (rt_now rt) rt)"
  obtain nonce rti where i: "issueChallenge q e ?r0 = (nonce, rti)" by (cases "issueChallenge q e ?r0")
  have p: "rt_peers rti = rt_peers rt" "rt_sip rti = rt_sip rt"
    using i by (auto simp: issueChallenge_def makeRandomNonce_def Let_def)
  have "rt_ok ?r0" by (rule rt_createSession_ok) (rule cleanup_ok [OF assms(1)])
  from issue_live [OF this i] obtain c where c: "map_of (rt_challenges rti) (challengeKey q e) = Some c" "dc_nonce c = nonce"
    "length nonce = 32" "dc_expiresAt c = rt_now rt + 300" "dc_lastNonceCount c = 0" "\<not> dc_usedWithoutNonceCount c" by auto
  have "RegisterServer_handle q rt = (True, snd (rt_send (makeAuthChallengeResponse q e nonce (dc_opaque c)) rti))"
    using assms(2-6) i c(1) by (auto simp: RegisterServer_handle_def auth_target_def Let_def split_beta)
  then have "rt1 = snd (rt_send (makeAuthChallengeResponse q e nonce (dc_opaque c)) rti)" using assms(7) by simp
  then show ?thesis using c p by (intro exI [of _ nonce] exI [of _ "dc_opaque c"] exI [of _ rti] exI [of _ c]) simp
qed

text \<open>C7: registering with authentication works end to end: the server challenges a REGISTER without digest,
  the client of a peer that knows the password answers the challenge, with or without quality of
  protection, and its request, received within the life of the challenge, is accepted and recorded.\<close>

theorem challenged_client_is_registered:
  assumes "rt_ok rt" and "auth_target rt q e" and "rq_method q = ''REGISTER''" and "rq_fromId q \<noteq> []"
    and "findBySipId (rq_fromId q) (rt_peers rt) = Some p" and "pi_relation p = PEER_UPSTREAM \<or> pi_allowRegister p"
    and "df_response (rq_digestAuth q) = []" and "RegisterServer_handle q rt = (b, rt1)"
    and "sent_messages (rt_sip rt1) = sent_messages (rt_sip rt) @ [m]"
    and "df_realm (rq_digestAuth r) = sm_authRealm m" and "df_nonce (rq_digestAuth r) = sm_authNonce m"
    and "df_opaque (rq_digestAuth r) = sm_authOpaque m" and "df_algorithm (rq_digestAuth r) = sm_authAlgorithm m"
    and "makeRegisterDigest r peer local client = (d, client')" and "pi_password peer = ep_password e"
    and "df_username d = (if ep_username e = [] then rq_fromId q else ep_username e)"
    and "q' = q\<lparr>rq_digestAuth := d\<rparr>" and "rq_expires q \<noteq> 0" and "later < rt_now rt + 300"
  shows "b \<and> sm_statusCode m = 401 \<and> (\<exists>rt2 p'. RegisterServer_handle q' (rt1\<lparr>rt_now := later\<rparr>) = (True, rt2) \<and>
    findBySipId (rq_fromId q) (rt_peers rt2) = Some p' \<and> pi_registered p' \<and> pi_expires p' = rq_expires q \<and>
    pi_lastRegisterTime p' = later)"
proof -
  obtain nonce opaque rti c where s: "rt1 = snd (rt_send (makeAuthChallengeResponse q e nonce opaque) rti)"
    "sent_messages (rt_sip rti) = sent_messages (rt_sip rt)" "rt_peers rti = rt_peers rt"
    and c: "map_of (rt_challenges rti) (challengeKey q e) = Some c" "dc_nonce c = nonce" "length nonce = 32"
      "dc_expiresAt c = rt_now rt + 300" "dc_lastNonceCount c = 0" "\<not> dc_usedWithoutNonceCount c"
    using server_challenge_sent [OF assms(1,2,7,4,5,6,8)] by blast
  have "fst (RegisterServer_handle q rt)"
    using assms(2,4-7) by (auto simp: RegisterServer_handle_def auth_target_def Let_def split_beta)
  then have b: b using assms(8) by simp
  have m: "m = makeAuthChallengeResponse q e nonce opaque" using assms(9) s(1,2) sent_one by metis
  then have a: "sm_authRealm m = ep_realm e" "sm_authNonce m = nonce" "sm_authAlgorithm m = ''MD5''" "sm_statusCode m = 401"
    by (simp_all add: makeAuthChallengeResponse_def makeResponse_def)
  let ?rt1 = "rt1\<lparr>rt_now := later\<rparr>"
  have "rt_ok rt1" "rt_config rt1 = rt_config rt"
    using keeps_RegisterServer [of rt q] assms(1,8) by (simp_all add: keeps_def same_node_def)
  then have ok: "rt_ok ?rt1" "auth_target ?rt1 q' e" using assms(2,17) by (simp_all add: rt_ok_def auth_target_def)
  have e: "ep_realm e \<noteq> []" "ep_password e \<noteq> []" using assms(2) by (simp_all add: auth_target_def endpointRequiresAuth_def)
  have d: "df_realm d = ep_realm e" "df_nonce d = nonce" "df_uri d \<noteq> []" "df_algorithm d = ''MD5''"
    "df_qop d = ''auth'' \<and> df_nc d = ''00000001'' \<and> df_cnonce d \<noteq> [] \<or> df_qop d = []"
    "df_response d = computeDigestResponse ''REGISTER'' (df_username d) (ep_realm e) (ep_password e) (df_nonce d) (df_uri d)
       (df_qop d) (df_nc d) (df_cnonce d)"
    using register_digest [OF assms(14)] assms(10,11,13,15) a e(1) by simp_all
  have u: "df_username d \<noteq> []" using assms(4,16) by simp
  have n0: "nonce \<noteq> []" using c(3) by auto
  have md5: "toLowerCopy ''MD5'' = ''md5''" by code_simp
  have "df_nonce d \<noteq> []" using d(2) n0 by simp
  note v = verify_complete [OF u d(1) e(1) this d(3) e(2) disjI2 [OF refl] disjI2 d(6), unfolded d(4), OF md5]
  have vr: "verifyRegisterDigestValue q' e"
    using v assms(3,16,17) by (cases "ep_username e = []") (simp_all add: verifyRegisterDigestValue_def)
  have "parseNonceCount ''00000001'' = Some 1"
    by (simp add: parseNonceCount_def nonce_digit_def ULONG_MAX_def)
  then obtain n where n: "nonce_count_ok (rq_digestAuth q') c = Some n"
    using d(5) c(5,6) assms(17) by (auto simp: nonce_count_ok_def)
  have k: "challengeKey q' e = challengeKey q e" by (simp add: challengeKey_def assms(17))
  have r1: "rt_challenges rt1 = rt_challenges rti" "rt_peers rt1 = rt_peers rt" using s by simp_all
  have l: "live_challenge (rt_now ?rt1) ?rt1 (challengeKey q' e) = Some c"
    using c(1,4) assms(19) by (simp add: live_challenge_def k r1)
  have q': "rq_fromId q' = rq_fromId q" "rq_expires q' = rq_expires q" "df_nonce (rq_digestAuth q') = dc_nonce c"
    using d(2) c(2) by (simp_all add: assms(17))
  have "findBySipId (rq_fromId q') (rt_peers ?rt1) = Some p" "rq_fromId q' \<noteq> []" "rq_expires q' \<noteq> 0"
    using assms(4,5,18) r1 q' by simp_all
  from server_accepts [OF ok this(1) assms(6) this(2) l q'(3) n vr this(3)]
  show ?thesis using b a(4) q' by auto
qed

section \<open>A small node\<close>

definition sample_endpoint :: endpoint_config where
  "sample_endpoint = new_endpoint_config\<lparr>ep_name := ''node'', ep_sipId := ''34'', ep_sipIp := ''10.0.0.1'',
     ep_sipPort := 5060, ep_realm := ''r'', ep_password := ''pw''\<rparr>"

definition sample_node_config :: node_config where
  "sample_node_config = new_node_config\<lparr>nc_node := sample_endpoint, nc_sipEndpoints := [sample_endpoint]\<rparr>"

definition sample_peer :: peer_info where
  "sample_peer = new_peer_info\<lparr>pi_sipId := ''35'', pi_allowRegister := True\<rparr>"

definition sample_rt :: "(unit, unit) runtime" where
  "sample_rt = (new_runtime sample_node_config 100 (\<lambda>_. 7))\<lparr>rt_peers := [sample_peer],
     rt_sip := new_sip_stack\<lparr>st_started := True, st_transport := new_in_memory_transport\<lparr>im_running := True\<rparr>\<rparr>\<rparr>"

definition sample_challenged :: "(unit, unit) runtime" where
  "sample_challenged = sample_rt\<lparr>rt_challenges := [(''35:34:r'', new_digest_challenge\<lparr>dc_nonce := ''n'', dc_expiresAt := 400\<rparr>)]\<rparr>"

definition sample_digest :: digest_fields where
  "sample_digest = (let d = new_digest_fields\<lparr>df_username := ''35'', df_realm := ''r'', df_nonce := ''n'', df_uri := ''sip:34''\<rparr>
     in d\<lparr>df_response := computeDigestResponse ''REGISTER'' ''35'' ''r'' ''pw'' ''n'' ''sip:34'' (df_qop d) (df_nc d) (df_cnonce d)\<rparr>)"

definition sample_register :: sip_request where
  "sample_register = new_sip_request\<lparr>rq_method := ''REGISTER'', rq_event := ''request'', rq_fromId := ''35'',
     rq_toId := ''34'', rq_expires := 3600\<rparr>"

lemma sample_ok: "rt_ok sample_rt" "rt_ok sample_challenged"
proof -
  have "rt_ok (new_runtime sample_node_config 100 (\<lambda>_. 7) :: (unit, unit) runtime)" by (rule new_runtime_ok)
  then show s: "rt_ok sample_rt" by (simp add: sample_rt_def rt_ok_def)
  then show "rt_ok sample_challenged" by (simp add: sample_challenged_def rt_ok_def om_ok_def)
qed

lemma sample_target: "auth_target sample_rt sample_register sample_endpoint"
  "auth_target sample_challenged (sample_register\<lparr>rq_digestAuth := d\<rparr>) sample_endpoint"
  by (simp_all add: auth_target_def sample_challenged_def sample_rt_def new_runtime_def sample_node_config_def
      findEndpointBySipId_def sample_register_def sample_endpoint_def endpointRequiresAuth_def new_endpoint_config_def)

lemma sample_verify: "verifyRegisterDigestValue (sample_register\<lparr>rq_digestAuth := sample_digest\<rparr>) sample_endpoint"
  "df_response sample_digest \<noteq> []"
proof -
  have d: "df_username sample_digest = ''35''" "df_realm sample_digest = ''r''" "df_nonce sample_digest = ''n''"
    "df_uri sample_digest = ''sip:34''" "df_algorithm sample_digest = []"
    "df_response sample_digest = computeDigestResponse ''REGISTER'' (df_username sample_digest) ''r'' ''pw''
       (df_nonce sample_digest) (df_uri sample_digest) (df_qop sample_digest) (df_nc sample_digest) (df_cnonce sample_digest)"
    by (simp_all add: sample_digest_def Let_def new_digest_fields_def)
  have q: "df_qop sample_digest = []" by (simp add: sample_digest_def Let_def new_digest_fields_def)
  have v: "verifyDigestResponse ''REGISTER'' sample_digest ''35'' ''r'' ''pw'' \<and> df_response sample_digest \<noteq> []"
    using verify_complete [OF _ d(2) _ _ _ _ _ _ d(6), of "''35''"] by (simp add: d(1-5) q)
  then show "df_response sample_digest \<noteq> []" by simp
  show "verifyRegisterDigestValue (sample_register\<lparr>rq_digestAuth := sample_digest\<rparr>) sample_endpoint"
    using v by (simp add: verifyRegisterDigestValue_def sample_register_def sample_endpoint_def new_endpoint_config_def)
qed

lemma sample_accepted:
  "\<exists>rt'. RegisterServer_handle (sample_register\<lparr>rq_digestAuth := sample_digest\<rparr>) sample_challenged = (True, rt') \<and>
     rt_peers rt' \<noteq> rt_peers sample_challenged"
proof -
  let ?q = "sample_register\<lparr>rq_digestAuth := sample_digest\<rparr>"
  let ?c = "new_digest_challenge\<lparr>dc_nonce := ''n'', dc_expiresAt := 400\<rparr>"
  have f: "findBySipId (rq_fromId ?q) (rt_peers sample_challenged) = Some sample_peer"
    by (simp add: sample_challenged_def sample_rt_def findBySipId_def sample_register_def sample_peer_def)
  have l: "live_challenge (rt_now sample_challenged) sample_challenged (challengeKey ?q sample_endpoint) = Some ?c"
    by (simp add: live_challenge_def sample_challenged_def sample_rt_def new_runtime_def challengeKey_def
        sample_register_def sample_endpoint_def new_endpoint_config_def)
  have n: "nonce_count_ok (rq_digestAuth ?q) ?c = Some 0" "df_nonce (rq_digestAuth ?q) = dc_nonce ?c"
    by (simp_all add: nonce_count_ok_def sample_digest_def new_digest_fields_def new_digest_challenge_def Let_def)
  have a: "pi_allowRegister sample_peer" "rq_fromId ?q \<noteq> []" "rq_expires ?q \<noteq> 0" "\<not> pi_registered sample_peer"
    by (simp_all add: sample_peer_def sample_register_def new_peer_info_def)
  from server_accepts [OF sample_ok(2) sample_target(2) f disjI2 [OF a(1)] a(2) l n(2) n(1) sample_verify(1) a(3)]
  show ?thesis using f a(4) by auto
qed

text \<open>The same digest with the quality \<open>auth\<close> and a nonce count.\<close>

definition sample_counted :: "string \<Rightarrow> digest_fields" where
  "sample_counted n = (let d = sample_digest\<lparr>df_qop := ''auth'', df_nc := n, df_cnonce := ''c''\<rparr>
     in d\<lparr>df_response := computeDigestResponse ''REGISTER'' ''35'' ''r'' ''pw'' ''n'' ''sip:34'' (df_qop d) (df_nc d) (df_cnonce d)\<rparr>)"

lemma counted_verify: "verifyRegisterDigestValue (sample_register\<lparr>rq_digestAuth := sample_counted n\<rparr>) sample_endpoint"
  "df_response (sample_counted n) \<noteq> []"
proof -
  let ?d = "sample_counted n"
  have d: "df_username ?d = ''35''" "df_realm ?d = ''r''" "df_nonce ?d = ''n''"
    "df_uri ?d = ''sip:34''" "df_algorithm ?d = []" "df_qop ?d = ''auth''" "df_nc ?d = n" "df_cnonce ?d = ''c''"
    "df_response ?d = computeDigestResponse ''REGISTER'' (df_username ?d) ''r'' ''pw''
       (df_nonce ?d) (df_uri ?d) (df_qop ?d) (df_nc ?d) (df_cnonce ?d)"
    by (simp_all add: sample_counted_def sample_digest_def Let_def new_digest_fields_def)
  have v: "verifyDigestResponse ''REGISTER'' ?d ''35'' ''r'' ''pw''" and ne: "df_response ?d \<noteq> []"
    using verify_complete [OF _ d(2) _ _ _ _ _ _ d(9), of "''35''"] by (simp_all add: d(1-8))
  then show "verifyRegisterDigestValue (sample_register\<lparr>rq_digestAuth := sample_counted n\<rparr>) sample_endpoint"
    by (simp add: verifyRegisterDigestValue_def sample_register_def sample_endpoint_def new_endpoint_config_def)
  show "df_response ?d \<noteq> []" by (rule ne)
qed

lemma counted_accepted:
  "\<exists>rt1 rt2. RegisterServer_handle (sample_register\<lparr>rq_digestAuth := sample_counted ''1''\<rparr>) sample_challenged = (True, rt1) \<and>
     RegisterServer_handle (sample_register\<lparr>rq_digestAuth := sample_counted ''2''\<rparr>) (rt1\<lparr>rt_now := 101\<rparr>) = (True, rt2)"
proof -
  let ?q = "\<lambda>n. sample_register\<lparr>rq_digestAuth := sample_counted n\<rparr>"
  let ?c = "new_digest_challenge\<lparr>dc_nonce := ''n'', dc_expiresAt := 400\<rparr>" and ?k = "challengeKey (?q ''1'') sample_endpoint"
  have f: "findBySipId (rq_fromId (?q n)) (rt_peers sample_challenged) = Some sample_peer" for n
    by (simp add: sample_challenged_def sample_rt_def findBySipId_def sample_register_def sample_peer_def)
  have l: "live_challenge (rt_now sample_challenged) sample_challenged ?k = Some ?c"
    by (simp add: live_challenge_def sample_challenged_def sample_rt_def new_runtime_def challengeKey_def
        sample_register_def sample_endpoint_def new_endpoint_config_def)
  have o: "parseNonceCount ''1'' = Some 1" "parseNonceCount ''2'' = Some 2"
    by (simp_all add: parseNonceCount_def nonce_digit_def of_char_Char ULONG_MAX_def)
  have n: "nonce_count_ok (rq_digestAuth (?q ''1'')) ?c = Some 1" "df_nonce (rq_digestAuth (?q n)) = dc_nonce ?c" for n
    using o(1) by (simp_all add: nonce_count_ok_def sample_counted_def sample_digest_def new_digest_fields_def new_digest_challenge_def Let_def)
  have a: "pi_allowRegister sample_peer" "rq_fromId (?q n) \<noteq> []" "rq_expires (?q n) \<noteq> 0" for n
    by (simp_all add: sample_peer_def sample_register_def new_peer_info_def)
  have v: "verifyRegisterDigestValue (?q ''1'') sample_endpoint" "verifyRegisterDigestValue (?q ''2'') sample_endpoint"
    using counted_verify(1) by simp_all
  obtain rt1 p where r: "RegisterServer_handle (?q ''1'') sample_challenged = (True, rt1)"
    "findBySipId (rq_fromId (?q ''1'')) (rt_peers rt1) = Some p" "pi_allowRegister p"
    using server_accepts [OF sample_ok(2) sample_target(2) f disjI2 [OF a(1)] a(2) l n(2) n(1) v(1) a(3)] a(1) by metis
  have m: "map_of (rt_challenges rt1) ?k = Some (spent (sample_counted ''1'') 1 ?c)" "rt_ok rt1" "rt_config rt1 = rt_config sample_challenged"
    using accepted_spends [OF sample_ok(2) sample_target(2) _ r(1)] l n(1) counted_verify(2) by auto
  let ?r = "rt1\<lparr>rt_now := 101\<rparr>" and ?c1 = "spent (sample_counted ''1'') 1 ?c"
  have ok: "rt_ok ?r" using m(2) by (simp add: rt_ok_def)
  have t: "auth_target ?r (?q ''2'') sample_endpoint" using sample_target(2) by (simp add: auth_target_def m(3))
  have k: "challengeKey (?q ''2'') sample_endpoint = ?k" by (simp add: challengeKey_def)
  have c1: "dc_expiresAt ?c1 = 400" "dc_nonce ?c1 = ''n''" "dc_lastNonceCount ?c1 = 1"
    by (simp_all add: spent_def sample_counted_def Let_def new_digest_challenge_def)
  have l2: "live_challenge (rt_now ?r) ?r (challengeKey (?q ''2'') sample_endpoint) = Some ?c1"
    unfolding k by (simp add: live_challenge_def m(1) c1)
  have n2: "nonce_count_ok (rq_digestAuth (?q ''2'')) ?c1 = Some 2" "df_nonce (rq_digestAuth (?q ''2'')) = dc_nonce ?c1"
    unfolding nonce_count_ok_def c1 using o(2) by (simp_all add: word_le_nat_alt sample_counted_def sample_digest_def new_digest_fields_def Let_def)
  have f2: "findBySipId (rq_fromId (?q ''2'')) (rt_peers ?r) = Some p" using r(2) by simp
  from server_accepts [OF ok t f2 disjI2 [OF r(3)] a(2) l2 n2(2) n2(1) v(2) a(3)] show ?thesis using r(1) by blast
qed

theorem registration_needs_digest_witness:
  "\<exists>c. live_challenge 100 sample_challenged ''35:34:r'' = Some c \<and> dc_nonce c = ''n''"
proof -
  obtain rt' where r: "RegisterServer_handle (sample_register\<lparr>rq_digestAuth := sample_digest\<rparr>) sample_challenged = (True, rt')"
    "rt_peers rt' \<noteq> rt_peers sample_challenged" using sample_accepted by blast
  show ?thesis
    using registration_needs_digest [OF sample_ok(2) sample_target(2) r]
    by (auto simp: sample_challenged_def sample_rt_def new_runtime_def challengeKey_def sample_register_def
        sample_endpoint_def new_endpoint_config_def sample_digest_def new_digest_fields_def Let_def)
qed

theorem accepted_digest_is_not_replayed_witness:
  "\<exists>rt1 rt2. RegisterServer_handle (sample_register\<lparr>rq_digestAuth := sample_counted ''1''\<rparr>) sample_challenged = (True, rt1) \<and>
     RegisterServer_handle (sample_register\<lparr>rq_digestAuth := sample_counted ''2''\<rparr>) (rt1\<lparr>rt_now := 101\<rparr>) = (True, rt2) \<and>
     fst (RegisterServer_handle (sample_register\<lparr>rq_digestAuth := sample_counted ''1'', rq_expires := 0\<rparr>) (rt2\<lparr>rt_now := 102\<rparr>)) = False"
proof -
  let ?q = "\<lambda>n. sample_register\<lparr>rq_digestAuth := sample_counted n\<rparr>"
  let ?q' = "sample_register\<lparr>rq_digestAuth := sample_counted ''1'', rq_expires := 0\<rparr>"
  obtain rt1 rt2 where r: "RegisterServer_handle (?q ''1'') sample_challenged = (True, rt1)"
    "RegisterServer_handle (?q ''2'') (rt1\<lparr>rt_now := 101\<rparr>) = (True, rt2)" using counted_accepted by blast
  have n: "df_response (rq_digestAuth (?q n)) \<noteq> []" for n using counted_verify(2) by simp
  have l: "later_node (df_nonce (rq_digestAuth (?q ''1''))) rt1 rt2"
    by (rule later_request [OF later_same _ r(2)]) (use n [of "''2''"] in simp)
  obtain b rt3 where r3: "RegisterServer_handle ?q' (rt2\<lparr>rt_now := 102\<rparr>) = (b, rt3)" by fastforce
  from accepted_digest_is_not_replayed [OF sample_ok(2) sample_target(2) n r(1) l _ _ _ r3]
  show ?thesis using r r3 by simp
qed

theorem challenged_client_is_registered_witness:
  "\<exists>rt1 m d client' rt2 p'. RegisterServer_handle sample_register sample_rt = (True, rt1) \<and>
     sent_messages (rt_sip rt1) = sent_messages (rt_sip sample_rt) @ [m] \<and>
     makeRegisterDigest (new_sip_request\<lparr>rq_digestAuth := new_digest_fields\<lparr>df_realm := sm_authRealm m, df_nonce := sm_authNonce m,
       df_opaque := sm_authOpaque m, df_algorithm := sm_authAlgorithm m, df_qop := ''auth''\<rparr>\<rparr>)
       (new_peer_info\<lparr>pi_sipId := ''34'', pi_username := ''35'', pi_password := ''pw''\<rparr>) new_endpoint_config sample_rt = (d, client') \<and>
     RegisterServer_handle (sample_register\<lparr>rq_digestAuth := d\<rparr>) (rt1\<lparr>rt_now := 101\<rparr>) = (True, rt2) \<and>
     findBySipId ''35'' (rt_peers rt2) = Some p' \<and> pi_registered p'"
proof -
  obtain rt1 where r: "RegisterServer_handle sample_register sample_rt = (True, rt1)"
    "\<exists>m. sent_messages (rt_sip rt1) = sent_messages (rt_sip sample_rt) @ [m]"
    by (simp add: RegisterServer_handle_def Let_def split_beta sample_rt_def new_runtime_def sample_register_def
        findBySipId_def sample_peer_def findEndpointBySipId_def sample_node_config_def sample_endpoint_def new_endpoint_config_def
        endpointRequiresAuth_def new_digest_fields_def new_sip_request_def new_peer_info_def cleanupExpiredChallenges_def
        issueChallenge_def makeRandomNonce_def rt_send_def st_send_def im_ops_def im_send_def new_sip_stack_def
        new_in_memory_transport_def makeAuthChallengeResponse_def makeResponse_def new_sip_message_def rt_createSession_def)
  then obtain m where m: "sent_messages (rt_sip rt1) = sent_messages (rt_sip sample_rt) @ [m]" by blast
  let ?r = "new_sip_request\<lparr>rq_digestAuth := new_digest_fields\<lparr>df_realm := sm_authRealm m, df_nonce := sm_authNonce m,
       df_opaque := sm_authOpaque m, df_algorithm := sm_authAlgorithm m, df_qop := ''auth''\<rparr>\<rparr>"
  let ?p = "new_peer_info\<lparr>pi_sipId := ''34'', pi_username := ''35'', pi_password := ''pw''\<rparr>"
  obtain d cl where d: "makeRegisterDigest ?r ?p new_endpoint_config sample_rt = (d, cl)" by fastforce
  then have u: "df_username d = ''35''" by (auto simp: makeRegisterDigest_def Let_def split_beta split: if_splits)
  have "True \<and> sm_statusCode m = 401 \<and> (\<exists>rt2 p'. RegisterServer_handle (sample_register\<lparr>rq_digestAuth := d\<rparr>) (rt1\<lparr>rt_now := 101\<rparr>) = (True, rt2) \<and>
      findBySipId (rq_fromId sample_register) (rt_peers rt2) = Some p' \<and> pi_registered p' \<and> pi_expires p' = rq_expires sample_register \<and>
      pi_lastRegisterTime p' = 101)"
    by (rule challenged_client_is_registered [OF sample_ok(1) sample_target(1) _ _ _ _ _ r(1) m _ _ _ _ d _ _ refl, where p = sample_peer])
      (simp_all add: u sample_register_def findBySipId_def sample_rt_def sample_peer_def new_sip_request_def new_digest_fields_def
        sample_endpoint_def new_endpoint_config_def new_runtime_def)
  then obtain rt2 p' where a: "RegisterServer_handle (sample_register\<lparr>rq_digestAuth := d\<rparr>) (rt1\<lparr>rt_now := 101\<rparr>) = (True, rt2)"
    "findBySipId ''35'' (rt_peers rt2) = Some p'" "pi_registered p'" by (auto simp: sample_register_def)
  show ?thesis by (intro exI conjI) (rule r(1), rule m, rule d, rule a(1), rule a(2), rule a(3))
qed

text \<open>C24: the decision to ask for a digest is taken from the To header: a REGISTER whose To is not one of the
  node's own ids is accepted from any allowed peer without any digest, also when the endpoint of the node has
  a password.\<close>

theorem foreign_to_header_skips_digest:
  assumes "findEndpointBySipId (rt_config rt) (rq_toId q) = None" and "rq_fromId q \<noteq> []"
    and "findBySipId (rq_fromId q) (rt_peers rt) = Some p" and "pi_relation p = PEER_UPSTREAM \<or> pi_allowRegister p"
    and "rq_expires q \<noteq> 0"
  shows "\<exists>rt' p'. RegisterServer_handle q rt = (True, rt') \<and> findBySipId (rq_fromId q) (rt_peers rt') = Some p' \<and>
    pi_registered p' \<and> pi_expires p' = rq_expires q \<and> pi_lastRegisterTime p' = rt_now rt"
proof -
  have "RegisterServer_handle q rt = accept_register q (cleanupExpiredChallenges (rt_now rt) rt)"
    using assms(1-4) by (auto simp: RegisterServer_handle_def Let_def)
  then show ?thesis using accept_registers [of q "cleanupExpiredChallenges (rt_now rt) rt" p] assms(3,5) by auto
qed

theorem foreign_to_header_skips_digest_witness:
  "endpointRequiresAuth (Some (nc_node (rt_config sample_rt))) \<and>
   (\<exists>rt'. RegisterServer_handle (sample_register\<lparr>rq_toId := ''nobody''\<rparr>) sample_rt = (True, rt') \<and>
     (\<exists>p'. findBySipId ''35'' (rt_peers rt') = Some p' \<and> pi_registered p'))"
  using foreign_to_header_skips_digest [of sample_rt "sample_register\<lparr>rq_toId := ''nobody''\<rparr>" sample_peer]
  by (auto simp: sample_rt_def new_runtime_def sample_node_config_def sample_endpoint_def new_endpoint_config_def
      endpointRequiresAuth_def findEndpointBySipId_def sample_register_def findBySipId_def sample_peer_def)

end
