(* ===== verification/Queries.thy ===== *)
theory Queries
  imports Registration
begin

text \<open>
  Catalog and record queries (\<open>src/src/capabilities/GB28181Capabilities.cpp\<close>): the servers that answer a
  query with a 200 and then send the response messages, and the clients that store what arrives in the
  business state. The handlers satisfy the contract \<open>request_handler\<close>; a catalog queried from a server
  arrives at the client item by item.
\<close>

section \<open>Starting\<close>

definition CatalogClient_onStart :: "('a, 's) runtime \<Rightarrow> bool \<times> ('a, 's) runtime" where
  "CatalogClient_onStart rt = registerSipHandler CatalogClientCapability ''MESSAGE'' ''Response/Catalog'' rt"

definition CatalogServer_onStart :: "('a, 's) runtime \<Rightarrow> bool \<times> ('a, 's) runtime" where
  "CatalogServer_onStart rt = registerSipHandler CatalogServerCapability ''MESSAGE'' ''Query/Catalog'' rt"

definition RecordQueryClient_onStart :: "('a, 's) runtime \<Rightarrow> bool \<times> ('a, 's) runtime" where
  "RecordQueryClient_onStart rt = registerSipHandler RecordQueryClientCapability ''MESSAGE'' ''Response/RecordInfo'' rt"

definition RecordQueryServer_onStart :: "('a, 's) runtime \<Rightarrow> bool \<times> ('a, 's) runtime" where
  "RecordQueryServer_onStart rt = registerSipHandler RecordQueryServerCapability ''MESSAGE'' ''Query/RecordInfo'' rt"

section \<open>Clients\<close>

definition query_session :: "capability \<Rightarrow> string \<Rightarrow> sip_request \<Rightarrow> string \<Rightarrow> session_info" where
  "query_session cap part request state = \<lparr>si_id = cap_name cap @ part @ rq_fromId request,
     si_capability = cap_name cap, si_peerId = rq_fromId request, si_state = state\<rparr>"

definition response_accepted :: "string \<Rightarrow> sip_request \<Rightarrow> bool" where
  "response_accepted cmdType request \<longleftrightarrow> matchesManscdp request ''Response'' cmdType \<and>
     manscdpDeviceMatchesFrom request \<and> manscdpListConsistent request"

definition CatalogClient_handle :: "('a, 's) handler" where
  "CatalogClient_handle request rt =
    (if \<not> response_accepted ''Catalog'' request
     then (False, rt_createSession (query_session CatalogClientCapability '':bad-response:'' request ''bad-xml'') rt)
     else
       let mx = rq_manscdp request;
           rt = rt_createSession (query_session CatalogClientCapability '':response:'' request
                  (responseState ''catalog-response-received'' mx)) rt;
           rt = rt\<lparr>rt_business := appendCatalog (rq_fromId request) (mx_items mx) (rt_business rt)\<rparr>;
           received = peer_itemCount (bs_catalogItems (rt_business rt)) (rq_fromId request)
       in if mx_sumNum mx > 0 \<and> int received \<ge> mx_sumNum mx
          then (True, rt_createSession (query_session CatalogClientCapability '':response:'' request
                 (''catalog-response-complete:sum='' @ dec_int (mx_sumNum mx) @ '',items='' @ dec received)) rt)
          else (True, rt))"

definition RecordQueryClient_handle :: "('a, 's) handler" where
  "RecordQueryClient_handle request rt =
    (if \<not> response_accepted ''RecordInfo'' request
     then (False, rt_createSession (query_session RecordQueryClientCapability '':bad-response:'' request ''bad-xml'') rt)
     else
       let mx = rq_manscdp request;
           rt = rt_createSession (query_session RecordQueryClientCapability '':response:'' request
                  (responseState ''record-response-received'' mx)) rt
       in (True, rt\<lparr>rt_business := updateRecords (rq_fromId request) (mx_items mx) (rt_business rt)\<rparr>))"

section \<open>Servers\<close>

definition bad_query :: "capability \<Rightarrow> ('a, 's) handler" where
  "bad_query cap request rt =
    (False, snd (rt_send (makeResponse request 400 ''Bad Request'')
       (rt_createSession (query_session cap '':bad-query:'' request ''bad-xml'') rt)))"

text \<open>One response message of the loop over the bodies.\<close>

definition send_catalog_body :: "peer_info \<Rightarrow> endpoint_config \<Rightarrow> string \<Rightarrow> ('a, 's) runtime \<Rightarrow> ('a, 's) runtime" where
  "send_catalog_body peer local body rt =
    (let (callId, rt) = nextOutboundCallId ''catalog-response'' (ep_sipId local) rt;
         catalog = (makeRequest peer local ''MESSAGE'' ''Response/Catalog'')
           \<lparr>sm_body := body, sm_contentType := ''Application/MANSCDP+xml'', sm_callId := callId, sm_cseq := ''1''\<rparr>
     in snd (rt_send catalog rt))"

text \<open>The number of a default response is drawn only when the catalog file cannot be used, which is when
  there is an error text.\<close>

definition respond_catalog ::
  "'a node_env \<Rightarrow> string \<Rightarrow> peer_info \<Rightarrow> endpoint_config \<Rightarrow> ('a, 's) runtime \<Rightarrow> ('a, 's) runtime" where
  "respond_catalog env sn peer local rt =
    (let (ownSn, rt') = nextSn rt;
         (catalogBodies, catalogError) = makeCatalogResponseBodies (en_catalog env) ownSn
           (mc_catalogFile (nc_media (rt_config rt))) (ep_sipId local) sn
     in fold (send_catalog_body peer local) catalogBodies (if catalogError = [] then rt else rt'))"

definition CatalogServer_handle :: "'a node_env \<Rightarrow> ('a, 's) handler" where
  "CatalogServer_handle env request rt =
    (if \<not> matchesManscdp request ''Query'' ''Catalog'' \<or> \<not> manscdpTargetsKnownEndpoint request (rt_config rt)
     then bad_query CatalogServerCapability request rt
     else
       let rt = rt_createSession (query_session CatalogServerCapability '':'' request ''catalog-query-received'') rt;
           (_, rt) = rt_send (makeResponse request 200 ''OK'') rt
       in case findBySipId (rq_fromId request) (rt_peers rt) of
            None \<Rightarrow> (True, rt)
          | Some peer \<Rightarrow>
              (case localEndpointForPeer (rt_config rt) of
                 None \<Rightarrow> (True, rt)
               | Some local \<Rightarrow>
                   let (sn, rt) = (if mx_sn (rq_manscdp request) = []
                          then let (n, rt) = nextSn rt in (dec_int n, rt) else (mx_sn (rq_manscdp request), rt))
                   in (True, respond_catalog env sn peer local rt)))"

definition RecordQueryServer_handle :: "('a, 's) handler" where
  "RecordQueryServer_handle request rt =
    (if \<not> matchesManscdp request ''Query'' ''RecordInfo'' \<or> \<not> manscdpTargetsKnownEndpoint request (rt_config rt)
     then bad_query RecordQueryServerCapability request rt
     else
       let rt = rt_createSession (query_session RecordQueryServerCapability '':'' request ''record-query-received'') rt;
           (_, rt) = rt_send (makeResponse request 200 ''OK'') rt
       in case findBySipId (rq_fromId request) (rt_peers rt) of
            None \<Rightarrow> (True, rt)
          | Some peer \<Rightarrow>
              (case localEndpointForPeer (rt_config rt) of
                 None \<Rightarrow> (True, rt)
               | Some local \<Rightarrow>
                   let (sn, rt) = nextSn rt;
                       record = (makeRequest peer local ''MESSAGE'' ''Response/RecordInfo'')
                         \<lparr>sm_body := makeResponseBody sn ''Response'' ''RecordInfo'' (ep_sipId local) ''OK'',
                          sm_contentType := ''Application/MANSCDP+xml''\<rparr>
                   in (True, snd (rt_send record rt))))"

section \<open>The handlers satisfy the contract\<close>

lemma keeps_received:
  "rt_business r = b \<Longrightarrow> keeps r (r\<lparr>rt_business := appendCatalog p is b\<rparr>)"
  "rt_business r = b \<Longrightarrow> keeps r (r\<lparr>rt_business := updateRecords p is b\<rparr>)"
  by (auto intro!: keeps_business simp: appendCatalog_def updateRecords_def)

lemma keeps_CatalogClient: "keeps rt (snd (CatalogClient_handle q rt))"
  by (auto simp: CatalogClient_handle_def Let_def intro!: keeps_session keeps_trans [OF keeps_session keeps_received(1)]
      keeps_trans [OF keeps_trans [OF keeps_session keeps_received(1)] keeps_session])

interpretation cc: request_handler CatalogClient_handle
  by unfold_locales (rule keeps_CatalogClient)

lemma keeps_RecordQueryClient: "keeps rt (snd (RecordQueryClient_handle q rt))"
  by (auto simp: RecordQueryClient_handle_def Let_def intro!: keeps_session keeps_trans [OF keeps_session keeps_received(2)])

interpretation qc: request_handler RecordQueryClient_handle
  by unfold_locales (rule keeps_RecordQueryClient)

lemma keeps_bad_query: "keeps rt (snd (bad_query cap q rt))"
  by (auto simp: bad_query_def intro!: keeps_steps)

lemma keeps_send_catalog_body: "keeps rt (send_catalog_body p l body rt)"
  by (auto simp: send_catalog_body_def split_beta Let_def intro!: keeps_steps)

lemma keeps_respond_catalog: "keeps rt (respond_catalog env sn p l rt)"
proof -
  have f: "keeps r s \<Longrightarrow> keeps r (fold (send_catalog_body p l) bs s)" for r s :: "('a, 's) runtime" and bs
    by (erule keeps_trans) (rule keeps_fold, rule keeps_send_catalog_body)
  show ?thesis by (auto simp: respond_catalog_def Let_def split_beta keeps_nextSn intro!: f)
qed

lemma keeps_CatalogServer: "keeps rt (snd (CatalogServer_handle env q rt))"
  by (auto simp: CatalogServer_handle_def Let_def split_beta keeps_bad_query
      intro!: keeps_trans [OF _ keeps_respond_catalog] keeps_steps split: option.split)

interpretation cs: request_handler "CatalogServer_handle env" for env
  by unfold_locales (rule keeps_CatalogServer)

lemma keeps_RecordQueryServer: "keeps rt (snd (RecordQueryServer_handle q rt))"
  by (auto simp: RecordQueryServer_handle_def Let_def split_beta keeps_bad_query
      intro!: keeps_steps split: option.split)

interpretation qs: request_handler RecordQueryServer_handle
  by unfold_locales (rule keeps_RecordQueryServer)



section \<open>A catalog is synchronized\<close>

text \<open>The stack is started and its transport runs, so that a message with a method goes out.\<close>

definition online :: "('a, 's) runtime \<Rightarrow> bool" where
  "online rt \<longleftrightarrow> st_started (rt_sip rt) \<and> im_running (st_transport (rt_sip rt))"

lemma rt_send_online:
  assumes "online rt" "sm_method m \<noteq> []"
  shows "sent_messages (rt_sip (snd (rt_send m rt))) = sent_messages (rt_sip rt) @ [m]"
    "online (snd (rt_send m rt))"
  using assms by (simp_all add: online_def rt_send_def st_send_def im_ops_def im_send_def)

lemma online_fields [simp]:
  "online (rt_createSession s rt) = online rt" "online (rt\<lparr>rt_nextSn := n\<rparr>) = online rt"
  "online (snd (nextOutboundCallId p i rt)) = online rt" "online (snd (nextSn rt)) = online rt"
  "rt_sip (snd (nextOutboundCallId p i rt)) = rt_sip rt" "rt_sip (snd (nextSn rt)) = rt_sip rt"
  by (simp_all add: online_def nextOutboundCallId_def nextSn_def Let_def)

lemma send_catalog_body_sent:
  assumes "online rt"
  shows "\<exists>m. sent_messages (rt_sip (send_catalog_body p l body rt)) = sent_messages (rt_sip rt) @ [m] \<and>
    sm_body m = body \<and> sm_fromId m = ep_sipId l \<and> sm_toId m = pi_sipId p" "online (send_catalog_body p l body rt)"
  using assms by (simp_all add: send_catalog_body_def Let_def split_beta rt_send_online makeRequest_def)

lemma send_catalog_bodies_sent:
  assumes "online rt"
  shows "\<exists>ms. sent_messages (rt_sip (fold (send_catalog_body p l) bodies rt)) = sent_messages (rt_sip rt) @ ms \<and>
    map sm_body ms = bodies \<and> (\<forall>m \<in> set ms. sm_fromId m = ep_sipId l \<and> sm_toId m = pi_sipId p)"
  using assms
proof (induction bodies arbitrary: rt)
  case (Cons body bodies)
  obtain m where m: "sent_messages (rt_sip (send_catalog_body p l body rt)) = sent_messages (rt_sip rt) @ [m]"
    "sm_body m = body" "sm_fromId m = ep_sipId l" "sm_toId m = pi_sipId p"
    using send_catalog_body_sent(1) [OF Cons.prems] by blast
  obtain ms where ms: "sent_messages (rt_sip (fold (send_catalog_body p l) bodies (send_catalog_body p l body rt))) =
      sent_messages (rt_sip (send_catalog_body p l body rt)) @ ms" "map sm_body ms = bodies"
      "\<forall>m \<in> set ms. sm_fromId m = ep_sipId l \<and> sm_toId m = pi_sipId p"
    using Cons.IH [OF send_catalog_body_sent(2) [OF Cons.prems]] by blast
  show ?case using m ms by (intro exI [of _ "m # ms"]) simp
qed simp

lemma append_item_new: "mi_deviceId item \<notin> set (catalog_ids items) \<Longrightarrow> append_item item items = items @ [item]"
  by (induction items) (auto simp: catalog_ids_def)

text \<open>What the client does with a response of one new item.\<close>

lemma client_step:
  assumes "rt_ok rt" "rq_manscdp q = new_manscdp_message \<lparr>mx_root := ''Response'', mx_cmdType := ''Catalog'', mx_sn := sn,
      mx_deviceId := dev, mx_result := ''OK'', mx_sumNum := n, mx_items := [item]\<rparr>"
    "rq_fromId q = dev" "dev \<noteq> []" "n > 0"
    "mi_deviceId item \<notin> set (catalog_ids (catalogItems dev (rt_business rt)))"
  shows "catalogItems dev (rt_business (snd (CatalogClient_handle q rt))) = catalogItems dev (rt_business rt) @ [item]"
    "rt_ok (snd (CatalogClient_handle q rt))"
    "int (length (catalogItems dev (rt_business rt)) + 1) = n \<Longrightarrow>
      map_of (rt_sessions (snd (CatalogClient_handle q rt))) (cap_name CatalogClientCapability @ '':response:'' @ dev) =
        Some (query_session CatalogClientCapability '':response:'' q
          (''catalog-response-complete:sum='' @ dec_int n @ '',items='' @ dec (nat n)))"
proof -
  have om: "om_ok (bs_catalogItems (rt_business rt))" "om_ok (rt_sessions rt)" using assms(1) by (simp_all add: rt_ok_def)
  have acc: "response_accepted ''Catalog'' q"
    using assms(2-4) by (simp add: response_accepted_def matchesManscdp_def manscdpDeviceMatchesFrom_def
        manscdpListConsistent_def mx_itemCount_def new_manscdp_message_def)
  have at: "catalogItems dev (appendCatalog dev [item] (rt_business rt)) = catalogItems dev (rt_business rt) @ [item]"
    using om assms(6) append_item_new [of item "catalogItems dev (rt_business rt)"]
    by (simp add: catalogItems_def appendCatalog_def at_key_def)
  have cnt: "peer_itemCount (bs_catalogItems (appendCatalog dev [item] (rt_business rt))) dev =
      length (catalogItems dev (rt_business rt)) + 1"
    using at by (simp add: peer_itemCount_def catalogItems_def at_key_def split: option.splits)
  have mx: "mx_items (rq_manscdp q) = [item]" "mx_sumNum (rq_manscdp q) = n" using assms(2) by simp_all
  show "catalogItems dev (rt_business (snd (CatalogClient_handle q rt))) = catalogItems dev (rt_business rt) @ [item]"
    using acc at by (simp add: CatalogClient_handle_def Let_def mx assms(3))
  show "rt_ok (snd (CatalogClient_handle q rt))" using assms(1) by (rule cc.handle_ok)
  show "map_of (rt_sessions (snd (CatalogClient_handle q rt))) (cap_name CatalogClientCapability @ '':response:'' @ dev) =
        Some (query_session CatalogClientCapability '':response:'' q
          (''catalog-response-complete:sum='' @ dec_int n @ '',items='' @ dec (nat n)))"
    if l: "int (length (catalogItems dev (rt_business rt)) + 1) = n"
  proof -
    have r: "length (catalogItems dev (rt_business rt)) + 1 = nat n" "int (nat n) = n" using l assms(5) by simp_all
    define s where "s = query_session CatalogClientCapability '':response:'' q
      (''catalog-response-complete:sum='' @ dec_int n @ '',items='' @ dec (nat n))"
    define s0 where "s0 = query_session CatalogClientCapability '':response:'' q
      (responseState ''catalog-response-received'' (rq_manscdp q))"
    define rt0 where "rt0 = (rt_createSession s0 rt)\<lparr>rt_business := appendCatalog dev [item] (rt_business rt)\<rparr>"
    have h: "snd (CatalogClient_handle q rt) = rt_createSession s rt0"
      using acc cnt r assms(5) by (simp add: CatalogClient_handle_def Let_def mx assms(3) s_def s0_def rt0_def)
    have i: "si_id s = cap_name CatalogClientCapability @ '':response:'' @ dev" "si_id s \<noteq> []"
      by (simp_all add: s_def query_session_def assms(3))
    have o0: "om_ok (rt_sessions rt0)"
      using om(2) by (simp add: rt0_def rt_createSession_def sm_createSession_def)
    show ?thesis unfolding h s_def [symmetric] i(1) [symmetric]
      using o0 i(2) by (simp add: rt_createSession_def sm_createSession_def)
  qed
qed

text \<open>A request that carries a message: the sender and the parsed body.\<close>

definition carries :: "sip_message \<Rightarrow> sip_request \<Rightarrow> bool" where
  "carries m q \<longleftrightarrow> rq_fromId q = sm_fromId m \<and> parseManscdpMessage (sm_body m) = Some (rq_manscdp q)"

definition client_receives :: "sip_request list \<Rightarrow> ('a, 's) runtime \<Rightarrow> ('a, 's) runtime" where
  "client_receives qs rt = fold (\<lambda>q rt. snd (CatalogClient_handle q rt)) qs rt"

definition complete_state :: "nat \<Rightarrow> string" where
  "complete_state n = ''catalog-response-complete:sum='' @ dec_int (int n) @ '',items='' @ dec n"

definition one_item :: "string \<Rightarrow> string \<Rightarrow> nat \<Rightarrow> manscdp_item \<Rightarrow> manscdp_message" where
  "one_item sn dev n item = new_manscdp_message \<lparr>mx_root := ''Response'', mx_cmdType := ''Catalog'', mx_sn := sn,
      mx_deviceId := dev, mx_result := ''OK'', mx_sumNum := int n, mx_items := [item]\<rparr>"

lemma client_items:
  assumes "rt_ok rt" "dev \<noteq> []" "n > 0" "length (catalogItems dev (rt_business rt)) + length items = n" "items \<noteq> []"
    "distinct (catalog_ids (catalogItems dev (rt_business rt) @ items))"
    "map rq_manscdp qs = map (one_item sn dev n) items" "\<forall>q \<in> set qs. rq_fromId q = dev"
  shows "catalogItems dev (rt_business (client_receives qs rt)) = catalogItems dev (rt_business rt) @ items \<and>
    (\<exists>s. map_of (rt_sessions (client_receives qs rt)) (cap_name CatalogClientCapability @ '':response:'' @ dev) = Some s \<and>
       si_state s = complete_state n)"
  using assms
proof (induction items arbitrary: qs rt)
  case (Cons item items)
  obtain q qs' where qs: "qs = q # qs'" using Cons.prems(7) by (cases qs) auto
  have q: "rq_manscdp q = one_item sn dev n item" "rq_fromId q = dev" using Cons.prems(7,8) qs by auto
  have new: "mi_deviceId item \<notin> set (catalog_ids (catalogItems dev (rt_business rt)))"
    using Cons.prems(6) by (auto simp: catalog_ids_def)
  have n: "int n > 0" using Cons.prems(3) by simp
  note step = client_step [OF Cons.prems(1) q(1) [unfolded one_item_def] q(2) Cons.prems(2) n new]
  let ?rt = "snd (CatalogClient_handle q rt)"
  have cr: "client_receives qs rt = client_receives qs' ?rt" by (simp add: client_receives_def qs)
  show ?case
  proof (cases "items = []")
    case True
    then have "qs' = []" using Cons.prems(7) qs by simp
    then show ?thesis
      using step(1) step(3) Cons.prems(4) True unfolding cr
      by (simp add: client_receives_def complete_state_def query_session_def)
  next
    case False
    have "catalogItems dev (rt_business (client_receives qs' ?rt)) = catalogItems dev (rt_business ?rt) @ items \<and>
      (\<exists>s. map_of (rt_sessions (client_receives qs' ?rt)) (cap_name CatalogClientCapability @ '':response:'' @ dev) = Some s \<and>
         si_state s = complete_state n)"
      using Cons.prems step(1,2) False qs by (intro Cons.IH) simp_all
    then show ?thesis unfolding cr step(1) by simp
  qed
qed simp

lemma carried_items:
  assumes "list_all2 carries ms qs" "map parseManscdpMessage (map sm_body ms) = map (\<lambda>i. Some (f i)) items"
    "\<forall>m \<in> set ms. sm_fromId m = dev"
  shows "map rq_manscdp qs = map f items \<and> (\<forall>q \<in> set qs. rq_fromId q = dev)"
  using assms by (induction ms qs arbitrary: items rule: list_all2_induct) (auto simp: carries_def)

text \<open>What the server sends.\<close>

lemma server_catalog:
  assumes "rt_ok srv" "online srv" "rq_method q = ''MESSAGE''" "matchesManscdp q ''Query'' ''Catalog''"
    "manscdpTargetsKnownEndpoint q (rt_config srv)" "findBySipId (rq_fromId q) (rt_peers srv) = Some peer"
    "localEndpointForPeer (rt_config srv) = Some local"
    "en_catalog env (mc_catalogFile (nc_media (rt_config srv))) = CatalogNodes items" "items \<noteq> []"
    "list_all catalog_node_ok items" "xml_text (mx_sn (rq_manscdp q))" "xml_text (ep_sipId local)"
    "int (length items) \<le> INT_MAX"
  shows "\<exists>ms sn. sent_messages (rt_sip (snd (CatalogServer_handle env q srv))) =
      sent_messages (rt_sip srv) @ makeResponse q 200 ''OK'' # ms \<and>
    map parseManscdpMessage (map sm_body ms) = map (\<lambda>i. Some (one_item sn (ep_sipId local) (length items) (catalog_device i))) items \<and>
    (\<forall>m \<in> set ms. sm_fromId m = ep_sipId local \<and> sm_toId m = pi_sipId peer)"
proof -
  define rt1 where "rt1 = snd (rt_send (makeResponse q 200 ''OK'')
    (rt_createSession (query_session CatalogServerCapability '':'' q ''catalog-query-received'') srv))"
  have m: "sm_method (makeResponse q 200 ''OK'') \<noteq> []" by (simp add: makeResponse_def assms(3))
  have on1: "online rt1" "sent_messages (rt_sip rt1) = sent_messages (rt_sip srv) @ [makeResponse q 200 ''OK'']"
    unfolding rt1_def using rt_send_online [of "rt_createSession _ srv", OF _ m] assms(2) by simp_all
  obtain sn rt2 where sn: "(if mx_sn (rq_manscdp q) = [] then let (n, rt) = nextSn rt1 in (dec_int n, rt)
      else (mx_sn (rq_manscdp q), rt1)) = (sn, rt2)" by fastforce
  have s2: "xml_text sn" "online rt2" "rt_sip rt2 = rt_sip rt1" "rt_config rt2 = rt_config srv"
    using sn assms(11) xml_text_dec_int on1(1)
    by (auto simp: nextSn_def online_def rt1_def split: if_splits)
  let ?bs = "fst (makeCatalogResponseBodies (en_catalog env) (fst (nextSn rt2))
      (mc_catalogFile (nc_media (rt_config srv))) (ep_sipId local) sn)"
  have e: "snd (makeCatalogResponseBodies (en_catalog env) (fst (nextSn rt2))
      (mc_catalogFile (nc_media (rt_config srv))) (ep_sipId local) sn) = []"
    using assms(8,9) by (simp add: makeCatalogResponseBodies_def)
  have "snd (CatalogServer_handle env q srv) = respond_catalog env sn peer local rt2"
    using assms(4-7) sn [symmetric]
    by (auto simp: CatalogServer_handle_def Let_def split_beta rt1_def split: if_splits)
  then have h: "snd (CatalogServer_handle env q srv) = fold (send_catalog_body peer local) ?bs rt2"
    using e s2(4) by (simp add: respond_catalog_def split_beta Let_def)
  obtain ms where ms: "sent_messages (rt_sip (fold (send_catalog_body peer local) ?bs rt2)) = sent_messages (rt_sip rt2) @ ms"
    "map sm_body ms = ?bs" "\<forall>m \<in> set ms. sm_fromId m = ep_sipId local \<and> sm_toId m = pi_sipId peer"
    using send_catalog_bodies_sent [OF s2(2)] by blast
  have "map parseManscdpMessage (map sm_body ms) =
      map (\<lambda>i. Some (one_item sn (ep_sipId local) (length items) (catalog_device i))) items"
    unfolding ms(2) one_item_def by (rule catalog_bodies_parsed) (use assms(8-10,12,13) s2(1) in auto)
  then show ?thesis using ms(1,3) on1(2) s2(3) unfolding h
    by (intro exI [of _ ms] exI [of _ sn]) simp
qed

text \<open>C11: a catalog query brings the catalog of the server to the client: the server answers 200 and then sends
  one message per device, and a client that starts the query with an empty catalog for this server and
  receives them in order ends with exactly the devices of the server's catalog file and with the
  session of the query marked complete.\<close>

theorem catalog_is_synchronized:
  assumes "rt_ok srv" and "online srv" and "rq_method q = ''MESSAGE''" and "matchesManscdp q ''Query'' ''Catalog''"
    and "manscdpTargetsKnownEndpoint q (rt_config srv)" and "findBySipId (rq_fromId q) (rt_peers srv) = Some peer"
    and "localEndpointForPeer (rt_config srv) = Some local" and "ep_sipId local \<noteq> []"
    and "en_catalog env (mc_catalogFile (nc_media (rt_config srv))) = CatalogNodes items" and "items \<noteq> []"
    and "list_all catalog_node_ok items" and "distinct (catalog_ids (map catalog_device items))"
    and "xml_text (mx_sn (rq_manscdp q))" and "xml_text (ep_sipId local)" and "int (length items) \<le> INT_MAX"
    and "rt_ok cli" and "catalogItems (ep_sipId local) (rt_business cli) = []"
  shows "\<exists>ms. sent_messages (rt_sip (snd (CatalogServer_handle env q srv))) =
      sent_messages (rt_sip srv) @ makeResponse q 200 ''OK'' # ms \<and> length ms = length items \<and>
    (\<forall>qs. list_all2 carries ms qs \<longrightarrow>
      catalogItems (ep_sipId local) (rt_business (client_receives qs cli)) = map catalog_device items \<and>
      (\<exists>s. map_of (rt_sessions (client_receives qs cli)) (cap_name CatalogClientCapability @ '':response:'' @ ep_sipId local) = Some s \<and>
        si_state s = complete_state (length items)))"
proof -
  obtain ms sn where ms: "sent_messages (rt_sip (snd (CatalogServer_handle env q srv))) =
      sent_messages (rt_sip srv) @ makeResponse q 200 ''OK'' # ms"
    "map parseManscdpMessage (map sm_body ms) = map (\<lambda>i. Some (one_item sn (ep_sipId local) (length items) (catalog_device i))) items"
    "\<forall>m \<in> set ms. sm_fromId m = ep_sipId local \<and> sm_toId m = pi_sipId peer"
    using server_catalog [OF assms(1-7) assms(9-11) assms(13-15)] by blast
  have "catalogItems (ep_sipId local) (rt_business (client_receives qs cli)) = map catalog_device items \<and>
      (\<exists>s. map_of (rt_sessions (client_receives qs cli)) (cap_name CatalogClientCapability @ '':response:'' @ ep_sipId local) = Some s \<and>
        si_state s = complete_state (length items))" if c: "list_all2 carries ms qs" for qs
  proof -
    have "\<forall>m \<in> set ms. sm_fromId m = ep_sipId local" using ms(3) by blast
    from carried_items [OF c ms(2) this]
    have q: "map rq_manscdp qs = map (one_item sn (ep_sipId local) (length items)) (map catalog_device items)"
      "\<forall>q \<in> set qs. rq_fromId q = ep_sipId local" by simp_all
    show ?thesis
      using client_items [OF assms(16,8) _ _ _ _ q] assms(10,12,17) by (simp add: catalog_ids_def)
  qed
  moreover have "length ms = length items" using arg_cong [OF ms(2), of length] by simp
  ultimately show ?thesis using ms(1) by blast
qed


definition sample_local :: endpoint_config where
  "sample_local = new_endpoint_config\<lparr>ep_sipId := ''34''\<rparr>"

definition sample_catalog_server :: "(unit, unit) runtime" where
  "sample_catalog_server = (new_runtime (new_node_config\<lparr>nc_sipEndpoints := [sample_local]\<rparr>) 100 (\<lambda>_. 0))\<lparr>
     rt_peers := [new_peer_info\<lparr>pi_sipId := ''35''\<rparr>],
     rt_sip := new_sip_stack\<lparr>st_started := True, st_transport := new_in_memory_transport\<lparr>im_running := True\<rparr>\<rparr>\<rparr>"

definition sample_env :: "unit node_env" where
  "sample_env = \<lparr>en_adapter = \<lparr>ra_start = \<lambda>_ a. (Inr (), a), ra_sendPayloadPacket = \<lambda>_ a. (Inr (), a),
       ra_stop = \<lambda>a. a, ra_running = \<lambda>_. True\<rparr>, en_newAdapter = (), en_catalog = \<lambda>_. CatalogNodes [sample_node],
     en_files = \<lambda>_. None\<rparr>"

definition sample_query :: sip_request where
  "sample_query = new_sip_request\<lparr>rq_method := ''MESSAGE'', rq_fromId := ''35'', rq_toId := ''34'',
     rq_manscdp := new_manscdp_message\<lparr>mx_root := ''Query'', mx_cmdType := ''Catalog'', mx_sn := ''7'', mx_deviceId := ''34''\<rparr>\<rparr>"

theorem catalog_is_synchronized_witness:
  "\<exists>ms. sent_messages (rt_sip (snd (CatalogServer_handle sample_env sample_query sample_catalog_server))) =
      makeResponse sample_query 200 ''OK'' # ms \<and> length ms = 1"
proof -
  have ok: "rt_ok sample_catalog_server" "rt_ok (new_runtime new_node_config 0 (\<lambda>_. 0) :: (unit, unit) runtime)"
    using new_runtime_ok [of "new_node_config\<lparr>nc_sipEndpoints := [sample_local]\<rparr>" 100 "\<lambda>_. 0"] new_runtime_ok
    by (auto simp: sample_catalog_server_def rt_ok_def)
  have x: "xml_text ''7''" "xml_text ''34''" by (simp_all add: xml_text_def xml_trim_def xml_blank_def)
  have "findEndpointByName (rt_config sample_catalog_server) ''node'' = None"
    "nc_sipEndpoints (rt_config sample_catalog_server) = [sample_local]"
    by (simp_all add: sample_catalog_server_def new_runtime_def findEndpointByName_def sample_local_def new_endpoint_config_def)
  then have l: "localEndpointForPeer (rt_config sample_catalog_server) = Some sample_local"
    by (simp add: localEndpointForPeer_def)
  have "sent_messages (rt_sip sample_catalog_server) = []"
    by (simp add: sample_catalog_server_def new_sip_stack_def new_in_memory_transport_def)
  then show ?thesis
    using catalog_is_synchronized [OF ok(1) _ _ _ _ _ l _ _ _ _ _ _ _ _ ok(2), of sample_query _ sample_env "[sample_node]"]
      sample_node_ok x
    by (auto simp: online_def sample_catalog_server_def sample_query_def new_sip_request_def matchesManscdp_def
        manscdpTargetsKnownEndpoint_def findBySipId_def sample_env_def catalog_ids_def INT_MAX_def catalogItems_def
        new_runtime_def new_business_state_def at_key_def sample_local_def)
qed

end
