(* ===== verification/ManagerPorts.thy ===== *)
theory ManagerPorts
  imports MediaManager
begin

text \<open>
  The invariant of the media manager between two requests of the node: the manager is consistent and the
  allocated ports are exactly the ports of its sessions. The operations a request is made of keep it one
  by one, except that between the allocation of a port and the creation of its session the port is
  allocated without a session; those three steps are taken together.
\<close>

definition manager_ok :: "('a, 's) media_manager \<Rightarrow> bool" where
  "manager_ok mm \<longleftrightarrow> mm_ok mm \<and> no_leak mm"

lemma manager_ok_close: "manager_ok mm \<Longrightarrow> manager_ok (snd (closeSession k mm))"
proof (cases "map_of (mm_sessions mm) k")
  case None
  then show "manager_ok mm \<Longrightarrow> ?thesis" by (simp add: closeSession_def)
next
  case (Some s)
  assume ok: "manager_ok mm"
  let ?mm = "snd (closeSession k mm)"
  have mm: "mm_ok mm" using ok by (simp add: manager_ok_def)
  have m: "map_of (mm_sessions ?mm) = (map_of (mm_sessions mm))(k := None)"
    using Some mm by (simp add: closeSession_def stopRtpSessionAdapter_def Let_def)
  have "mm_allocatedPorts ?mm = mm_allocatedPorts mm - {ms_localRtpPort s}"
    using Some release_ports_ok(3) [OF mm_ok_ports [OF mm_ok_stop [OF mm]], of "ms_localRtpPort s" k]
    by (simp add: closeSession_def stopRtpSessionAdapter_def Let_def)
  then show ?thesis
    using ok mm_ok_close [OF mm surjective_pairing] session_ports_remove [OF mm Some m]
    by (simp add: manager_ok_def no_leak_def)
qed

text \<open>Operations that leave the ports alone: the sessions stay or one of them is rewritten on its port.\<close>

lemma manager_ok_same:
  assumes "manager_ok mm" "mm_ok mm'" "mm_allocatedPorts mm' = mm_allocatedPorts mm" "mm_sessions mm' = mm_sessions mm"
  shows "manager_ok mm'"
  using assms by (simp add: manager_ok_def no_leak_def session_ports_def)

lemma manager_ok_rewrite:
  assumes "manager_ok mm" "mm_ok mm'" "mm_allocatedPorts mm' = mm_allocatedPorts mm"
    "map_of (mm_sessions mm) k = Some s" "ms_localRtpPort s' = ms_localRtpPort s"
    "mm_sessions mm' = om_set k s' (mm_sessions mm)"
  shows "manager_ok mm'"
  using assms session_ports_rewrite [OF _ assms(4-6)] by (simp add: manager_ok_def no_leak_def)

lemma manager_ok_state:
  assumes "manager_ok mm" shows "manager_ok (snd (updateSessionState k st mm))"
proof (cases "map_of (mm_sessions mm) k")
  case None
  then show ?thesis using assms by (simp add: updateSessionState_def)
next
  case (Some s)
  have "mm_ok (snd (updateSessionState k st mm))"
    using assms mm_ok_state [OF _ surjective_pairing, of mm k st] by (simp add: manager_ok_def)
  from manager_ok_rewrite [OF assms this _ Some, of "s\<lparr>ms_state := st\<rparr>"] show ?thesis
    using Some by (simp add: updateSessionState_def)
qed

lemma manager_ok_update:
  assumes "manager_ok mm" "reassembly_ok s" shows "manager_ok (snd (updateSession s mm))"
proof (cases "fst (updateSession s mm)")
  case False
  then have "snd (updateSession s mm) = mm" by (auto simp: updateSession_def split: option.splits if_splits)
  then show ?thesis using assms by simp
next
  case True
  then obtain old where old: "map_of (mm_sessions mm) (ms_id s) = Some old" "ms_localRtpPort s = ms_localRtpPort old"
    "snd (updateSession s mm) = mm\<lparr>mm_sessions := om_set (ms_id s) s (mm_sessions mm)\<rparr>"
    by (auto simp: updateSession_def split: option.splits if_splits)
  have "mm_ok (snd (updateSession s mm))"
    using assms mm_ok_update [OF _ surjective_pairing, of mm s] by (simp add: manager_ok_def)
  from manager_ok_rewrite [OF assms(1) this _ old(1,2)] show ?thesis using old(3) by simp
qed

lemma start_frame:
  "startRtpSessionAdapter ops k a mm = (r, mm') \<Longrightarrow>
    mm_allocatedPorts mm' = mm_allocatedPorts mm \<and> mm_sessions mm' = mm_sessions mm"
  by (auto simp: startRtpSessionAdapter_def Let_def split: option.splits prod.splits sum.splits if_splits)

lemma manager_ok_start: "manager_ok mm \<Longrightarrow> manager_ok (snd (startRtpSessionAdapter ops k a mm))"
  by (rule manager_ok_same, assumption)
    (use mm_ok_start [OF _ surjective_pairing, of mm ops k a] start_frame [OF surjective_pairing, of ops k a mm]
      in \<open>simp_all add: manager_ok_def\<close>)

lemma send_frame_cases:
  "mm_allocatedPorts (snd (sendAnnexBFrame ops k v inc m mm)) = mm_allocatedPorts mm"
  "mm_sessions (snd (sendAnnexBFrame ops k v inc m mm)) = mm_sessions mm \<or>
    (\<exists>s x y z. map_of (mm_sessions mm) k = Some s \<and> mm_sessions (snd (sendAnnexBFrame ops k v inc m mm)) =
      om_set k (s\<lparr>ms_sentRtpPayloadPackets := x, ms_sentRtpPayloadBytes := y, ms_sentVideoFrames := z\<rparr>) (mm_sessions mm))"
  by (auto simp: sendAnnexBFrame_def split: option.splits prod.splits sum.splits)

lemma manager_ok_send:
  assumes "manager_ok mm" shows "manager_ok (snd (sendAnnexBFrame ops k v inc m mm))"
proof -
  have ok: "mm_ok (snd (sendAnnexBFrame ops k v inc m mm))"
    using assms mm_ok_send [OF _ surjective_pairing, of mm ops k v inc m] by (simp add: manager_ok_def)
  show ?thesis
    using send_frame_cases(2) [of ops k v inc m mm]
  proof (elim disjE exE conjE)
    fix s x y z
    assume s: "map_of (mm_sessions mm) k = Some s" "mm_sessions (snd (sendAnnexBFrame ops k v inc m mm)) =
      om_set k (s\<lparr>ms_sentRtpPayloadPackets := x, ms_sentRtpPayloadBytes := y, ms_sentVideoFrames := z\<rparr>) (mm_sessions mm)"
    show ?thesis by (rule manager_ok_rewrite [OF assms ok send_frame_cases(1) s(1) _ s(2)]) simp
  qed (rule manager_ok_same [OF assms ok send_frame_cases(1)])
qed

lemma manager_ok_receive:
  assumes "manager_ok mm" "receiveRtpPacket w k bs mm = Some (r, mm')"
  shows "manager_ok mm'"
proof (cases "map_of (mm_sessions mm) k")
  case None
  then show ?thesis using assms by (simp add: receiveRtpPacket_def)
next
  case (Some s)
  then obtain s' sink where r: "session_receive w bs s (mm_frameSink mm) = Some (r, s', sink)"
    "mm' = mm\<lparr>mm_sessions := om_set k s' (mm_sessions mm), mm_frameSink := sink\<rparr>"
    using assms(2) by (auto simp: receiveRtpPacket_def)
  have "mm_ok mm'" using mm_ok_receive [OF _ assms(2)] assms(1) by (simp add: manager_ok_def)
  from manager_ok_rewrite [OF assms(1) this _ Some, of s'] show ?thesis
    using session_receive_identity [OF r(1)] r(2) by simp
qed

section \<open>Opening a session\<close>

lemma manager_ok_allocate_none:
  assumes "manager_ok mm" "allocateRtpPort mm = (p, mm')" "p \<le> 0"
  shows "manager_ok mm'"
proof -
  have ok: "mm_ok mm" using assms(1) by (simp add: manager_ok_def)
  note a = allocate_ports_ok [OF mm_ok_ports [OF ok] assms(2)]
  have "p = 0"
  proof (rule ccontr)
    assume "p \<noteq> 0"
    then have "p \<in> mm_availablePortSet mm" using a by simp
    then have "0 < p" using mm_ok_ports [OF ok] unfolding ports_ok_def by blast
    then show False using assms(3) by simp
  qed
  then show ?thesis
    using a allocate_frame [OF assms(2)] mm_ok_allocate [OF ok assms(2)] by (intro manager_ok_same [OF assms(1)]) simp_all
qed

lemma allocate_fresh:
  assumes "manager_ok mm" "allocateRtpPort mm = (p, mm')" "p > 0"
  shows "mm_ok mm'" "p \<notin> session_ports mm" "mm_sessions mm' = mm_sessions mm"
    "mm_allocatedPorts mm' = insert p (session_ports mm)"
    "mm_rtpSessionAdapters mm' = mm_rtpSessionAdapters mm"
proof -
  have ok: "mm_ok mm" "no_leak mm" using assms(1) by (simp_all add: manager_ok_def)
  note a = allocate_ports_ok [OF mm_ok_ports [OF ok(1)] assms(2)] and f = allocate_frame [OF assms(2)]
  show "mm_ok mm'" by (rule mm_ok_allocate [OF ok(1) assms(2)])
  show "p \<notin> session_ports mm" "mm_allocatedPorts mm' = insert p (session_ports mm)"
    using a assms(3) ok(2) by (simp_all add: no_leak_def)
  show "mm_sessions mm' = mm_sessions mm" "mm_rtpSessionAdapters mm' = mm_rtpSessionAdapters mm" using f by simp_all
qed

lemma manager_ok_allocate_release:
  assumes "manager_ok mm" "allocateRtpPort mm = (p, mm')" "p > 0"
  shows "manager_ok (releaseRtpPort p mm')"
proof -
  note a = allocate_fresh [OF assms]
  have s: "session_ports mm' = session_ports mm" using a(3) by (simp add: session_ports_def)
  have "mm_allocatedPorts (releaseRtpPort p mm') = session_ports mm"
    using release_ports_ok(3) [OF mm_ok_ports [OF a(1)], of p] a(2,4) by simp
  moreover have "mm_ok (releaseRtpPort p mm')" using mm_ok_release [OF a(1), of p] a(2) s by simp
  ultimately show ?thesis using s by (simp add: manager_ok_def no_leak_def session_ports_def)
qed

lemma createSession_fresh:
  assumes "manager_ok mm" "allocateRtpPort mm = (p, mm1)" "p > 0" "ms_localRtpPort s = p" "ms_id s \<noteq> []"
  shows "fst (createSession s mm1)"
  using allocate_fresh [OF assms(1-3)] assms(3-5) by (simp add: createSession_def Let_def)

lemma session_ports_put:
  assumes "mm_ok mm" "map_of (mm_sessions mm') = (map_of (mm_sessions mm))(k \<mapsto> s)"
  shows "session_ports mm' = insert (ms_localRtpPort s)
    (session_ports mm - (case map_of (mm_sessions mm) k of None \<Rightarrow> {} | Some old \<Rightarrow> {ms_localRtpPort old}))"
proof -
  let ?mm = "mm\<lparr>mm_sessions := om_erase k (mm_sessions mm)\<rparr>"
  have m: "map_of (mm_sessions ?mm) = (map_of (mm_sessions mm))(k := None)" using assms(1) by simp
  have "session_ports mm' = insert (ms_localRtpPort s) (session_ports ?mm)"
    unfolding session_ports_def m assms(2) by (auto split: if_splits)
  moreover have "session_ports ?mm =
      session_ports mm - (case map_of (mm_sessions mm) k of None \<Rightarrow> {} | Some old \<Rightarrow> {ms_localRtpPort old})"
  proof (cases "map_of (mm_sessions mm) k")
    case None
    then have "map_of (mm_sessions ?mm) = map_of (mm_sessions mm)" using m by (simp add: fun_upd_idem)
    then show ?thesis unfolding session_ports_def using None by simp
  next
    case (Some old)
    then show ?thesis using session_ports_remove [OF assms(1) Some m] by simp
  qed
  ultimately show ?thesis by simp
qed

lemma created_sessions: "createSession s mm = (True, mm2) \<Longrightarrow> mm_sessions mm2 = om_set (ms_id s) s (mm_sessions mm)"
  by (cases "map_of (mm_sessions mm) (ms_id s)") (auto simp: createSession_def Let_def split: if_splits)

lemma created_ports:
  "createSession s mm = (True, mm2) \<Longrightarrow> map_of (mm_sessions mm) (ms_id s) = None \<Longrightarrow>
    mm_allocatedPorts mm2 = mm_allocatedPorts mm"
  "createSession s mm = (True, mm2) \<Longrightarrow> map_of (mm_sessions mm) (ms_id s) = Some old \<Longrightarrow>
    ms_localRtpPort old \<noteq> ms_localRtpPort s \<Longrightarrow>
    mm_allocatedPorts mm2 = mm_allocatedPorts (releaseRtpPort (ms_localRtpPort old) mm)"
  by (auto simp: createSession_def Let_def split: if_splits)

lemma manager_ok_open:
  assumes "manager_ok mm" "allocateRtpPort mm = (p, mm1)" "p > 0" "ms_localRtpPort s = p" "reassembly_ok s"
    "createSession s mm1 = (True, mm2)"
  shows "manager_ok mm2"
proof -
  note a = allocate_fresh [OF assms(1-3)]
  have mok: "mm_ok mm" using assms(1) by (simp add: manager_ok_def)
  have om: "om_ok (mm_sessions mm)" using mok by simp
  have "k = ms_id s" if "(k, s') \<in> set (mm_sessions mm)" "ms_localRtpPort s' = p" for k s'
    using that a(2) om_entries [OF om, of k s'] unfolding session_ports_def by blast
  then have un: "port_unshared s mm1" using a(3) assms(4) by (auto simp: port_unshared_def list_all_iff)
  have ok2: "mm_ok mm2" by (rule mm_ok_create [OF a(1) assms(6) un assms(5)])
  have "map_of (mm_sessions mm2) = (map_of (mm_sessions mm))(ms_id s \<mapsto> s)"
    using created_sessions [OF assms(6)] a(3) om by simp
  note sp = session_ports_put [OF mok this, unfolded assms(4)]
  have "mm_allocatedPorts mm2 = session_ports mm2"
  proof (cases "map_of (mm_sessions mm) (ms_id s)")
    case None
    then show ?thesis using created_ports(1) [OF assms(6)] sp a(3,4) by simp
  next
    case (Some old)
    then have old: "ms_localRtpPort old \<in> session_ports mm" unfolding session_ports_def by blast
    then have ne: "ms_localRtpPort old \<noteq> p" using a(2) by blast
    have "mm_allocatedPorts mm2 = insert p (session_ports mm) - {ms_localRtpPort old}"
      using created_ports(2) [OF assms(6)] Some ne assms(4) a(3,4) release_ports_ok(3) [OF mm_ok_ports [OF a(1)]] by simp
    then show ?thesis using sp Some ne by (simp add: insert_Diff_if)
  qed
  then show ?thesis using ok2 by (simp add: manager_ok_def no_leak_def)
qed

lemma manager_ok_open_failed:
  assumes "manager_ok mm" "allocateRtpPort mm = (p, mm1)" "p > 0" "createSession s mm1 = (False, mm2)"
  shows "manager_ok (releaseRtpPort p mm2)"
proof -
  have "mm2 = mm1" using assms(4) by (auto simp: createSession_def Let_def split: if_splits)
  then show ?thesis using manager_ok_allocate_release [OF assms(1-3)] by simp
qed

end
