(* ===== verification/Invite.thy ===== *)
theory Invite
  imports Registration ManagerPorts
begin

text \<open>
  Media dialogs (\<open>src/src/capabilities/GB28181Capabilities.cpp\<close>): the client of INVITE, which confirms or
  drops the session the node opened, and the server of INVITE, ACK and BYE, which opens sessions on ports
  of the pool. The text is that of a build with \<open>GB28181_ENABLE_JRTPLIB\<close>; the adapter class of such a
  build is a parameter. The handlers satisfy the contract \<open>request_handler\<close>: whatever they answer, the
  allocated ports are those of the sessions.
\<close>

section \<open>Starting\<close>

definition InviteClient_onStart :: "('a, 's) runtime \<Rightarrow> bool \<times> ('a, 's) runtime" where
  "InviteClient_onStart rt = registerSipHandler InviteClientCapability ''INVITE'' ''response'' rt"

definition InviteServer_onStart :: "('a, 's) runtime \<Rightarrow> bool \<times> ('a, 's) runtime" where
  "InviteServer_onStart rt =
    (let (ok, rt) = registerSipHandler InviteServerCapability ''INVITE'' ''request'' rt
     in if \<not> ok then (False, rt)
        else let (ok, rt) = registerSipHandler InviteServerCapability ''ACK'' ''request'' rt
          in if \<not> ok then (False, rt) else registerSipHandler InviteServerCapability ''BYE'' ''request'' rt)"

section \<open>The client\<close>

definition downstreamPeerForInviteResponse :: "peer_info list \<Rightarrow> sip_request \<Rightarrow> peer_info option" where
  "downstreamPeerForInviteResponse peers response =
    (let downstream = \<lambda>i. (case findBySipId i peers of
           Some peer \<Rightarrow> if pi_relation peer = PEER_DOWNSTREAM then Some peer else None | None \<Rightarrow> None)
     in case downstream (rq_toId response) of Some peer \<Rightarrow> Some peer | None \<Rightarrow> downstream (rq_fromId response))"

definition sendAckForInviteResponse ::
  "string \<Rightarrow> peer_info \<Rightarrow> string \<Rightarrow> sip_request \<Rightarrow> ('a, 's) runtime \<Rightarrow> bool \<times> ('a, 's) runtime" where
  "sendAckForInviteResponse capability peer targetDeviceId response rt =
    (case localEndpointForPeer (rt_config rt) of
       None \<Rightarrow> (False, createSendSession capability peer ''ack'' False rt)
     | Some local \<Rightarrow>
         (let ack = (makeRequest peer local ''ACK'' ''request'')
                \<lparr>sm_toId := targetDeviceId, sm_callId := rq_callId response, sm_cseq := rq_cseq response,
                 sm_contact := rq_contact response, sm_fromTag := rq_fromTag response, sm_toTag := rq_toTag response\<rparr>;
              (sent, rt) = rt_send ack rt
          in (sent, createSendSession capability peer ''ack'' sent rt)))"

definition rt_closeMedia :: "string \<Rightarrow> ('a, 's) runtime \<Rightarrow> ('a, 's) runtime" where
  "rt_closeMedia sessionId rt = rt\<lparr>rt_media := snd (closeSession sessionId (rt_media rt))\<rparr>"

definition client_dialog :: "sip_request \<Rightarrow> string" where
  "client_dialog request = (if rq_callId request = [] then [] else ''InviteClientCapability:dialog:'' @ rq_callId request)"

text \<open>The session of the table with what the 200 says of the other side.\<close>

definition confirmed_session :: "media_session \<Rightarrow> sdp_info \<Rightarrow> sip_request \<Rightarrow> media_session" where
  "confirmed_session existing sdp request = existing\<lparr>
     ms_remoteIp := sdp_connectionIp sdp, ms_remoteRtpPort := sdp_mediaPort sdp, ms_transport := sdp_transport sdp,
     ms_direction := sdp_direction sdp, ms_remoteContact := rq_contact request, ms_state := ''stream-confirmed''\<rparr>"

definition InviteClient_handle :: "('a, 's) handler" where
  "InviteClient_handle request rt =
    (let name = cap_name InviteClientCapability;
         sessionId = client_dialog request;
         existing = (if sessionId = [] then None else findSession sessionId (rt_media rt));
         peer = (case existing of None \<Rightarrow> downstreamPeerForInviteResponse (rt_peers rt) request
                 | Some s \<Rightarrow> findBySipId (ms_peerId s) (rt_peers rt));
         session = \<lparr>si_id = name @ '':response:'' @ (case existing of None \<Rightarrow> rq_fromId request | Some s \<Rightarrow> ms_targetDeviceId s),
           si_capability = name,
           si_peerId = (case peer of None \<Rightarrow> rq_fromId request | Some p \<Rightarrow> pi_sipId p),
           si_state = ''invite-response:'' @ dec_int (rq_statusCode request)\<rparr>;
         rt = rt_createSession session rt
     in if rq_statusCode request \<ge> 200 \<and> rq_statusCode request < 300
        then (case peer of
            None \<Rightarrow> (False, rt)
          | Some peer \<Rightarrow>
              (case existing of
                 None \<Rightarrow> sendAckForInviteResponse name peer (rq_fromId request) request rt
               | Some existingSession \<Rightarrow>
                   (case parseSdp (rq_body request) of
                      None \<Rightarrow> (False, rt_closeMedia sessionId rt)
                    | Some responseSdp \<Rightarrow>
                        let mediaSession = confirmed_session existingSession responseSdp request;
                            (updated, mm) = updateSession mediaSession (rt_media rt);
                            rt = rt\<lparr>rt_media := mm\<rparr>
                        in if \<not> updated then (False, rt_closeMedia sessionId rt)
                           else let (ackSent, rt) = sendAckForInviteResponse name peer
                                      (ms_targetDeviceId mediaSession) request rt
                             in if \<not> ackSent then (False, rt_closeMedia sessionId rt) else (True, rt))))
        else (True, if existing = None then rt else rt_closeMedia sessionId rt))"

section \<open>The server\<close>

definition server_session :: "sip_request \<Rightarrow> string \<Rightarrow> string \<Rightarrow> session_info" where
  "server_session request sessionId state = \<lparr>si_id = sessionId, si_capability = cap_name InviteServerCapability,
     si_peerId = rq_fromId request, si_state = state\<rparr>"

definition server_dialog :: "sip_request \<Rightarrow> string" where
  "server_dialog request = inviteSessionId (cap_name InviteServerCapability) request"

definition InviteServer_ack :: "'a node_env \<Rightarrow> ('a, 's) handler" where
  "InviteServer_ack env request rt =
    (let sessionId = server_dialog request
     in case findSession sessionId (rt_media rt) of
          None \<Rightarrow> (False, rt)
        | Some mediaSession \<Rightarrow>
            if ms_inviteCseq mediaSession \<noteq> [] \<and> rq_cseq request \<noteq> [] \<and> ms_inviteCseq mediaSession \<noteq> rq_cseq request
            then (False, rt)
            else
              let (started, mm) = (if rtpSessionAdapterRunning (en_adapter env) sessionId (rt_media rt)
                     then (Inr (), rt_media rt)
                     else startRtpSessionAdapter (en_adapter env) sessionId (en_newAdapter env) (rt_media rt));
                  rt = rt\<lparr>rt_media := mm\<rparr>
              in (case started of
                    Inl rtpError \<Rightarrow> (False, rt\<lparr>rt_media := snd (updateSessionState sessionId
                                       (''rtp-start-failed:'' @ rtpError) (rt_media rt))\<rparr>)
                  | Inr _ \<Rightarrow>
                      let (updated, mm) = updateSessionState sessionId ''stream-confirmed'' (rt_media rt);
                          rt = rt\<lparr>rt_media := mm\<rparr>
                      in if \<not> updated then (False, rt)
                         else (True, rt_createSession (server_session request sessionId ''stream-confirmed'') rt)))"

definition InviteServer_bye :: "('a, 's) handler" where
  "InviteServer_bye request rt =
    (let sessionId = server_dialog request;
         (closed, mm) = closeSession sessionId (rt_media rt);
         rt = rt\<lparr>rt_media := mm\<rparr>
     in if \<not> closed
        then (False, snd (rt_send (makeResponse request 481 ''Call/Transaction Does Not Exist'') rt))
        else let rt = rt\<lparr>rt_sessions := snd (sm_closeSession sessionId (rt_sessions rt))\<rparr>;
                 rt = rt_createSession (server_session request
                        (cap_name InviteServerCapability @ '':BYE:'' @ rq_fromId request) ''stream-stopped'') rt
          in (True, snd (rt_send (makeResponse request 200 ''OK'') rt)))"

definition requested_session :: "sip_request \<Rightarrow> sdp_info \<Rightarrow> string \<Rightarrow> int \<Rightarrow> media_session" where
  "requested_session request sdp localIp rtpPort = new_media_session\<lparr>
     ms_id := server_dialog request, ms_peerId := rq_fromId request, ms_localIp := localIp,
     ms_localRtpPort := rtpPort, ms_remoteIp := sdp_connectionIp sdp, ms_remoteRtpPort := sdp_mediaPort sdp,
     ms_transport := sdp_transport sdp, ms_direction := sdp_direction sdp, ms_ssrc := sdp_ssrc sdp,
     ms_callId := rq_callId request, ms_inviteCseq := rq_cseq request, ms_remoteContact := rq_contact request,
     ms_state := ''stream-requested''\<rparr>"

definition requested_state :: "int \<Rightarrow> sdp_info \<Rightarrow> string" where
  "requested_state rtpPort sdp = ''stream-requested:local_rtp='' @ dec_int rtpPort @ '',remote='' @
     sdp_connectionIp sdp @ '':'' @ dec_int (sdp_mediaPort sdp) @ '',transport='' @ sdp_transport sdp @
     (if sdp_ssrc sdp = [] then [] else '',ssrc='' @ sdp_ssrc sdp)"

definition invite_localIp :: "sip_request \<Rightarrow> sdp_info \<Rightarrow> ('a, 's) runtime \<Rightarrow> string" where
  "invite_localIp request sdp rt =
    (let local = (case findBySipId (rq_fromId request) (rt_peers rt) of
           Some _ \<Rightarrow> localEndpointForPeer (rt_config rt)
         | None \<Rightarrow> findEndpointBySipId (rt_config rt) (rq_toId request))
     in case local of Some l \<Rightarrow> ep_sipIp l | None \<Rightarrow> sdp_connectionIp sdp)"

text \<open>The handler from the SDP of the offer on.\<close>

definition answer_invite :: "sdp_info \<Rightarrow> int \<Rightarrow> ('a, 's) handler" where
  "answer_invite requestSdp rtpPort request rt =
    (let sessionId = server_dialog request;
         rt = rt_createSession (server_session request sessionId (requested_state rtpPort requestSdp)) rt;
         mediaSession = requested_session request requestSdp (invite_localIp request requestSdp rt) rtpPort;
         (created, mm) = createSession mediaSession (rt_media rt);
         rt = rt\<lparr>rt_media := mm\<rparr>
     in if \<not> created
        then let rt = rt\<lparr>rt_sessions := snd (sm_closeSession sessionId (rt_sessions rt))\<rparr>;
                 rt = rt\<lparr>rt_media := releaseRtpPort rtpPort (rt_media rt)\<rparr>
          in (False, snd (rt_send (makeResponse request 500 ''Internal Server Error'') rt))
        else (True, snd (rt_send ((makeResponse request 200 ''OK'')
          \<lparr>sm_body := buildInviteResponseSdp (rq_toId request) (ms_localIp mediaSession) rtpPort requestSdp,
           sm_contentType := ''Application/SDP''\<rparr>) rt)))"

definition InviteServer_invite :: "('a, 's) handler" where
  "InviteServer_invite request rt =
    (let (rtpPort, mm) = allocateRtpPort (rt_media rt);
         rt = rt\<lparr>rt_media := mm\<rparr>
     in if rtpPort \<le> 0 then (False, rt)
        else (case parseSdp (rq_body request) of
            None \<Rightarrow>
              let rt = rt\<lparr>rt_media := releaseRtpPort rtpPort (rt_media rt)\<rparr>;
                  rt = rt_createSession (server_session request
                         (cap_name InviteServerCapability @ '':bad-sdp:'' @ rq_fromId request) ''bad-sdp'') rt
              in (False, snd (rt_send (makeResponse request 400 ''Bad Request'') rt))
          | Some requestSdp \<Rightarrow> answer_invite requestSdp rtpPort request rt))"

definition InviteServer_handle :: "'a node_env \<Rightarrow> ('a, 's) handler" where
  "InviteServer_handle env request rt =
    (if rq_method request = ''ACK'' then InviteServer_ack env request rt
     else if rq_method request = ''BYE'' then InviteServer_bye request rt
     else InviteServer_invite request rt)"

section \<open>The handlers satisfy the contract\<close>

lemma rt_ok_manager: "rt_ok rt \<longleftrightarrow> om_ok (rt_sessions rt) \<and> om_ok (rt_challenges rt) \<and> om_ok (bs_catalogItems (rt_business rt)) \<and>
     om_ok (bs_recordItems (rt_business rt)) \<and> manager_ok (rt_media rt)"
  by (simp add: rt_ok_def manager_ok_def)

lemma keeps_manager: "(manager_ok (rt_media rt) \<Longrightarrow> manager_ok m) \<Longrightarrow> keeps rt (rt\<lparr>rt_media := m\<rparr>)"
  by (rule keeps_media) (simp add: manager_ok_def)

lemma keeps_closeMedia: "keeps rt (rt_closeMedia k rt)"
  unfolding rt_closeMedia_def by (rule keeps_manager) (rule manager_ok_close)

text \<open>The media manager moves past the other effects, so that a sequence of steps is one change of the
  manager followed by the rest.\<close>

lemma media_inward:
  "(rt_createSession s rt)\<lparr>rt_media := m\<rparr> = rt_createSession s (rt\<lparr>rt_media := m\<rparr>)"
  "(snd (rt_send msg rt))\<lparr>rt_media := m\<rparr> = snd (rt_send msg (rt\<lparr>rt_media := m\<rparr>))"
  "(createSendSession c p st b rt)\<lparr>rt_media := m\<rparr> = createSendSession c p st b (rt\<lparr>rt_media := m\<rparr>)"
  "rt\<lparr>rt_sessions := ss, rt_media := m\<rparr> = (rt\<lparr>rt_media := m\<rparr>)\<lparr>rt_sessions := ss\<rparr>"
  by (simp_all add: rt_createSession_def rt_send_def createSendSession_def split_beta)

lemma keeps_ack_sent: "keeps rt (snd (sendAckForInviteResponse c p t q rt))"
  by (auto simp: sendAckForInviteResponse_def Let_def split_beta keeps_createSendSession
      intro!: keeps_steps split: option.split)

lemma reassembly_confirmed: "reassembly_ok (confirmed_session s sdp q) = reassembly_ok s"
  by (simp add: confirmed_session_def reassembly_ok_def)

lemma reassembly_requested: "reassembly_ok (requested_session q sdp ip p)"
  by (simp add: requested_session_def reassembly_ok_def new_media_session_def)

lemma keeps_confirm:
  assumes "rt_media r = m" "findSession k m = Some s"
  shows "keeps r (r\<lparr>rt_media := snd (updateSession (confirmed_session s sdp q) m)\<rparr>)"
proof (rule keeps_manager)
  assume "manager_ok (rt_media r)"
  then have m: "manager_ok m" "mm_ok m" using assms(1) by (simp_all add: manager_ok_def)
  have "reassembly_ok s" using mm_okD(4) [OF m(2), of k s] assms(2) by (simp add: findSession_def)
  then show "manager_ok (snd (updateSession (confirmed_session s sdp q) m))"
    using manager_ok_update [OF m(1)] by (simp add: reassembly_confirmed)
qed

lemma keeps_InviteClient: "keeps rt (snd (InviteClient_handle q rt))"
proof -
  note s = keeps_session and c = keeps_trans [OF _ keeps_closeMedia] and u = keeps_trans [OF s keeps_confirm]
  show ?thesis
    by (auto simp: InviteClient_handle_def Let_def split_beta keeps_session
        intro!: c s keeps_trans [OF _ keeps_ack_sent] u split: option.split)
qed

interpretation ic: request_handler InviteClient_handle
  by unfold_locales (rule keeps_InviteClient)

lemma keeps_InviteServer_ack: "keeps rt (snd (InviteServer_ack env q rt))"
proof -
  let ?k = "server_dialog q" and ?m = "rt_media rt"
  have st: "keeps rt (rt\<lparr>rt_media := snd (updateSessionState k t m)\<rparr>)" if "manager_ok ?m \<Longrightarrow> manager_ok m" for k t m
    using that by (intro keeps_manager manager_ok_state)
  have started: "manager_ok ?m \<Longrightarrow> manager_ok (snd (startRtpSessionAdapter (en_adapter env) ?k (en_newAdapter env) ?m))"
    by (rule manager_ok_start)
  show ?thesis
    by (auto simp: InviteServer_ack_def Let_def split_beta intro!: st started keeps_manager keeps_trans [OF _ keeps_session]
        manager_ok_state split: option.split sum.split)
qed

lemma keeps_close_session: "keeps rt (rt\<lparr>rt_sessions := snd (sm_closeSession k (rt_sessions rt))\<rparr>)"
  by (rule keeps_sessions) (simp add: sm_closeSession_def)

lemma keeps_closed_session:
  "keeps r s \<Longrightarrow> rt_sessions s = ss \<Longrightarrow> keeps r (s\<lparr>rt_sessions := snd (sm_closeSession k ss)\<rparr>)"
  using keeps_trans [OF _ keeps_close_session] by blast

lemma keeps_InviteServer_bye: "keeps rt (snd (InviteServer_bye q rt))"
proof -
  have m: "keeps rt (rt\<lparr>rt_media := snd (closeSession k (rt_media rt))\<rparr>)" for k
    by (rule keeps_manager) (rule manager_ok_close)
  have "keeps rt ((rt\<lparr>rt_media := snd (closeSession k (rt_media rt))\<rparr>)\<lparr>rt_sessions := snd (sm_closeSession k (rt_sessions rt))\<rparr>)" for k
    by (rule keeps_closed_session [OF m]) simp
  then show ?thesis
    using m by (auto simp: InviteServer_bye_def Let_def split_beta intro!: keeps_steps m)
qed

text \<open>The three steps of opening a session, as one change of the manager.\<close>

lemma keeps_opened:
  assumes "allocateRtpPort (rt_media rt) = (p, m)"
  shows "p \<le> 0 \<Longrightarrow> keeps rt (rt\<lparr>rt_media := m\<rparr>)"
    and "0 < p \<Longrightarrow> keeps rt (rt\<lparr>rt_media := releaseRtpPort p m\<rparr>)"
    and "0 < p \<Longrightarrow> ms_localRtpPort s = p \<Longrightarrow> reassembly_ok s \<Longrightarrow> createSession s m = (True, m') \<Longrightarrow>
      keeps rt (rt\<lparr>rt_media := m'\<rparr>)"
    and "0 < p \<Longrightarrow> createSession s m = (False, m') \<Longrightarrow> keeps rt (rt\<lparr>rt_media := releaseRtpPort p m'\<rparr>)"
  using assms
  by (auto intro: keeps_manager manager_ok_allocate_none manager_ok_allocate_release manager_ok_open manager_ok_open_failed)

lemma keeps_answer:
  assumes "allocateRtpPort (rt_media rt) = (p, m)" "0 < p"
  shows "keeps rt (snd (answer_invite sdp p q (rt\<lparr>rt_media := m\<rparr>)))"
proof -
  define r where "r = rt_createSession (server_session q (server_dialog q) (requested_state p sdp)) (rt\<lparr>rt_media := m\<rparr>)"
  define s where "s = requested_session q sdp (invite_localIp q sdp r) p"
  obtain b m' where c: "createSession s m = (b, m')" by fastforce
  have s: "ms_localRtpPort s = p" "reassembly_ok s" unfolding s_def by (simp_all add: reassembly_requested) (simp add: requested_session_def)
  have rm: "rt_media r = m" by (simp add: r_def)
  have in1: "keeps rt (r\<lparr>rt_media := mm\<rparr>)" if "keeps rt (rt\<lparr>rt_media := mm\<rparr>)" for mm
    using that unfolding r_def media_inward by (auto intro!: keeps_steps)
  show ?thesis
  proof (cases b)
    case True
    then have "snd (answer_invite sdp p q (rt\<lparr>rt_media := m\<rparr>)) = snd (rt_send ((makeResponse q 200 ''OK'')
        \<lparr>sm_body := buildInviteResponseSdp (rq_toId q) (ms_localIp s) p sdp, sm_contentType := ''Application/SDP''\<rparr>)
        (r\<lparr>rt_media := m'\<rparr>))"
      using c by (simp add: answer_invite_def r_def [symmetric] s_def [symmetric] rm Let_def)
    then show ?thesis
      using keeps_opened(3) [OF assms s] c True by (auto intro!: keeps_steps in1)
  next
    case False
    then have "snd (answer_invite sdp p q (rt\<lparr>rt_media := m\<rparr>)) = snd (rt_send (makeResponse q 500 ''Internal Server Error'')
        (r\<lparr>rt_media := releaseRtpPort p m', rt_sessions := snd (sm_closeSession (server_dialog q) (rt_sessions r))\<rparr>))"
      using c by (simp add: answer_invite_def r_def [symmetric] s_def [symmetric] rm Let_def media_inward)
    then show ?thesis
      using keeps_opened(4) [OF assms] c False
      by (auto intro!: keeps_trans [OF _ keeps_send] keeps_closed_session in1)
  qed
qed

lemma keeps_InviteServer_invite: "keeps rt (snd (InviteServer_invite q rt))"
proof (cases "allocateRtpPort (rt_media rt)")
  case (Pair p m)
  note k = keeps_opened [OF Pair]
  show ?thesis
    using k(1,2) keeps_answer [OF Pair] Pair
    by (auto simp: InviteServer_invite_def Let_def intro!: keeps_steps split: option.split)
qed

lemma keeps_InviteServer: "keeps rt (snd (InviteServer_handle env q rt))"
  by (simp add: InviteServer_handle_def keeps_InviteServer_ack keeps_InviteServer_bye keeps_InviteServer_invite)

interpretation si: request_handler "InviteServer_handle env" for env
  by unfold_locales (rule keeps_InviteServer)

end
