(* ===== verification/Dialogs.thy ===== *)
theory Dialogs
  imports Invite Queries
begin

text \<open>
  What the handlers of INVITE, ACK and BYE guarantee for a dialog, and two situations they do not handle: the
  BYE of the other side for a dialog the node opened, and an INVITE that repeats a Call-ID.
\<close>


section \<open>What a dialog does to the manager\<close>

text \<open>Only the session \<open>k\<close> is touched and the ports of the pool stay.\<close>

definition only_dialog :: "string \<Rightarrow> ('a, 's) media_manager \<Rightarrow> ('a, 's) media_manager \<Rightarrow> bool" where
  "only_dialog k mm mm' \<longleftrightarrow> (map_of (mm_sessions mm'))(k := None) = (map_of (mm_sessions mm))(k := None) \<and>
     port_pool mm' = port_pool mm"

lemma only_dialog_trans: "only_dialog k a b \<Longrightarrow> only_dialog k b c \<Longrightarrow> only_dialog k a c"
  by (simp add: only_dialog_def)

lemma only_dialog_close:
  assumes "mm_ok mm" "closeSession k mm = (b, mm')"
  shows "only_dialog k mm mm'" "map_of (mm_sessions mm') k = None" "b \<longleftrightarrow> map_of (mm_sessions mm) k \<noteq> None"
proof -
  have "only_dialog k mm mm' \<and> map_of (mm_sessions mm') k = None \<and> (b \<longleftrightarrow> map_of (mm_sessions mm) k \<noteq> None)"
  proof (cases "map_of (mm_sessions mm) k")
    case None
    then show ?thesis using assms by (simp add: closeSession_def only_dialog_def)
  next
    case (Some s)
    have "mm' = (releaseRtpPort (ms_localRtpPort s) (stopRtpSessionAdapter k mm))\<lparr>mm_sessions := om_erase k (mm_sessions mm)\<rparr>" "b"
      using Some assms(2) by (simp_all add: closeSession_def stopRtpSessionAdapter_def Let_def)
    moreover have "port_pool (releaseRtpPort (ms_localRtpPort s) (stopRtpSessionAdapter k mm)) = port_pool mm"
      using release_ports_ok(2) [OF mm_ok_ports [OF mm_ok_stop [OF assms(1)]]]
      by (simp add: port_pool_def stopRtpSessionAdapter_def)
    ultimately show ?thesis using Some assms(1) by (simp add: only_dialog_def port_pool_def)
  qed
  then show "only_dialog k mm mm'" "map_of (mm_sessions mm') k = None" "b \<longleftrightarrow> map_of (mm_sessions mm) k \<noteq> None" by simp_all
qed

lemma only_dialog_state:
  assumes "mm_ok mm" shows "only_dialog k mm (snd (updateSessionState k st mm))"
    "map_of (mm_sessions (snd (updateSessionState k st mm))) k = None \<longleftrightarrow> map_of (mm_sessions mm) k = None"
  using assms by (auto simp: only_dialog_def updateSessionState_def port_pool_def split: option.splits)

lemma only_dialog_start: "only_dialog k mm (snd (startRtpSessionAdapter ops k a mm))"
  using start_frame [OF surjective_pairing, of ops k a mm]
  by (auto simp: only_dialog_def port_pool_def startRtpSessionAdapter_def Let_def split: option.splits prod.splits sum.splits if_splits)

lemma only_dialog_create:
  assumes "mm_ok mm" "createSession s mm = (b, mm')"
  shows "only_dialog (ms_id s) mm mm'"
proof (cases rule: createSession_cases [of s mm])
  case rejected
  then show ?thesis using assms by (simp add: only_dialog_def)
next
  case (created mm1)
  have "port_pool mm1 = port_pool mm"
    using created(5) release_ports_ok(2) [OF mm_ok_ports [OF assms(1)]] by auto
  then show ?thesis using created(1) assms by (simp add: only_dialog_def port_pool_def)
qed

lemma only_dialog_allocate:
  assumes "mm_ok mm" "allocateRtpPort mm = (p, mm')" shows "only_dialog k mm mm'"
  using allocate_ports_ok [OF mm_ok_ports [OF assms(1)] assms(2)] allocate_frame [OF assms(2)] by (simp add: only_dialog_def)

lemma only_dialog_release: "mm_ok mm \<Longrightarrow> only_dialog k mm (releaseRtpPort p mm)"
  using release_ports_ok(2) [OF mm_ok_ports] by (simp add: only_dialog_def)

lemma server_dialog_nonempty [simp]: "server_dialog q \<noteq> []"
  by (simp add: server_dialog_def inviteSessionId_def)

text \<open>An INVITE that is answered with 200.\<close>

lemma invite_accepted:
  assumes "manager_ok (rt_media rt)" "InviteServer_invite q rt = (True, rt')"
  shows "\<exists>p sdp ip mm. allocateRtpPort (rt_media rt) = (p, mm) \<and> 0 < p \<and> parseSdp (rq_body q) = Some sdp \<and>
    createSession (requested_session q sdp ip p) mm = (True, rt_media rt')"
proof (cases "allocateRtpPort (rt_media rt)")
  case (Pair p m)
  obtain sdp where sdp: "parseSdp (rq_body q) = Some sdp" "0 < p"
    using assms(2) Pair by (auto simp: InviteServer_invite_def Let_def split: if_splits option.splits)
  let ?r = "rt_createSession (server_session q (server_dialog q) (requested_state p sdp)) (rt\<lparr>rt_media := m\<rparr>)"
  let ?ip = "invite_localIp q sdp ?r"
  have a: "answer_invite sdp p q (rt\<lparr>rt_media := m\<rparr>) = (True, rt')"
    using assms(2) Pair sdp by (simp add: InviteServer_invite_def Let_def)
  obtain b m' where c: "createSession (requested_session q sdp ?ip p) m = (b, m')" by fastforce
  have "b" "rt_media rt' = m'"
    using a c by (auto simp: answer_invite_def Let_def split: if_splits)
  then have "createSession (requested_session q sdp ?ip p) m = (True, rt_media rt')" using c by simp
  then show ?thesis using Pair sdp by blast
qed

lemma invite_only_dialog:
  assumes "rt_ok rt" "InviteServer_invite q rt = (True, rt')"
  shows "only_dialog (server_dialog q) (rt_media rt) (rt_media rt')"
    "map_of (mm_sessions (rt_media rt')) (server_dialog q) \<noteq> None"
proof -
  have ok: "manager_ok (rt_media rt)" "mm_ok (rt_media rt)" using assms(1) by (simp_all add: rt_ok_manager manager_ok_def)
  obtain p sdp ip mm where c: "allocateRtpPort (rt_media rt) = (p, mm)" "0 < p"
    "createSession (requested_session q sdp ip p) mm = (True, rt_media rt')"
    using invite_accepted [OF ok(1) assms(2)] by blast
  have i: "ms_id (requested_session q sdp ip p) = server_dialog q" by (simp add: requested_session_def)
  have mm: "mm_ok mm" by (rule mm_ok_allocate [OF ok(2) c(1)])
  show "only_dialog (server_dialog q) (rt_media rt) (rt_media rt')"
    using only_dialog_trans [OF only_dialog_allocate [OF ok(2) c(1)] only_dialog_create [OF mm c(3)]] i by simp
  show "map_of (mm_sessions (rt_media rt')) (server_dialog q) \<noteq> None"
    using created_sessions [OF c(3)] mm i by simp
qed

lemma ack_only_dialog:
  assumes "rt_ok rt"
  shows "only_dialog (server_dialog q) (rt_media rt) (rt_media (snd (InviteServer_ack env q rt)))"
    "map_of (mm_sessions (rt_media (snd (InviteServer_ack env q rt)))) (server_dialog q) = None \<longleftrightarrow>
       map_of (mm_sessions (rt_media rt)) (server_dialog q) = None"
proof -
  let ?k = "server_dialog q" and ?m = "rt_media rt"
  have ok: "mm_ok ?m" using assms by (simp add: rt_ok_manager manager_ok_def)
  let ?s = "startRtpSessionAdapter (en_adapter env) ?k (en_newAdapter env) ?m"
  have sok: "mm_ok (snd ?s)" by (rule mm_ok_start [OF ok surjective_pairing])
  have u: "only_dialog ?k ?m (snd (updateSessionState ?k t m)) \<and>
      (map_of (mm_sessions (snd (updateSessionState ?k t m))) ?k = None \<longleftrightarrow> map_of (mm_sessions ?m) ?k = None)"
    if "m = ?m \<or> m = snd ?s" for t m
    using that only_dialog_state [OF ok, of ?k t] only_dialog_state [OF sok, of ?k t] only_dialog_trans [OF only_dialog_start]
      start_frame [OF surjective_pairing, of "en_adapter env" ?k "en_newAdapter env" ?m] by auto
  have refl: "only_dialog ?k ?m ?m" by (simp add: only_dialog_def)
  have "only_dialog ?k ?m (rt_media (snd (InviteServer_ack env q rt))) \<and>
    (map_of (mm_sessions (rt_media (snd (InviteServer_ack env q rt)))) ?k = None \<longleftrightarrow> map_of (mm_sessions ?m) ?k = None)"
    using u refl by (auto simp: InviteServer_ack_def Let_def split_beta split: option.split sum.split)
  then show "only_dialog ?k ?m (rt_media (snd (InviteServer_ack env q rt)))"
    "map_of (mm_sessions (rt_media (snd (InviteServer_ack env q rt)))) ?k = None \<longleftrightarrow> map_of (mm_sessions ?m) ?k = None"
    by simp_all
qed


definition acks :: "'a node_env \<Rightarrow> sip_request list \<Rightarrow> ('a, 's) runtime \<Rightarrow> ('a, 's) runtime" where
  "acks env qs rt = fold (\<lambda>q rt. snd (InviteServer_handle env q rt)) qs rt"

lemma acks_only_dialog:
  assumes "rt_ok rt" "\<forall>q \<in> set qs. rq_method q = ''ACK'' \<and> server_dialog q = k"
  shows "rt_ok (acks env qs rt) \<and> only_dialog k (rt_media rt) (rt_media (acks env qs rt)) \<and>
    (map_of (mm_sessions (rt_media (acks env qs rt))) k = None \<longleftrightarrow> map_of (mm_sessions (rt_media rt)) k = None)"
  using assms
proof (induction qs arbitrary: rt)
  case (Cons q qs)
  let ?r = "snd (InviteServer_ack env q rt)"
  have h: "acks env (q # qs) rt = acks env qs ?r" using Cons.prems(2) by (simp add: acks_def InviteServer_handle_def)
  have k: "server_dialog q = k" using Cons.prems(2) by simp
  have ok: "rt_ok ?r" using keeps_InviteServer_ack [of rt env q] Cons.prems(1) by (simp add: keeps_def)
  note a = ack_only_dialog [OF Cons.prems(1), where q = q and env = env, unfolded k]
  from Cons.IH [OF ok] Cons.prems(2) have i: "rt_ok (acks env qs ?r)" "only_dialog k (rt_media ?r) (rt_media (acks env qs ?r))"
    "map_of (mm_sessions (rt_media (acks env qs ?r))) k = None \<longleftrightarrow> map_of (mm_sessions (rt_media ?r)) k = None" by simp_all
  show ?case unfolding h using i only_dialog_trans [OF a(1) i(2)] a(2) by simp
qed (simp add: acks_def only_dialog_def)

lemma available_ports: "mm_ok mm \<Longrightarrow> mm_availablePortSet mm = port_pool mm - mm_allocatedPorts mm"
  using mm_ok_ports [of mm] by (auto simp: ports_ok_def port_pool_def)

lemma session_ports_cong: "map_of (mm_sessions mm') = map_of (mm_sessions mm) \<Longrightarrow> session_ports mm' = session_ports mm"
  by (simp add: session_ports_def)

text \<open>C10: a dialog gives back what it took: after an INVITE that was answered with 200, any ACKs of its dialog,
  started RTP adapter or not, and the BYE of the dialog, which is answered with 200, the manager has the
  sessions and the free ports it had before the INVITE.\<close>

theorem dialog_returns_its_port:
  assumes "rt_ok rt" and "findSession (server_dialog invite) (rt_media rt) = None"
    and "rq_method invite = ''INVITE''" and "InviteServer_handle env invite rt = (True, rt1)"
    and "\<forall>q \<in> set qs. rq_method q = ''ACK'' \<and> server_dialog q = server_dialog invite"
    and "rq_method bye = ''BYE''" and "server_dialog bye = server_dialog invite"
    and "InviteServer_handle env bye (acks env qs rt1) = (b, rt3)"
  shows "b \<and> map_of (mm_sessions (rt_media rt3)) = map_of (mm_sessions (rt_media rt)) \<and>
    mm_availablePortSet (rt_media rt3) = mm_availablePortSet (rt_media rt) \<and>
    mm_allocatedPorts (rt_media rt3) = mm_allocatedPorts (rt_media rt)"
proof -
  let ?k = "server_dialog invite" and ?rt2 = "acks env qs rt1"
  have inv: "InviteServer_invite invite rt = (True, rt1)" using assms(3,4) by (simp add: InviteServer_handle_def)
  have ok1: "rt_ok rt1" using keeps_InviteServer_invite [of rt invite] assms(1) inv by (simp add: keeps_def)
  note i = invite_only_dialog [OF assms(1) inv] and a = acks_only_dialog [OF ok1 assms(5), of env]
  have m2: "manager_ok (rt_media ?rt2)" "mm_ok (rt_media ?rt2)" using a by (simp_all add: rt_ok_manager manager_ok_def)
  obtain b' m3 where c: "closeSession ?k (rt_media ?rt2) = (b', m3)" by fastforce
  note cl = only_dialog_close [OF m2(2) c]
  have b': b' using cl(3) a i(2) by simp
  have h: "b = b'" "rt_media rt3 = m3"
    using assms(6-8) c b' by (auto simp: InviteServer_handle_def InviteServer_bye_def Let_def)
  have o: "only_dialog ?k (rt_media rt) m3"
    using only_dialog_trans [OF only_dialog_trans [OF i(1)] cl(1)] a by blast
  have eq: "map_of (mm_sessions m3) = map_of (mm_sessions (rt_media rt))"
    using o cl(2) assms(2) by (simp add: only_dialog_def findSession_def) (metis fun_upd_triv)
  have m: "manager_ok (rt_media rt)" "manager_ok m3"
    using assms(1) manager_ok_close [OF m2(1), of ?k] c by (simp_all add: rt_ok_manager)
  have al: "mm_allocatedPorts m3 = mm_allocatedPorts (rt_media rt)"
    using m session_ports_cong [OF eq] by (simp add: manager_ok_def no_leak_def)
  moreover have "mm_availablePortSet m3 = mm_availablePortSet (rt_media rt)"
    using m o al by (simp add: manager_ok_def available_ports only_dialog_def)
  ultimately show ?thesis using b' h eq by simp
qed

section \<open>Answers the client receives\<close>

lemma close_frees:
  assumes "manager_ok mm" "map_of (mm_sessions mm) k = Some s"
  shows "map_of (mm_sessions (snd (closeSession k mm))) k = None"
    "ms_localRtpPort s \<in> mm_availablePortSet (snd (closeSession k mm))"
proof -
  let ?mm = "snd (closeSession k mm)"
  have ok: "mm_ok mm" "manager_ok ?mm" using assms(1) manager_ok_close by (simp_all add: manager_ok_def)
  note c = only_dialog_close [OF ok(1) surjective_pairing, of k]
  show n: "map_of (mm_sessions ?mm) k = None" by (rule c(2))
  have "map_of (mm_sessions ?mm) = (map_of (mm_sessions mm))(k := None)"
    using c(1) n by (simp add: only_dialog_def) (metis fun_upd_triv)
  from session_ports_remove [OF ok(1) assms(2) this] have "ms_localRtpPort s \<notin> mm_allocatedPorts ?mm"
    using ok(2) by (simp add: manager_ok_def no_leak_def)
  moreover have "ms_localRtpPort s \<in> port_pool ?mm"
    using c(1) mm_okD(3) [OF ok(1) assms(2)] by (simp add: only_dialog_def port_pool_def)
  ultimately show "ms_localRtpPort s \<in> mm_availablePortSet ?mm" by (simp add: port_pool_def)
qed

lemma ack_sent_fields:
  "rt_media (snd (sendAckForInviteResponse c p t q rt)) = rt_media rt"
  "fst (sendAckForInviteResponse c p t q rt) \<Longrightarrow>
    \<exists>ack. sent_messages (rt_sip (snd (sendAckForInviteResponse c p t q rt))) = sent_messages (rt_sip rt) @ [ack] \<and>
      sm_method ack = ''ACK'' \<and> sm_callId ack = rq_callId q \<and> sm_cseq ack = rq_cseq q \<and> sm_toId ack = t"
proof -
  have sent: "fst (rt_send m rt) \<Longrightarrow> sent_messages (rt_sip (snd (rt_send m rt))) = sent_messages (rt_sip rt) @ [m]" for m
    using st_send_cases [OF surjective_pairing, of m "rt_sip rt"] by (simp add: rt_send_def split_beta)
  show "rt_media (snd (sendAckForInviteResponse c p t q rt)) = rt_media rt"
    by (simp add: sendAckForInviteResponse_def createSendSession_def Let_def split_beta split: option.split)
  show "fst (sendAckForInviteResponse c p t q rt) \<Longrightarrow>
    \<exists>ack. sent_messages (rt_sip (snd (sendAckForInviteResponse c p t q rt))) = sent_messages (rt_sip rt) @ [ack] \<and>
      sm_method ack = ''ACK'' \<and> sm_callId ack = rq_callId q \<and> sm_cseq ack = rq_cseq q \<and> sm_toId ack = t"
    by (auto simp: sendAckForInviteResponse_def createSendSession_def Let_def split_beta sent makeRequest_def
        split: option.splits)
qed

text \<open>The session of the dialog replaced by the confirmed one.\<close>

definition confirm_in :: "media_session \<Rightarrow> sdp_info \<Rightarrow> sip_request \<Rightarrow> ('a, 's) media_manager \<Rightarrow> ('a, 's) media_manager" where
  "confirm_in s sdp q mm = mm\<lparr>mm_sessions := om_set (client_dialog q) (confirmed_session s sdp q) (mm_sessions mm)\<rparr>"

lemma confirm_in_ok:
  assumes "manager_ok mm" "map_of (mm_sessions mm) (client_dialog q) = Some s"
  shows "updateSession (confirmed_session s sdp q) mm = (True, confirm_in s sdp q mm)" "manager_ok (confirm_in s sdp q mm)"
    "map_of (mm_sessions (confirm_in s sdp q mm)) (client_dialog q) = Some (confirmed_session s sdp q)"
proof -
  have m: "mm_ok mm" using assms(1) by (simp add: manager_ok_def)
  show up: "updateSession (confirmed_session s sdp q) mm = (True, confirm_in s sdp q mm)"
    using assms(2) mm_okD(2,5) [OF m assms(2)] by (simp add: updateSession_def confirmed_session_def confirm_in_def)
  show "manager_ok (confirm_in s sdp q mm)"
    using manager_ok_update [OF assms(1), of "confirmed_session s sdp q"] up mm_okD(4) [OF m assms(2)]
    by (simp add: reassembly_confirmed)
  show "map_of (mm_sessions (confirm_in s sdp q mm)) (client_dialog q) = Some (confirmed_session s sdp q)"
    using m by (simp add: confirm_in_def)
qed

text \<open>The handler for a dialog the node opened: what it records first leaves the manager and the stack alone.\<close>

lemma client_answer:
  assumes "rt_ok rt" "rq_callId q \<noteq> []" "findSession (client_dialog q) (rt_media rt) = Some s"
  obtains r where "rt_media r = rt_media rt" "rt_sip r = rt_sip rt" "rt_config r = rt_config rt" "rt_peers r = rt_peers rt"
    "InviteClient_handle q rt =
      (if rq_statusCode q \<ge> 200 \<and> rq_statusCode q < 300
       then (case findBySipId (ms_peerId s) (rt_peers rt) of None \<Rightarrow> (False, r)
         | Some peer \<Rightarrow> (case parseSdp (rq_body q) of None \<Rightarrow> (False, rt_closeMedia (client_dialog q) r)
            | Some sdp \<Rightarrow>
               let (ackSent, r) = sendAckForInviteResponse (cap_name InviteClientCapability) peer (ms_targetDeviceId s) q
                     (r\<lparr>rt_media := confirm_in s sdp q (rt_media rt)\<rparr>)
               in if \<not> ackSent then (False, rt_closeMedia (client_dialog q) r) else (True, r)))
       else (True, rt_closeMedia (client_dialog q) r))"
proof -
  let ?k = "client_dialog q" and ?mm = "rt_media rt"
  define r where "r = rt_createSession \<lparr>si_id = cap_name InviteClientCapability @ '':response:'' @ ms_targetDeviceId s,
    si_capability = cap_name InviteClientCapability,
    si_peerId = (case findBySipId (ms_peerId s) (rt_peers rt) of None \<Rightarrow> rq_fromId q | Some p \<Rightarrow> pi_sipId p),
    si_state = ''invite-response:'' @ dec_int (rq_statusCode q)\<rparr> rt"
  have m: "manager_ok ?mm" using assms(1) by (simp add: rt_ok_manager)
  have s: "map_of (mm_sessions ?mm) ?k = Some s" using assms(3) by (simp add: findSession_def)
  have r: "rt_media r = ?mm" "rt_sip r = rt_sip rt" "rt_config r = rt_config rt" "rt_peers r = rt_peers rt" by (simp_all add: r_def)
  have existing: "(if ?k = [] then None else findSession ?k ?mm) = Some s" using assms(2,3) by (simp add: client_dialog_def)
  have t: "ms_targetDeviceId (confirmed_session s sdp q) = ms_targetDeviceId s" for sdp by (simp add: confirmed_session_def)
  have "InviteClient_handle q rt =
      (if rq_statusCode q \<ge> 200 \<and> rq_statusCode q < 300
       then (case findBySipId (ms_peerId s) (rt_peers rt) of None \<Rightarrow> (False, r)
         | Some peer \<Rightarrow> (case parseSdp (rq_body q) of None \<Rightarrow> (False, rt_closeMedia ?k r)
            | Some sdp \<Rightarrow>
               let (updated, mm) = updateSession (confirmed_session s sdp q) (rt_media r);
                   r = r\<lparr>rt_media := mm\<rparr>
               in if \<not> updated then (False, rt_closeMedia ?k r)
                  else let (ackSent, r) = sendAckForInviteResponse (cap_name InviteClientCapability) peer
                             (ms_targetDeviceId (confirmed_session s sdp q)) q r
                    in if \<not> ackSent then (False, rt_closeMedia ?k r) else (True, r)))
       else (True, rt_closeMedia ?k r))"
    unfolding InviteClient_handle_def Let_def existing option.case r_def by (simp only: option.distinct if_False)
  with r show ?thesis
    by (intro that) (simp_all only: r confirm_in_ok(1) [OF m s] Let_def prod.case t not_True_eq_False if_False)
qed

text \<open>C13: what an answer to an INVITE of the node does to its session: a 200 whose peer is known and whose SDP
  can be read makes the session confirmed with the address of the answer and sends the ACK of this
  dialog; a 200 without readable SDP, or one whose ACK cannot be sent, and every answer that is not a
  2xx, end the session and free its port; a 200 of an unknown peer leaves it alone.\<close>

theorem invite_answer_outcome:
  assumes "rt_ok rt" and "rq_callId q \<noteq> []" and "findSession (client_dialog q) (rt_media rt) = Some s"
    and "InviteClient_handle q rt = (b, rt')"
  shows "(let k = client_dialog q; mm = rt_media rt; mm' = rt_media rt';
      gone = (map_of (mm_sessions mm') k = None \<and> ms_localRtpPort s \<in> mm_availablePortSet mm') in
    if rq_statusCode q < 200 \<or> 300 \<le> rq_statusCode q then b \<and> gone
    else case findBySipId (ms_peerId s) (rt_peers rt) of None \<Rightarrow> \<not> b \<and> mm' = mm
    | Some peer \<Rightarrow>
        (case parseSdp (rq_body q) of None \<Rightarrow> \<not> b \<and> gone
         | Some sdp \<Rightarrow> if b then findSession k mm' = Some (confirmed_session s sdp q) \<and>
               (\<exists>ack. sent_messages (rt_sip rt') = sent_messages (rt_sip rt) @ [ack] \<and> sm_method ack = ''ACK'' \<and>
                 sm_callId ack = rq_callId q \<and> sm_cseq ack = rq_cseq q \<and> sm_toId ack = ms_targetDeviceId s)
             else gone))"
proof -
  let ?k = "client_dialog q" and ?mm = "rt_media rt"
  have m: "manager_ok ?mm" using assms(1) by (simp add: rt_ok_manager)
  have s: "map_of (mm_sessions ?mm) ?k = Some s" using assms(3) by (simp add: findSession_def)
  have conf: "ms_localRtpPort (confirmed_session s sdp q) = ms_localRtpPort s" for sdp by (simp add: confirmed_session_def)
  note gone = close_frees [OF m s] and c = confirm_in_ok(2,3) [OF m s]
  note gone' = close_frees [OF c, unfolded conf]
  obtain r where r: "rt_media r = ?mm" "rt_sip r = rt_sip rt" and H: "InviteClient_handle q rt =
      (if rq_statusCode q \<ge> 200 \<and> rq_statusCode q < 300
       then (case findBySipId (ms_peerId s) (rt_peers rt) of None \<Rightarrow> (False, r)
         | Some peer \<Rightarrow> (case parseSdp (rq_body q) of None \<Rightarrow> (False, rt_closeMedia ?k r)
            | Some sdp \<Rightarrow>
               let (ackSent, r) = sendAckForInviteResponse (cap_name InviteClientCapability) peer (ms_targetDeviceId s) q
                     (r\<lparr>rt_media := confirm_in s sdp q ?mm\<rparr>)
               in if \<not> ackSent then (False, rt_closeMedia ?k r) else (True, r)))
       else (True, rt_closeMedia ?k r))"
    by (rule client_answer [OF assms(1-3)])
  consider "rq_statusCode q < 200 \<or> 300 \<le> rq_statusCode q"
    | "200 \<le> rq_statusCode q" "rq_statusCode q < 300" "findBySipId (ms_peerId s) (rt_peers rt) = None"
    | peer where "200 \<le> rq_statusCode q" "rq_statusCode q < 300" "findBySipId (ms_peerId s) (rt_peers rt) = Some peer"
        "parseSdp (rq_body q) = None"
    | peer sdp where "200 \<le> rq_statusCode q" "rq_statusCode q < 300" "findBySipId (ms_peerId s) (rt_peers rt) = Some peer"
        "parseSdp (rq_body q) = Some sdp"
    by fastforce
  then show ?thesis
  proof cases
    case (4 peer sdp)
    obtain a r2 where a: "sendAckForInviteResponse (cap_name InviteClientCapability) peer (ms_targetDeviceId s) q
        (r\<lparr>rt_media := confirm_in s sdp q ?mm\<rparr>) = (a, r2)" by fastforce
    note f = ack_sent_fields [of "cap_name InviteClientCapability" peer "ms_targetDeviceId s" q
        "r\<lparr>rt_media := confirm_in s sdp q ?mm\<rparr>", unfolded a]
    show ?thesis using 4 assms(4) H a f gone' [of sdp] c(2) [of sdp]
      by (cases a) (auto simp: rt_closeMedia_def findSession_def r)
  qed (use assms(4) H r gone in \<open>auto simp: rt_closeMedia_def\<close>)
qed

text \<open>C25: a BYE that the other side sends for a dialog the node opened is not recognised: the server only looks
  among the dialogs it accepted, answers 481 and leaves the session of the client, its RTP port and its
  adapter as they were.\<close>

theorem remote_bye_of_client_dialog_refused:
  assumes "rt_ok rt" and "online rt" and "rq_method q = ''BYE''"
    and "findSession (client_dialog q) (rt_media rt) = Some s" and "findSession (server_dialog q) (rt_media rt) = None"
    and "InviteServer_handle env q rt = (b, rt')"
  shows "\<not> b \<and> findSession (client_dialog q) (rt_media rt') = Some s \<and> rt_media rt' = rt_media rt \<and>
    ms_localRtpPort s \<in> mm_allocatedPorts (rt_media rt') \<and>
    (\<exists>m. sent_messages (rt_sip rt') = sent_messages (rt_sip rt) @ [m] \<and> sm_statusCode m = 481)"
proof -
  let ?m = "makeResponse q 481 ''Call/Transaction Does Not Exist''"
  have r: "(b, rt') = (False, snd (rt_send ?m rt))"
    using assms(3,5,6) by (auto simp: InviteServer_handle_def InviteServer_bye_def closeSession_def findSession_def Let_def)
  have "sm_method ?m \<noteq> []" "sm_statusCode ?m = 481" using assms(3) by (simp_all add: makeResponse_def)
  then have "sent_messages (rt_sip rt') = sent_messages (rt_sip rt) @ [?m] \<and> sm_statusCode ?m = 481"
    using rt_send_online(1) [OF assms(2)] r by simp
  moreover have "ms_localRtpPort s \<in> mm_allocatedPorts (rt_media rt)"
    using mm_okD(3) [of "rt_media rt" "client_dialog q" s] assms(1,4) by (simp add: rt_ok_manager manager_ok_def findSession_def)
  ultimately show ?thesis using r assms(4) by auto
qed

lemma created_adapters: "createSession s mm = (True, mm2) \<Longrightarrow> mm_rtpSessionAdapters mm2 = mm_rtpSessionAdapters mm"
  by (cases "map_of (mm_sessions mm) (ms_id s)") (auto simp: createSession_def Let_def split: if_splits)

text \<open>C26: an INVITE that repeats the Call-ID of a running dialog moves the session to a new port and frees the
  old one, but the RTP adapter keeps running on the freed port, and the ACK that follows does not
  replace it.\<close>

theorem repeated_invite_keeps_old_adapter:
  assumes "rt_ok rt" and "findSession (server_dialog q) (rt_media rt) = Some old"
    and "map_of (mm_rtpSessionAdapters (rt_media rt)) (server_dialog q) = Some a" and "ra_running (en_adapter env) a"
    and "InviteServer_invite q rt = (True, rt')" and "server_dialog ack = server_dialog q"
  shows "ms_localRtpPort old \<in> mm_availablePortSet (rt_media rt') \<and>
    (\<exists>s. findSession (server_dialog q) (rt_media rt') = Some s \<and> ms_localRtpPort s \<noteq> ms_localRtpPort old) \<and>
    map_of (mm_rtpSessionAdapters (rt_media (snd (InviteServer_ack env ack rt')))) (server_dialog q) = Some a"
proof -
  let ?k = "server_dialog q"
  have ok: "manager_ok (rt_media rt)" "mm_ok (rt_media rt)" using assms(1) by (simp_all add: rt_ok_manager manager_ok_def)
  obtain p sdp ip mm where c: "allocateRtpPort (rt_media rt) = (p, mm)" "0 < p"
    "createSession (requested_session q sdp ip p) mm = (True, rt_media rt')"
    using invite_accepted [OF ok(1) assms(5)] by blast
  have i: "ms_id (requested_session q sdp ip p) = ?k" "ms_localRtpPort (requested_session q sdp ip p) = p"
    by (simp_all add: requested_session_def)
  note f = allocate_fresh [OF ok(1) c(1,2)]
  have old: "map_of (mm_sessions mm) ?k = Some old" using assms(2) f(3) by (simp add: findSession_def)
  have ne: "ms_localRtpPort old \<noteq> p"
    using f(2) assms(2) by (auto simp: session_ports_def findSession_def)
  have ok': "mm_ok (rt_media rt')"
    using keeps_InviteServer_invite [of rt q] assms(1,5) by (simp add: keeps_def rt_ok_manager manager_ok_def)
  have "mm_allocatedPorts (rt_media rt') = mm_allocatedPorts mm - {ms_localRtpPort old}"
    using created_ports(2) [OF c(3)] old i ne release_ports_ok(3) [OF mm_ok_ports [OF f(1)]] by simp
  moreover have "ms_localRtpPort old \<in> port_pool (rt_media rt')"
    using invite_only_dialog(1) [OF assms(1,5)] mm_okD(3) [OF ok(2), of ?k old] assms(2)
    by (simp add: only_dialog_def port_pool_def findSession_def)
  ultimately have av: "ms_localRtpPort old \<in> mm_availablePortSet (rt_media rt')" by (simp add: port_pool_def)
  have s: "findSession ?k (rt_media rt') = Some (requested_session q sdp ip p)"
    using created_sessions [OF c(3)] f(1) i by (simp add: findSession_def)
  have a: "map_of (mm_rtpSessionAdapters (rt_media rt')) ?k = Some a"
    using created_adapters [OF c(3)] f(5) assms(3) by simp
  then have run: "rtpSessionAdapterRunning (en_adapter env) ?k (rt_media rt')"
    using assms(4) by (simp add: rtpSessionAdapterRunning_def)
  have st: "mm_rtpSessionAdapters (snd (updateSessionState k t m)) = mm_rtpSessionAdapters m" for k t and m :: "('a, 'b) media_manager"
    by (simp add: updateSessionState_def split: option.split)
  have "rt_media (snd (InviteServer_ack env ack rt')) \<in>
      {rt_media rt', snd (updateSessionState ?k ''stream-confirmed'' (rt_media rt'))}"
    using run s by (simp add: InviteServer_ack_def assms(6) Let_def split_beta)
  then have "map_of (mm_rtpSessionAdapters (rt_media (snd (InviteServer_ack env ack rt')))) ?k = Some a"
    using a st by auto
  then show ?thesis using av s i(2) ne by auto
qed

section \<open>A small node\<close>

definition sample_media_rt :: "(unit, unit) runtime" where
  "sample_media_rt = (new_runtime new_node_config 0 (\<lambda>_. 0))\<lparr>
     rt_media := new_media_manager\<lparr>mm_availablePorts := [4], mm_availablePortSet := {4}\<rparr>,
     rt_sip := new_sip_stack\<lparr>st_started := True, st_transport := new_in_memory_transport\<lparr>im_running := True\<rparr>\<rparr>\<rparr>"

definition sample_session :: "string \<Rightarrow> media_session" where
  "sample_session k = new_media_session\<lparr>ms_id := k, ms_localRtpPort := 6, ms_peerId := ''35''\<rparr>"

definition sample_dialog_rt :: "string \<Rightarrow> (unit, unit) runtime" where
  "sample_dialog_rt k = sample_media_rt\<lparr>rt_media := (rt_media sample_media_rt)\<lparr>mm_allocatedPorts := {6},
     mm_sessions := [(k, sample_session k)], mm_rtpSessionAdapters := [(k, ())]\<rparr>\<rparr>"

definition sample_adapter_env :: "unit node_env" where
  "sample_adapter_env = \<lparr>en_adapter = \<lparr>ra_start = \<lambda>_ a. (Inr (), a), ra_sendPayloadPacket = \<lambda>_ a. (Inr (), a),
       ra_stop = \<lambda>a. a, ra_running = \<lambda>_. True\<rparr>, en_newAdapter = (), en_catalog = \<lambda>_. CatalogMissing,
     en_files = \<lambda>_. None\<rparr>"

definition sample_invite :: sip_request where
  "sample_invite = new_sip_request\<lparr>rq_method := ''INVITE'', rq_fromId := ''35'', rq_callId := ''c'', rq_cseq := ''1'',
     rq_body := buildInviteSdp ''34'' ''10.0.0.1'' 4 ''7''\<rparr>"

lemma sample_media_ok: "rt_ok sample_media_rt" "k \<noteq> [] \<Longrightarrow> rt_ok (sample_dialog_rt k)"
proof -
  have n: "om_ok (rt_sessions sample_media_rt) \<and> om_ok (rt_challenges sample_media_rt) \<and>
      om_ok (bs_catalogItems (rt_business sample_media_rt)) \<and> om_ok (bs_recordItems (rt_business sample_media_rt))"
    by (simp add: sample_media_rt_def new_runtime_def new_business_state_def)
  have "mm_ok (rt_media sample_media_rt)" "no_leak (rt_media sample_media_rt)"
    by (rule mm_okI; simp add: sample_media_rt_def new_runtime_def new_media_manager_def ports_ok_def INT_MAX_def)
      (simp add: no_leak_def session_ports_def sample_media_rt_def new_runtime_def new_media_manager_def)
  then show "rt_ok sample_media_rt" using n by (simp add: rt_ok_def)
  assume k: "k \<noteq> []"
  have "mm_ok (rt_media (sample_dialog_rt k))"
    using k by (intro mm_okI) (auto simp: sample_dialog_rt_def sample_media_rt_def new_runtime_def new_media_manager_def
        ports_ok_def INT_MAX_def om_ok_def sample_session_def new_media_session_def reassembly_ok_def split: if_splits)
  moreover have "no_leak (rt_media (sample_dialog_rt k))"
    by (auto simp: no_leak_def session_ports_def sample_dialog_rt_def sample_session_def split: if_splits)
  ultimately show "rt_ok (sample_dialog_rt k)" using n by (simp add: rt_ok_def sample_dialog_rt_def)
qed

lemma invite_succeeds:
  assumes "manager_ok (rt_media rt)" "allocateRtpPort (rt_media rt) = (p, mm)" "0 < p" "parseSdp (rq_body q) = Some sdp"
  shows "fst (InviteServer_invite q rt)"
proof -
  have "fst (createSession (requested_session q sdp ip p) mm)" for ip
    by (rule createSession_fresh [OF assms(1-3)]) (simp_all add: requested_session_def)
  then show ?thesis using assms(2-4)
    by (simp add: InviteServer_invite_def answer_invite_def Let_def split_beta)
qed

lemma sample_offer: "\<exists>sdp. parseSdp (rq_body sample_invite) = Some sdp"
proof -
  have "parseSdp (buildInviteSdp ''34'' ''10.0.0.1'' 4 ''7'') \<noteq> None" by code_simp
  then show ?thesis by (simp add: sample_invite_def)
qed


lemma sample_dialog_fields:
  "findSession k (rt_media (sample_dialog_rt k)) = Some (sample_session k)"
  "map_of (mm_rtpSessionAdapters (rt_media (sample_dialog_rt k))) k = Some ()"
  "k' \<noteq> k \<Longrightarrow> findSession k' (rt_media (sample_dialog_rt k)) = None" "online (sample_dialog_rt k)"
  "rt_peers (sample_dialog_rt k) = []"
  by (simp_all add: sample_dialog_rt_def findSession_def online_def sample_media_rt_def new_runtime_def)

lemma sample_allocate:
  "allocateRtpPort (rt_media sample_media_rt) = (4, snd (allocateRtpPort (rt_media sample_media_rt)))"
  "allocateRtpPort (rt_media (sample_dialog_rt k)) = (4, snd (allocateRtpPort (rt_media (sample_dialog_rt k))))"
  by (simp_all add: allocateRtpPort_def sample_media_rt_def sample_dialog_rt_def)

lemma sample_invited:
  "\<exists>rt1. InviteServer_invite sample_invite sample_media_rt = (True, rt1)"
  "\<exists>rt1. InviteServer_invite sample_invite (sample_dialog_rt (server_dialog sample_invite)) = (True, rt1)"
proof -
  obtain sdp where sdp: "parseSdp (rq_body sample_invite) = Some sdp" using sample_offer by blast
  have m: "manager_ok (rt_media sample_media_rt)" "manager_ok (rt_media (sample_dialog_rt (server_dialog sample_invite)))"
    using sample_media_ok by (simp_all add: rt_ok_manager)
  show "\<exists>rt1. InviteServer_invite sample_invite sample_media_rt = (True, rt1)"
    "\<exists>rt1. InviteServer_invite sample_invite (sample_dialog_rt (server_dialog sample_invite)) = (True, rt1)"
    using invite_succeeds [OF m(1) sample_allocate(1) _ sdp] invite_succeeds [OF m(2) sample_allocate(2) _ sdp]
    by (metis (full_types) prod.collapse zero_less_numeral)+
qed

theorem dialog_returns_its_port_witness:
  "\<exists>rt1. InviteServer_handle sample_adapter_env sample_invite sample_media_rt = (True, rt1) \<and>
    mm_availablePortSet (rt_media (snd (InviteServer_handle sample_adapter_env (sample_invite\<lparr>rq_method := ''BYE''\<rparr>)
      (acks sample_adapter_env [sample_invite\<lparr>rq_method := ''ACK''\<rparr>] rt1)))) = {4}"
proof -
  have d: "server_dialog (sample_invite\<lparr>rq_method := x\<rparr>) = server_dialog sample_invite" for x
    by (simp add: server_dialog_def inviteSessionId_def)
  have m: "rq_method sample_invite = ''INVITE''" by (simp add: sample_invite_def)
  obtain rt1 where rt1: "InviteServer_handle sample_adapter_env sample_invite sample_media_rt = (True, rt1)"
    using sample_invited(1) m by (auto simp: InviteServer_handle_def)
  have n: "findSession (server_dialog sample_invite) (rt_media sample_media_rt) = None"
    by (simp add: findSession_def sample_media_rt_def new_media_manager_def)
  have a: "mm_availablePortSet (rt_media sample_media_rt) = {4}" by (simp add: sample_media_rt_def)
  from dialog_returns_its_port [OF sample_media_ok(1) n m rt1, of "[sample_invite\<lparr>rq_method := ''ACK''\<rparr>]"
      "sample_invite\<lparr>rq_method := ''BYE''\<rparr>", OF _ _ _ surjective_pairing] rt1
  show ?thesis by (simp add: d a)
qed

theorem invite_answer_outcome_witness:
  "map_of (mm_sessions (rt_media (snd (InviteClient_handle (sample_invite\<lparr>rq_statusCode := 486\<rparr>)
     (sample_dialog_rt (client_dialog sample_invite)))))) (client_dialog sample_invite) = None"
proof -
  let ?q = "sample_invite\<lparr>rq_statusCode := 486\<rparr>"
  have d: "client_dialog ?q = client_dialog sample_invite" "client_dialog sample_invite \<noteq> []" "rq_callId ?q \<noteq> []"
    by (simp_all add: client_dialog_def sample_invite_def)
  have f: "findSession (client_dialog ?q) (rt_media (sample_dialog_rt (client_dialog sample_invite))) =
      Some (sample_session (client_dialog sample_invite))"
    unfolding d(1) by (rule sample_dialog_fields)
  from invite_answer_outcome [OF sample_media_ok(2) [OF d(2)] d(3) f surjective_pairing] show ?thesis
    by (simp add: d(1) Let_def)
qed

theorem remote_bye_of_client_dialog_refused_witness:
  "let k = client_dialog sample_invite in
   6 \<in> mm_allocatedPorts (rt_media (snd (InviteServer_handle sample_adapter_env (sample_invite\<lparr>rq_method := ''BYE''\<rparr>) (sample_dialog_rt k))))"
proof -
  let ?q = "sample_invite\<lparr>rq_method := ''BYE''\<rparr>" and ?k = "client_dialog sample_invite"
  have d: "client_dialog ?q = ?k" "?k \<noteq> []" "server_dialog ?q \<noteq> ?k"
    by (simp_all add: client_dialog_def server_dialog_def inviteSessionId_def sample_invite_def)
  have f: "findSession (client_dialog ?q) (rt_media (sample_dialog_rt ?k)) = Some (sample_session ?k)"
    unfolding d(1) by (rule sample_dialog_fields)
  have m: "rq_method ?q = ''BYE''" by simp
  from remote_bye_of_client_dialog_refused [where env = sample_adapter_env, OF sample_media_ok(2) [OF d(2)] sample_dialog_fields(4) m f
      sample_dialog_fields(3) [OF d(3)] surjective_pairing]
  have "ms_localRtpPort (sample_session ?k) \<in>
      mm_allocatedPorts (rt_media (snd (InviteServer_handle sample_adapter_env ?q (sample_dialog_rt ?k))))"
    by blast
  then show ?thesis by (simp add: sample_session_def Let_def)
qed

theorem repeated_invite_keeps_old_adapter_witness:
  "\<exists>rt'. InviteServer_invite sample_invite (sample_dialog_rt (server_dialog sample_invite)) = (True, rt') \<and>
    6 \<in> mm_availablePortSet (rt_media rt')"
proof -
  obtain rt' where r: "InviteServer_invite sample_invite (sample_dialog_rt (server_dialog sample_invite)) = (True, rt')"
    using sample_invited(2) by blast
  have run: "ra_running (en_adapter sample_adapter_env) ()" by (simp add: sample_adapter_env_def)
  from repeated_invite_keeps_old_adapter [OF sample_media_ok(2) [OF server_dialog_nonempty] sample_dialog_fields(1,2) run r refl]
  show ?thesis using r by (simp add: sample_session_def)
qed

end
