(* ===== verification/MediaSend.thy ===== *)
theory MediaSend
  imports Invite
begin

text \<open>
  \<open>MediaSendCapability\<close> (\<open>src/src/capabilities/GB28181Capabilities.cpp\<close>): the stream file is opened at the
  start, and a scheduled task reads frame after frame and hands each to the RTP adapters of all sendable
  sessions. \<open>m_source\<close>, \<open>m_pendingFrame\<close>, \<open>m_sourceReady\<close> and \<open>m_hasPendingFrame\<close> are \<open>rt_sender\<close>.
\<close>

definition mediaSessionSendable :: "media_session \<Rightarrow> bool" where
  "mediaSessionSendable session \<longleftrightarrow> ms_state session = ''stream-confirmed'' \<or> ms_state session = ''stream-receiving''"

definition sender_session :: "string \<Rightarrow> string \<Rightarrow> session_info" where
  "sender_session part state = \<lparr>si_id = cap_name MediaSendCapability @ part, si_capability = cap_name MediaSendCapability,
     si_peerId = [], si_state = state\<rparr>"

definition bool_digit :: "bool \<Rightarrow> string" where
  "bool_digit b = (if b then ''1'' else ''0'')"

section \<open>Sending a frame\<close>

text \<open>The refill of the pending frame: \<open>Inl\<close> of the read error when there is no frame, with whether the
  frame came from the start of a reopened file.\<close>

definition refill :: "(string \<Rightarrow> bytes option) \<Rightarrow> bool \<Rightarrow> frame_source \<Rightarrow> (string + bool \<times> stream_frame) \<times> frame_source" where
  "refill files streamLoop source =
    (case readNextVideoFrame source of
       (Inr frame, source) \<Rightarrow> (Inr (False, frame), source)
     | (Inl readError, source) \<Rightarrow>
         if \<not> streamLoop then (Inl readError, source)
         else (case src_reopen files source of
                 (Inl readError, source) \<Rightarrow> (Inl readError, source)
               | (Inr _, source) \<Rightarrow>
                   (case readNextVideoFrame source of
                      (Inl readError, source) \<Rightarrow> (Inl readError, source)
                    | (Inr frame, source) \<Rightarrow> (Inr (True, frame), source))))"

text \<open>The loop over the sessions: the snapshot decides which are sendable, the manager which adapters run;
  the result counts the sends and keeps the last error.\<close>

fun send_sessions ::
  "'a rtp_adapter_ops \<Rightarrow> media_config \<Rightarrow> bytes \<Rightarrow> media_session list \<Rightarrow> nat \<Rightarrow> string \<Rightarrow> ('a, 's) media_manager \<Rightarrow>
     nat \<times> string \<times> ('a, 's) media_manager" where
  "send_sessions ops media data [] sentSessions lastError mm = (sentSessions, lastError, mm)"
| "send_sessions ops media data (session # sessions) sentSessions lastError mm =
    (if \<not> mediaSessionSendable session \<or> \<not> rtpSessionAdapterRunning ops (ms_id session) mm
     then send_sessions ops media data sessions sentSessions lastError mm
     else (case sendAnnexBFrame ops (ms_id session) data (mc_rtpTimestampIncrement media)
                  (unat (mc_rtpPayloadBytes media)) mm of
             (Inr _, mm) \<Rightarrow> send_sessions ops media data sessions (sentSessions + 1) lastError mm
           | (Inl sendError, mm) \<Rightarrow> send_sessions ops media data sessions sentSessions sendError mm))"

text \<open>From the pending frame on.\<close>

definition send_pending :: "'a node_env \<Rightarrow> ('a, 's) runtime \<Rightarrow> bool \<times> ('a, 's) runtime" where
  "send_pending env rt =
    (let frame = md_pendingFrame (rt_sender rt);
         (sentSessions, lastError, mm) = send_sessions (en_adapter env) (nc_media (rt_config rt)) (sf_data frame)
           (sessionSnapshot (rt_media rt)) 0 [] (rt_media rt);
         rt = rt\<lparr>rt_media := mm\<rparr>
     in if sentSessions = 0 then (False, rt)
        else let rt = rt_createSession (sender_session ('':frame:'' @ dec_int (sf_pts frame))
                   (''media-frame-sent:pts='' @ dec_int (sf_pts frame) @ '',bytes='' @ dec (length (sf_data frame)) @
                    '',sessions='' @ dec sentSessions @
                    (if lastError = [] then [] else '',last_error='' @ lastError))) rt
          in (True, rt\<lparr>rt_sender := (rt_sender rt)\<lparr>md_hasPendingFrame := False\<rparr>\<rparr>))"

definition sendNextFrame :: "'a node_env \<Rightarrow> ('a, 's) runtime \<Rightarrow> bool \<times> ('a, 's) runtime" where
  "sendNextFrame env rt =
    (let sender = rt_sender rt; media = nc_media (rt_config rt)
     in if \<not> md_sourceReady sender then (False, rt)
        else if md_hasPendingFrame sender then send_pending env rt
        else (case refill (en_files env) (mc_streamLoop media) (md_source sender) of
            (Inl readError, source) \<Rightarrow>
              (False, rt_createSession (sender_session '':source:eof'' (''media-source-eof:'' @ readError))
                 (rt\<lparr>rt_sender := sender\<lparr>md_source := source\<rparr>\<rparr>))
          | (Inr (looped, frame), source) \<Rightarrow>
              let rt = rt\<lparr>rt_sender := sender\<lparr>md_source := source, md_pendingFrame := frame, md_hasPendingFrame := True\<rparr>\<rparr>;
                  rt = (if looped then rt_createSession (sender_session '':source:loop''
                          (''media-source-loop:path='' @ mc_streamFile media @ '',pts='' @ dec_int (sf_pts frame) @
                           '',bytes='' @ dec (length (sf_data frame)))) rt else rt)
              in send_pending env rt))"

section \<open>Starting\<close>

definition ready_state :: "media_config \<Rightarrow> stream_frame \<Rightarrow> string" where
  "ready_state media frame = ''media-source-ready:path='' @ mc_streamFile media @
     '',pts='' @ dec_int (sf_pts frame) @ '',bytes='' @ dec (length (sf_data frame)) @
     '',key='' @ bool_digit (sf_keyFrame frame) @ '',payload_bytes='' @ dec (unat (mc_rtpPayloadBytes media)) @
     '',timestamp_increment='' @ dec (unat (mc_rtpTimestampIncrement media)) @
     '',send_interval_ms='' @ dec_int (mc_streamSendIntervalMs media) @ '',loop='' @ bool_digit (mc_streamLoop media)"

definition MediaSend_onStart :: "'a node_env \<Rightarrow> ('a, 's) runtime \<Rightarrow> bool \<times> ('a, 's) runtime" where
  "MediaSend_onStart env rt =
    (let media = nc_media (rt_config rt); sender = rt_sender rt
     in if mc_streamFile media = []
        then (True, rt_createSession (sender_session '':source'' ''media-source-not-configured'') rt)
        else (case (case src_open (en_files env) (mc_streamFile media) (md_source sender) of
                 (Inl e, source) \<Rightarrow> (Inl e, source)
               | (Inr _, source) \<Rightarrow> readNextVideoFrame source) of
            (Inl e, source) \<Rightarrow>
              (True, rt_createSession (sender_session '':source'' (''media-source-error:'' @ e))
                 (rt\<lparr>rt_sender := sender\<lparr>md_source := source\<rparr>\<rparr>))
          | (Inr frame, source) \<Rightarrow>
              let rt = rt\<lparr>rt_sender := \<lparr>md_source = source, md_pendingFrame = frame, md_sourceReady = True,
                         md_hasPendingFrame = True\<rparr>\<rparr>;
                  rt = rt_createSession (sender_session '':source'' (ready_state media frame)) rt;
                  (_, tasks) = scheduleEveryMs (cap_name MediaSendCapability @ '':media-send'')
                    (mc_streamSendIntervalMs media) MediaSendTask (rt_tasks rt);
                  (_, rt) = sendNextFrame env (rt\<lparr>rt_tasks := tasks\<rparr>)
              in (True, rt)))"

section \<open>The sender keeps the invariant\<close>

lemma send_sessions_ok: "manager_ok mm \<Longrightarrow> manager_ok (snd (snd (send_sessions ops media d ss n e mm)))"
proof (induction ss arbitrary: n e mm)
  case (Cons s ss)
  let ?r = "sendAnnexBFrame ops (ms_id s) d (mc_rtpTimestampIncrement media) (unat (mc_rtpPayloadBytes media)) mm"
  have ok: "manager_ok (snd ?r)" by (rule manager_ok_send [OF Cons.prems])
  obtain r mm' where r: "?r = (r, mm')" by fastforce
  then show ?case using Cons.IH [OF Cons.prems] Cons.IH [of mm'] ok by (cases r) simp_all
qed simp

lemma keeps_send_pending: "keeps rt (snd (send_pending env rt))"
proof -
  have m: "keeps rt (rt\<lparr>rt_media := snd (snd (send_sessions ops media d ss n e (rt_media rt)))\<rparr>)" for ops media d ss n e
    by (rule keeps_manager) (rule send_sessions_ok)
  show ?thesis
    by (auto simp: send_pending_def Let_def split_beta intro!: m keeps_trans [OF _ keeps_counters(2)] keeps_steps)
qed

lemma keeps_sendNextFrame: "keeps rt (snd (sendNextFrame env rt))"
  by (auto simp: sendNextFrame_def Let_def intro!: keeps_steps keeps_trans [OF _ keeps_send_pending] keeps_counters(2)
      split: sum.split prod.split)

end
