(* ===== verification/Node.thy ===== *)
theory Node
  imports MediaSend Queries
begin

text \<open>
  The node (\<open>src/src/core/GB28181Node.cpp\<close>) with its capabilities
  (\<open>src/src/capabilities/LifecycleCapability.cpp\<close>, \<open>StandardCapabilities.cpp\<close>): starting and stopping,
  dispatching requests, the requests an operator makes, the scheduled tasks and the status texts.
  \<open>None\<close> is the overflow of an \<open>int\<close> in the configuration of ports or intervals. The list of capabilities
  holds each class at most once, as the standard list does.
\<close>

section \<open>Capabilities\<close>

definition createStandardCapabilities :: "capability list" where
  "createStandardCapabilities = [RegisterClientCapability, RegisterServerCapability, KeepaliveClientCapability,
     KeepaliveServerCapability, CatalogClientCapability, CatalogServerCapability, RecordQueryClientCapability,
     RecordQueryServerCapability, InviteClientCapability, InviteServerCapability, MediaReceiveCapability,
     MediaSendCapability]"

definition Lifecycle_handle :: "capability \<Rightarrow> ('a, 's) handler" where
  "Lifecycle_handle cap request rt =
    (True, rt_createSession \<lparr>si_id = cap_name cap @ '':'' @ rq_method request @ '':'' @ rq_event request,
       si_capability = cap_name cap,
       si_peerId = (if rq_fromId request = [] then rq_toId request else rq_fromId request), si_state = ''handled''\<rparr> rt)"

text \<open>The virtual functions of the classes.\<close>

fun cap_onStart :: "'a node_env \<Rightarrow> capability \<Rightarrow> ('a, 's) runtime \<Rightarrow> (bool \<times> ('a, 's) runtime) option" where
  "cap_onStart env RegisterClientCapability rt = RegisterClient_onStart rt"
| "cap_onStart env RegisterServerCapability rt = Some (RegisterServer_onStart rt)"
| "cap_onStart env KeepaliveClientCapability rt = KeepaliveClient_onStart rt"
| "cap_onStart env KeepaliveServerCapability rt = Some (KeepaliveServer_onStart rt)"
| "cap_onStart env CatalogClientCapability rt = Some (CatalogClient_onStart rt)"
| "cap_onStart env CatalogServerCapability rt = Some (CatalogServer_onStart rt)"
| "cap_onStart env RecordQueryClientCapability rt = Some (RecordQueryClient_onStart rt)"
| "cap_onStart env RecordQueryServerCapability rt = Some (RecordQueryServer_onStart rt)"
| "cap_onStart env InviteClientCapability rt = Some (InviteClient_onStart rt)"
| "cap_onStart env InviteServerCapability rt = Some (InviteServer_onStart rt)"
| "cap_onStart env MediaReceiveCapability rt = Some (True, rt)"
| "cap_onStart env MediaSendCapability rt = Some (MediaSend_onStart env rt)"

fun cap_onStop :: "capability \<Rightarrow> ('a, 's) runtime \<Rightarrow> ('a, 's) runtime" where
  "cap_onStop RegisterServerCapability rt = RegisterServer_onStop rt"
| "cap_onStop _ rt = rt"

fun cap_handle :: "'a node_env \<Rightarrow> capability \<Rightarrow> ('a, 's) handler" where
  "cap_handle env RegisterClientCapability = RegisterClient_handle"
| "cap_handle env RegisterServerCapability = RegisterServer_handle"
| "cap_handle env KeepaliveServerCapability = KeepaliveServer_handle"
| "cap_handle env CatalogClientCapability = CatalogClient_handle"
| "cap_handle env CatalogServerCapability = CatalogServer_handle env"
| "cap_handle env RecordQueryClientCapability = RecordQueryClient_handle"
| "cap_handle env RecordQueryServerCapability = RecordQueryServer_handle"
| "cap_handle env InviteClientCapability = InviteClient_handle"
| "cap_handle env InviteServerCapability = InviteServer_handle env"
| "cap_handle env KeepaliveClientCapability = Lifecycle_handle KeepaliveClientCapability"
| "cap_handle env MediaReceiveCapability = Lifecycle_handle MediaReceiveCapability"
| "cap_handle env MediaSendCapability = Lifecycle_handle MediaSendCapability"

text \<open>\<open>LifecycleCapability::start\<close> and \<open>stop\<close> on a class and its \<open>m_started\<close>.\<close>

definition lc_start :: "'a node_env \<Rightarrow> capability \<Rightarrow> bool \<Rightarrow> ('a, 's) runtime \<Rightarrow> (bool \<times> bool \<times> ('a, 's) runtime) option" where
  "lc_start env cap started rt =
    (if started then Some (True, started, rt)
     else map_option (\<lambda>(ok, rt). (ok, ok, rt)) (cap_onStart env cap rt))"

definition lc_stop :: "capability \<Rightarrow> bool \<Rightarrow> ('a, 's) runtime \<Rightarrow> bool \<times> ('a, 's) runtime" where
  "lc_stop cap started rt = (if \<not> started then (started, rt) else (False, cap_onStop cap rt))"

text \<open>What a scheduled task runs.\<close>

fun run_task :: "'a node_env \<Rightarrow> node_task \<Rightarrow> ('a, 's) runtime \<Rightarrow> ('a, 's) runtime" where
  "run_task env RegisterRefreshTask rt = sendRegisterToUpstreams (cap_name RegisterClientCapability) rt"
| "run_task env KeepaliveTask rt = sendKeepaliveToUpstreams (cap_name KeepaliveClientCapability) rt"
| "run_task env MediaSendTask rt = snd (sendNextFrame env rt)"

section \<open>The node\<close>

text \<open>The last two fields are the static counters of \<open>nextTransactionCallId\<close> and \<open>nextInviteSsrc\<close>.\<close>

record ('a, 's) node =
  nd_rt :: "('a, 's) runtime"
  nd_capabilities :: "(capability \<times> bool) list"
  nd_started :: bool
  nd_callIdCounter :: u64
  nd_ssrcCounter :: u64

definition new_node :: "node_config \<Rightarrow> int \<Rightarrow> (nat \<Rightarrow> u32) \<Rightarrow> ('a, 's) node" where
  "new_node config now random = \<lparr>nd_rt = new_runtime config now random, nd_capabilities = [], nd_started = False,
     nd_callIdCounter = 0, nd_ssrcCounter = 0\<rparr>"

definition addCapability :: "capability \<Rightarrow> ('a, 's) node \<Rightarrow> ('a, 's) node" where
  "addCapability cap node = node\<lparr>nd_capabilities := nd_capabilities node @ [(cap, False)]\<rparr>"

text \<open>The loop over the capabilities; it ends at the first that does not start.\<close>

fun start_capabilities ::
  "'a node_env \<Rightarrow> (capability \<times> bool) list \<Rightarrow> ('a, 's) runtime \<Rightarrow> (bool \<times> (capability \<times> bool) list \<times> ('a, 's) runtime) option" where
  "start_capabilities env [] rt = Some (True, [], rt)"
| "start_capabilities env ((cap, started) # caps) rt =
    (case lc_start env cap started rt of
       None \<Rightarrow> None
     | Some (ok, started, rt) \<Rightarrow>
         if \<not> ok then Some (False, (cap, started) # caps, rt)
         else map_option (\<lambda>(ok, caps, rt). (ok, (cap, started) # caps, rt)) (start_capabilities env caps rt))"

fun stop_capabilities :: "(capability \<times> bool) list \<Rightarrow> ('a, 's) runtime \<Rightarrow> (capability \<times> bool) list \<times> ('a, 's) runtime" where
  "stop_capabilities [] rt = ([], rt)"
| "stop_capabilities ((cap, started) # caps) rt =
    (let (caps, rt) = stop_capabilities caps rt; (started, rt) = lc_stop cap started rt
     in ((cap, started) # caps, rt))"

definition gn_stop :: "('a, 's) node \<Rightarrow> ('a, 's) node" where
  "gn_stop node =
    (if \<not> nd_started node then node
     else let rt = nd_rt node;
              rt = rt\<lparr>rt_tasks := stopAll (rt_tasks rt)\<rparr>;
              rt = rt\<lparr>rt_media := stopAllRtpSessionAdapters (rt_media rt)\<rparr>;
              (caps, rt) = stop_capabilities (nd_capabilities node) rt
       in node\<lparr>nd_rt := rt\<lparr>rt_sip := st_stop (rt_sip rt)\<rparr>, nd_capabilities := caps, nd_started := False\<rparr>)"

definition gn_start :: "'a node_env \<Rightarrow> ('a, 's) node \<Rightarrow> (bool \<times> ('a, 's) node) option" where
  "gn_start env node =
    (if nd_started node then Some (True, node)
     else
       let rt = nd_rt node; config = rt_config rt;
           (configured, sip) = st_configure config (rt_sip rt);
           rt = rt\<lparr>rt_sip := sip\<rparr>
       in if \<not> configured then Some (False, node\<lparr>nd_rt := rt\<rparr>)
          else
            let (configured, peers) = pr_configure config (rt_peers rt);
                rt = rt\<lparr>rt_peers := peers\<rparr>
            in if \<not> configured then Some (False, node\<lparr>nd_rt := rt\<rparr>)
               else
                 let rt = rt\<lparr>rt_business := bs_clear (rt_business rt)\<rparr>
                 in (case mm_configure (nc_sipEndpoints config) (rt_media rt) of
                       None \<Rightarrow> None
                     | Some (configured, mm) \<Rightarrow>
                         let rt = rt\<lparr>rt_media := mm\<rparr>
                         in if \<not> configured then Some (False, node\<lparr>nd_rt := rt\<rparr>)
                            else
                              let (sipStarted, sip) = st_start (rt_sip rt); rt = rt\<lparr>rt_sip := sip\<rparr>
                              in if \<not> sipStarted then Some (False, node\<lparr>nd_rt := rt\<rparr>)
                                 else (case start_capabilities env (nd_capabilities node) rt of
                                     None \<Rightarrow> None
                                   | Some (ok, caps, rt) \<Rightarrow>
                                       let node = node\<lparr>nd_rt := rt, nd_capabilities := caps\<rparr>
                                       in if ok then Some (True, node\<lparr>nd_started := True\<rparr>)
                                          else let node = gn_stop node
                                            in Some (False, node\<lparr>nd_rt := (nd_rt node)\<lparr>rt_sip := st_stop (rt_sip (nd_rt node))\<rparr>\<rparr>))))"

definition dispatchSipRequest :: "'a node_env \<Rightarrow> sip_request \<Rightarrow> ('a, 's) node \<Rightarrow> bool \<times> ('a, 's) node" where
  "dispatchSipRequest env request node =
    (if \<not> nd_started node then (False, node)
     else let (handled, rt) = st_dispatch (cap_handle env) (rt_sip (nd_rt node)) request (nd_rt node)
       in (handled, node\<lparr>nd_rt := rt\<rparr>))"

section \<open>Requests of the operator\<close>

definition nextTransactionCallId :: "string \<Rightarrow> string \<Rightarrow> ('a, 's) node \<Rightarrow> string \<times> ('a, 's) node" where
  "nextTransactionCallId pre localId node =
    (let counter = nd_callIdCounter node + 1
     in (pre @ ''-'' @ dec_int (rt_now (nd_rt node)) @ ''-'' @ dec (unat counter) @ ''@'' @ localId,
         node\<lparr>nd_callIdCounter := counter\<rparr>))"

text \<open>\<open>std::ostringstream\<close> with width 10 and fill 0.\<close>

definition pad10 :: "string \<Rightarrow> string" where
  "pad10 s = replicate (10 - length s) (CHR ''0'') @ s"

definition nextInviteSsrc :: "('a, 's) node \<Rightarrow> string \<times> ('a, 's) node" where
  "nextInviteSsrc node =
    (let counter = nd_ssrcCounter node + 1;
         v = (of_int (rt_now (nd_rt node)) + counter) mod (10000000000 :: u64)
     in (pad10 (dec (unat v)), node\<lparr>nd_ssrcCounter := counter\<rparr>))"

definition clientInviteSessionId :: "string \<Rightarrow> string" where
  "clientInviteSessionId callId = ''InviteClientCapability:dialog:'' @ callId"

text \<open>The message every request starts from.\<close>

definition node_message :: "string \<Rightarrow> string \<Rightarrow> endpoint_config \<Rightarrow> string \<Rightarrow> peer_info \<Rightarrow> sip_message" where
  "node_message method event local toId peer = new_sip_message
     \<lparr>sm_method := method, sm_event := event, sm_fromId := ep_sipId local, sm_toId := toId,
      sm_localIp := ep_sipIp local, sm_localPort := ep_sipPort local,
      sm_remoteIp := pi_ip peer, sm_remotePort := pi_port peer\<rparr>"

definition requestRegistration :: "string \<Rightarrow> ('a, 's) runtime \<Rightarrow> (string + unit) \<times> ('a, 's) runtime" where
  "requestRegistration peerId rt =
    (case findBySipId peerId (rt_peers rt) of
       None \<Rightarrow> (Inl ''unknown upstream peer'', rt)
     | Some peer \<Rightarrow>
         if pi_relation peer \<noteq> PEER_UPSTREAM then (Inl ''unknown upstream peer'', rt)
         else let message = (node_message ''REGISTER'' ''request'' (nc_node (rt_config rt)) (pi_sipId peer) peer)
                    \<lparr>sm_expires := (if pi_registerExpires peer > 0 then pi_registerExpires peer else 3600)\<rparr>;
                  rt = rt\<lparr>rt_peers := update_peer peerId (\<lambda>p. p\<lparr>pi_registrationRequested := True\<rparr>) (rt_peers rt)\<rparr>;
                  (sent, rt) = rt_send message rt
           in if \<not> sent
              then (Inl ''failed to send REGISTER'',
                    rt\<lparr>rt_peers := update_peer peerId (\<lambda>p. p\<lparr>pi_registrationRequested := False\<rparr>) (rt_peers rt)\<rparr>)
              else (Inr (), rt))"

definition invited_session :: "peer_info \<Rightarrow> string \<Rightarrow> endpoint_config \<Rightarrow> int \<Rightarrow> string \<Rightarrow> string \<Rightarrow> media_session" where
  "invited_session peer deviceId local rtpPort ssrc callId = new_media_session\<lparr>
     ms_id := clientInviteSessionId callId, ms_peerId := pi_sipId peer, ms_targetDeviceId := deviceId,
     ms_localIp := ep_sipIp local, ms_localRtpPort := rtpPort, ms_remoteIp := pi_ip peer, ms_remoteRtpPort := 0,
     ms_transport := ''RTP/AVP'', ms_direction := ''recvonly'', ms_ssrc := ssrc, ms_callId := callId,
     ms_inviteCseq := ''1'', ms_state := ''invite-requested''\<rparr>"

text \<open>The part of \<open>requestInvite\<close> after the session was created.\<close>

definition send_invite ::
  "'a node_env \<Rightarrow> peer_info \<Rightarrow> string \<Rightarrow> media_session \<Rightarrow> ('a, 's) runtime \<Rightarrow> (string + unit) \<times> ('a, 's) runtime" where
  "send_invite env peer deviceId mediaSession rt =
    (let local = nc_node (rt_config rt);
         (started, mm) = startRtpSessionAdapter (en_adapter env) (ms_id mediaSession) (en_newAdapter env) (rt_media rt);
         rt = rt\<lparr>rt_media := mm\<rparr>
     in case started of
          Inl rtpError \<Rightarrow> (Inl (''failed to start RTP receiver: '' @ rtpError), rt_closeMedia (ms_id mediaSession) rt)
        | Inr _ \<Rightarrow>
            let message = (node_message ''INVITE'' ''request'' local deviceId peer)
                  \<lparr>sm_callId := ms_callId mediaSession, sm_cseq := ms_inviteCseq mediaSession,
                   sm_contentType := ''Application/SDP'',
                   sm_body := buildInviteSdp (ep_sipId local) (ep_sipIp local) (ms_localRtpPort mediaSession)
                                (ms_ssrc mediaSession)\<rparr>;
                (sent, rt) = rt_send message rt
            in if \<not> sent then (Inl ''failed to send INVITE'', rt_closeMedia (ms_id mediaSession) rt)
               else (Inr (), rt))"

definition invite_owner :: "string \<Rightarrow> ('a, 's) runtime \<Rightarrow> string + peer_info" where
  "invite_owner deviceId rt =
    (case catalogOwners deviceId (rt_business rt) of
       [] \<Rightarrow> Inl (''device is not present in synchronized catalog: '' @ deviceId)
     | [owner] \<Rightarrow>
         (case findBySipId owner (rt_peers rt) of
            None \<Rightarrow> Inl (''catalog owner is not a downstream peer: '' @ owner)
          | Some peer \<Rightarrow>
              if pi_relation peer \<noteq> PEER_DOWNSTREAM then Inl (''catalog owner is not a downstream peer: '' @ owner)
              else if \<not> pi_registered peer then Inl (''catalog owner is not registered: '' @ owner)
              else Inr peer)
     | _ \<Rightarrow> Inl (''device belongs to multiple downstream peers: '' @ deviceId))"

definition requestInvite :: "'a node_env \<Rightarrow> string \<Rightarrow> ('a, 's) node \<Rightarrow> (string + unit) \<times> ('a, 's) node" where
  "requestInvite env deviceId node =
    (case invite_owner deviceId (nd_rt node) of
       Inl e \<Rightarrow> (Inl e, node)
     | Inr peer \<Rightarrow>
         let rt = nd_rt node; local = nc_node (rt_config rt);
             (rtpPort, mm) = allocateRtpPort (rt_media rt);
             node = node\<lparr>nd_rt := rt\<lparr>rt_media := mm\<rparr>\<rparr>
         in if rtpPort \<le> 0 then (Inl ''no RTP port available'', node)
            else
              let (callId, node) = nextTransactionCallId ''invite'' (ep_sipId local) node;
                  (ssrc, node) = nextInviteSsrc node;
                  mediaSession = invited_session peer deviceId local rtpPort ssrc callId;
                  (created, mm) = createSession mediaSession (rt_media (nd_rt node));
                  rt = (nd_rt node)\<lparr>rt_media := mm\<rparr>
              in if \<not> created
                 then (Inl ''failed to create RTP receive session'',
                       node\<lparr>nd_rt := rt\<lparr>rt_media := releaseRtpPort rtpPort (rt_media rt)\<rparr>\<rparr>)
                 else let (r, rt) = send_invite env peer deviceId mediaSession rt in (r, node\<lparr>nd_rt := rt\<rparr>))"

definition requestBye :: "string \<Rightarrow> ('a, 's) runtime \<Rightarrow> (string + unit) \<times> ('a, 's) runtime" where
  "requestBye deviceId rt =
    (case filter (\<lambda>session. ms_targetDeviceId session = deviceId) (sessionSnapshot (rt_media rt)) of
       [] \<Rightarrow> (Inl (''no active stream for device: '' @ deviceId), rt)
     | [active] \<Rightarrow>
         (case findBySipId (ms_peerId active) (rt_peers rt) of
            None \<Rightarrow> (Inl (''stream route peer not found: '' @ ms_peerId active), rt)
          | Some peer \<Rightarrow>
              let bye = (node_message ''BYE'' ''request'' (nc_node (rt_config rt)) deviceId peer)
                    \<lparr>sm_callId := ms_callId active, sm_cseq := ''2''\<rparr>;
                  (sent, rt) = rt_send bye rt
              in if \<not> sent then (Inl ''failed to send BYE'', rt) else (Inr (), rt_closeMedia (ms_id active) rt))
     | _ \<Rightarrow> (Inl (''multiple active streams for device: '' @ deviceId), rt))"

definition catalog_query_body :: "string \<Rightarrow> string" where
  "catalog_query_body sipId = xml_prolog @ ''<Query>'' @ xml_crlf @ ''<CmdType>Catalog</CmdType>'' @ xml_crlf @
     ''<SN>1</SN>'' @ xml_crlf @ ''<DeviceID>'' @ sipId @ ''</DeviceID>'' @ xml_crlf @ ''</Query>'' @ xml_crlf"

definition requestCatalog :: "string \<Rightarrow> ('a, 's) node \<Rightarrow> (string + unit) \<times> ('a, 's) node" where
  "requestCatalog peerId node =
    (case findBySipId peerId (rt_peers (nd_rt node)) of
       None \<Rightarrow> (Inl ''unknown downstream peer'', node)
     | Some peer \<Rightarrow>
         if pi_relation peer \<noteq> PEER_DOWNSTREAM then (Inl ''unknown downstream peer'', node)
         else if \<not> pi_registered peer then (Inl ''downstream peer is not registered'', node)
         else
           let local = nc_node (rt_config (nd_rt node));
               (callId, node) = nextTransactionCallId ''catalog-query'' (ep_sipId local) node;
               message = (node_message ''MESSAGE'' ''Query/Catalog'' local (pi_sipId peer) peer)
                 \<lparr>sm_contentType := ''Application/MANSCDP+xml'', sm_callId := callId, sm_cseq := ''1'',
                  sm_body := catalog_query_body (pi_sipId peer)\<rparr>;
               (sent, rt) = rt_send message (nd_rt node)
           in if \<not> sent then (Inl ''failed to send Catalog query'', node\<lparr>nd_rt := rt\<rparr>)
              else (Inr (), node\<lparr>nd_rt := rt\<lparr>rt_business := updateCatalog peerId [] (rt_business rt)\<rparr>\<rparr>))"

end
