(* ===== verification/NodeInvariant.thy ===== *)
theory NodeInvariant
  imports Node Dialogs
begin

text \<open>
  What every sequence of calls of the node's interface keeps (\<open>src/src/core/GB28181Node.cpp\<close>), and what
  starting a node with the standard capabilities sets up. The calls are the steps of \<open>node_step\<close>; a step
  may come at any time and with any arguments, as requests, operators and threads call the node.
\<close>

section \<open>The node keeps its invariant\<close>

lemma rt_ok_updates [simp]:
  "rt_ok (rt\<lparr>rt_sip := s\<rparr>) = rt_ok rt" "rt_ok (rt\<lparr>rt_tasks := t\<rparr>) = rt_ok rt" "rt_ok (rt\<lparr>rt_now := n\<rparr>) = rt_ok rt"
  "rt_ok (rt\<lparr>rt_sender := d\<rparr>) = rt_ok rt" "rt_ok (rt\<lparr>rt_peers := ps\<rparr>) = rt_ok rt"
  by (simp_all add: rt_ok_def)

lemma keeps_ok: "keeps rt rt' \<Longrightarrow> rt_ok rt \<Longrightarrow> rt_ok rt'"
  by (simp add: keeps_def)

lemma registerSipHandler_ok: "rt_ok rt \<Longrightarrow> rt_ok (snd (registerSipHandler cap m e rt))"
  by (simp add: registerSipHandler_def split: prod.split)

lemma intents_ok: "rt_ok rt \<Longrightarrow> rt_ok (fold (\<lambda>it rt. if P it then rt else rt_createSession (f it) rt) ps rt)"
  by (rule keeps_ok [OF keeps_fold]) (simp_all add: keeps_session)

lemma onStart_ok: "cap_onStart env cap rt = Some (b, rt') \<Longrightarrow> rt_ok rt \<Longrightarrow> rt_ok rt'"
proof (induction env cap rt rule: cap_onStart.induct)
  case (1 env rt)
  define r where "r = fold (\<lambda>it rt. if pi_relation it \<noteq> PEER_UPSTREAM then rt
      else rt_createSession \<lparr>si_id = cap_name RegisterClientCapability @ '':intent:'' @ pi_sipId it,
        si_capability = cap_name RegisterClientCapability, si_peerId = pi_sipId it, si_state = ''pending-register''\<rparr> rt)
      (rt_peers rt) rt"
  have "rt_ok r" unfolding r_def by (rule intents_ok [OF "1.prems"(2)])
  then show ?case using "1.prems"(1) registerSipHandler_ok [of r RegisterClientCapability "''REGISTER''" "''response''"]
    by (auto simp: RegisterClient_onStart_def r_def [symmetric] Let_def simp del: cap_name.simps split: prod.splits if_splits)
next
  case (12 env rt)
  then show ?case
    by (auto simp: MediaSend_onStart_def Let_def split_beta intro!: keeps_ok [OF keeps_sendNextFrame] keeps_ok [OF keeps_session]
        split: if_splits prod.splits sum.splits)
qed (auto simp: registerSipHandler_ok RegisterServer_onStart_def KeepaliveClient_onStart_def KeepaliveServer_onStart_def
    CatalogClient_onStart_def CatalogServer_onStart_def RecordQueryClient_onStart_def RecordQueryServer_onStart_def
    InviteClient_onStart_def InviteServer_onStart_def split_beta Let_def
    dest!: arg_cong [of "registerSipHandler _ _ _ _" _ snd] split: if_splits)

lemma start_capabilities_ok:
  "start_capabilities env caps rt = Some (ok, caps', rt') \<Longrightarrow> rt_ok rt \<Longrightarrow> rt_ok rt'"
proof (induction env caps rt arbitrary: ok caps' rt' rule: start_capabilities.induct)
  case (2 env cap started caps rt)
  obtain ok1 st1 rt1 where s: "lc_start env cap started rt = Some (ok1, st1, rt1)"
    using "2.prems"(1) by (auto split: option.splits)
  have "rt_ok rt1"
    using s onStart_ok [of env cap rt ok1 rt1] "2.prems"(2) by (auto simp: lc_start_def split: if_splits)
  then show ?case using "2.IH" [OF s refl refl] s "2.prems"(1) by (auto split: if_splits)
qed simp

lemma mm_configured: "mm_configure es mm = Some (b, mm') \<Longrightarrow> manager_ok mm'"
  using mm_ok_configure [of es mm b mm']
  by (auto simp: mm_configure_def manager_ok_def no_leak_def session_ports_def split: option.splits)

lemma manager_ok_stop_all: "manager_ok mm \<Longrightarrow> manager_ok (stopAllRtpSessionAdapters mm)"
  using mm_ok_stop_all [of mm] by (simp add: manager_ok_def no_leak_def session_ports_def stopAllRtpSessionAdapters_def)

lemma rt_ok_media: "rt_ok rt \<Longrightarrow> manager_ok m \<Longrightarrow> rt_ok (rt\<lparr>rt_media := m\<rparr>)"
  by (simp add: rt_ok_manager)

lemma stop_capabilities_ok: "rt_ok rt \<Longrightarrow> rt_ok (snd (stop_capabilities caps rt))"
proof (induction caps rt rule: stop_capabilities.induct)
  case (2 cap started caps rt)
  have c: "rt_ok r \<Longrightarrow> rt_ok (cap_onStop cap r)" for r :: "('a, 'b) runtime"
    by (cases "(cap, r)" rule: cap_onStop.cases) (simp_all add: RegisterServer_onStop_def rt_ok_def)
  show ?case using "2.IH" [OF "2.prems"] c by (auto simp: lc_stop_def Let_def split: prod.split)
qed simp

lemma gn_stop_ok: "rt_ok (nd_rt node) \<Longrightarrow> rt_ok (nd_rt (gn_stop node))"
proof -
  assume ok: "rt_ok (nd_rt node)"
  let ?r = "(nd_rt node)\<lparr>rt_tasks := stopAll (rt_tasks (nd_rt node)), rt_media := stopAllRtpSessionAdapters (rt_media (nd_rt node))\<rparr>"
  have "manager_ok (stopAllRtpSessionAdapters (rt_media (nd_rt node)))"
    using ok by (intro manager_ok_stop_all) (simp add: rt_ok_manager)
  then have "rt_ok ?r" using ok by (simp add: rt_ok_manager)
  from stop_capabilities_ok [OF this, of "nd_capabilities node"] show ?thesis
    using ok by (auto simp: gn_stop_def Let_def split: prod.split)
qed

lemma gn_start_ok:
  assumes "rt_ok (nd_rt node)" "gn_start env node = Some (b, node')"
  shows "rt_ok (nd_rt node')"
proof -
  have b: "rt_ok (rt\<lparr>rt_business := bs_clear bs\<rparr>)" if "rt_ok rt" for rt :: "('a, 'b) runtime" and bs
    using that by (simp add: rt_ok_def bs_clear_def)
  show ?thesis
    using assms
    by (cases "nd_started node") (auto simp: gn_start_def Let_def b rt_ok_media mm_configured gn_stop_ok
        dest!: start_capabilities_ok split: if_splits prod.splits option.splits)
qed

lemma keeps_Lifecycle: "keeps rt (snd (Lifecycle_handle cap q rt))"
  by (simp add: Lifecycle_handle_def keeps_session)

interpretation nh: request_handler "cap_handle env cap" for env cap
  by unfold_locales (cases "(env, cap)" rule: cap_handle.cases;
    simp add: rc.handle_keeps rs.handle_keeps ks.handle_keeps cc.handle_keeps cs.handle_keeps qc.handle_keeps
      qs.handle_keeps ic.handle_keeps si.handle_keeps keeps_Lifecycle)

lemma dispatch_keeps: "keeps (nd_rt node) (nd_rt (snd (dispatchSipRequest env q node)))"
  using nh.handle_keeps [of "nd_rt node" env _ q]
  by (auto simp: dispatchSipRequest_def st_dispatch_def split: option.split prod.split) (metis snd_conv)

lemma keeps_task: "keeps rt (run_task env t rt)"
  by (cases t) (simp_all add: keeps_sendRegisterToUpstreams keeps_sendKeepaliveToUpstreams keeps_sendNextFrame)

lemma keeps_requestRegistration: "keeps rt (snd (requestRegistration p rt))"
proof -
  have ids: "map pi_sipId (update_peer i (\<lambda>p. p\<lparr>pi_registrationRequested := b\<rparr>) ps) = map pi_sipId ps" for i b ps
    by (induction ps) auto
  show ?thesis
    by (auto simp: requestRegistration_def Let_def split_beta ids
        intro!: keeps_trans [OF keeps_trans [OF _ keeps_send] keeps_peers] keeps_trans [OF _ keeps_send] keeps_peers split: option.split)
qed

lemma keeps_requestBye: "keeps rt (snd (requestBye d rt))"
  by (auto simp: requestBye_def Let_def split_beta intro!: keeps_steps keeps_trans [OF _ keeps_closeMedia]
      split: list.split option.split)

lemma keeps_requestCatalog: "keeps (nd_rt node) (nd_rt (snd (requestCatalog p node)))"
proof -
  have b: "keeps r (r\<lparr>rt_business := updateCatalog p is (rt_business r)\<rparr>)" for r :: "('a, 'b) runtime" and p "is"
    by (rule keeps_business) (simp add: updateCatalog_def)
  have "keeps r ((snd (rt_send m r))\<lparr>rt_business := updateCatalog p is (rt_business r)\<rparr>)" for m p "is" and r :: "('a, 'b) runtime"
    using keeps_trans [OF keeps_send b, of r p "is" m] by simp
  then show ?thesis
    by (auto simp: requestCatalog_def nextTransactionCallId_def Let_def split_beta keeps_send split: option.split)
qed

lemma keeps_send_invite: "keeps rt (snd (send_invite env p d s rt))"
proof -
  have m: "keeps rt (rt\<lparr>rt_media := snd (startRtpSessionAdapter (en_adapter env) k a (rt_media rt))\<rparr>)" for k a
    by (rule keeps_manager) (rule manager_ok_start)
  show ?thesis
    by (auto simp: send_invite_def Let_def split_beta intro!: keeps_trans [OF _ keeps_closeMedia] keeps_trans [OF _ keeps_send] m
        split: sum.split)
qed

lemma keeps_requestInvite: "keeps (nd_rt node) (nd_rt (snd (requestInvite env d node)))"
proof (cases "invite_owner d (nd_rt node)")
  case (Inl e)
  then show ?thesis by (simp add: requestInvite_def)
next
  case (Inr peer)
  obtain p m where a: "allocateRtpPort (rt_media (nd_rt node)) = (p, m)" by fastforce
  note k = keeps_opened [OF a]
  show ?thesis
  proof (cases "p \<le> 0")
    case True
    then show ?thesis using k(1) Inr a by (simp add: requestInvite_def)
  next
    case False
    let ?n = "node\<lparr>nd_rt := (nd_rt node)\<lparr>rt_media := m\<rparr>\<rparr>"
    obtain c n1 where n1: "nextTransactionCallId ''invite'' (ep_sipId (nc_node (rt_config (nd_rt node)))) ?n = (c, n1)" by fastforce
    obtain ss n2 where n2: "nextInviteSsrc n1 = (ss, n2)" by fastforce
    have r: "nd_rt n2 = (nd_rt node)\<lparr>rt_media := m\<rparr>"
      using n1 n2 by (auto simp: nextTransactionCallId_def nextInviteSsrc_def Let_def)
    define s where "s = invited_session peer d (nc_node (rt_config (nd_rt node))) p ss c"
    have s: "ms_localRtpPort s = p" "reassembly_ok s"
      unfolding s_def by (simp_all add: invited_session_def reassembly_ok_def new_media_session_def)
    obtain b m' where cr: "createSession s m = (b, m')" by fastforce
    show ?thesis
    proof (cases b)
      case True
      then have "keeps (nd_rt node) ((nd_rt node)\<lparr>rt_media := m'\<rparr>)" using k(3) False s cr by simp
      then show ?thesis
        using False Inr a n1 n2 r cr True keeps_trans [OF _ keeps_send_invite]
        by (simp add: requestInvite_def Let_def s_def [symmetric] split_beta)
    next
      case b: False
      then show ?thesis
        using k(4) False Inr a n1 n2 r cr by (simp add: requestInvite_def Let_def s_def [symmetric])
    qed
  qed
qed

section \<open>The interface of the node\<close>

abbreviation with_media :: "('a, 's) media_manager \<Rightarrow> ('a, 's) node \<Rightarrow> ('a, 's) node" where
  "with_media mm node \<equiv> node\<lparr>nd_rt := (nd_rt node)\<lparr>rt_media := mm\<rparr>\<rparr>"

inductive node_step :: "'a node_env \<Rightarrow> 's frame_writer \<Rightarrow> ('a, 's) node \<Rightarrow> ('a, 's) node \<Rightarrow> bool" for env w where
  add: "node_step env w node (addCapability cap node)"
| start: "gn_start env node = Some (b, node') \<Longrightarrow> node_step env w node node'"
| stop: "node_step env w node (gn_stop node)"
| request: "dispatchSipRequest env q node = (b, node') \<Longrightarrow> node_step env w node node'"
| task: "t \<in> set (rt_tasks (nd_rt node)) \<Longrightarrow> node_step env w node (node\<lparr>nd_rt := run_task env (tk_task t) (nd_rt node)\<rparr>)"
| registration: "requestRegistration p (nd_rt node) = (r, rt') \<Longrightarrow> node_step env w node (node\<lparr>nd_rt := rt'\<rparr>)"
| invite: "requestInvite env d node = (r, node') \<Longrightarrow> node_step env w node node'"
| bye: "requestBye d (nd_rt node) = (r, rt') \<Longrightarrow> node_step env w node (node\<lparr>nd_rt := rt'\<rparr>)"
| catalog: "requestCatalog p node = (r, node') \<Longrightarrow> node_step env w node node'"
| sink: "node_step env w node (with_media (setFrameSink k (rt_media (nd_rt node))) node)"
| start_adapter: "startRtpSessionAdapter (en_adapter env) i a (rt_media (nd_rt node)) = (r, mm) \<Longrightarrow>
    node_step env w node (with_media mm node)"
| stop_adapter: "node_step env w node (with_media (stopRtpSessionAdapter i (rt_media (nd_rt node))) node)"
| receive: "receiveRtpPacket w i bs (rt_media (nd_rt node)) = Some (r, mm) \<Longrightarrow> node_step env w node (with_media mm node)"
| send: "sendAnnexBFrame (en_adapter env) i v inc n (rt_media (nd_rt node)) = (r, mm) \<Longrightarrow>
    node_step env w node (with_media mm node)"
| restore: "bs_restore s (rt_business (nd_rt node)) = (r, bs) \<Longrightarrow>
    node_step env w node (node\<lparr>nd_rt := (nd_rt node)\<lparr>rt_business := bs\<rparr>\<rparr>)"
| clock: "node_step env w node (node\<lparr>nd_rt := (nd_rt node)\<lparr>rt_now := now\<rparr>\<rparr>)"

lemma restored_ok:
  assumes "bs_restore s bs = (r, bs')" "om_ok (bs_catalogItems bs)" "om_ok (bs_recordItems bs)"
  shows "om_ok (bs_catalogItems bs') \<and> om_ok (bs_recordItems bs')"
proof -
  have "om_ok c \<and> om_ok d" if "restore_lines ls (Suc 0) [] [] = Inr (c, d)" for ls c d
    using restore_lines_canonical [of ls "Suc 0" "[]" "[]" c d] that by (simp add: canonical_def nonempty_peers_def)
  then show ?thesis
    using assms by (auto simp: bs_restore_def Let_def split: if_splits sum.splits list.splits prod.splits)
qed

lemma rt_ok_media_iff: "rt_ok rt \<Longrightarrow> manager_ok (rt_media rt)"
  by (simp add: rt_ok_manager)

lemma manager_ok_stop: "manager_ok mm \<Longrightarrow> manager_ok (stopRtpSessionAdapter k mm)"
  using mm_ok_stop [of mm k] by (simp add: manager_ok_def no_leak_def session_ports_def stopRtpSessionAdapter_def)

lemma manager_ok_sink: "manager_ok mm \<Longrightarrow> manager_ok (setFrameSink k mm)"
  using mm_ok_sink [of mm k] by (simp add: manager_ok_def no_leak_def session_ports_def setFrameSink_def)

lemma keeps_interface:
  "keeps rt (rt\<lparr>rt_media := setFrameSink k (rt_media rt)\<rparr>)"
  "keeps rt (rt\<lparr>rt_media := stopRtpSessionAdapter i (rt_media rt)\<rparr>)"
  "startRtpSessionAdapter ops i a (rt_media rt) = (r, mm) \<Longrightarrow> keeps rt (rt\<lparr>rt_media := mm\<rparr>)"
  "receiveRtpPacket w i bs (rt_media rt) = Some (r', mm) \<Longrightarrow> keeps rt (rt\<lparr>rt_media := mm\<rparr>)"
  "sendAnnexBFrame ops i v inc n (rt_media rt) = (r'', mm) \<Longrightarrow> keeps rt (rt\<lparr>rt_media := mm\<rparr>)"
  using manager_ok_start [of "rt_media rt" ops i a] manager_ok_send [of "rt_media rt" ops i v inc n]
  by (auto intro!: keeps_manager intro: manager_ok_sink manager_ok_stop manager_ok_receive)

text \<open>The requests of an operator leave the rest of the node alone.\<close>

lemma request_frames:
  "nd_started (snd (requestInvite env d node)) = nd_started node"
  "nd_capabilities (snd (requestInvite env d node)) = nd_capabilities node"
  "nd_started (snd (requestCatalog p node)) = nd_started node"
  "nd_capabilities (snd (requestCatalog p node)) = nd_capabilities node"
  by (auto simp: requestInvite_def requestCatalog_def nextTransactionCallId_def nextInviteSsrc_def Let_def
      split: if_splits sum.splits prod.splits option.splits)

text \<open>All steps but starting, stopping and adding a capability.\<close>

lemma node_step_cases [consumes 1, case_names add start stop runs]:
  assumes "node_step env w node node'"
  obtains cap where "node' = addCapability cap node" | b where "gn_start env node = Some (b, node')"
    | "node' = gn_stop node"
    | "keeps (nd_rt node) (nd_rt node')" "nd_started node' = nd_started node" "nd_capabilities node' = nd_capabilities node"
  using assms
proof cases
  case (request q b)
  have "nd_started node' = nd_started node" "nd_capabilities node' = nd_capabilities node"
    using request by (auto simp: dispatchSipRequest_def split: if_splits prod.splits)
  then show ?thesis using that(4) request dispatch_keeps [of node env q] by simp
next
  case (task t)
  then show ?thesis using that(4) keeps_task [of "nd_rt node" env "tk_task t"] by simp
next
  case (registration p r rt')
  then show ?thesis using that(4) keeps_requestRegistration [of "nd_rt node" p] by simp
next
  case (invite d r)
  then show ?thesis using that(4) keeps_requestInvite [of node env d] request_frames(1,2) [of env d node] by simp
next
  case (bye d r rt')
  then show ?thesis using that(4) keeps_requestBye [of "nd_rt node" d] by simp
next
  case (catalog p r)
  then show ?thesis using that(4) keeps_requestCatalog [of node p] request_frames(3,4) [of p node] by simp
next
  case (sink k)
  then show ?thesis using that(4) keeps_interface(1) [of "nd_rt node"] by simp
next
  case (start_adapter i a r mm)
  then show ?thesis using that(4) keeps_interface(3) [OF start_adapter(2)] by simp
next
  case (stop_adapter i)
  then show ?thesis using that(4) keeps_interface(2) [of "nd_rt node"] by simp
next
  case (receive i bs r mm)
  then show ?thesis using that(4) keeps_interface(4) [OF receive(2)] by simp
next
  case (send i v inc n r mm)
  then show ?thesis using that(4) keeps_interface(5) [OF send(2)] by simp
next
  case (restore s r bs)
  have "keeps (nd_rt node) ((nd_rt node)\<lparr>rt_business := bs\<rparr>)"
    by (rule keeps_business) (use restored_ok restore in blast)
  then show ?thesis using that(4) restore by simp
next
  case (clock now)
  have "keeps (nd_rt node) ((nd_rt node)\<lparr>rt_now := now\<rparr>)" by (simp add: keeps_def same_node_def)
  then show ?thesis using that(4) clock by simp
qed (use that in blast)+

section \<open>The invariant of the node\<close>

text \<open>What the operations assume: the tables and the port pool are consistent, and a node that is not
  running has nothing of an earlier run left, so that a start begins from scratch.\<close>

definition node_ok :: "('a, 's) node \<Rightarrow> bool" where
  "node_ok node \<longleftrightarrow> rt_ok (nd_rt node) \<and> nd_started node = st_started (rt_sip (nd_rt node)) \<and>
     (\<not> nd_started node \<longrightarrow> st_routes (rt_sip (nd_rt node)) = [] \<and> rt_tasks (nd_rt node) = [] \<and>
        list_all (\<lambda>c. \<not> snd c) (nd_capabilities node))"

lemma new_node_ok: "node_ok (new_node config now random)"
  by (simp add: node_ok_def new_node_def new_runtime_ok) (simp add: new_runtime_def new_sip_stack_def)

lemma stop_capabilities_flags:
  "list_all (\<lambda>c. \<not> snd c) (fst (stop_capabilities caps rt))"
  "rt_tasks (snd (stop_capabilities caps rt)) = rt_tasks rt"
proof (induction caps rt rule: stop_capabilities.induct)
  case (2 cap started caps rt)
  have "rt_tasks (cap_onStop cap r) = rt_tasks r" for r :: "('a, 'b) runtime"
    by (cases "(cap, r)" rule: cap_onStop.cases) (simp_all add: RegisterServer_onStop_def)
  then show "list_all (\<lambda>c. \<not> snd c) (fst (stop_capabilities ((cap, started) # caps) rt))"
    "rt_tasks (snd (stop_capabilities ((cap, started) # caps) rt)) = rt_tasks rt"
    using "2.IH" by (auto simp: lc_stop_def Let_def split_beta)
qed simp_all

lemma node_ok_stop: "node_ok node \<Longrightarrow> node_ok (gn_stop node)"
  using gn_stop_ok [of node]
  by (auto simp: node_ok_def gn_stop_def st_stop_def stopAll_def stop_capabilities_flags Let_def split_beta)

fun cap_routes :: "capability \<Rightarrow> (string \<times> string) list" where
  "cap_routes RegisterClientCapability = [(''REGISTER'', ''response'')]"
| "cap_routes RegisterServerCapability = [(''REGISTER'', ''request'')]"
| "cap_routes KeepaliveServerCapability = [(''MESSAGE'', ''Notify/keepalive'')]"
| "cap_routes CatalogClientCapability = [(''MESSAGE'', ''Response/Catalog'')]"
| "cap_routes CatalogServerCapability = [(''MESSAGE'', ''Query/Catalog'')]"
| "cap_routes RecordQueryClientCapability = [(''MESSAGE'', ''Response/RecordInfo'')]"
| "cap_routes RecordQueryServerCapability = [(''MESSAGE'', ''Query/RecordInfo'')]"
| "cap_routes InviteClientCapability = [(''INVITE'', ''response'')]"
| "cap_routes InviteServerCapability = [(''INVITE'', ''request''), (''ACK'', ''request''), (''BYE'', ''request'')]"
| "cap_routes _ = []"

definition route_of :: "capability \<Rightarrow> string \<times> string \<Rightarrow> capability sip_route" where
  "route_of cap r = \<lparr>rt_method = fst r, rt_event = snd r, rt_capability = cap_name cap, rt_handler = cap\<rparr>"

lemma registered_route:
  "m \<noteq> [] \<Longrightarrow> registerSipHandler cap m e rt =
    (True, rt\<lparr>rt_sip := (rt_sip rt)\<lparr>st_routes := st_routes (rt_sip rt) @ [route_of cap (m, e)]\<rparr>\<rparr>)"
  by (cases cap) (simp_all add: registerSipHandler_def registerHandler_def route_of_def)

text \<open>No capability of the code refuses to start.\<close>

lemma onStart_accepts: "cap_onStart env cap rt = Some (b, rt') \<Longrightarrow> b"
  by (induction env cap rt rule: cap_onStart.induct)
    (auto simp: RegisterClient_onStart_def RegisterServer_onStart_def KeepaliveClient_onStart_def KeepaliveServer_onStart_def
      CatalogClient_onStart_def CatalogServer_onStart_def RecordQueryClient_onStart_def RecordQueryServer_onStart_def
      InviteClient_onStart_def InviteServer_onStart_def MediaSend_onStart_def registered_route Let_def
      split: if_splits prod.splits sum.splits)

lemma start_capabilities_accepts: "start_capabilities env caps rt = Some (b, caps', rt') \<Longrightarrow> b"
proof (induction env caps rt arbitrary: b caps' rt' rule: start_capabilities.induct)
  case (2 env cap started caps rt)
  obtain ok st1 rt1 where s: "lc_start env cap started rt = Some (ok, st1, rt1)"
    using "2.prems" by (auto split: option.splits)
  moreover have "ok" using s onStart_accepts by (auto simp: lc_start_def split: if_splits)
  ultimately show ?case using "2.IH" [OF s refl refl] "2.prems" by auto
qed simp

lemma intents_same: "same_node rt (fold (\<lambda>it rt. if P it then rt else rt_createSession (f it) rt) ps rt)"
proof -
  have "keeps rt (fold (\<lambda>it rt. if P it then rt else rt_createSession (f it) rt) ps rt)"
    by (rule keeps_fold) (simp add: keeps_session)
  then show ?thesis by (simp add: keeps_def)
qed

text \<open>The capabilities leave the stack running.\<close>

lemma onStart_stack:
  "cap_onStart env cap rt = Some (b, rt') \<Longrightarrow>
    st_routes (rt_sip rt') = st_routes (rt_sip rt) @ map (route_of cap) (cap_routes cap) \<and>
    (st_started (rt_sip rt) \<longrightarrow> st_started (rt_sip rt')) \<and> rt_config rt' = rt_config rt"
proof (induction env cap rt rule: cap_onStart.induct)
  case (1 env rt)
  define r where "r = fold (\<lambda>it rt. if pi_relation it \<noteq> PEER_UPSTREAM then rt
      else rt_createSession \<lparr>si_id = cap_name RegisterClientCapability @ '':intent:'' @ pi_sipId it,
        si_capability = cap_name RegisterClientCapability, si_peerId = pi_sipId it, si_state = ''pending-register''\<rparr> rt)
      (rt_peers rt) rt"
  have "same_node rt r" unfolding r_def by (rule intents_same)
  then have "st_routes (rt_sip r) = st_routes (rt_sip rt)" "st_started (rt_sip r) = st_started (rt_sip rt)"
    "rt_config r = rt_config rt"
    by (simp_all add: same_node_def)
  then show ?case
    using "1.prems" by (auto simp: RegisterClient_onStart_def r_def [symmetric] Let_def registered_route simp del: cap_name.simps)
next
  case (12 env rt)
  have s: "st_routes (rt_sip (snd (sendNextFrame env r))) = st_routes (rt_sip r)"
    "st_started (rt_sip (snd (sendNextFrame env r))) = st_started (rt_sip r)"
    "rt_config (snd (sendNextFrame env r)) = rt_config r" for r :: "('a, 'b) runtime"
    using keeps_sendNextFrame [of r env] by (simp_all add: keeps_def same_node_def)
  show ?case
    using 12 by (auto simp: MediaSend_onStart_def Let_def split_beta s split: if_splits prod.splits sum.splits)
qed (auto simp: RegisterServer_onStart_def KeepaliveClient_onStart_def KeepaliveServer_onStart_def
    CatalogClient_onStart_def CatalogServer_onStart_def RecordQueryClient_onStart_def RecordQueryServer_onStart_def
    InviteClient_onStart_def InviteServer_onStart_def registered_route)

lemma start_capabilities_running:
  "start_capabilities env caps rt = Some (b, caps', rt') \<Longrightarrow> st_started (rt_sip rt) \<Longrightarrow> st_started (rt_sip rt')"
proof (induction env caps rt arbitrary: b caps' rt' rule: start_capabilities.induct)
  case (2 env cap started caps rt)
  obtain ok st1 rt1 where s: "lc_start env cap started rt = Some (ok, st1, rt1)"
    using "2.prems"(1) by (auto split: option.splits)
  moreover have "st_started (rt_sip rt1)"
    using s onStart_stack [of env cap rt ok rt1] "2.prems"(2) by (auto simp: lc_start_def split: if_splits)
  ultimately show ?case using "2.IH" [OF s refl refl] "2.prems"(1) by (auto split: if_splits)
qed simp

text \<open>What a start does: it is refused on an invalid configuration before anything is running, otherwise
  the capabilities are started on a running stack.\<close>

lemma gn_start_cases:
  assumes "gn_start env node = Some (b, node')" "\<not> nd_started node" "\<not> st_started (rt_sip (nd_rt node))"
  obtains (refused) "\<not> b" "nd_started node' = nd_started node" "nd_capabilities node' = nd_capabilities node"
      "st_routes (rt_sip (nd_rt node')) = st_routes (rt_sip (nd_rt node))" "rt_tasks (nd_rt node') = rt_tasks (nd_rt node)"
      "st_started (rt_sip (nd_rt node')) = st_started (rt_sip (nd_rt node))"
      "\<not> ep_valid (nc_node (rt_config (nd_rt node))) \<or> config_ports (nc_sipEndpoints (rt_config (nd_rt node))) = Some []"
  | (started) rt where "b" "nd_started node'" "st_started (rt_sip rt)" "rt_config rt = rt_config (nd_rt node)"
      "st_routes (rt_sip rt) = st_routes (rt_sip (nd_rt node))" "rt_tasks rt = rt_tasks (nd_rt node)"
      "start_capabilities env (nd_capabilities node) rt = Some (True, nd_capabilities node', nd_rt node')"
      "ep_valid (nc_node (rt_config (nd_rt node)))" "config_ports (nc_sipEndpoints (rt_config (nd_rt node))) \<noteq> Some []"
proof -
  let ?es = "nc_sipEndpoints (rt_config (nd_rt node))" and ?local = "nc_node (rt_config (nd_rt node))"
  show ?thesis
  proof (cases "ep_valid ?local")
    case False
    then show ?thesis using refused assms by (auto simp: gn_start_def st_configure_def Let_def)
  next
    case valid: True
    then obtain ports where ports: "config_ports ?es = Some ports"
      using assms by (auto simp: gn_start_def st_configure_def pr_configure_def mm_configure_def Let_def split: option.splits)
    show ?thesis
    proof (cases "ports = []")
      case True
      then show ?thesis
        using refused assms valid ports
        by (auto simp: gn_start_def st_configure_def pr_configure_def mm_configure_def Let_def)
    next
      case False
      obtain rt ok caps' rt1 where s: "st_started (rt_sip rt)" "rt_config rt = rt_config (nd_rt node)"
        "st_routes (rt_sip rt) = st_routes (rt_sip (nd_rt node))" "rt_tasks rt = rt_tasks (nd_rt node)"
        "start_capabilities env (nd_capabilities node) rt = Some (ok, caps', rt1)"
        "ok \<Longrightarrow> b \<and> node' = node\<lparr>nd_rt := rt1, nd_capabilities := caps', nd_started := True\<rparr>"
        using assms valid ports False
        by (auto simp: gn_start_def st_configure_def pr_configure_def st_start_def im_ops_def im_start_def mm_configure_def Let_def
            split: option.splits) (rule that [rotated 4], assumption, simp_all split: if_splits)
      then show ?thesis using started [of rt] start_capabilities_accepts [OF s(5)] valid ports False by simp
    qed
  qed
qed

lemma gn_start_started: "gn_start env node = Some (True, node') \<Longrightarrow> nd_started node'"
  by (auto simp: gn_start_def Let_def split: if_splits option.splits prod.splits)

lemma node_ok_start:
  assumes "node_ok node" "gn_start env node = Some (b, node')"
  shows "node_ok node'"
proof (cases "nd_started node")
  case True
  then show ?thesis using assms by (simp add: gn_start_def)
next
  case False
  then have r: "\<not> st_started (rt_sip (nd_rt node))" using assms(1) by (simp add: node_ok_def)
  have ok: "rt_ok (nd_rt node')" using gn_start_ok [OF _ assms(2)] assms(1) by (simp add: node_ok_def)
  show ?thesis
  proof (cases rule: gn_start_cases [OF assms(2) False r])
    case 1
    then show ?thesis using assms(1) ok False by (simp add: node_ok_def)
  next
    case (2 rt)
    then show ?thesis using start_capabilities_running [OF 2(7)] ok by (simp add: node_ok_def)
  qed
qed

lemma node_step_ok: "node_step env w node node' \<Longrightarrow> node_ok node \<Longrightarrow> node_ok node'"
proof (cases rule: node_step_cases, assumption)
  fix cap assume "node_ok node" "node' = addCapability cap node"
  then show "node_ok node'" by (simp add: node_ok_def addCapability_def)
next
  fix b assume "node_ok node" "gn_start env node = Some (b, node')"
  then show "node_ok node'" by (rule node_ok_start)
next
  assume "node_ok node" "node' = gn_stop node"
  then show "node_ok node'" by (simp add: node_ok_stop)
next
  assume "node_ok node" "keeps (nd_rt node) (nd_rt node')" "nd_started node' = nd_started node" "nd_capabilities node' = nd_capabilities node"
  then show "node_ok node'" by (simp add: node_ok_def keeps_def same_node_def)
qed

lemma node_steps_ok: "(node_step env w)\<^sup>*\<^sup>* node node' \<Longrightarrow> node_ok node \<Longrightarrow> node_ok node'"
  by (induction rule: rtranclp_induct) (auto intro: node_step_ok)

section \<open>The dispatch table\<close>

lemma start_capabilities_routes:
  "start_capabilities env caps rt = Some (True, caps', rt') \<Longrightarrow> list_all (\<lambda>c. \<not> snd c) caps \<Longrightarrow>
    st_routes (rt_sip rt') = st_routes (rt_sip rt) @ concat (map (\<lambda>c. map (route_of (fst c)) (cap_routes (fst c))) caps)"
proof (induction env caps rt arbitrary: caps' rt' rule: start_capabilities.induct)
  case (2 env cap started caps rt)
  obtain st1 rt1 caps1 where s: "lc_start env cap started rt = Some (True, st1, rt1)"
    "start_capabilities env caps rt1 = Some (True, caps1, rt')"
    using "2.prems"(1) by (auto split: option.splits if_splits)
  have "cap_onStart env cap rt = Some (True, rt1)"
    using s(1) "2.prems"(2) by (auto simp: lc_start_def)
  then show ?case using "2.IH" [OF s(1) refl refl _ s(2)] "2.prems"(2) onStart_stack [of env cap rt True rt1] by simp
qed simp

text \<open>The intervals of the two timers in milliseconds are \<open>int\<close>s.\<close>

definition timers_fit :: "node_config \<Rightarrow> bool" where
  "timers_fit config \<longleftrightarrow> (\<forall>n \<in> {tc_registerRefreshSeconds (nc_timers config), tc_heartbeatIntervalSeconds (nc_timers config)}.
     INT_MIN \<le> n * 1000 \<and> n * 1000 \<le> INT_MAX)"

lemma onStart_total:
  assumes "timers_fit (rt_config rt)" shows "cap_onStart env cap rt \<noteq> None"
proof -
  have r: "rt_config (fold (\<lambda>it rt. if P it then rt else rt_createSession (f it) rt) ps rt) = rt_config rt" for P f ps
    using intents_same [of rt P f ps] by (simp add: same_node_def)
  have "RegisterClient_onStart rt \<noteq> None"
    using assms by (auto simp: RegisterClient_onStart_def Let_def registered_route r scheduleEvery_def timers_fit_def)
  moreover have "KeepaliveClient_onStart rt \<noteq> None"
    using assms by (auto simp: KeepaliveClient_onStart_def scheduleEvery_def timers_fit_def)
  ultimately show ?thesis by (cases cap) simp_all
qed

lemma start_capabilities_total:
  "timers_fit (rt_config rt) \<Longrightarrow> \<exists>r. start_capabilities env caps rt = Some r"
proof (induction env caps rt rule: start_capabilities.induct)
  case (2 env cap started caps rt)
  obtain ok st1 rt1 where s: "lc_start env cap started rt = Some (ok, st1, rt1)"
    using onStart_total [OF "2.prems", of env cap] by (cases started) (auto simp: lc_start_def)
  moreover have "rt_config rt1 = rt_config rt"
    using s onStart_stack [of env cap rt ok rt1] by (auto simp: lc_start_def split: if_splits)
  ultimately show ?case using "2.IH" [OF s refl refl] "2.prems" by fastforce
qed auto

lemma gn_start_total:
  assumes "timers_fit (rt_config (nd_rt node))" "config_ports (nc_sipEndpoints (rt_config (nd_rt node))) \<noteq> None"
  shows "\<exists>r. gn_start env node = Some r"
proof -
  have n: "start_capabilities env caps rt = None \<Longrightarrow> rt_config rt = rt_config (nd_rt node) \<Longrightarrow> False" for caps rt
    using start_capabilities_total [of rt env caps] assms(1) by auto
  then show ?thesis
    using assms(2)
    by (auto simp: gn_start_def st_configure_def pr_configure_def st_start_def im_ops_def im_start_def mm_configure_def Let_def
        split: option.split dest!: n)
qed

lemma requests_keep_routes:
  "nd_started node \<Longrightarrow> node' = fold (\<lambda>q n. snd (dispatchSipRequest env q n)) qs node \<Longrightarrow>
    nd_started node' \<and> same_node (nd_rt node) (nd_rt node')"
proof (induction qs arbitrary: node)
  case (Cons q qs)
  let ?n = "snd (dispatchSipRequest env q node)"
  have "nd_started ?n" using Cons.prems(1) by (simp add: dispatchSipRequest_def split: prod.split)
  then show ?case
    using Cons.IH [of ?n] Cons.prems(2) dispatch_keeps [of node env q] same_node_trans by (auto simp: keeps_def)
qed simp

lemma dispatch_by_table:
  assumes "nd_started node" "st_routes (rt_sip (nd_rt node)) = map (\<lambda>(r, c). route_of c r) table"
    "list_all (\<lambda>(r, c). snd r \<noteq> []) table"
  shows "dispatchSipRequest env q node = (case map_of table (rq_method q, rq_event q) of
     None \<Rightarrow> (False, node)
   | Some cap \<Rightarrow> let (handled, rt) = cap_handle env cap q (nd_rt node) in (handled, node\<lparr>nd_rt := rt\<rparr>))"
proof -
  have "find_route q (map (\<lambda>(r, c). route_of c r) table) = map_of table (rq_method q, rq_event q)"
    using assms(3) by (induction table) (auto simp: route_of_def)
  then show ?thesis
    using assms(1,2) by (simp add: dispatchSipRequest_def st_dispatch_def split: option.split prod.split)
qed

lemma started_node_routes:
  assumes "node_ok node" "\<not> nd_started node" "ep_valid (nc_node (rt_config (nd_rt node)))"
    "timers_fit (rt_config (nd_rt node))" "config_ports (nc_sipEndpoints (rt_config (nd_rt node))) = Some (port # ports)"
  shows "\<exists>node1. gn_start env node = Some (True, node1) \<and> nd_started node1 \<and>
    st_routes (rt_sip (nd_rt node1)) = concat (map (\<lambda>c. map (route_of c) (cap_routes c)) (map fst (nd_capabilities node)))"
proof -
  have s: "\<not> st_started (rt_sip (nd_rt node))" "st_routes (rt_sip (nd_rt node)) = []"
    "list_all (\<lambda>c. \<not> snd c) (nd_capabilities node)"
    using assms(1,2) by (simp_all add: node_ok_def)
  obtain b node1 where start: "gn_start env node = Some (b, node1)"
    using gn_start_total [of node env] assms(4,5) by auto
  show ?thesis
  proof (cases rule: gn_start_cases [OF start assms(2) s(1)])
    case 1
    then show ?thesis using assms(3,5) by simp
  next
    case (2 rt)
    then show ?thesis using start start_capabilities_routes [OF 2(7) s(3)] s(2) by (simp add: comp_def)
  qed
qed

text \<open>C12: starting a stopped node with the standard capabilities sets up this dispatch table, and after any
  sequence of requests it is still the table: a request goes to the capability of its method and event, any
  other request is refused and changes nothing. The start succeeds for every configuration with a valid
  endpoint, RTP ports and intervals within \<open>int\<close>, whatever the node did before.\<close>

theorem standard_node_routes:
  assumes "(node_step env w)\<^sup>*\<^sup>* (new_node config now random) node" and "\<not> nd_started node"
    and "map fst (nd_capabilities node) = createStandardCapabilities"
    and "ep_valid (nc_node (rt_config (nd_rt node)))" and "timers_fit (rt_config (nd_rt node))"
    and "config_ports (nc_sipEndpoints (rt_config (nd_rt node))) = Some (port # ports)"
  shows "\<exists>node1. gn_start env node = Some (True, node1) \<and>
    (\<forall>qs node' q. node' = fold (\<lambda>q n. snd (dispatchSipRequest env q n)) qs node1 \<longrightarrow>
      dispatchSipRequest env q node' =
      (case map_of [((''REGISTER'', ''response''), RegisterClientCapability),
          ((''REGISTER'', ''request''), RegisterServerCapability),
          ((''MESSAGE'', ''Notify/keepalive''), KeepaliveServerCapability),
          ((''MESSAGE'', ''Response/Catalog''), CatalogClientCapability),
          ((''MESSAGE'', ''Query/Catalog''), CatalogServerCapability),
          ((''MESSAGE'', ''Response/RecordInfo''), RecordQueryClientCapability),
          ((''MESSAGE'', ''Query/RecordInfo''), RecordQueryServerCapability),
          ((''INVITE'', ''response''), InviteClientCapability),
          ((''INVITE'', ''request''), InviteServerCapability),
          ((''ACK'', ''request''), InviteServerCapability),
          ((''BYE'', ''request''), InviteServerCapability)] (rq_method q, rq_event q) of
         None \<Rightarrow> (False, node')
       | Some cap \<Rightarrow> let (handled, rt) = cap_handle env cap q (nd_rt node') in (handled, node'\<lparr>nd_rt := rt\<rparr>)))"
proof -
  have ok: "node_ok node" by (rule node_steps_ok [OF assms(1) new_node_ok])
  let ?table = "concat (map (\<lambda>c. map (\<lambda>r. (r, c)) (cap_routes c)) createStandardCapabilities)"
  obtain node1 where start: "gn_start env node = Some (True, node1)" "nd_started node1"
    and st: "st_routes (rt_sip (nd_rt node1)) = concat (map (\<lambda>c. map (route_of c) (cap_routes c)) createStandardCapabilities)"
    using started_node_routes [OF ok assms(2,4-6)] assms(3) by auto
  have r: "st_routes (rt_sip (nd_rt node1)) = map (\<lambda>(r, c). route_of c r) ?table"
    using st by (simp add: map_concat comp_def)
  have table: "list_all (\<lambda>(r, c). snd r \<noteq> []) ?table" by (simp add: createStandardCapabilities_def)
  have "dispatchSipRequest env q n = (case map_of ?table (rq_method q, rq_event q) of None \<Rightarrow> (False, n)
      | Some cap \<Rightarrow> let (handled, rt) = cap_handle env cap q (nd_rt n) in (handled, n\<lparr>nd_rt := rt\<rparr>))"
    if "n = fold (\<lambda>q n. snd (dispatchSipRequest env q n)) qs node1" for qs n q
    by (rule dispatch_by_table [OF _ _ table]) (use requests_keep_routes [OF start(2) that] r in \<open>simp_all add: same_node_def\<close>)
  then show ?thesis using start(1) by (simp add: createStandardCapabilities_def)
qed

section \<open>A node on its configuration\<close>

definition sample_node_endpoint :: endpoint_config where
  "sample_node_endpoint = new_endpoint_config\<lparr>ep_name := ''node'', ep_sipId := ''34020000002000000001'', ep_sipIp := ''192.0.2.1'',
     ep_sipPort := 5060, ep_rtpPortBegin := 30000, ep_rtpPortEnd := 30003\<rparr>"

definition sample_full_node :: "(unit, unit) node" where
  "sample_full_node = fold addCapability createStandardCapabilities
     (new_node (new_node_config\<lparr>nc_node := sample_node_endpoint, nc_sipEndpoints := [sample_node_endpoint]\<rparr>) 0 (\<lambda>_. 0))"

lemma added_fields:
  "nd_rt (fold addCapability caps node) = nd_rt node" "nd_started (fold addCapability caps node) = nd_started node"
  "nd_capabilities (fold addCapability caps node) = nd_capabilities node @ map (\<lambda>c. (c, False)) caps"
  by (induction caps arbitrary: node) (simp_all add: addCapability_def)

lemma added_reachable: "(node_step env w)\<^sup>*\<^sup>* node (fold addCapability caps node)"
proof (induction caps arbitrary: node)
  case (Cons c caps)
  show ?case using converse_rtranclp_into_rtranclp [OF node_step.add Cons.IH] by simp
qed simp

lemma sample_full_node_start:
  "\<not> nd_started sample_full_node" "map fst (nd_capabilities sample_full_node) = createStandardCapabilities"
  "rt_config (nd_rt sample_full_node) = new_node_config\<lparr>nc_node := sample_node_endpoint, nc_sipEndpoints := [sample_node_endpoint]\<rparr>"
  unfolding sample_full_node_def added_fields by (simp_all add: new_node_def new_runtime_def comp_def)

lemma sample_config_start:
  "ep_valid (nc_node (rt_config (nd_rt sample_full_node)))" "timers_fit (rt_config (nd_rt sample_full_node))"
  "config_ports (nc_sipEndpoints (rt_config (nd_rt sample_full_node))) = Some [30000, 30002]"
  by (simp_all add: sample_full_node_start(3) ep_valid_def sample_node_endpoint_def timers_fit_def new_node_config_def
      new_endpoint_config_def new_timer_config_def INT_MIN_def INT_MAX_def config_ports_def range_ports_def port_loop.simps)

lemma sample_full_node_reachable:
  "(node_step env w)\<^sup>*\<^sup>* (new_node (new_node_config\<lparr>nc_node := sample_node_endpoint, nc_sipEndpoints := [sample_node_endpoint]\<rparr>) 0 (\<lambda>_. 0))
     sample_full_node"
  unfolding sample_full_node_def by (rule added_reachable)

theorem standard_node_routes_witness:
  "\<exists>node1. gn_start sample_adapter_env sample_full_node = Some (True, node1) \<and>
    dispatchSipRequest sample_adapter_env (sample_invite\<lparr>rq_event := ''request''\<rparr>) node1 =
      (let (handled, rt) = InviteServer_handle sample_adapter_env (sample_invite\<lparr>rq_event := ''request''\<rparr>) (nd_rt node1)
       in (handled, node1\<lparr>nd_rt := rt\<rparr>)) \<and>
    dispatchSipRequest sample_adapter_env (sample_invite\<lparr>rq_event := ''response'', rq_method := ''BYE''\<rparr>) node1 = (False, node1)"
proof -
  obtain node1 where n: "gn_start sample_adapter_env sample_full_node = Some (True, node1)"
    "\<forall>qs node' q. node' = fold (\<lambda>q n. snd (dispatchSipRequest sample_adapter_env q n)) qs node1 \<longrightarrow>
      dispatchSipRequest sample_adapter_env q node' =
      (case map_of [((''REGISTER'', ''response''), RegisterClientCapability),
          ((''REGISTER'', ''request''), RegisterServerCapability),
          ((''MESSAGE'', ''Notify/keepalive''), KeepaliveServerCapability),
          ((''MESSAGE'', ''Response/Catalog''), CatalogClientCapability),
          ((''MESSAGE'', ''Query/Catalog''), CatalogServerCapability),
          ((''MESSAGE'', ''Response/RecordInfo''), RecordQueryClientCapability),
          ((''MESSAGE'', ''Query/RecordInfo''), RecordQueryServerCapability),
          ((''INVITE'', ''response''), InviteClientCapability),
          ((''INVITE'', ''request''), InviteServerCapability),
          ((''ACK'', ''request''), InviteServerCapability),
          ((''BYE'', ''request''), InviteServerCapability)] (rq_method q, rq_event q) of
         None \<Rightarrow> (False, node')
       | Some cap \<Rightarrow> let (handled, rt) = cap_handle sample_adapter_env cap q (nd_rt node') in (handled, node'\<lparr>nd_rt := rt\<rparr>))"
    using standard_node_routes [where w = "\<lambda>f k. (Inr (), k)", OF sample_full_node_reachable sample_full_node_start(1,2) sample_config_start]
    by blast
  have "rq_method sample_invite = ''INVITE''" by (simp add: sample_invite_def)
  then show ?thesis using n(1) n(2) [rule_format, of node1 "[]"] by simp
qed

text \<open>C4: whatever is called, in any order and at any time, the tables of the node stay consistent and the
  allocated RTP ports are exactly those of the media sessions; and a node that is not running has nothing of
  an earlier run left: it has no routes and no tasks, answers no request and sends nothing.\<close>

theorem reachable_node_ok:
  assumes "(node_step env w)\<^sup>*\<^sup>* (new_node config now random) node"
  shows "node_ok node \<and> mm_ok (rt_media (nd_rt node)) \<and>
    mm_allocatedPorts (rt_media (nd_rt node)) = session_ports (rt_media (nd_rt node)) \<and>
    (if nd_started node then st_started (rt_sip (nd_rt node))
     else st_routes (rt_sip (nd_rt node)) = [] \<and> rt_tasks (nd_rt node) = [] \<and> gn_stop node = node \<and>
       dispatchSipRequest env q node = (False, node) \<and> rt_send m (nd_rt node) = (False, nd_rt node))"
proof -
  have "node_ok node" by (rule node_steps_ok [OF assms new_node_ok])
  then show ?thesis
    by (simp add: node_ok_def rt_ok_def no_leak_def gn_stop_def dispatchSipRequest_def rt_send_def st_send_def)
qed

theorem reachable_node_ok_witness:
  "\<exists>node1. gn_start sample_adapter_env sample_full_node = Some (True, node1) \<and>
    (let node2 = snd (dispatchSipRequest sample_adapter_env sample_invite node1)
     in node_ok node2 \<and> mm_allocatedPorts (rt_media (nd_rt node2)) = session_ports (rt_media (nd_rt node2)))"
proof -
  obtain b node1 where s: "gn_start sample_adapter_env sample_full_node = Some (b, node1)"
    using gn_start_total [of sample_full_node sample_adapter_env] sample_config_start by auto
  have "\<not> st_started (rt_sip (nd_rt sample_full_node))"
    by (simp add: sample_full_node_def added_fields del: fold_simps) (simp add: new_node_def new_runtime_def new_sip_stack_def)
  then have b: "b" using sample_config_start by (cases rule: gn_start_cases [OF s sample_full_node_start(1)]) simp_all
  have "(node_step sample_adapter_env (\<lambda>f k. (Inr (), k)))\<^sup>*\<^sup>*
      (new_node (new_node_config\<lparr>nc_node := sample_node_endpoint, nc_sipEndpoints := [sample_node_endpoint]\<rparr>) 0 (\<lambda>_. 0))
      (snd (dispatchSipRequest sample_adapter_env sample_invite node1))"
    by (intro rtranclp.rtrancl_into_rtrancl [OF rtranclp.rtrancl_into_rtrancl [OF sample_full_node_reachable]])
      (rule node_step.start [OF s], rule node_step.request, rule surjective_pairing)
  from reachable_node_ok [OF this] s b show ?thesis by (simp add: Let_def)
qed

end
