(* ===== verification/Management.thy ===== *)
theory Management
  imports NodeInvariant
begin

text \<open>
  The embeddable runtime around a node: the status texts of the node
  (\<open>src/src/core/GB28181Node.cpp\<close>), the commands of an operator and the life cycle
  (\<open>src/src/core/MediaFabricRuntime.cpp\<close>), the start of the management socket and what it hands on
  (\<open>src/src/core/ManagementServer.cpp\<close>), the C interface (\<open>src/src/capi/media_fabric_c_api.cpp\<close>) and the
  command line (\<open>src/src/main.cpp\<close>). The calls of the operating system are parameters.
\<close>

section \<open>Status of the node\<close>

definition yes_no :: "bool \<Rightarrow> string" where
  "yes_no b = (if b then ''yes'' else ''no'')"

definition peer_status :: "peer_info \<Rightarrow> string" where
  "peer_status it = pi_sipId it @ '' '' @ (if pi_relation it = PEER_UPSTREAM then ''upstream'' else ''downstream'') @
     '' '' @ pi_ip it @ '':'' @ dec_int (pi_port it) @ '' registered='' @ yes_no (pi_registered it) @
     '' last_register='' @ dec_int (pi_lastRegisterTime it) @ '' last_keepalive='' @ dec_int (pi_lastKeepaliveTime it) @ [lf]"

definition peersStatusText :: "('a, 's) node \<Rightarrow> string" where
  "peersStatusText node = concat (map peer_status (rt_peers (nd_rt node)))"

definition stream_status :: "media_session \<Rightarrow> string" where
  "stream_status session = ''device='' @ ms_targetDeviceId session @ '' route_peer='' @ ms_peerId session @
     '' state='' @ ms_state session @ '' call_id='' @ ms_callId session @
     '' local_rtp='' @ ms_localIp session @ '':'' @ dec_int (ms_localRtpPort session) @
     '' remote_rtp='' @ ms_remoteIp session @ '':'' @ dec_int (ms_remoteRtpPort session) @
     '' received_packets='' @ dec (unat (ms_receivedRtpPackets session)) @
     '' received_frames='' @ dec (unat (ms_completedVideoFrames session)) @
     '' received_bytes='' @ dec (unat (ms_receivedRtpBytes session)) @ [lf]"

definition streamsStatusText :: "('a, 's) node \<Rightarrow> string" where
  "streamsStatusText node =
     concat (map (\<lambda>session. if ms_targetDeviceId session = [] then [] else stream_status session)
       (sessionSnapshot (rt_media (nd_rt node))))"

definition capabilityNames :: "('a, 's) node \<Rightarrow> string list" where
  "capabilityNames node = map (\<lambda>c. cap_name (fst c)) (nd_capabilities node)"

section \<open>Commands\<close>

text \<open>\<open>input >> word\<close>: the word, empty when there is none, and what is left.\<close>

definition extract_word :: "string \<Rightarrow> string \<times> string" where
  "extract_word s = (let s = dropWhile isspace s in (takeWhile (\<lambda>c. \<not> isspace c) s, dropWhile (\<lambda>c. \<not> isspace c) s))"

definition reply :: "string \<Rightarrow> string + unit \<Rightarrow> string" where
  "reply success r = (case r of Inl e \<Rightarrow> ''ERROR '' @ e @ [lf] | Inr _ \<Rightarrow> success @ [lf])"

definition help_text :: string where
  "help_text = ''OK commands: peers, register <peer-id>, invite <catalog-device-id>, bye <catalog-device-id>, streams, catalog-query <peer-id>, catalog-show <peer-id>'' @ [lf]"

definition executeCommand :: "'a node_env \<Rightarrow> string \<Rightarrow> ('a, 's) node \<Rightarrow> string \<times> ('a, 's) node" where
  "executeCommand env request node =
    (let (command, rest) = extract_word request; (peerId, _) = extract_word rest
     in if command = ''peers'' then (''OK'' @ [lf] @ peersStatusText node, node)
        else if command = ''register''
        then let (r, rt) = requestRegistration peerId (nd_rt node) in (reply ''OK REGISTER sent'' r, node\<lparr>nd_rt := rt\<rparr>)
        else if command = ''invite'' then let (r, node) = requestInvite env peerId node in (reply ''OK INVITE sent'' r, node)
        else if command = ''bye''
        then let (r, rt) = requestBye peerId (nd_rt node) in (reply ''OK BYE sent'' r, node\<lparr>nd_rt := rt\<rparr>)
        else if command = ''streams'' then (''OK'' @ [lf] @ streamsStatusText node, node)
        else if command = ''catalog-query''
        then let (r, node) = requestCatalog peerId node in (reply ''OK Catalog query sent'' r, node)
        else if command = ''catalog-show'' then (''OK'' @ [lf] @ catalogJson peerId (rt_business (nd_rt node)) @ [lf], node)
        else if command = ''help'' then (help_text, node)
        else (''ERROR unknown command'' @ [lf], node))"

section \<open>The management socket\<close>

text \<open>What \<open>socket\<close>, \<open>bind\<close> and \<open>listen\<close> answer.\<close>

record socket_calls =
  sc_socket :: bool
  sc_bind :: "string \<Rightarrow> bool"
  sc_listen :: bool

definition sun_path_size :: nat where "sun_path_size = 108"

definition ms_start :: "socket_calls \<Rightarrow> string \<Rightarrow> string + unit" where
  "ms_start calls socketPath =
    (if socketPath = [] \<or> length socketPath \<ge> sun_path_size then Inl ''invalid management socket configuration''
     else if \<not> sc_socket calls then Inl ''cannot create management socket''
     else if \<not> sc_bind calls socketPath \<or> \<not> sc_listen calls then Inl ''cannot listen on management socket''
     else Inr ())"

text \<open>One client: what one \<open>read\<close> of the buffer gives, cut at a zero byte, goes to the handler; no answer
  when nothing was read.\<close>

definition management_buffer :: nat where "management_buffer = 4096"

definition ms_serve :: "(string \<Rightarrow> 'r \<Rightarrow> string \<times> 'r) \<Rightarrow> string \<Rightarrow> 'r \<Rightarrow> string option \<times> 'r" where
  "ms_serve handler sent r =
    (let buffer = take (management_buffer - 1) sent
     in if buffer = [] then (None, r) else let (response, r) = handler (c_string buffer) r in (Some response, r))"

section \<open>The runtime\<close>

text \<open>The static counters of the functions of the program outlive a node.\<close>

record statics =
  sv_transaction :: u64
  sv_ssrc :: u64
  sv_sn :: int
  sv_callId :: u64
  sv_nonce :: u64

definition statics_of :: "('a, 's) node \<Rightarrow> statics" where
  "statics_of node = \<lparr>sv_transaction = nd_callIdCounter node, sv_ssrc = nd_ssrcCounter node, sv_sn = rt_nextSn (nd_rt node),
     sv_callId = rt_callIdCounter (nd_rt node), sv_nonce = rt_nonceCounter (nd_rt node)\<rparr>"

definition with_statics :: "statics \<Rightarrow> ('a, 's) node \<Rightarrow> ('a, 's) node" where
  "with_statics v node = node\<lparr>nd_callIdCounter := sv_transaction v, nd_ssrcCounter := sv_ssrc v,
     nd_rt := (nd_rt node)\<lparr>rt_nextSn := sv_sn v, rt_callIdCounter := sv_callId v, rt_nonceCounter := sv_nonce v\<rparr>\<rparr>"

record ('a, 's) fabric =
  fr_node :: "('a, 's) node option"
  fr_managementServer :: bool
  fr_running :: bool
  fr_statics :: statics

definition new_fabric :: "('a, 's) fabric" where
  "new_fabric = \<lparr>fr_node = None, fr_managementServer = False, fr_running = False,
     fr_statics = \<lparr>sv_transaction = 0, sv_ssrc = 0, sv_sn = 1, sv_callId = 0, sv_nonce = 0\<rparr>\<rparr>"

text \<open>\<open>start\<close> and the node it makes; \<open>now\<close> and \<open>random\<close> are the clock and the entropy source of that node.
  A node that is not kept is stopped and destroyed.\<close>

definition fabric_node :: "node_config \<Rightarrow> int \<Rightarrow> (nat \<Rightarrow> u32) \<Rightarrow> statics \<Rightarrow> ('a, 's) node" where
  "fabric_node config now random v = fold addCapability createStandardCapabilities (with_statics v (new_node config now random))"

definition fr_start ::
  "'a node_env \<Rightarrow> (string \<Rightarrow> string option) \<Rightarrow> socket_calls \<Rightarrow> int \<Rightarrow> (nat \<Rightarrow> u32) \<Rightarrow> string \<Rightarrow> bool \<Rightarrow>
     ('a, 's) fabric \<Rightarrow> ((string + unit) \<times> ('a, 's) fabric) option" where
  "fr_start env files calls now random configPath enableManagementServer fr =
    (if fr_running fr then Some (Inl ''media-fabric runtime is already running'', fr)
     else let (loaded, config) = load_config files configPath new_node_config
       in if \<not> loaded then Some (Inl (''failed to load config: '' @ configPath), fr)
          else (case gn_start env (fabric_node config now random (fr_statics fr)) of
              None \<Rightarrow> None
            | Some (started, node) \<Rightarrow>
                let stopped = fr\<lparr>fr_statics := statics_of node\<rparr>
                in if \<not> started then Some (Inl ''failed to start GB28181 node'', stopped)
                   else (case (if enableManagementServer then ms_start calls (nc_managementSocketPath config) else Inr ()) of
                       Inl managementError \<Rightarrow> Some (Inl (''management startup failed: '' @ managementError), stopped)
                     | Inr _ \<Rightarrow> Some (Inr (), stopped\<lparr>fr_node := Some node, fr_managementServer := enableManagementServer,
                                fr_running := True\<rparr>))))"

definition fr_stop :: "('a, 's) fabric \<Rightarrow> ('a, 's) fabric" where
  "fr_stop fr =
    (if \<not> fr_running fr then fr
     else fr\<lparr>fr_running := False, fr_managementServer := False, fr_node := None,
       fr_statics := (case fr_node fr of None \<Rightarrow> fr_statics fr | Some node \<Rightarrow> statics_of (gn_stop node))\<rparr>)"

definition executeManagementCommand :: "'a node_env \<Rightarrow> string \<Rightarrow> ('a, 's) fabric \<Rightarrow> string \<times> ('a, 's) fabric" where
  "executeManagementCommand env request fr =
    (case fr_node fr of
       None \<Rightarrow> (''ERROR media-fabric runtime is not running'' @ [lf], fr)
     | Some node \<Rightarrow>
         if \<not> fr_running fr then (''ERROR media-fabric runtime is not running'' @ [lf], fr)
         else let (response, node) = executeCommand env request node in (response, fr\<lparr>fr_node := Some node\<rparr>))"

section \<open>The C interface\<close>

text \<open>A pointer is an \<open>option\<close>, a buffer the list of its bytes; its length is the size the caller passes.\<close>

definition copyText :: "string \<Rightarrow> string option \<Rightarrow> string option" where
  "copyText text buffer =
    (case buffer of None \<Rightarrow> None
     | Some b \<Rightarrow>
         if b = [] then Some b
         else let copySize = (if length text < length b - 1 then length text else length b - 1)
           in Some (take copySize text @ [CHR 0x00] @ drop (copySize + 1) b))"

definition c_runtime_start ::
  "'a node_env \<Rightarrow> (string \<Rightarrow> string option) \<Rightarrow> socket_calls \<Rightarrow> int \<Rightarrow> (nat \<Rightarrow> u32) \<Rightarrow> string option \<Rightarrow> int \<Rightarrow> string option \<Rightarrow>
     ('a, 's) fabric option \<Rightarrow> (int \<times> string option \<times> ('a, 's) fabric option) option" where
  "c_runtime_start env files calls now random configPath enableManagementSocket errorBuffer runtime =
    (case (runtime, configPath) of
       (Some fr, Some path) \<Rightarrow>
         if path = [] then Some (0, copyText ''invalid media-fabric runtime start arguments'' errorBuffer, runtime)
         else (case fr_start env files calls now random path (enableManagementSocket \<noteq> 0) fr of
             None \<Rightarrow> None
           | Some (Inl error, fr) \<Rightarrow> Some (0, copyText error errorBuffer, Some fr)
           | Some (Inr _, fr) \<Rightarrow> Some (1, copyText [] errorBuffer, Some fr))
     | _ \<Rightarrow> Some (0, copyText ''invalid media-fabric runtime start arguments'' errorBuffer, runtime))"

definition c_runtime_stop :: "('a, 's) fabric option \<Rightarrow> ('a, 's) fabric option" where
  "c_runtime_stop runtime = map_option fr_stop runtime"

definition c_runtime_running :: "('a, 's) fabric option \<Rightarrow> int" where
  "c_runtime_running runtime = (case runtime of None \<Rightarrow> 0 | Some fr \<Rightarrow> if fr_running fr then 1 else 0)"

definition c_runtime_command ::
  "'a node_env \<Rightarrow> string option \<Rightarrow> string option \<Rightarrow> ('a, 's) fabric option \<Rightarrow> int \<times> string option \<times> ('a, 's) fabric option" where
  "c_runtime_command env command responseBuffer runtime =
    (case (runtime, command, responseBuffer) of
       (Some fr, Some request, Some buffer) \<Rightarrow>
         if buffer = [] then (0, responseBuffer, runtime)
         else let (response, fr) = executeManagementCommand env request fr
           in (if length response < length buffer then 1 else 0, copyText response responseBuffer, Some fr)
     | _ \<Rightarrow> (0, responseBuffer, runtime))"

section \<open>The command line\<close>

record cli_arguments =
  ca_configPath :: string
  ca_selfTest :: bool
  ca_businessQuery :: string
  ca_businessStateFile :: string
  ca_peerId :: string

definition default_arguments :: cli_arguments where
  "default_arguments = \<lparr>ca_configPath = ''conf/media-fabric.conf'', ca_selfTest = False, ca_businessQuery = [],
     ca_businessStateFile = [], ca_peerId = []\<rparr>"

text \<open>The loop over \<open>argv\<close>; the left is the exit code of an early end.\<close>

fun parse_arguments :: "string list \<Rightarrow> cli_arguments \<Rightarrow> int + cli_arguments" where
  "parse_arguments [] a = Inr a"
| "parse_arguments (arg # args) a =
    (if arg = ''-h'' \<or> arg = ''--help'' then Inl 0
     else if arg = ''-c'' \<or> arg = ''--config''
     then (case args of [] \<Rightarrow> Inl 1 | v # args \<Rightarrow> parse_arguments args (a\<lparr>ca_configPath := v\<rparr>))
     else if arg = ''--self-test'' then parse_arguments args (a\<lparr>ca_selfTest := True\<rparr>)
     else if arg = ''--business-query''
     then (case args of [] \<Rightarrow> Inl 1 | v # args \<Rightarrow> parse_arguments args (a\<lparr>ca_businessQuery := v\<rparr>))
     else if arg = ''--business-state-file''
     then (case args of [] \<Rightarrow> Inl 1 | v # args \<Rightarrow> parse_arguments args (a\<lparr>ca_businessStateFile := v\<rparr>))
     else if arg = ''--peer-id''
     then (case args of [] \<Rightarrow> Inl 1 | v # args \<Rightarrow> parse_arguments args (a\<lparr>ca_peerId := v\<rparr>))
     else Inl 1)"

definition queryBusinessJson :: "business_state \<Rightarrow> string \<Rightarrow> string \<Rightarrow> string + string" where
  "queryBusinessJson s query peerId =
    (if query = ''summary'' then Inr (summaryJson s)
     else if query = ''catalog''
     then (if peerId = [] then Inl ''catalog business query requires --peer-id'' else Inr (catalogJson peerId s))
     else if query = ''record''
     then (if peerId = [] then Inl ''record business query requires --peer-id'' else Inr (recordJson peerId s))
     else Inl (''unknown business query: '' @ query))"

text \<open>\<open>main\<close>: an exit code with what goes to the standard output, or the two ways to go on, the self test
  and the service.\<close>

datatype cli_outcome = Exit int string | SelfTest node_config | Serve string

definition cli_main :: "(string \<Rightarrow> string option) \<Rightarrow> (string \<Rightarrow> file_read) \<Rightarrow> string list \<Rightarrow> cli_outcome" where
  "cli_main files disk args =
    (case parse_arguments args default_arguments of
       Inl code \<Rightarrow> Exit code []
     | Inr a \<Rightarrow>
         (case load_config files (ca_configPath a) new_node_config of
            (False, _) \<Rightarrow> Exit 1 []
          | (True, config) \<Rightarrow>
              if ca_businessQuery a \<noteq> []
              then (if ca_selfTest a then Exit 1 []
                    else if ca_businessStateFile a = [] then Exit 1 []
                    else (case loadFromFile disk (ca_businessStateFile a) new_business_state of
                        (Inl _, _) \<Rightarrow> Exit 1 []
                      | (Inr _, s) \<Rightarrow>
                          (case queryBusinessJson s (ca_businessQuery a) (ca_peerId a) of
                             Inl _ \<Rightarrow> Exit 1 [] | Inr json \<Rightarrow> Exit 0 (json @ [lf]))))
              else if \<not> ca_selfTest a then Serve (ca_configPath a)
              else SelfTest config))"

section \<open>The runtime keeps its node\<close>

definition fabric_ok :: "('a, 's) fabric \<Rightarrow> bool" where
  "fabric_ok fr \<longleftrightarrow> (case fr_node fr of None \<Rightarrow> \<not> fr_running fr | Some node \<Rightarrow> fr_running fr \<and> nd_started node \<and> node_ok node)"

text \<open>The calls of the interface, and in between whatever happens to a running node.\<close>

inductive fabric_step ::
  "'a node_env \<Rightarrow> (string \<Rightarrow> string option) \<Rightarrow> socket_calls \<Rightarrow> 's frame_writer \<Rightarrow> ('a, 's) fabric \<Rightarrow> ('a, 's) fabric \<Rightarrow> bool"
  for env files calls w where
  start: "fr_start env files calls now random path enable fr = Some (r, fr') \<Longrightarrow> fabric_step env files calls w fr fr'"
| stop: "fabric_step env files calls w fr (fr_stop fr)"
| command: "executeManagementCommand env request fr = (r, fr') \<Longrightarrow> fabric_step env files calls w fr fr'"
| node: "fr_node fr = Some node \<Longrightarrow> node_step env w node node' \<Longrightarrow> nd_started node' \<Longrightarrow>
    fabric_step env files calls w fr (fr\<lparr>fr_node := Some node'\<rparr>)"

text \<open>A command is one step of the node, or none.\<close>

lemma executeCommand_step:
  assumes "executeCommand env request node = (r, node')"
  shows "(node' = node \<or> node_step env w node node') \<and> nd_started node' = nd_started node"
proof -
  have "node_step env w node (node\<lparr>nd_rt := snd (requestRegistration p (nd_rt node))\<rparr>)"
    "node_step env w node (node\<lparr>nd_rt := snd (requestBye p (nd_rt node))\<rparr>)"
    "node_step env w node (snd (requestInvite env p node))" "node_step env w node (snd (requestCatalog p node))" for p
    by (rule node_step.registration node_step.bye node_step.invite node_step.catalog, rule surjective_pairing)+
  then show ?thesis
    using assms request_frames(1) [of env _ node] request_frames(3) [of _ node]
    by (auto simp: executeCommand_def Let_def split_beta split: if_splits)
qed

lemma added_counter: "nd_callIdCounter (fold addCapability caps node) = nd_callIdCounter node"
  by (induction caps arbitrary: node) (simp_all add: addCapability_def)

lemma fabric_node_fields:
  "\<not> nd_started (fabric_node config now random v)"
  "map fst (nd_capabilities (fabric_node config now random v)) = createStandardCapabilities"
  "rt_config (nd_rt (fabric_node config now random v)) = config"
  "nd_callIdCounter (fabric_node config now random v) = sv_transaction v"
  "node_ok (fabric_node config now random v)"
proof -
  let ?n = "with_statics v (new_node config now random)"
  show "\<not> nd_started (fabric_node config now random v)"
    "map fst (nd_capabilities (fabric_node config now random v)) = createStandardCapabilities"
    "rt_config (nd_rt (fabric_node config now random v)) = config"
    "nd_callIdCounter (fabric_node config now random v) = sv_transaction v"
    unfolding fabric_node_def added_fields added_counter by (simp_all add: with_statics_def new_node_def new_runtime_def comp_def)
  have "node_ok ?n"
    using new_node_ok [of config now random] by (simp add: node_ok_def with_statics_def rt_ok_def)
  then show "node_ok (fabric_node config now random v)"
    unfolding fabric_node_def node_ok_def added_fields by (auto simp: list_all_iff)
qed

lemma fabric_step_ok: "fabric_step env files calls w fr fr' \<Longrightarrow> fabric_ok fr \<Longrightarrow> fabric_ok fr'"
proof (induction rule: fabric_step.induct)
  case (start now random path enable fr r fr')
  have n: "nd_started node \<and> node_ok node"
    if "gn_start env (fabric_node config now random (fr_statics fr)) = Some (True, node)" for node config
    using that node_ok_start [OF fabric_node_fields(5) that] gn_start_started [OF that] by simp
  show ?case
    using start by (auto simp: fr_start_def fabric_ok_def Let_def dest!: n split: if_splits option.splits prod.splits sum.splits)
next
  case (stop fr)
  then show ?case by (simp add: fabric_ok_def fr_stop_def)
next
  case (command request fr r fr')
  show ?case
  proof (cases "fr_node fr")
    case (Some node)
    obtain x node' where x: "executeCommand env request node = (x, node')" by fastforce
    have "nd_started node' \<and> node_ok node'"
      using executeCommand_step [OF x, of w] node_step_ok command.prems Some by (auto simp: fabric_ok_def)
    then show ?thesis using command Some x by (auto simp: executeManagementCommand_def fabric_ok_def)
  qed (use command in \<open>auto simp: executeManagementCommand_def\<close>)
next
  case (node fr n n')
  then show ?case using node_step_ok [OF node.hyps(2)] by (auto simp: fabric_ok_def split: option.splits)
qed

lemma fabric_steps_ok: "(fabric_step env files calls w)\<^sup>*\<^sup>* fr fr' \<Longrightarrow> fabric_ok fr \<Longrightarrow> fabric_ok fr'"
  by (induction rule: rtranclp_induct) (auto intro: fabric_step_ok)

text \<open>Starting and stopping a node moves none of the static counters.\<close>

definition rt_counters :: "('a, 's) runtime \<Rightarrow> int \<times> u64 \<times> u64" where
  "rt_counters rt = (rt_nextSn rt, rt_callIdCounter rt, rt_nonceCounter rt)"

lemma counters_updates [simp]:
  "rt_counters (rt\<lparr>rt_sip := s\<rparr>) = rt_counters rt" "rt_counters (rt\<lparr>rt_peers := p\<rparr>) = rt_counters rt"
  "rt_counters (rt\<lparr>rt_business := b\<rparr>) = rt_counters rt" "rt_counters (rt\<lparr>rt_media := m\<rparr>) = rt_counters rt"
  "rt_counters (rt\<lparr>rt_tasks := t\<rparr>) = rt_counters rt" "rt_counters (rt\<lparr>rt_challenges := c\<rparr>) = rt_counters rt"
  "rt_counters (rt_createSession i rt) = rt_counters rt" "rt_counters (rt\<lparr>rt_sender := d\<rparr>) = rt_counters rt"
  by (simp_all add: rt_counters_def rt_createSession_def)

lemma register_counters: "rt_counters (snd (registerSipHandler cap m e rt)) = rt_counters rt"
  by (simp add: registerSipHandler_def Let_def split_beta)

lemma fold_counters: "(\<And>x rt. rt_counters (f x rt) = rt_counters rt) \<Longrightarrow> rt_counters (fold f xs rt) = rt_counters rt"
  by (induction xs arbitrary: rt) simp_all

lemma register_counters': "registerSipHandler cap m e rt = (b, rt') \<Longrightarrow> rt_counters rt' = rt_counters rt"
  using register_counters [of cap m e rt] by simp

lemma pending_counters: "rt_counters (snd (send_pending env rt)) = rt_counters rt"
  by (auto simp: send_pending_def Let_def split_beta split: sum.split option.split)

lemma frame_counters: "rt_counters (snd (sendNextFrame env rt)) = rt_counters rt"
  by (auto simp: sendNextFrame_def Let_def split_beta pending_counters split: sum.split option.split)

lemma media_counters: "rt_counters (snd (MediaSend_onStart env rt)) = rt_counters rt"
  by (auto simp: MediaSend_onStart_def Let_def split_beta frame_counters split: sum.split prod.split)

lemma client_counters: "RegisterClient_onStart rt = Some (b, rt') \<Longrightarrow> rt_counters rt' = rt_counters rt"
  by (auto simp: RegisterClient_onStart_def Let_def split_beta register_counters fold_counters split: if_splits)

lemma onStart_counters: "cap_onStart env cap rt = Some (b, rt') \<Longrightarrow> rt_counters rt' = rt_counters rt"
  using media_counters [of env rt]
  by (cases cap) (auto simp: client_counters KeepaliveClient_onStart_def RegisterServer_onStart_def KeepaliveServer_onStart_def
      CatalogClient_onStart_def CatalogServer_onStart_def RecordQueryClient_onStart_def RecordQueryServer_onStart_def
      InviteClient_onStart_def InviteServer_onStart_def Let_def split_beta register_counters register_counters' split: if_splits)

lemma start_counters: "start_capabilities env caps rt = Some (b, caps', rt') \<Longrightarrow> rt_counters rt' = rt_counters rt"
proof (induction caps arbitrary: b caps' rt rt')
  case (Cons c caps)
  obtain cap started where c: "c = (cap, started)" by (cases c)
  obtain ok s rt1 where l: "lc_start env cap started rt = Some (ok, s, rt1)"
    using Cons.prems by (auto simp: c split: option.splits prod.splits)
  then have "rt_counters rt1 = rt_counters rt" by (auto simp: lc_start_def onStart_counters split: if_splits)
  then show ?case using Cons.prems Cons.IH [of rt1] by (auto simp: c l split: if_splits)
qed simp

lemma stop_counters: "rt_counters (snd (stop_capabilities caps rt)) = rt_counters rt"
proof (induction caps arbitrary: rt)
  case (Cons c caps)
  have "rt_counters (cap_onStop cap rt) = rt_counters rt" for cap and rt :: "('a, 'b) runtime"
    by (cases cap) (simp_all add: RegisterServer_onStop_def)
  then show ?case using Cons.IH [of rt] by (cases c) (simp add: Let_def split_beta lc_stop_def)
qed simp

lemma gn_stop_statics: "statics_of (gn_stop node) = statics_of node"
  using stop_counters [of "nd_capabilities node" "(nd_rt node)\<lparr>rt_tasks := stopAll (rt_tasks (nd_rt node)),
      rt_media := stopAllRtpSessionAdapters (rt_media (nd_rt node))\<rparr>"]
  by (simp add: gn_stop_def statics_of_def Let_def split_beta rt_counters_def)

lemma gn_start_statics:
  assumes "gn_start env node = Some (True, node')"
  shows "statics_of node' = statics_of node"
proof -
  have "rt_counters (nd_rt node') = rt_counters (nd_rt node)"
    using assms by (auto simp: gn_start_def Let_def dest!: start_counters split: if_splits option.splits prod.splits)
  moreover have "nd_callIdCounter node' = nd_callIdCounter node" "nd_ssrcCounter node' = nd_ssrcCounter node"
    using assms by (auto simp: gn_start_def gn_stop_def Let_def split: if_splits option.splits prod.splits)
  ultimately show ?thesis by (simp add: statics_of_def rt_counters_def)
qed

lemma added_statics: "statics_of (fold addCapability caps node) = statics_of node"
  by (induction caps arbitrary: node) (simp_all add: addCapability_def statics_of_def)

lemma fabric_node_statics: "statics_of (fabric_node config now random v) = v"
  unfolding fabric_node_def added_statics by (simp add: statics_of_def with_statics_def)

lemma gn_start_valid:
  assumes "node_ok node" "\<not> nd_started node" "ep_valid (nc_node (rt_config (nd_rt node)))" "timers_fit (rt_config (nd_rt node))"
    "config_ports (nc_sipEndpoints (rt_config (nd_rt node))) = Some (port # ports)"
  shows "\<exists>node'. gn_start env node = Some (True, node')"
proof -
  obtain b node' where s: "gn_start env node = Some (b, node')"
    using gn_start_total [of node env] assms(4,5) by auto
  have "\<not> st_started (rt_sip (nd_rt node))" using assms(1,2) by (simp add: node_ok_def)
  then have "b" using assms(3,5) by (cases rule: gn_start_cases [OF s assms(2)]) simp_all
  then show ?thesis using s by simp
qed

lemma fabric_node_start:
  assumes "ep_valid (nc_node config)" "timers_fit config" "config_ports (nc_sipEndpoints config) = Some (port # ports)"
  shows "\<exists>node. gn_start env (fabric_node config now random v) = Some (True, node)"
  by (rule gn_start_valid) (use assms in \<open>simp_all add: fabric_node_fields\<close>)

lemma load_valid: "load_config files path c = (True, config) \<Longrightarrow> ep_valid (nc_node config)"
  by (auto simp: load_config_def Let_def split: if_splits option.splits)

text \<open>C29: the runtime can be restarted with any configuration that gives the node an endpoint, RTP ports and
  intervals within \<open>int\<close>, whatever happened before: it ends up with one running node that satisfies the
  node's invariant, refuses a second start and, stopped again, refuses every command. All five counters that the program keeps in static
  variables go on where they were: the transactions, the SSRCs, the serial numbers, the Call-IDs and the nonces of the new
  node start where the old node stopped, or, when no node was running, where the last one left them.\<close>

theorem runtime_restarts:
  fixes fr :: "('a, 's) fabric"
  assumes "(fabric_step env files calls w)\<^sup>*\<^sup>* new_fabric fr"
    and "load_config files path new_node_config = (True, config)" and "timers_fit config"
    and "config_ports (nc_sipEndpoints config) = Some (port # ports)"
    and "enable \<Longrightarrow> ms_start calls (nc_managementSocketPath config) = Inr ()"
  shows "\<exists>fr' node. fr_start env files calls now random path enable (fr_stop fr) = Some (Inr (), fr') \<and>
    fr_running fr' \<and> fr_node fr' = Some node \<and> nd_started node \<and> node_ok node \<and>
    (case fr_node fr of
       Some old \<Rightarrow> nd_callIdCounter node = nd_callIdCounter old \<and> nd_ssrcCounter node = nd_ssrcCounter old \<and>
         rt_nextSn (nd_rt node) = rt_nextSn (nd_rt old) \<and> rt_callIdCounter (nd_rt node) = rt_callIdCounter (nd_rt old) \<and>
         rt_nonceCounter (nd_rt node) = rt_nonceCounter (nd_rt old)
     | None \<Rightarrow> nd_callIdCounter node = sv_transaction (fr_statics fr) \<and> nd_ssrcCounter node = sv_ssrc (fr_statics fr) \<and>
         rt_nextSn (nd_rt node) = sv_sn (fr_statics fr) \<and> rt_callIdCounter (nd_rt node) = sv_callId (fr_statics fr) \<and>
         rt_nonceCounter (nd_rt node) = sv_nonce (fr_statics fr)) \<and>
    fr_start env files calls now' random' path' enable' fr' =
      Some (Inl ''media-fabric runtime is already running'', fr') \<and>
    executeManagementCommand env request (fr_stop fr') =
      (''ERROR media-fabric runtime is not running'' @ [lf], fr_stop fr')"
proof -
  let ?v = "fr_statics (fr_stop fr)"
  have ok: "fabric_ok fr" by (rule fabric_steps_ok [OF assms(1)]) (simp add: fabric_ok_def new_fabric_def)
  obtain node :: "('a, 's) node" where s: "gn_start env (fabric_node config now random ?v) = Some (True, node)"
    using fabric_node_start [OF load_valid [OF assms(2)] assms(3,4)] by blast
  have "statics_of node = ?v" by (simp add: gn_start_statics [OF s] fabric_node_statics)
  also have "?v = (case fr_node fr of None \<Rightarrow> fr_statics fr | Some old \<Rightarrow> statics_of old)"
    using ok by (auto simp: fabric_ok_def fr_stop_def gn_stop_statics split: option.split)
  finally have c: "statics_of node = (case fr_node fr of None \<Rightarrow> fr_statics fr | Some old \<Rightarrow> statics_of old)" .
  let ?fr = "(fr_stop fr)\<lparr>fr_statics := statics_of node, fr_node := Some node, fr_managementServer := enable, fr_running := True\<rparr>"
  have "\<not> fr_running (fr_stop fr)" by (simp add: fr_stop_def)
  then have "fr_start env files calls now random path enable (fr_stop fr) = Some (Inr (), ?fr)"
    using assms(2,5) s by (cases enable) (simp_all add: fr_start_def Let_def)
  moreover have "node_ok node" "nd_started node"
    using node_ok_start [OF fabric_node_fields(5) s] gn_start_started [OF s] by simp_all
  moreover have "case fr_node fr of
       Some old \<Rightarrow> nd_callIdCounter node = nd_callIdCounter old \<and> nd_ssrcCounter node = nd_ssrcCounter old \<and>
         rt_nextSn (nd_rt node) = rt_nextSn (nd_rt old) \<and> rt_callIdCounter (nd_rt node) = rt_callIdCounter (nd_rt old) \<and>
         rt_nonceCounter (nd_rt node) = rt_nonceCounter (nd_rt old)
     | None \<Rightarrow> nd_callIdCounter node = sv_transaction (fr_statics fr) \<and> nd_ssrcCounter node = sv_ssrc (fr_statics fr) \<and>
         rt_nextSn (nd_rt node) = sv_sn (fr_statics fr) \<and> rt_callIdCounter (nd_rt node) = sv_callId (fr_statics fr) \<and>
         rt_nonceCounter (nd_rt node) = sv_nonce (fr_statics fr)"
    using c [symmetric] by (cases "fr_node fr") (simp_all add: statics_of_def)
  ultimately show ?thesis
    by (intro exI [of _ ?fr] exI [of _ node]) (simp add: fr_start_def fr_stop_def executeManagementCommand_def)
qed

section \<open>The buffers of the C interface\<close>

lemma copyText_bounds:
  assumes "b \<noteq> []" "copyText text (Some b) = Some b'"
  shows "length b' = length b" "CHR 0x00 \<notin> set text \<Longrightarrow> c_string b' = take (length b - 1) text"
    "\<exists>n \<le> length b - 1. b' = take n text @ CHR 0x00 # drop (n + 1) b"
proof -
  let ?n = "if length text < length b - 1 then length text else length b - 1"
  have b': "b' = take ?n text @ CHR 0x00 # drop (?n + 1) b" using assms by (simp add: copyText_def Let_def split: if_splits)
  have n: "?n \<le> length text" "?n < length b" "take ?n text = take (length b - 1) text" using assms(1) by auto
  show "length b' = length b" using b' n(1,2) by simp
  show "\<exists>n \<le> length b - 1. b' = take n text @ CHR 0x00 # drop (n + 1) b"
    using b' n(2) by (intro exI [of _ ?n]) simp
  show "c_string b' = take (length b - 1) text" if "CHR 0x00 \<notin> set text"
  proof -
    have "takeWhile (\<lambda>c. c \<noteq> CHR 0x00) (take k text @ CHR 0x00 # rest) = take k text" for k rest
      by (subst takeWhile_append2) (use that in \<open>auto dest: in_set_takeD\<close>)
    then show ?thesis using b' n(3) by (simp add: c_string_def)
  qed
qed

text \<open>a command through the C interface writes nothing outside the caller's buffer, terminates what it
  writes, gives the longest part of the answer that fits, and returns 1 exactly when that is the whole
  answer.\<close>

theorem command_fits_buffer:
  assumes "buffer \<noteq> []" and "executeManagementCommand env request fr = (response, fr')" and "CHR 0x00 \<notin> set response"
  shows "\<exists>code buffer'. c_runtime_command env (Some request) (Some buffer) (Some fr) = (code, Some buffer', Some fr') \<and>
    length buffer' = length buffer \<and> CHR 0x00 \<in> set buffer' \<and> c_string buffer' = take (length buffer - 1) response \<and>
    code = (if c_string buffer' = response then 1 else 0)"
proof -
  obtain buffer' where c: "copyText response (Some buffer) = Some buffer'" using assms(1) by (simp add: copyText_def Let_def)
  note b = copyText_bounds [OF assms(1) c]
  have "length response < length buffer \<longleftrightarrow> take (length buffer - 1) response = response"
    using assms(1) by (cases buffer) (auto simp: take_all_iff)
  then show ?thesis
    using b(1) b(2) [OF assms(3)] b(3) assms(1,2) c by (auto simp: c_runtime_command_def Let_def)
qed

section \<open>A runtime on a small configuration\<close>

definition sample_ini :: ini_data where
  "sample_ini = [(''node'', [(''rtp_port_begin'', dec_int 30000), (''rtp_port_end'', dec_int 30002), (''sip_id'', ''34''),
     (''sip_ip'', ''10.0.0.1''), (''sip_port'', dec_int 5060)])]"

definition sample_files :: "string \<Rightarrow> string option" where
  "sample_files path = (if path = ''c'' then Some (render_ini sample_ini) else None)"

definition sample_config :: node_config where
  "sample_config = snd (load_config sample_files ''c'' new_node_config)"

lemma sample_endpoint:
  "readEndpoint sample_ini ''node'' = \<lparr>ep_name = ''node'', ep_sipId = ''34'', ep_sipIp = ''10.0.0.1'', ep_sipPort = 5060,
     ep_realm = [], ep_username = [], ep_password = [], ep_rtpPortBegin = 30000, ep_rtpPortEnd = 30002\<rparr>"
  by (simp add: readEndpoint_def sample_ini_def getValue_def toInt_dec_int INT_MIN_def INT_MAX_def)

lemma sample_timers: "readTimerConfig sample_ini = new_timer_config"
proof -
  have "toInt [] = 0" by code_simp
  then show ?thesis by (simp add: readTimerConfig_def sample_ini_def getValue_def new_timer_config_def)
qed

lemma ini_word_dec: "ini_word (dec n)"
  using dec_digits [of n] by (auto simp: ini_word_def list_all_iff isdigit_def)

lemma sample_clean: "ini_clean sample_ini"
  using ini_word_dec [of 30000] ini_word_dec [of 30002] ini_word_dec [of 5060]
  by (simp add: ini_clean_def sample_ini_def om_ok_def ini_key_def dec_int_def) (simp add: ini_word_def trim_def isspace_def)

lemma sample_config_loaded:
  "load_config sample_files ''c'' new_node_config = (True, sample_config)"
  "timers_fit sample_config" "config_ports (nc_sipEndpoints sample_config) = Some [30000, 30002]"
  "nc_managementSocketPath sample_config = ''/tmp/media-fabric.sock''"
proof -
  have v: "getValue sample_ini ''management'' ''socket_path'' = []" by (simp add: sample_ini_def getValue_def)
  have n: "choose_node sample_ini = readEndpoint sample_ini ''node''"
    by (simp add: choose_node_def sample_endpoint ep_valid_def)
  have l: "load_config sample_files ''c'' new_node_config = (True, sample_config)"
    and c: "nc_sipEndpoints sample_config = [readEndpoint sample_ini ''node'']" "nc_timers sample_config = new_timer_config"
      "nc_managementSocketPath sample_config = ''/tmp/media-fabric.sock''"
    by (simp_all add: load_config_def sample_config_def sample_files_def parse_rendered [OF sample_clean] n Let_def
        sample_endpoint ep_valid_def sample_timers v)
  show "load_config sample_files ''c'' new_node_config = (True, sample_config)" by (rule l)
  show "timers_fit sample_config" by (simp add: timers_fit_def c new_timer_config_def INT_MIN_def INT_MAX_def)
  show "config_ports (nc_sipEndpoints sample_config) = Some [30000, 30002]"
    by (simp add: c sample_endpoint config_ports_def range_ports_def port_loop.simps INT_MAX_def)
  show "nc_managementSocketPath sample_config = ''/tmp/media-fabric.sock''" by (rule c)
qed

theorem runtime_restarts_witness:
  "\<exists>fr1 n1 fr2 n2. fr_start sample_adapter_env sample_files \<lparr>sc_socket = True, sc_bind = \<lambda>_. True, sc_listen = True\<rparr> 0 (\<lambda>_. 0) ''c'' True
      (fr_stop (new_fabric :: (unit, unit) fabric)) = Some (Inr (), fr1) \<and> fr_node fr1 = Some n1 \<and> rt_nextSn (nd_rt n1) = 1 \<and>
    fr_start sample_adapter_env sample_files \<lparr>sc_socket = True, sc_bind = \<lambda>_. True, sc_listen = True\<rparr> 9 (\<lambda>_. 3) ''c'' True (fr_stop fr1) =
      Some (Inr (), fr2) \<and> fr_node fr2 = Some n2 \<and> rt_nextSn (nd_rt n2) = 1"
proof -
  let ?c = "\<lparr>sc_socket = True, sc_bind = \<lambda>_. True, sc_listen = True\<rparr>" and ?f = "new_fabric :: (unit, unit) fabric"
  let ?w = "\<lambda>f k. (Inr (), k)"
  have m: "ms_start ?c (nc_managementSocketPath sample_config) = Inr ()"
    by (simp add: ms_start_def sample_config_loaded(4) sun_path_size_def)
  note restart = runtime_restarts [where w = ?w and enable = True and calls = ?c and env = sample_adapter_env and files = sample_files,
      OF _ sample_config_loaded(1-3) m]
  obtain fr1 n1 where r1: "fr_start sample_adapter_env sample_files ?c 0 (\<lambda>_. 0) ''c'' True (fr_stop ?f) = Some (Inr (), fr1)"
    "fr_node fr1 = Some n1" "rt_nextSn (nd_rt n1) = 1"
    using restart [OF rtranclp.rtrancl_refl, of 0 "\<lambda>_. 0" 0 "\<lambda>_. 0" "[]" False "[]"]
    by (auto simp: new_fabric_def)
  have "fr_stop ?f = ?f" by (simp add: fr_stop_def new_fabric_def)
  then have "(fabric_step sample_adapter_env sample_files ?c ?w)\<^sup>*\<^sup>* ?f fr1"
    using fabric_step.start [OF r1(1), of ?w] by auto
  from restart [OF this, of 9 "\<lambda>_. 3" 0 "\<lambda>_. 0" "[]" False "[]"] obtain fr2 n2 where
    "fr_start sample_adapter_env sample_files ?c 9 (\<lambda>_. 3) ''c'' True (fr_stop fr1) = Some (Inr (), fr2)"
    "fr_node fr2 = Some n2" "rt_nextSn (nd_rt n2) = 1"
    using r1(2,3) by auto
  with r1 show ?thesis by blast
qed

theorem command_fits_buffer_witness:
  "\<exists>code buffer'. c_runtime_command sample_adapter_env (Some ''peers'') (Some (replicate 6 (CHR ''x'')))
      (Some (new_fabric :: (unit, unit) fabric)) = (code, Some buffer', Some new_fabric) \<and>
    c_string buffer' = ''ERROR'' \<and> code = 0"
proof -
  have e: "executeManagementCommand sample_adapter_env ''peers'' (new_fabric :: (unit, unit) fabric) =
      (''ERROR media-fabric runtime is not running'' @ [lf], new_fabric)"
    by (simp add: executeManagementCommand_def new_fabric_def)
  have "replicate 6 (CHR ''x'') \<noteq> []" by simp
  from command_fits_buffer [OF this e] show ?thesis by auto
qed

end
