(* ===== verification/TaskThread.thy ===== *)
theory TaskThread
  imports SipCore
begin

text \<open>
  The thread of a scheduled task (\<open>TaskScheduler::ScheduledTask\<close>, \<open>src/src/core/TaskScheduler.cpp\<close>) and the thread that
  stops it, step by step: the mutex, the condition variable, the stop flag and the join. Between any two steps of the one the other may
  take any number of steps. \<open>wait_for\<close> with a predicate is what the standard says it is: while the predicate does not hold it goes to
  sleep, which releases the mutex and enters the queue of the condition variable in one step; a notification, the end of the interval or
  nothing at all wakes it; it takes the mutex again, and after the end of the interval it returns the predicate.

  That the task itself returns is an assumption of the step that leaves it, and \<open>stop\<close> is called by another thread than the one of the
  task (\<open>TaskScheduler::stopAll\<close> and the destructor after it), so calls of \<open>stop\<close> follow one another.
\<close>

section \<open>The two threads\<close>

text \<open>Where the thread of the task is: in front of the statement the name tells, asleep in the condition variable, or awake without and
  with the mutex (the flag: did the interval end).\<close>

datatype run_point =
    NotStarted
  | At_lock
  | At_while
  | At_predicate
  | At_sleep
  | Asleep
  | Woken bool
  | At_status bool
  | At_unlock
  | At_call
  | In_task
  | At_relock
  | Leaving
  | Exited

text \<open>Where a call of \<open>stop\<close> is.\<close>

datatype stop_point =
    Idle
  | Stop_lock
  | Stop_store
  | Stop_unlock
  | Stop_notify
  | Stop_joinable
  | Stop_join
  | Returned

datatype mutex_owner = By_run | By_stop

record task_thread =
  tt_intervalMilliseconds :: int
  tt_task :: bool
  tt_stopped :: bool
  tt_mutex :: "mutex_owner option"
  tt_notified :: bool
  tt_joinable :: bool
  tt_run_at :: run_point
  tt_stop_at :: stop_point
  tt_runs :: nat

text \<open>\<open>task\<close>: is there a function in \<open>m_task\<close>.\<close>

definition new_task_thread :: "int \<Rightarrow> bool \<Rightarrow> task_thread" where
  "new_task_thread intervalMilliseconds task = \<lparr>tt_intervalMilliseconds = intervalMilliseconds, tt_task = task, tt_stopped = False,
     tt_mutex = None, tt_notified = False, tt_joinable = False, tt_run_at = NotStarted, tt_stop_at = Idle, tt_runs = 0\<rparr>"

definition tt_start :: "task_thread \<Rightarrow> bool \<times> task_thread" where
  "tt_start t =
    (if tt_intervalMilliseconds t \<le> 0 \<or> \<not> tt_task t then (False, t)
     else (True, t\<lparr>tt_joinable := True, tt_run_at := At_lock\<rparr>))"

definition tt_acquire :: "mutex_owner \<Rightarrow> task_thread \<Rightarrow> task_thread option" where
  "tt_acquire who t = (if tt_mutex t = None then Some (t\<lparr>tt_mutex := Some who\<rparr>) else None)"

definition tt_release :: "task_thread \<Rightarrow> task_thread" where
  "tt_release t = t\<lparr>tt_mutex := None\<rparr>"

text \<open>One step of \<open>run\<close>. \<open>None\<close>: the thread waits, or there is none.\<close>

definition tt_run :: "task_thread \<Rightarrow> task_thread option" where
  "tt_run t =
    (case tt_run_at t of
       NotStarted \<Rightarrow> None
     | At_lock \<Rightarrow> map_option (\<lambda>t. t\<lparr>tt_run_at := At_while\<rparr>) (tt_acquire By_run t)
     | At_while \<Rightarrow> Some (t\<lparr>tt_run_at := (if \<not> tt_stopped t then At_predicate else Leaving)\<rparr>)
     | At_predicate \<Rightarrow> Some (t\<lparr>tt_run_at := (if tt_stopped t then Leaving else At_sleep)\<rparr>)
     | At_sleep \<Rightarrow> Some ((tt_release t)\<lparr>tt_notified := False, tt_run_at := Asleep\<rparr>)
     | Asleep \<Rightarrow> if tt_notified t then Some (t\<lparr>tt_run_at := Woken False\<rparr>) else None
     | Woken timeout \<Rightarrow> map_option (\<lambda>t. t\<lparr>tt_run_at := At_status timeout\<rparr>) (tt_acquire By_run t)
     | At_status timeout \<Rightarrow>
         Some (t\<lparr>tt_run_at := (if \<not> timeout then At_predicate else if tt_stopped t then Leaving else At_unlock)\<rparr>)
     | At_unlock \<Rightarrow> Some ((tt_release t)\<lparr>tt_run_at := At_call\<rparr>)
     | At_call \<Rightarrow> Some (t\<lparr>tt_run_at := In_task, tt_runs := tt_runs t + 1\<rparr>)
     | In_task \<Rightarrow> Some (t\<lparr>tt_run_at := At_relock\<rparr>)
     | At_relock \<Rightarrow> map_option (\<lambda>t. t\<lparr>tt_run_at := At_while\<rparr>) (tt_acquire By_run t)
     | Leaving \<Rightarrow> Some ((tt_release t)\<lparr>tt_run_at := Exited\<rparr>)
     | Exited \<Rightarrow> None)"

text \<open>The sleep ends by itself: at the end of the interval, or for no reason.\<close>

definition tt_wake :: "bool \<Rightarrow> task_thread \<Rightarrow> task_thread option" where
  "tt_wake timeout t = (if tt_run_at t = Asleep then Some (t\<lparr>tt_run_at := Woken timeout\<rparr>) else None)"

text \<open>One step of a call of \<open>stop\<close>.\<close>

definition tt_stop :: "task_thread \<Rightarrow> task_thread option" where
  "tt_stop t =
    (case tt_stop_at t of
       Idle \<Rightarrow> None
     | Stop_lock \<Rightarrow> map_option (\<lambda>t. t\<lparr>tt_stop_at := Stop_store\<rparr>) (tt_acquire By_stop t)
     | Stop_store \<Rightarrow> Some (t\<lparr>tt_stopped := True, tt_stop_at := Stop_unlock\<rparr>)
     | Stop_unlock \<Rightarrow> Some ((tt_release t)\<lparr>tt_stop_at := Stop_notify\<rparr>)
     | Stop_notify \<Rightarrow> Some (t\<lparr>tt_notified := True, tt_stop_at := Stop_joinable\<rparr>)
     | Stop_joinable \<Rightarrow> Some (t\<lparr>tt_stop_at := (if tt_joinable t then Stop_join else Returned)\<rparr>)
     | Stop_join \<Rightarrow> if tt_run_at t = Exited then Some (t\<lparr>tt_joinable := False, tt_stop_at := Returned\<rparr>) else None
     | Returned \<Rightarrow> None)"

definition tt_call_stop :: "task_thread \<Rightarrow> task_thread option" where
  "tt_call_stop t = (if tt_stop_at t \<in> {Idle, Returned} then Some (t\<lparr>tt_stop_at := Stop_lock\<rparr>) else None)"

datatype task_event = Runner | Timeout | Spurious | Call_stop | Stopper

fun tt_step :: "task_event \<Rightarrow> task_thread \<Rightarrow> task_thread option" where
  "tt_step Runner = tt_run"
| "tt_step Timeout = tt_wake True"
| "tt_step Spurious = tt_wake False"
| "tt_step Call_stop = tt_call_stop"
| "tt_step Stopper = tt_stop"

fun tt_steps :: "task_event list \<Rightarrow> task_thread \<Rightarrow> task_thread option" where
  "tt_steps [] t = Some t"
| "tt_steps (e # es) t = (case tt_step e t of None \<Rightarrow> None | Some t1 \<Rightarrow> tt_steps es t1)"

lemma tt_steps_append: "tt_steps (es @ fs) t = (case tt_steps es t of None \<Rightarrow> None | Some t1 \<Rightarrow> tt_steps fs t1)"
  by (induction es arbitrary: t) (simp_all split: option.split)

section \<open>What holds between the steps\<close>

definition holds_mutex :: "run_point \<Rightarrow> bool" where
  "holds_mutex p \<longleftrightarrow> p \<in> {At_while, At_predicate, At_sleep, At_status True, At_status False, At_unlock, Leaving}"

lemma holds_mutex_simps [simp]:
  "\<not> holds_mutex NotStarted" "\<not> holds_mutex At_lock" "holds_mutex At_while" "holds_mutex At_predicate" "holds_mutex At_sleep"
  "\<not> holds_mutex Asleep" "\<not> holds_mutex (Woken b)" "holds_mutex (At_status b)" "holds_mutex At_unlock" "\<not> holds_mutex At_call"
  "\<not> holds_mutex In_task" "\<not> holds_mutex At_relock" "holds_mutex Leaving" "\<not> holds_mutex Exited"
  by (cases b; simp add: holds_mutex_def)+

text \<open>The mutex belongs to the thread that is inside; the flag is raised only while the other thread is outside, so that it is never
  raised between the test of the predicate and the sleep; and a thread that sleeps with the flag raised is or will be notified.\<close>

definition tt_ok :: "task_thread \<Rightarrow> bool" where
  "tt_ok t \<longleftrightarrow>
     (tt_mutex t = Some By_run \<longleftrightarrow> holds_mutex (tt_run_at t)) \<and>
     (tt_mutex t = Some By_stop \<longleftrightarrow> tt_stop_at t \<in> {Stop_store, Stop_unlock}) \<and>
     (tt_stopped t \<longrightarrow> tt_run_at t \<noteq> At_sleep \<and> tt_run_at t \<noteq> At_unlock) \<and>
     (tt_stop_at t \<in> {Stop_unlock, Stop_notify, Stop_joinable, Stop_join, Returned} \<longrightarrow> tt_stopped t) \<and>
     (tt_stopped t \<and> tt_run_at t = Asleep \<and> \<not> tt_notified t \<longrightarrow> tt_stop_at t \<in> {Stop_unlock, Stop_notify}) \<and>
     (tt_stopped t \<and> tt_stop_at t \<in> {Idle, Stop_lock, Stop_store, Returned} \<longrightarrow> tt_run_at t = Exited) \<and>
     (tt_joinable t \<or> tt_run_at t = Exited) \<and> tt_run_at t \<noteq> NotStarted \<and> (tt_stop_at t = Returned \<longrightarrow> \<not> tt_joinable t)"

lemma tt_ok_start:
  assumes "tt_start (new_task_thread i task) = (True, t)"
  shows "tt_ok t \<and> tt_runs t = 0 \<and> 0 < i \<and> task"
proof -
  have t: "t = (new_task_thread i task)\<lparr>tt_joinable := True, tt_run_at := At_lock\<rparr>" "0 < i" "task"
    using assms by (simp_all add: tt_start_def new_task_thread_def split: if_splits)
  show ?thesis unfolding t(1) using t(2,3) by (simp add: tt_ok_def new_task_thread_def)
qed

lemma run_ok: "tt_ok t \<Longrightarrow> pred_option tt_ok (tt_run t)"
  by (cases "tt_run_at t"; cases "tt_stop_at t")
    (simp_all add: tt_ok_def tt_run_def tt_acquire_def tt_release_def, auto)

lemma stop_ok: "tt_ok t \<Longrightarrow> pred_option tt_ok (tt_stop t)"
  by (cases "tt_stop_at t"; cases "tt_run_at t")
    (simp_all add: tt_ok_def tt_stop_def tt_acquire_def tt_release_def, auto)

lemma wake_ok: "tt_ok t \<Longrightarrow> pred_option tt_ok (tt_wake b t)"
  by (cases "tt_run_at t") (simp_all add: tt_ok_def tt_wake_def, auto)

lemma call_ok: "tt_ok t \<Longrightarrow> pred_option tt_ok (tt_call_stop t)"
  by (cases "tt_stop_at t") (simp_all add: tt_ok_def tt_call_stop_def)

lemma step_ok: "tt_ok t \<Longrightarrow> tt_step e t = Some t' \<Longrightarrow> tt_ok t'"
  using run_ok [of t] stop_ok [of t] wake_ok [of t True] wake_ok [of t False] call_ok [of t] by (cases e) simp_all

lemma steps_ok: "tt_ok t \<Longrightarrow> tt_steps es t = Some t' \<Longrightarrow> tt_ok t'"
  by (induction es arbitrary: t) (auto split: option.splits intro: step_ok)

section \<open>No deadlock, and an end\<close>

text \<open>A call of \<open>stop\<close> that has begun never waits together with the thread of the task, not even for the end of the interval.\<close>

lemma stop_not_stuck:
  assumes "tt_ok t" "tt_stop_at t \<notin> {Idle, Returned}"
  shows "tt_run t \<noteq> None \<or> tt_stop t \<noteq> None"
  using assms
  by (cases "tt_stop_at t"; cases "tt_run_at t"; cases "tt_mutex t")
    (simp_all add: tt_ok_def tt_run_def tt_stop_def tt_acquire_def, auto intro: mutex_owner.exhaust)

lemma run_not_stuck:
  assumes "tt_ok t" "tt_stop_at t = Idle"
  shows "tt_run t \<noteq> None \<or> tt_wake True t \<noteq> None \<or> tt_run_at t = Exited"
  using assms
  by (cases "tt_run_at t"; cases "tt_mutex t")
    (simp_all add: tt_ok_def tt_run_def tt_wake_def tt_acquire_def, auto intro: mutex_owner.exhaust)

text \<open>With the flag raised, every step brings one of the two threads nearer to its end.\<close>

fun run_rank :: "run_point \<Rightarrow> nat" where
  "run_rank At_call = 5"
| "run_rank In_task = 4"
| "run_rank Asleep = 5"
| "run_rank (Woken b) = 4"
| "run_rank (At_status b) = 3"
| "run_rank At_lock = 3"
| "run_rank At_relock = 3"
| "run_rank At_predicate = 2"
| "run_rank At_while = 2"
| "run_rank Leaving = 1"
| "run_rank _ = 0"

fun stop_rank :: "stop_point \<Rightarrow> nat" where
  "stop_rank Stop_lock = 6"
| "stop_rank Stop_store = 5"
| "stop_rank Stop_unlock = 4"
| "stop_rank Stop_notify = 3"
| "stop_rank Stop_joinable = 2"
| "stop_rank Stop_join = 1"
| "stop_rank _ = 0"

definition tt_rank :: "task_thread \<Rightarrow> nat" where
  "tt_rank t = run_rank (tt_run_at t) + stop_rank (tt_stop_at t)"

lemma tt_rank_bound: "tt_rank t \<le> 11"
proof -
  have "run_rank (tt_run_at t) \<le> 5" by (cases "tt_run_at t") simp_all
  moreover have "stop_rank (tt_stop_at t) \<le> 6" by (cases "tt_stop_at t") simp_all
  ultimately show ?thesis by (simp add: tt_rank_def)
qed

definition may_begin :: "task_thread \<Rightarrow> nat" where
  "may_begin t = (if tt_run_at t = At_call then 1 else 0)"

lemma run_stopped:
  "tt_run_at t \<noteq> At_sleep \<Longrightarrow> tt_run_at t \<noteq> At_unlock \<Longrightarrow> tt_stopped t \<Longrightarrow>
     pred_option (\<lambda>t'. tt_stopped t' \<and> tt_rank t' < tt_rank t \<and> tt_runs t' + may_begin t' \<le> tt_runs t + may_begin t) (tt_run t)"
  by (cases "tt_run_at t")
    (simp_all add: tt_run_def tt_acquire_def tt_release_def tt_rank_def may_begin_def)

lemma stop_stopped:
  "tt_stopped t \<Longrightarrow> pred_option (\<lambda>t'. tt_stopped t' \<and> tt_rank t' < tt_rank t \<and> tt_runs t' + may_begin t' \<le> tt_runs t + may_begin t) (tt_stop t)"
  by (cases "tt_stop_at t")
    (simp_all add: tt_stop_def tt_acquire_def tt_release_def tt_rank_def may_begin_def)

lemma wake_stopped:
  "tt_stopped t \<Longrightarrow> pred_option (\<lambda>t'. tt_stopped t' \<and> tt_rank t' < tt_rank t \<and> tt_runs t' + may_begin t' \<le> tt_runs t + may_begin t) (tt_wake b t)"
  by (simp add: tt_wake_def tt_rank_def may_begin_def)

lemma step_stopped:
  assumes "tt_ok t" "tt_stopped t" "tt_step e t = Some t'" "e \<noteq> Call_stop"
  shows "tt_stopped t' \<and> tt_rank t' < tt_rank t \<and> tt_runs t' + may_begin t' \<le> tt_runs t + may_begin t"
proof -
  have "tt_run_at t \<noteq> At_sleep" "tt_run_at t \<noteq> At_unlock" using assms(1,2) by (simp_all add: tt_ok_def)
  then show ?thesis
    using assms(2-4) run_stopped [of t] stop_stopped [of t] wake_stopped [of t True] wake_stopped [of t False] by (cases e) simp_all
qed

lemma steps_stopped:
  "tt_ok t \<Longrightarrow> tt_stopped t \<Longrightarrow> tt_steps es t = Some t' \<Longrightarrow> Call_stop \<notin> set es \<Longrightarrow>
     length es + tt_rank t' \<le> tt_rank t \<and> tt_runs t' + may_begin t' \<le> tt_runs t + may_begin t"
proof (induction es arbitrary: t)
  case (Cons e es)
  obtain t1 where t1: "tt_step e t = Some t1" "tt_steps es t1 = Some t'" using Cons.prems(3) by (auto split: option.splits)
  have "e \<noteq> Call_stop" using Cons.prems(4) by auto
  then have "tt_stopped t1" "tt_rank t1 < tt_rank t" "tt_runs t1 + may_begin t1 \<le> tt_runs t + may_begin t"
    using step_stopped [OF Cons.prems(1,2) t1(1)] by simp_all
  moreover have "length es + tt_rank t' \<le> tt_rank t1 \<and> tt_runs t' + may_begin t' \<le> tt_runs t1 + may_begin t1"
    using Cons.IH [OF step_ok [OF Cons.prems(1) t1(1)] _ t1(2)] Cons.prems(4) \<open>tt_stopped t1\<close> by simp
  ultimately show ?case by simp
qed simp

text \<open>The task is begun only after an interval has ended.\<close>

definition due :: "task_thread \<Rightarrow> nat" where
  "due t = (if tt_run_at t \<in> {Woken True, At_status True, At_unlock, At_call} then 1 else 0)"

lemma run_due: "pred_option (\<lambda>t'. tt_runs t' + due t' \<le> tt_runs t + due t) (tt_run t)"
  by (cases "tt_run_at t") (simp_all add: tt_run_def tt_acquire_def tt_release_def due_def)

lemma stop_due: "pred_option (\<lambda>t'. tt_runs t' + due t' \<le> tt_runs t + due t) (tt_stop t)"
  by (cases "tt_stop_at t") (simp_all add: tt_stop_def tt_acquire_def tt_release_def due_def)

lemma step_due: "tt_step e t = Some t' \<Longrightarrow> tt_runs t' + due t' \<le> tt_runs t + due t + (if e = Timeout then 1 else 0)"
  using run_due [of t] stop_due [of t]
  by (cases e) (auto simp: tt_wake_def tt_call_stop_def due_def split: if_splits)

lemma steps_due: "tt_steps es t = Some t' \<Longrightarrow> tt_runs t' + due t' \<le> tt_runs t + due t + count_list es Timeout"
  by (induction es arbitrary: t) (fastforce dest: step_due split: option.splits)+


text \<open>One round of the loop: the interval passes and the task runs once.\<close>

definition one_round :: "task_event list" where
  "one_round = [Runner, Runner, Runner, Runner, Timeout, Runner, Runner, Runner, Runner, Runner]"

lemma one_round_runs:
  assumes "tt_run_at t \<in> {At_lock, At_relock}" "tt_mutex t = None" "\<not> tt_stopped t"
  shows "tt_steps one_round t = Some (t\<lparr>tt_notified := False, tt_run_at := At_relock, tt_runs := tt_runs t + 1\<rparr>)"
  using assms by (auto simp: one_round_def tt_run_def tt_acquire_def tt_release_def tt_wake_def)

lemma rounds_run:
  assumes "tt_run_at t \<in> {At_lock, At_relock}" "tt_mutex t = None" "\<not> tt_stopped t" "tt_stop_at t = Idle"
  shows "\<exists>fs s. tt_steps fs t = Some s \<and> tt_stop_at s = Idle \<and> tt_runs s = tt_runs t + n"
  using assms
proof (induction n arbitrary: t)
  case 0
  then show ?case by (intro exI [of _ "[]"]) simp
next
  case (Suc n)
  let ?t = "t\<lparr>tt_notified := False, tt_run_at := At_relock, tt_runs := tt_runs t + 1\<rparr>"
  obtain fs s where "tt_steps fs ?t = Some s" "tt_stop_at s = Idle" "tt_runs s = tt_runs ?t + n"
    using Suc.IH [of ?t] Suc.prems by auto
  then show ?case using one_round_runs [OF Suc.prems(1-3)]
    by (intro exI [of _ "one_round @ fs"] exI [of _ s]) (simp add: tt_steps_append)
qed

lemma returned:
  "tt_ok t \<Longrightarrow> tt_stop_at t = Returned \<Longrightarrow>
     tt_run_at t = Exited \<and> tt_mutex t = None \<and> \<not> tt_joinable t \<and> tt_call_stop t \<noteq> None"
  by (cases "tt_mutex t") (auto simp: tt_ok_def tt_call_stop_def intro: mutex_owner.exhaust)

text \<open>Before the flag is raised the thread does not end.\<close>

definition not_ended :: "task_thread \<Rightarrow> bool" where
  "not_ended t \<longleftrightarrow> tt_stopped t \<or> tt_run_at t \<noteq> Leaving \<and> tt_run_at t \<noteq> Exited"

lemma run_not_ended: "not_ended t \<Longrightarrow> pred_option not_ended (tt_run t)"
  by (cases "tt_run_at t") (simp_all add: tt_run_def tt_acquire_def tt_release_def not_ended_def)

lemma stop_not_ended: "not_ended t \<Longrightarrow> pred_option not_ended (tt_stop t)"
  by (cases "tt_stop_at t") (simp_all add: tt_stop_def tt_acquire_def tt_release_def not_ended_def, auto)

lemma step_not_ended: "not_ended t \<Longrightarrow> tt_step e t = Some t' \<Longrightarrow> not_ended t'"
  using run_not_ended [of t] stop_not_ended [of t]
  by (cases e) (auto simp: tt_wake_def tt_call_stop_def not_ended_def split: if_splits)

lemma steps_not_ended: "not_ended t \<Longrightarrow> tt_steps es t = Some t' \<Longrightarrow> not_ended t'"
  by (induction es arbitrary: t) (auto split: option.splits intro: step_not_ended)

text \<open>No call has begun: the flag is down.\<close>

definition flag_down :: "task_thread \<Rightarrow> bool" where
  "flag_down t \<longleftrightarrow> (tt_stop_at t = Idle \<longrightarrow> \<not> tt_stopped t)"

lemma run_flag: "flag_down t \<Longrightarrow> pred_option flag_down (tt_run t)"
  by (cases "tt_run_at t") (simp_all add: tt_run_def tt_acquire_def tt_release_def flag_down_def)

lemma stop_flag: "pred_option flag_down (tt_stop t)"
  by (cases "tt_stop_at t") (simp_all add: tt_stop_def tt_acquire_def tt_release_def flag_down_def)

lemma step_flag: "flag_down t \<Longrightarrow> tt_step e t = Some t' \<Longrightarrow> flag_down t'"
  using run_flag [of t] stop_flag [of t]
  by (cases e) (auto simp: tt_wake_def tt_call_stop_def flag_down_def split: if_splits)

lemma steps_flag: "flag_down t \<Longrightarrow> tt_steps es t = Some t' \<Longrightarrow> flag_down t'"
  by (induction es arbitrary: t) (auto split: option.splits intro: step_flag)

lemma steps_idle:
  assumes "tt_start (new_task_thread i task) = (True, t)" "tt_steps es t = Some s" "tt_stop_at s = Idle"
  shows "tt_run_at s \<noteq> Exited"
proof -
  have t: "not_ended t" "flag_down t"
    using assms(1) by (auto simp: tt_start_def new_task_thread_def not_ended_def flag_down_def split: if_splits)
  show ?thesis using steps_not_ended [OF t(1) assms(2)] steps_flag [OF t(2) assms(2)] assms(3)
    by (auto simp: not_ended_def flag_down_def)
qed

text \<open>C40: A started task has a positive interval and a function. It begins only after an interval has ended, any number of times, and as long as \<open>stop\<close>
  has not been called its thread goes on: it can take a step, or the interval can end. A call of \<open>stop\<close> cannot
  deadlock and no wakeup is lost: until it returns, one of the two threads can take a step without waiting for the interval. Once the flag is
  raised, whatever steps follow, both threads come to their end within eleven of them, and the task is not begun again, but for a thread that was
  already on its way to it, which begins it once. When \<open>stop\<close> has returned, the thread has ended and the mutex is free, and \<open>stop\<close> can be
  called again.\<close>

theorem stop_ends_task:
  assumes "tt_start (new_task_thread intervalMilliseconds task) = (True, t)" and "tt_steps es t = Some s"
  shows "0 < intervalMilliseconds \<and> task \<and> tt_runs s \<le> count_list es Timeout \<and>
    (\<forall>n. \<exists>fs s'. tt_steps fs t = Some s' \<and> tt_stop_at s' = Idle \<and> tt_runs s' = n) \<and>
    (tt_stop_at s = Idle \<longrightarrow> tt_step Runner s \<noteq> None \<or> tt_step Timeout s \<noteq> None) \<and>
    (tt_stop_at s \<notin> {Idle, Returned} \<longrightarrow> tt_step Runner s \<noteq> None \<or> tt_step Stopper s \<noteq> None) \<and>
    (tt_stopped s \<longrightarrow> (\<forall>fs s'. tt_steps fs s = Some s' \<and> Call_stop \<notin> set fs \<longrightarrow>
       length fs \<le> 11 \<and> tt_runs s' \<le> tt_runs s + (if tt_run_at s = At_call then 1 else 0))) \<and>
    (tt_stop_at s = Returned \<longrightarrow> tt_run_at s = Exited \<and> tt_mutex s = None \<and> \<not> tt_joinable s \<and> tt_step Call_stop s \<noteq> None)"
proof -
  have st: "tt_ok t" "tt_runs t = 0" "0 < intervalMilliseconds" "task" using tt_ok_start [OF assms(1)] by simp_all
  have ok: "tt_ok s" by (rule steps_ok [OF st(1) assms(2)])
  have idle: "tt_stop_at s = Idle \<Longrightarrow> tt_run s \<noteq> None \<or> tt_wake True s \<noteq> None"
    using run_not_stuck [OF ok] steps_idle [OF assms] by blast
  have d: "due t = 0" using assms(1) by (auto simp: tt_start_def due_def split: if_splits)
  have n: "tt_runs s \<le> count_list es Timeout" using steps_due [OF assms(2)] st(2) d by simp
  have e: "length fs \<le> 11 \<and> tt_runs s' \<le> tt_runs s + (if tt_run_at s = At_call then 1 else 0)"
    if "tt_stopped s" "tt_steps fs s = Some s'" "Call_stop \<notin> set fs" for fs s'
    using steps_stopped [OF ok that] tt_rank_bound [of s] by (simp add: may_begin_def split: if_splits)
  then have e': "tt_stopped s \<longrightarrow> (\<forall>fs s'. tt_steps fs s = Some s' \<and> Call_stop \<notin> set fs \<longrightarrow>
      length fs \<le> 11 \<and> tt_runs s' \<le> tt_runs s + (if tt_run_at s = At_call then 1 else 0))" by blast
  have r: "tt_stop_at s = Returned \<Longrightarrow> tt_run_at s = Exited \<and> tt_mutex s = None \<and> \<not> tt_joinable s \<and> tt_call_stop s \<noteq> None"
    by (rule returned [OF ok])
  have again: "\<exists>fs s'. tt_steps fs t = Some s' \<and> tt_stop_at s' = Idle \<and> tt_runs s' = n" for n
    using rounds_run [of t n] assms(1) st(2) by (auto simp: tt_start_def new_task_thread_def split: if_splits)
  show ?thesis unfolding tt_step.simps using st(3,4) n idle stop_not_stuck [OF ok] e' r again by blast
qed

lemma sample_thread_steps:
  "tt_steps [Runner, Runner, Runner, Runner, Timeout, Runner, Runner, Runner, Call_stop, Stopper, Stopper, Stopper, Runner]
     (snd (tt_start (new_task_thread 1000 True))) =
   Some \<lparr>tt_intervalMilliseconds = 1000, tt_task = True, tt_stopped = True, tt_mutex = None, tt_notified = False,
     tt_joinable = True, tt_run_at = In_task, tt_stop_at = Stop_notify, tt_runs = 1\<rparr>"
  by (simp add: tt_start_def new_task_thread_def tt_run_def tt_acquire_def tt_release_def tt_wake_def tt_call_stop_def tt_stop_def)

text \<open>A thread that was past the unlock when the flag was raised: it begins the task once, and the rest ends.\<close>

theorem stop_ends_task_witness:
  "\<exists>s. tt_steps [Runner, Runner, Runner, Runner, Timeout, Runner, Runner, Runner, Call_stop, Stopper, Stopper, Stopper, Runner]
       (snd (tt_start (new_task_thread 1000 True))) = Some s \<and> tt_runs s = 1 \<and>
     (tt_step Runner s \<noteq> None \<or> tt_step Stopper s \<noteq> None) \<and>
     (\<forall>fs s'. tt_steps fs s = Some s' \<and> Call_stop \<notin> set fs \<longrightarrow> length fs \<le> 11 \<and> tt_runs s' \<le> 1)"
proof -
  let ?t = "snd (tt_start (new_task_thread 1000 True))"
  have s: "tt_start (new_task_thread 1000 True) = (True, ?t)" by (simp add: tt_start_def new_task_thread_def)
  from stop_ends_task [OF s sample_thread_steps] show ?thesis unfolding sample_thread_steps by simp
qed

end
