(* ===== verification/SipWire.thy ===== *)
theory SipWire
  imports Runtime
begin

text \<open>
  The SIP transport of the shipped build (\<open>src/src/adapters/pjsip/PjsipStackAdapter.{h,cpp}\<close>): reading a received
  message into a request, writing a message as a request or a response, the life cycle of the stack and the
  two callbacks. PJSIP is outside the program: what its functions answer is the record \<open>pj_calls\<close>, what it
  parsed of a message is the record \<open>pj_msg\<close>, and what the adapter hands to it is the record \<open>out_request\<close>
  or \<open>out_response\<close>. Threads registered with the library and log output are not modelled.
\<close>

section \<open>A received message\<close>

text \<open>A header is what \<open>print_on\<close> writes into 1024 bytes, empty when it does not fit, with its tag.\<close>

record pj_msg =
  pm_request :: bool
  pm_method :: string
  pm_status :: int
  pm_reason :: string
  pm_from :: "(string \<times> string) option"
  pm_to :: "(string \<times> string) option"
  pm_contact :: "string option"
  pm_callId :: "string option"
  pm_cseq :: "(int \<times> string) option"
  pm_authorization :: "digest_fields option"
  pm_challenge :: "digest_fields option"
  pm_expires :: "int option"
  pm_body :: "string option"

definition sipContact :: "string \<Rightarrow> string \<Rightarrow> int \<Rightarrow> string" where
  "sipContact sipId ip port = ''<'' @ sipUri sipId ip port @ ''>''"

definition sipUriFromContact :: "string \<Rightarrow> string" where
  "sipUriFromContact contact =
    (case find_from ''sip:'' contact 0 of
       None \<Rightarrow> []
     | Some b \<Rightarrow>
         (case find_from ''>'' contact b of
            Some e \<Rightarrow> substr contact b (e - b)
          | None \<Rightarrow>
              (case find_from '';'' contact b of
                 Some e \<Rightarrow> substr contact b (e - b)
               | None \<Rightarrow>
                   (case find_first_of [CHR '' '', CHR 0x09, CHR 0x0D, CHR 0x0A] contact b of
                      Some e \<Rightarrow> substr contact b (e - b)
                    | None \<Rightarrow> drop b contact))))"

definition parseHeaderId :: "(string \<times> string) option \<Rightarrow> string" where
  "parseHeaderId header =
    (case header of
       None \<Rightarrow> []
     | Some (value, _) \<Rightarrow>
         (case find_from ''sip:'' value 0 of
            None \<Rightarrow> []
          | Some b \<Rightarrow>
              (case find_from ''@'' value (b + 4) of
                 None \<Rightarrow> []
               | Some e \<Rightarrow> if e \<le> b + 4 then [] else substr value (b + 4) (e - (b + 4)))))"

definition headerValue :: "string option \<Rightarrow> string" where
  "headerValue header = (case header of None \<Rightarrow> [] | Some value \<Rightarrow> value)"

definition dialogTag :: "(string \<times> string) option \<Rightarrow> string" where
  "dialogTag header = (case header of None \<Rightarrow> [] | Some (_, tag) \<Rightarrow> tag)"

definition fillDialogHeaders :: "pj_msg \<Rightarrow> sip_request \<Rightarrow> sip_request" where
  "fillDialogHeaders msg request =
    (let request = (case pm_callId msg of None \<Rightarrow> request | Some callId \<Rightarrow> request\<lparr>rq_callId := callId\<rparr>);
         request = (case pm_cseq msg of None \<Rightarrow> request | Some (cseq, _) \<Rightarrow> request\<lparr>rq_cseq := dec_int cseq\<rparr>)
     in request\<lparr>rq_contact := headerValue (pm_contact msg), rq_fromTag := dialogTag (pm_from msg),
          rq_toTag := dialogTag (pm_to msg)\<rparr>)"

definition cseqMethod :: "pj_msg \<Rightarrow> string" where
  "cseqMethod msg = (case pm_cseq msg of None \<Rightarrow> [] | Some (_, method) \<Rightarrow> method)"

definition fillDigestAuth :: "pj_msg \<Rightarrow> sip_request \<Rightarrow> sip_request" where
  "fillDigestAuth msg request =
    (case pm_authorization msg of
       None \<Rightarrow> request
     | Some d \<Rightarrow> request\<lparr>rq_digestAuth := d, rq_authenticated := df_response d \<noteq> []\<rparr>)"

definition fillDigestChallenge :: "pj_msg \<Rightarrow> sip_request \<Rightarrow> sip_request" where
  "fillDigestChallenge msg response =
    (case pm_challenge msg of
       None \<Rightarrow> response
     | Some d \<Rightarrow> response\<lparr>rq_digestAuth := (rq_digestAuth response)\<lparr>df_realm := df_realm d, df_nonce := df_nonce d,
           df_opaque := df_opaque d, df_algorithm := df_algorithm d, df_qop := df_qop d\<rparr>\<rparr>)"

definition body_text :: "pj_msg \<Rightarrow> string" where
  "body_text msg = (case pm_body msg of None \<Rightarrow> [] | Some body \<Rightarrow> body)"

text \<open>The event of a request is its method's, or the root and command of a MANSCDP body; the second is also
  looked at in the answer to a MESSAGE.\<close>

definition manscdp_event :: "sip_request \<Rightarrow> sip_request" where
  "manscdp_event request =
    (case parseManscdpMessage (rq_body request) of
       None \<Rightarrow> request
     | Some mx \<Rightarrow> request\<lparr>rq_manscdp := mx, rq_event := mx_event mx\<rparr>)"

definition request_event :: "sip_request \<Rightarrow> sip_request" where
  "request_event request =
    (if rq_method request = ''REGISTER'' then request\<lparr>rq_event := ''request''\<rparr>
     else if rq_method request = ''INVITE'' \<or> rq_method request = ''BYE'' \<or> rq_method request = ''ACK''
     then request\<lparr>rq_event := ''request''\<rparr>
     else if rq_method request = ''MESSAGE'' then manscdp_event request
     else request)"

definition toRequestContext :: "pj_msg \<Rightarrow> sip_request" where
  "toRequestContext msg =
    (let request = new_sip_request\<lparr>rq_method := pm_method msg, rq_fromId := parseHeaderId (pm_from msg),
           rq_toId := parseHeaderId (pm_to msg)\<rparr>;
         request = fillDigestAuth msg (fillDialogHeaders msg request);
         request = (case pm_expires msg of None \<Rightarrow> request | Some expires \<Rightarrow> request\<lparr>rq_expires := expires\<rparr>)
     in request_event (request\<lparr>rq_body := body_text msg\<rparr>))"

definition toResponseContext :: "pj_msg \<Rightarrow> sip_request" where
  "toResponseContext msg =
    (let response = new_sip_request\<lparr>rq_method := cseqMethod msg, rq_event := ''response'',
           rq_fromId := parseHeaderId (pm_from msg), rq_toId := parseHeaderId (pm_to msg),
           rq_statusCode := pm_status msg, rq_reason := pm_reason msg\<rparr>;
         response = (fillDigestChallenge msg (fillDialogHeaders msg response))\<lparr>rq_body := body_text msg\<rparr>
     in if rq_method response = ''MESSAGE'' then manscdp_event response else response)"

definition rxDataMethod :: "pj_msg \<Rightarrow> string" where
  "rxDataMethod msg =
    (if pm_request msg then pm_method msg
     else case pm_cseq msg of
         Some (_, method) \<Rightarrow> method @ ''/'' @ dec_int (pm_status msg)
       | None \<Rightarrow> dec_int (pm_status msg))"

section \<open>A message to send\<close>

text \<open>\<open>None\<close> for a Call-ID, a tag or a CSeq is the one the library made when it created the request. The body
  comes with its type and subtype.\<close>

record out_request =
  or_method :: string
  or_target :: string
  or_from :: string
  or_to :: string
  or_contact :: string
  or_body :: "(string \<times> string \<times> string) option"
  or_expires :: "int option"
  or_callId :: "string option"
  or_fromTag :: "string option"
  or_toTag :: "string option"
  or_cseq :: "int option"
  or_authorization :: "digest_fields option"

record out_response =
  os_status :: int
  os_reason :: "string option"
  os_challenge :: "digest_fields option"
  os_body :: "(string \<times> string \<times> string) option"

text \<open>The two places that cut a content type, which differ in their defaults.\<close>

definition split_type :: "string \<Rightarrow> string \<Rightarrow> string \<Rightarrow> string \<times> string" where
  "split_type type subtype contentType =
    (case find_from ''/'' contentType 0 of
       None \<Rightarrow> (type, subtype)
     | Some slash \<Rightarrow> (c_string (substr contentType 0 slash), c_string (drop (slash + 1) contentType)))"

definition unless_empty :: "string \<Rightarrow> string option" where
  "unless_empty s = (if s = [] then None else Some (c_string s))"

definition out_digest :: "digest_fields \<Rightarrow> digest_fields" where
  "out_digest d = \<lparr>df_username = c_string (df_username d), df_realm = c_string (df_realm d),
     df_nonce = c_string (df_nonce d), df_uri = c_string (df_uri d), df_response = c_string (df_response d),
     df_algorithm = (if df_algorithm d = [] then ''MD5'' else c_string (df_algorithm d)),
     df_opaque = c_string (df_opaque d), df_qop = c_string (df_qop d), df_nc = c_string (df_nc d),
     df_cnonce = c_string (df_cnonce d)\<rparr>"

text \<open>The request of \<open>send\<close> for a target, and \<open>None\<close> when there is nowhere to send it.\<close>

definition request_to :: "string \<Rightarrow> sip_message \<Rightarrow> out_request" where
  "request_to target message =
    (let toValue = sipUri (sm_toId message) (sm_remoteIp message) (sm_remotePort message);
         text = (if sm_body message = [] then None else Some (''text'', ''plain'', c_string (sm_body message)))
     in \<lparr>or_method = c_string (sm_method message),
          or_target = c_string (if target = [] then toValue else target),
          or_from = c_string (sipUri (sm_fromId message) (sm_localIp message) (sm_localPort message)),
          or_to = c_string toValue,
          or_contact = c_string (sipContact (sm_fromId message) (sm_localIp message) (sm_localPort message)),
          or_body = (if sm_contentType message = [] \<or> text = None then text
             else (case split_type ''Application'' ''MANSCDP+xml'' (sm_contentType message) of
                 (type, subtype) \<Rightarrow> Some (type, subtype, c_string (sm_body message)))),
          or_expires = (if sm_method message = ''REGISTER'' \<and> sm_expires message \<ge> 0
             then Some (sm_expires message) else None),
          or_callId = unless_empty (sm_callId message),
          or_fromTag = unless_empty (sm_fromTag message),
          or_toTag = unless_empty (sm_toTag message),
          or_cseq = (if sm_cseq message = [] then None else Some (atoi (sm_cseq message))),
          or_authorization = (if df_response (sm_digestAuth message) = [] then None
             else Some (out_digest (sm_digestAuth message)))\<rparr>)"

definition build_request :: "sip_message \<Rightarrow> out_request option" where
  "build_request message =
    (let contactTarget = sipUriFromContact (sm_contact message)
     in if contactTarget = [] \<and> (sm_remoteIp message = [] \<or> sm_remotePort message \<le> 0) then None
        else Some (request_to contactTarget message))"

definition build_response :: "sip_message \<Rightarrow> out_response" where
  "build_response response =
    \<lparr>os_status = sm_statusCode response,
     os_reason = unless_empty (sm_reason response),
     os_challenge = (if sm_authRealm response = [] then None
        else Some (new_digest_fields\<lparr>df_realm := c_string (sm_authRealm response),
          df_nonce := c_string (sm_authNonce response), df_opaque := c_string (sm_authOpaque response),
          df_algorithm := (if sm_authAlgorithm response = [] then ''MD5'' else c_string (sm_authAlgorithm response))\<rparr>)),
     os_body = (if sm_body response = [] then None
        else (case split_type ''text'' ''plain'' (sm_contentType response) of
            (type, subtype) \<Rightarrow> Some (type, subtype, c_string (sm_body response))))\<rparr>"

section \<open>The adapter\<close>

datatype tcp_answer = TcpStarted | TcpExists | TcpFailed

record pj_calls =
  pc_init :: bool
  pc_utilInit :: bool
  pc_endptCreate :: bool
  pc_mediaCreate :: bool
  pc_tsxInit :: bool
  pc_uaInit :: bool
  pc_createPool :: bool
  pc_udpStart :: "u16 \<Rightarrow> bool"
  pc_tcpStart :: "u16 \<Rightarrow> tcp_answer"
  pc_registerModule :: bool
  pc_createRequest :: "out_request \<Rightarrow> bool"
  pc_sendRequest :: "out_request \<Rightarrow> bool"

text \<open>A pointer to an object of the library, and the thread object, is whether it is set; the flag and the
  message of a pending response are one \<open>option\<close>. \<open>pa_global\<close>: is this adapter the one in the global variable \<open>g_adapter\<close>, where the
  callbacks of the library find it.\<close>

record pjsip_adapter =
  pa_endpoint :: bool
  pa_mediaEndpoint :: bool
  pa_pool :: bool
  pa_handler :: bool
  pa_running :: bool
  pa_sentMessageCount :: nat
  pa_pendingResponse :: "sip_message option"
  pa_pjlibInitialized :: bool
  pa_cachingPoolInitialized :: bool
  pa_eventThread :: bool
  pa_global :: bool

definition new_pjsip_adapter :: pjsip_adapter where
  "new_pjsip_adapter = \<lparr>pa_endpoint = False, pa_mediaEndpoint = False, pa_pool = False, pa_handler = False,
     pa_running = False, pa_sentMessageCount = 0, pa_pendingResponse = None, pa_pjlibInitialized = False,
     pa_cachingPoolInitialized = False, pa_eventThread = False, pa_global = False\<rparr>"

text \<open>The loop of the thread ends within one timeout of the poll once \<open>m_running\<close> is cleared, so the join
  returns.\<close>

definition pj_stop :: "pjsip_adapter \<Rightarrow> pjsip_adapter" where
  "pj_stop a = a\<lparr>pa_running := False, pa_sentMessageCount := 0, pa_eventThread := False, pa_mediaEndpoint := False,
     pa_endpoint := False, pa_pool := (if pa_endpoint a then False else pa_pool a),
     pa_cachingPoolInitialized := False, pa_pjlibInitialized := False, pa_global := False\<rparr>"

definition initPjlib :: "pj_calls \<Rightarrow> pjsip_adapter \<Rightarrow> bool \<times> pjsip_adapter" where
  "initPjlib calls a =
    (if \<not> pc_init calls then (False, a)
     else (pc_utilInit calls, a\<lparr>pa_pjlibInitialized := True\<rparr>))"

definition initEndpoint :: "pj_calls \<Rightarrow> pjsip_adapter \<Rightarrow> bool \<times> pjsip_adapter" where
  "initEndpoint calls a =
    (let a = a\<lparr>pa_cachingPoolInitialized := True\<rparr>
     in if \<not> pc_endptCreate calls then (False, a)
        else let a = a\<lparr>pa_endpoint := True\<rparr>
          in if \<not> pc_mediaCreate calls then (False, a)
             else let a = a\<lparr>pa_mediaEndpoint := True\<rparr>
               in if \<not> pc_tsxInit calls then (False, a)
                  else if \<not> pc_uaInit calls then (False, a)
                  else (pc_createPool calls, a\<lparr>pa_pool := pc_createPool calls\<rparr>))"

definition startTransport :: "pj_calls \<Rightarrow> int \<Rightarrow> bool" where
  "startTransport calls sipPort =
    (let port = (of_int sipPort :: u16)
     in if \<not> pc_udpStart calls port then False
        else (case pc_tcpStart calls port of TcpStarted \<Rightarrow> True | TcpExists \<Rightarrow> True | TcpFailed \<Rightarrow> False))"

text \<open>\<open>handler\<close> is whether the function passed is set. \<open>None\<close> is \<open>std::terminate\<close>: a thread object that is
  still joinable is assigned to.\<close>

definition pj_start :: "pj_calls \<Rightarrow> listen_endpoint list \<Rightarrow> bool \<Rightarrow> pjsip_adapter \<Rightarrow> (bool \<times> pjsip_adapter) option" where
  "pj_start calls endpoints handler a =
    (if endpoints = [] \<or> \<not> handler then Some (False, a)
     else
       let a = a\<lparr>pa_handler := True, pa_global := True\<rparr>; (ok, a) = initPjlib calls a
       in if \<not> ok then Some (False, pj_stop a)
          else let (ok, a) = initEndpoint calls a
            in if \<not> ok then Some (False, pj_stop a)
               else if \<not> list_all (\<lambda>it. startTransport calls (le_port it)) endpoints then Some (False, pj_stop a)
               else if \<not> pc_registerModule calls then Some (False, pj_stop a)
               else if pa_eventThread a then None
               else Some (True, a\<lparr>pa_running := True, pa_eventThread := True\<rparr>))"

text \<open>\<open>send\<close>: its result, and the request the library took.\<close>

definition pj_send :: "pj_calls \<Rightarrow> sip_message \<Rightarrow> pjsip_adapter \<Rightarrow> bool \<times> out_request option \<times> pjsip_adapter" where
  "pj_send calls message a =
    (if \<not> pa_running a \<or> \<not> pa_endpoint a \<or> sm_method message = [] then (False, None, a)
     else if sm_response message
     then (True, None, a\<lparr>pa_pendingResponse := Some message, pa_sentMessageCount := pa_sentMessageCount a + 1\<rparr>)
     else (case build_request message of
         None \<Rightarrow> (False, None, a)
       | Some request \<Rightarrow>
           if \<not> pc_createRequest calls request then (False, None, a)
           else if \<not> pc_sendRequest calls request then (False, None, a)
           else (True, Some request, a\<lparr>pa_sentMessageCount := pa_sentMessageCount a + 1\<rparr>)))"

definition sendStatelessResponse :: "sip_message \<Rightarrow> pjsip_adapter \<Rightarrow> out_response option" where
  "sendStatelessResponse response a =
    (if \<not> pa_endpoint a \<or> sm_statusCode response \<le> 0 then None else Some (build_response response))"

definition default_response :: "bool \<Rightarrow> sip_message" where
  "default_response handled = new_sip_message\<lparr>sm_response := True, sm_statusCode := (if handled then 200 else 403),
     sm_reason := (if handled then ''OK'' else ''Forbidden'')\<rparr>"

text \<open>The two callbacks. The handler works on the rest of the program and, through \<open>send\<close>, on the adapter;
  \<open>None\<close> for the message is a null pointer.\<close>

type_synonym 'r rx_handler = "sip_request \<Rightarrow> 'r \<times> pjsip_adapter \<Rightarrow> bool \<times> 'r \<times> pjsip_adapter"

definition handleRxRequest ::
  "'r rx_handler \<Rightarrow> pj_msg option \<Rightarrow> 'r \<times> pjsip_adapter \<Rightarrow> bool \<times> out_response option \<times> 'r \<times> pjsip_adapter" where
  "handleRxRequest handler rdata world =
    (case rdata of
       None \<Rightarrow> (False, None, world)
     | Some msg \<Rightarrow>
         let (r, a) = world
         in if \<not> pa_handler a then (False, None, world)
            else
              let (handled, r, a) = handler (toRequestContext msg) (r, a\<lparr>pa_pendingResponse := None\<rparr>)
              in (case pa_pendingResponse a of
                    Some response \<Rightarrow> (handled, sendStatelessResponse response a, r, a\<lparr>pa_pendingResponse := None\<rparr>)
                  | None \<Rightarrow>
                      if rxDataMethod msg \<noteq> ''ACK''
                      then (handled, sendStatelessResponse (default_response handled) a, r, a)
                      else (handled, None, r, a)))"

definition handleRxResponse :: "'r rx_handler \<Rightarrow> pj_msg option \<Rightarrow> 'r \<times> pjsip_adapter \<Rightarrow> bool \<times> 'r \<times> pjsip_adapter" where
  "handleRxResponse handler rdata world =
    (case rdata of
       None \<Rightarrow> (False, world)
     | Some msg \<Rightarrow> if \<not> pa_handler (snd world) then (False, world) else handler (toResponseContext msg) world)"

text \<open>What the library calls: the functions of the module, which find the adapter in the global variable.\<close>

definition onRxRequest ::
  "'r rx_handler \<Rightarrow> pj_msg option \<Rightarrow> 'r \<times> pjsip_adapter \<Rightarrow> bool \<times> out_response option \<times> 'r \<times> pjsip_adapter" where
  "onRxRequest handler rdata world = (if \<not> pa_global (snd world) then (False, None, world) else handleRxRequest handler rdata world)"

definition onRxResponse :: "'r rx_handler \<Rightarrow> pj_msg option \<Rightarrow> 'r \<times> pjsip_adapter \<Rightarrow> bool \<times> 'r \<times> pjsip_adapter" where
  "onRxResponse handler rdata world = (if \<not> pa_global (snd world) then (False, world) else handleRxResponse handler rdata world)"

text \<open>\<open>sendCallback\<close>: only the events of a transaction that carry a response are passed on. An event is the
  message of a transaction state, \<open>None\<close> for every other event and for one without a message.\<close>

definition sendCallback :: "'r rx_handler \<Rightarrow> pj_msg option \<Rightarrow> 'r \<times> pjsip_adapter \<Rightarrow> 'r \<times> pjsip_adapter" where
  "sendCallback handler event world =
    (case event of
       None \<Rightarrow> world
     | Some msg \<Rightarrow> if pm_request msg then world else snd (handleRxResponse handler (Some msg) world))"

section \<open>The life cycle\<close>

text \<open>A running adapter holds every object of the library, a stopped one none.\<close>

definition pa_ok :: "pjsip_adapter \<Rightarrow> bool" where
  "pa_ok a \<longleftrightarrow>
    (if pa_running a
     then pa_handler a \<and> pa_endpoint a \<and> pa_mediaEndpoint a \<and> pa_pool a \<and> pa_pjlibInitialized a \<and>
       pa_cachingPoolInitialized a \<and> pa_eventThread a \<and> pa_global a
     else \<not> pa_endpoint a \<and> \<not> pa_mediaEndpoint a \<and> \<not> pa_pool a \<and> \<not> pa_pjlibInitialized a \<and>
       \<not> pa_cachingPoolInitialized a \<and> \<not> pa_eventThread a \<and> \<not> pa_global a)"

text \<open>The class as a transport. A running adapter is not started, so the result of \<open>pj_start\<close> is defined.\<close>

definition pj_ops :: "pj_calls \<Rightarrow> pjsip_adapter sip_transport_ops" where
  "pj_ops calls = \<lparr>tp_start = \<lambda>es a. (case pj_start calls es True a of None \<Rightarrow> (False, a) | Some r \<Rightarrow> r),
     tp_stop = pj_stop, tp_send = \<lambda>m a. (let (b, _, a') = pj_send calls m a in (b, a')), tp_running = pa_running,
     tp_sentMessageCount = pa_sentMessageCount\<rparr>"

lemma pj_stop_ok: "pa_ok a \<or> pa_endpoint a \<or> \<not> pa_pool a \<Longrightarrow> pa_ok (pj_stop a) \<and> \<not> pa_running (pj_stop a)"
  by (auto simp: pa_ok_def pj_stop_def split: if_splits)

lemma pj_start_ok:
  assumes "pa_ok a" "\<not> pa_running a"
  shows "\<exists>b a'. pj_start calls es h a = Some (b, a') \<and> pa_ok a' \<and> pa_running a' = b \<and> (b \<longrightarrow> es \<noteq> [])"
  using assms by (auto simp: pj_start_def initPjlib_def initEndpoint_def pa_ok_def pj_stop_def Let_def)

lemma pj_send_ok:
  "pj_send calls m a = (b, out, a') \<Longrightarrow> pa_ok a' = pa_ok a \<and> pa_running a' = pa_running a \<and>
    pa_endpoint a' = pa_endpoint a \<and> pa_handler a' = pa_handler a \<and>
    (b \<longrightarrow> pa_running a \<and> sm_method m \<noteq> []) \<and> pa_sentMessageCount a' = pa_sentMessageCount a + (if b then 1 else 0)"
  by (auto simp: pj_send_def pa_ok_def split: if_splits option.splits)

interpretation pj: sip_transport "pj_ops calls" pa_ok for calls
proof
  fix t :: pjsip_adapter and es b t'
  assume t: "pa_ok t" "\<not> tp_running (pj_ops calls) t" "tp_start (pj_ops calls) es t = (b, t')"
  have r: "\<not> pa_running t" using t(2) by (simp add: pj_ops_def)
  show "pa_ok t' \<and> tp_running (pj_ops calls) t' = b \<and> (b \<longrightarrow> es \<noteq> [])"
    using pj_start_ok [OF t(1) r, of calls es True] t(3) by (auto simp: pj_ops_def)
next
  fix t :: pjsip_adapter and m b t'
  assume "pa_ok t" "tp_send (pj_ops calls) m t = (b, t')"
  then show "pa_ok t' \<and> tp_running (pj_ops calls) t' = tp_running (pj_ops calls) t \<and>
      (b \<longrightarrow> tp_running (pj_ops calls) t \<and> sm_method m \<noteq> []) \<and>
      tp_sentMessageCount (pj_ops calls) t' = tp_sentMessageCount (pj_ops calls) t + (if b then 1 else 0)"
    using pj_send_ok [of calls m t b] by (auto simp: pj_ops_def split: prod.splits)
next
  fix t :: pjsip_adapter
  assume "pa_ok t"
  then show "pa_ok (tp_stop (pj_ops calls) t) \<and> \<not> tp_running (pj_ops calls) (tp_stop (pj_ops calls) t)"
    using pj_stop_ok by (simp add: pj_ops_def)
qed





text \<open>A running adapter gets what arrives; a stopped one nothing.\<close>

lemma running_receives: "pa_ok a \<Longrightarrow> pa_running a \<Longrightarrow> onRxRequest handler rdata (r, a) = handleRxRequest handler rdata (r, a)"
  "pa_ok a \<Longrightarrow> pa_running a \<Longrightarrow> onRxResponse handler rdata (r, a) = handleRxResponse handler rdata (r, a)"
  by (simp_all add: pa_ok_def onRxRequest_def onRxResponse_def)




section \<open>From one adapter to another\<close>

text \<open>What the library does with a message, as far as the program relies on it: the headers it was given are
  those the other side parses, a printed header shows its URI after a name without the letter \<open>s\<close>
  (\<open>From: <sip:\<dots>>\<close>), and a response repeats the dialog headers of its request.\<close>

definition shows_uri :: "string \<Rightarrow> (string \<times> string) option \<Rightarrow> bool" where
  "shows_uri uri header \<longleftrightarrow> (\<exists>pre post tag. header = Some (pre @ uri @ post, tag) \<and> CHR ''s'' \<notin> set pre)"

definition keeps_value :: "'x option \<Rightarrow> 'x option \<Rightarrow> bool" where
  "keeps_value given parsed \<longleftrightarrow> (\<forall>x. given = Some x \<longrightarrow> parsed = Some x)"

definition request_arrives :: "out_request \<Rightarrow> pj_msg \<Rightarrow> bool" where
  "request_arrives out msg \<longleftrightarrow> pm_request msg \<and> pm_method msg = or_method out \<and>
     shows_uri (or_from out) (pm_from msg) \<and> shows_uri (or_to out) (pm_to msg) \<and>
     keeps_value (or_callId out) (pm_callId msg) \<and> keeps_value (or_cseq out) (map_option fst (pm_cseq msg)) \<and>
     keeps_value (or_fromTag out) (Some (dialogTag (pm_from msg))) \<and>
     keeps_value (or_toTag out) (Some (dialogTag (pm_to msg))) \<and>
     pm_expires msg = or_expires out \<and> pm_authorization msg = or_authorization out \<and>
     pm_body msg = map_option (\<lambda>(_, _, body). body) (or_body out)"

text \<open>The algorithm of a challenge points into a string that \<open>sendStatelessResponse\<close> destroys before the library
  copies the header, so nothing is said of what arrives for it.\<close>

definition no_algorithm :: "digest_fields \<Rightarrow> digest_fields" where
  "no_algorithm d = d\<lparr>df_algorithm := []\<rparr>"

definition response_arrives :: "pj_msg \<Rightarrow> out_response \<Rightarrow> pj_msg \<Rightarrow> bool" where
  "response_arrives req out msg \<longleftrightarrow> \<not> pm_request msg \<and> pm_status msg = os_status out \<and>
     keeps_value (os_reason out) (Some (pm_reason msg)) \<and>
     pm_callId msg = pm_callId req \<and> pm_cseq msg = map_option (\<lambda>(n, _). (n, pm_method req)) (pm_cseq req) \<and>
     pm_from msg = pm_from req \<and> map_option fst (pm_to msg) = map_option fst (pm_to req) \<and>
     map_option no_algorithm (pm_challenge msg) = map_option no_algorithm (os_challenge out) \<and>
     pm_body msg = map_option (\<lambda>(_, _, body). body) (os_body out)"

text \<open>What the sender of a message relies on: texts without zero bytes, ids a URI can hold, and a sequence
  number.\<close>

definition sip_id :: "string \<Rightarrow> bool" where
  "sip_id i \<longleftrightarrow> i \<noteq> [] \<and> CHR ''@'' \<notin> set i \<and> CHR 0x00 \<notin> set i"

definition no_zero :: "string \<Rightarrow> bool" where
  "no_zero s \<longleftrightarrow> CHR 0x00 \<notin> set s"

definition digest_clean :: "digest_fields \<Rightarrow> bool" where
  "digest_clean d \<longleftrightarrow> list_all no_zero [df_username d, df_realm d, df_nonce d, df_uri d, df_response d, df_algorithm d,
     df_opaque d, df_qop d, df_nc d, df_cnonce d] \<and> df_algorithm d \<noteq> []"

definition message_clean :: "sip_message \<Rightarrow> bool" where
  "message_clean m \<longleftrightarrow> sip_id (sm_fromId m) \<and> sip_id (sm_toId m) \<and>
     list_all no_zero [sm_method m, sm_localIp m, sm_remoteIp m, sm_callId m, sm_body m, sm_fromTag m, sm_toTag m] \<and>
     (sm_cseq m = [] \<or> (\<exists>n. INT_MIN \<le> n \<and> n \<le> INT_MAX \<and> sm_cseq m = dec_int n)) \<and>
     (df_response (sm_digestAuth m) = [] \<or> digest_clean (sm_digestAuth m))"

lemma c_string_clean [simp]: "no_zero s \<Longrightarrow> c_string s = s"
  by (simp add: no_zero_def)

lemma dec_int_no_zero [simp]: "no_zero (dec_int n)"
proof -
  have "no_zero (dec k)" for k
    using dec_digits [of k] by (auto simp: no_zero_def list_all_iff isdigit_def)
  then show ?thesis by (simp add: dec_int_def no_zero_def)
qed

lemma sipUri_no_zero [simp]: "sip_id i \<Longrightarrow> no_zero ip \<Longrightarrow> no_zero (sipUri i ip port)"
  using dec_int_no_zero [of port] by (auto simp: sipUri_def sip_id_def no_zero_def)

text \<open>The id comes back out of a header.\<close>

lemma header_id:
  assumes "sip_id i" "CHR ''s'' \<notin> set pre"
  shows "parseHeaderId (Some (pre @ ''sip:'' @ i @ ''@'' @ rest, tag)) = i"
proof -
  have b: "find_from ''sip:'' (pre @ ''sip:'' @ i @ ''@'' @ rest) 0 = Some (length pre)"
    using find_from_mark [of "''sip:''" pre "[]" "i @ ''@'' @ rest"] assms(2) by simp
  have e: "find_from ''@'' (pre @ ''sip:'' @ i @ ''@'' @ rest) (length pre + 4) = Some (length pre + 4 + length i)"
    using find_from_mark [of "''@''" i "pre @ ''sip:''" rest] assms(1) by (simp add: sip_id_def numeral_eq_Suc)
  have "0 < length i" using assms(1) by (simp add: sip_id_def)
  then show ?thesis unfolding parseHeaderId_def option.case prod.case b e by (simp add: substr_def)
qed

lemma shown_id: "sip_id i \<Longrightarrow> shows_uri (sipUri i ip port) header \<Longrightarrow> parseHeaderId header = i"
  using header_id by (auto simp: shows_uri_def sipUri_def)

lemma atoi_dec_int: "INT_MIN \<le> n \<Longrightarrow> n \<le> INT_MAX \<Longrightarrow> atoi (dec_int n) = n"
proof -
  assume n: "INT_MIN \<le> n" "n \<le> INT_MAX"
  have "sint (word_of_int n :: 32 word) = n"
    unfolding sint_sbintrunc' by (rule signed_take_bit_int_eq_self) (use n in \<open>simp_all add: INT_MIN_def INT_MAX_def\<close>)
  then show ?thesis using n by (simp add: atoi_def extract_int_dec_int INT_MIN_def INT_MAX_def)
qed

text \<open>What the receiving node reads of a request, and the sending node of the answer to it.\<close>

definition reads_request :: "sip_message \<Rightarrow> sip_request \<Rightarrow> bool" where
  "reads_request m q \<longleftrightarrow> rq_method q = sm_method m \<and> rq_fromId q = sm_fromId m \<and> rq_toId q = sm_toId m \<and>
     rq_body q = sm_body m \<and> (sm_callId m \<noteq> [] \<longrightarrow> rq_callId q = sm_callId m) \<and>
     (sm_cseq m \<noteq> [] \<longrightarrow> rq_cseq q = sm_cseq m) \<and> (sm_fromTag m \<noteq> [] \<longrightarrow> rq_fromTag q = sm_fromTag m) \<and>
     (sm_toTag m \<noteq> [] \<longrightarrow> rq_toTag q = sm_toTag m) \<and>
     (df_response (sm_digestAuth m) \<noteq> [] \<longrightarrow> rq_digestAuth q = sm_digestAuth m) \<and>
     rq_authenticated q = (df_response (sm_digestAuth m) \<noteq> []) \<and>
     rq_expires q = (if sm_method m = ''REGISTER'' \<and> sm_expires m \<ge> 0 then sm_expires m else 0) \<and>
     (sm_method m \<in> {''REGISTER'', ''INVITE'', ''ACK'', ''BYE''} \<longrightarrow> rq_event q = ''request'') \<and>
     (sm_method m = ''MESSAGE'' \<longrightarrow> (case parseManscdpMessage (sm_body m) of None \<Rightarrow> rq_event q = []
        | Some mx \<Rightarrow> rq_manscdp q = mx \<and> rq_event q = mx_event mx))"

definition reads_answer :: "sip_request \<Rightarrow> sip_message \<Rightarrow> sip_request \<Rightarrow> bool" where
  "reads_answer q m r \<longleftrightarrow> rq_method r = rq_method q \<and> rq_event r = ''response'' \<and> rq_statusCode r = sm_statusCode m \<and>
     rq_fromId r = rq_fromId q \<and> rq_toId r = rq_toId q \<and> rq_callId r = rq_callId q \<and> rq_cseq r = rq_cseq q \<and>
     rq_fromTag r = rq_fromTag q \<and> rq_body r = sm_body m \<and>
     (sm_authRealm m \<noteq> [] \<longrightarrow> no_algorithm (rq_digestAuth r) = new_digest_fields\<lparr>df_realm := sm_authRealm m,
        df_nonce := sm_authNonce m, df_opaque := sm_authOpaque m\<rparr>)"

lemma event_fields [simp]:
  "rq_method (manscdp_event q) = rq_method q" "rq_fromId (manscdp_event q) = rq_fromId q"
  "rq_toId (manscdp_event q) = rq_toId q" "rq_body (manscdp_event q) = rq_body q" "rq_callId (manscdp_event q) = rq_callId q"
  "rq_cseq (manscdp_event q) = rq_cseq q" "rq_contact (manscdp_event q) = rq_contact q"
  "rq_fromTag (manscdp_event q) = rq_fromTag q" "rq_toTag (manscdp_event q) = rq_toTag q"
  "rq_expires (manscdp_event q) = rq_expires q" "rq_digestAuth (manscdp_event q) = rq_digestAuth q"
  "rq_authenticated (manscdp_event q) = rq_authenticated q" "rq_statusCode (manscdp_event q) = rq_statusCode q"
  by (simp_all add: manscdp_event_def split: option.split)

lemma request_event_fields [simp]:
  "rq_method (request_event q) = rq_method q" "rq_fromId (request_event q) = rq_fromId q"
  "rq_toId (request_event q) = rq_toId q" "rq_body (request_event q) = rq_body q" "rq_callId (request_event q) = rq_callId q"
  "rq_cseq (request_event q) = rq_cseq q" "rq_contact (request_event q) = rq_contact q"
  "rq_fromTag (request_event q) = rq_fromTag q" "rq_toTag (request_event q) = rq_toTag q"
  "rq_expires (request_event q) = rq_expires q" "rq_digestAuth (request_event q) = rq_digestAuth q"
  "rq_authenticated (request_event q) = rq_authenticated q"
  by (simp_all only: request_event_def split: if_split) simp_all

lemma filled_fields [simp]:
  "rq_method (fillDialogHeaders msg q) = rq_method q" "rq_fromId (fillDialogHeaders msg q) = rq_fromId q"
  "rq_toId (fillDialogHeaders msg q) = rq_toId q" "rq_expires (fillDialogHeaders msg q) = rq_expires q"
  "rq_digestAuth (fillDialogHeaders msg q) = rq_digestAuth q" "rq_authenticated (fillDialogHeaders msg q) = rq_authenticated q"
  "rq_event (fillDialogHeaders msg q) = rq_event q" "rq_statusCode (fillDialogHeaders msg q) = rq_statusCode q"
  "rq_callId (fillDialogHeaders msg q) = (case pm_callId msg of None \<Rightarrow> rq_callId q | Some c \<Rightarrow> c)"
  "rq_cseq (fillDialogHeaders msg q) = (case pm_cseq msg of None \<Rightarrow> rq_cseq q | Some (n, _) \<Rightarrow> dec_int n)"
  "rq_contact (fillDialogHeaders msg q) = headerValue (pm_contact msg)"
  "rq_fromTag (fillDialogHeaders msg q) = dialogTag (pm_from msg)" "rq_toTag (fillDialogHeaders msg q) = dialogTag (pm_to msg)"
  by (cases "pm_callId msg"; cases "pm_cseq msg"; simp add: fillDialogHeaders_def split: prod.split)+

lemma digest_filled_fields [simp]:
  "fillDigestAuth msg q = q\<lparr>rq_digestAuth := (case pm_authorization msg of None \<Rightarrow> rq_digestAuth q | Some d \<Rightarrow> d),
     rq_authenticated := (case pm_authorization msg of None \<Rightarrow> rq_authenticated q | Some d \<Rightarrow> df_response d \<noteq> [])\<rparr>"
  "fillDigestChallenge msg q = q\<lparr>rq_digestAuth := (case pm_challenge msg of None \<Rightarrow> rq_digestAuth q
     | Some d \<Rightarrow> (rq_digestAuth q)\<lparr>df_realm := df_realm d, df_nonce := df_nonce d, df_opaque := df_opaque d,
         df_algorithm := df_algorithm d, df_qop := df_qop d\<rparr>)\<rparr>"
  by (simp_all add: fillDigestAuth_def fillDigestChallenge_def split: option.split)

lemma new_request_fields [simp]:
  "rq_callId new_sip_request = []" "rq_cseq new_sip_request = []" "rq_expires new_sip_request = 0"
  "rq_digestAuth new_sip_request = new_digest_fields" "rq_authenticated new_sip_request = False" "rq_event new_sip_request = []"
  by (simp_all add: new_sip_request_def)

definition unclassified :: "pj_msg \<Rightarrow> sip_request" where
  "unclassified msg =
    (let q = fillDigestAuth msg (fillDialogHeaders msg (new_sip_request\<lparr>rq_method := pm_method msg,
           rq_fromId := parseHeaderId (pm_from msg), rq_toId := parseHeaderId (pm_to msg)\<rparr>))
     in (case pm_expires msg of None \<Rightarrow> q | Some n \<Rightarrow> q\<lparr>rq_expires := n\<rparr>)\<lparr>rq_body := body_text msg\<rparr>)"

lemma toRequestContext_event: "toRequestContext msg = request_event (unclassified msg)"
  by (simp add: toRequestContext_def unclassified_def Let_def)

lemma request_context_fields:
  "rq_method (toRequestContext msg) = pm_method msg" "rq_fromId (toRequestContext msg) = parseHeaderId (pm_from msg)"
  "rq_toId (toRequestContext msg) = parseHeaderId (pm_to msg)" "rq_body (toRequestContext msg) = body_text msg"
  "rq_callId (toRequestContext msg) = (case pm_callId msg of None \<Rightarrow> [] | Some c \<Rightarrow> c)"
  "rq_cseq (toRequestContext msg) = (case pm_cseq msg of None \<Rightarrow> [] | Some (n, _) \<Rightarrow> dec_int n)"
  "rq_contact (toRequestContext msg) = headerValue (pm_contact msg)"
  "rq_fromTag (toRequestContext msg) = dialogTag (pm_from msg)" "rq_toTag (toRequestContext msg) = dialogTag (pm_to msg)"
  "rq_expires (toRequestContext msg) = (case pm_expires msg of None \<Rightarrow> 0 | Some n \<Rightarrow> n)"
  "rq_digestAuth (toRequestContext msg) = (case pm_authorization msg of None \<Rightarrow> new_digest_fields | Some d \<Rightarrow> d)"
  "rq_authenticated (toRequestContext msg) = (case pm_authorization msg of None \<Rightarrow> False | Some d \<Rightarrow> df_response d \<noteq> [])"
  unfolding toRequestContext_event
  by (cases "pm_expires msg"; simp add: unclassified_def Let_def cong: option.case_cong)+

lemma request_context_event:
  "rq_event (toRequestContext msg) = (if pm_method msg \<in> {''REGISTER'', ''INVITE'', ''ACK'', ''BYE''} then ''request''
     else if pm_method msg = ''MESSAGE'' then (case parseManscdpMessage (body_text msg) of None \<Rightarrow> [] | Some mx \<Rightarrow> mx_event mx)
     else [])"
  "pm_method msg = ''MESSAGE'' \<Longrightarrow> parseManscdpMessage (body_text msg) = Some mx \<Longrightarrow> rq_manscdp (toRequestContext msg) = mx"
proof -
  have u: "rq_method (unclassified msg) = pm_method msg" "rq_body (unclassified msg) = body_text msg"
    "rq_event (unclassified msg) = []"
    by (cases "pm_expires msg"; simp add: unclassified_def Let_def)+
  have e: "rq_event (manscdp_event (unclassified msg)) =
      (case parseManscdpMessage (body_text msg) of None \<Rightarrow> [] | Some mx \<Rightarrow> mx_event mx)"
    by (simp add: manscdp_event_def u split: option.split)
  show "rq_event (toRequestContext msg) = (if pm_method msg \<in> {''REGISTER'', ''INVITE'', ''ACK'', ''BYE''} then ''request''
     else if pm_method msg = ''MESSAGE'' then (case parseManscdpMessage (body_text msg) of None \<Rightarrow> [] | Some mx \<Rightarrow> mx_event mx)
     else [])"
    unfolding toRequestContext_event request_event_def u by (simp add: e u)
  assume "pm_method msg = ''MESSAGE''" "parseManscdpMessage (body_text msg) = Some mx"
  then show "rq_manscdp (toRequestContext msg) = mx"
    unfolding toRequestContext_event request_event_def u by (simp add: manscdp_event_def u)
qed

lemma response_context_fields:
  "rq_method (toResponseContext msg) = cseqMethod msg" "rq_fromId (toResponseContext msg) = parseHeaderId (pm_from msg)"
  "rq_toId (toResponseContext msg) = parseHeaderId (pm_to msg)" "rq_body (toResponseContext msg) = body_text msg"
  "rq_statusCode (toResponseContext msg) = pm_status msg"
  "rq_callId (toResponseContext msg) = (case pm_callId msg of None \<Rightarrow> [] | Some c \<Rightarrow> c)"
  "rq_cseq (toResponseContext msg) = (case pm_cseq msg of None \<Rightarrow> [] | Some (n, _) \<Rightarrow> dec_int n)"
  "rq_fromTag (toResponseContext msg) = dialogTag (pm_from msg)"
  "rq_contact (toResponseContext msg) = headerValue (pm_contact msg)"
  "pm_challenge msg = Some d \<Longrightarrow> rq_digestAuth (toResponseContext msg) = new_digest_fields\<lparr>df_realm := df_realm d,
     df_nonce := df_nonce d, df_opaque := df_opaque d, df_algorithm := df_algorithm d, df_qop := df_qop d\<rparr>"
  "cseqMethod msg \<noteq> ''MESSAGE'' \<Longrightarrow> rq_event (toResponseContext msg) = ''response''"
  by (simp_all add: toResponseContext_def Let_def cong: option.case_cong)

lemma parseHeaderId_text: "map_option fst h = map_option fst h' \<Longrightarrow> parseHeaderId h = parseHeaderId h'"
  by (cases h; cases h') (auto simp: parseHeaderId_def)

lemma out_digest_clean: "digest_clean d \<Longrightarrow> out_digest d = d"
  by (simp add: digest_clean_def out_digest_def)

lemma unless_empty_keeps: "keeps_value (unless_empty s) (Some t) \<Longrightarrow> no_zero s \<Longrightarrow> s \<noteq> [] \<Longrightarrow> t = s"
  by (simp add: keeps_value_def unless_empty_def)

text \<open>An answer whose texts have no zero bytes; an answer to a MESSAGE has no body.\<close>

definition answer_clean :: "sip_message \<Rightarrow> bool" where
  "answer_clean p \<longleftrightarrow> list_all no_zero [sm_body p, sm_authRealm p, sm_authNonce p, sm_authOpaque p, sm_authAlgorithm p] \<and>
     (sm_method p = ''MESSAGE'' \<longrightarrow> sm_body p = [])"

lemma request_read:
  assumes "build_request m = Some out" "message_clean m" "request_arrives out msg"
  shows "reads_request m (toRequestContext msg)"
proof -
  note m = assms(2) [unfolded message_clean_def list.pred_inject]
  note r = assms(3) [unfolded request_arrives_def]
  have o: "out = request_to (sipUriFromContact (sm_contact m)) m"
    using assms(1) by (simp add: build_request_def Let_def split: if_splits)
  have out: "or_method out = sm_method m" "or_from out = sipUri (sm_fromId m) (sm_localIp m) (sm_localPort m)"
    "or_to out = sipUri (sm_toId m) (sm_remoteIp m) (sm_remotePort m)" "or_callId out = unless_empty (sm_callId m)"
    "or_fromTag out = unless_empty (sm_fromTag m)" "or_toTag out = unless_empty (sm_toTag m)"
    "or_cseq out = (if sm_cseq m = [] then None else Some (atoi (sm_cseq m)))"
    "or_expires out = (if sm_method m = ''REGISTER'' \<and> sm_expires m \<ge> 0 then Some (sm_expires m) else None)"
    "or_authorization out = (if df_response (sm_digestAuth m) = [] then None else Some (out_digest (sm_digestAuth m)))"
    using m by (simp_all add: o request_to_def Let_def)
  have bd: "map_option (\<lambda>(_, _, b). b) (or_body out) = (if sm_body m = [] then None else Some (sm_body m))"
    using m by (simp add: o request_to_def Let_def split: prod.split)
  have id: "parseHeaderId (pm_from msg) = sm_fromId m" "parseHeaderId (pm_to msg) = sm_toId m"
    using m r unfolding out by (blast intro: shown_id)+
  have body: "body_text msg = sm_body m" using r bd by (simp add: body_text_def)
  have cid: "sm_callId m \<noteq> [] \<longrightarrow> pm_callId msg = Some (sm_callId m)"
    using m r unfolding out by (simp add: keeps_value_def unless_empty_def)
  have cseq: "sm_cseq m \<noteq> [] \<longrightarrow> (\<exists>n x. pm_cseq msg = Some (n, x) \<and> dec_int n = sm_cseq m)"
  proof
    assume "sm_cseq m \<noteq> []"
    then obtain n where "atoi (sm_cseq m) = n" "dec_int n = sm_cseq m" using m atoi_dec_int by auto
    moreover have "map_option fst (pm_cseq msg) = Some (atoi (sm_cseq m))"
      using r \<open>sm_cseq m \<noteq> []\<close> unfolding out by (simp add: keeps_value_def)
    ultimately show "\<exists>n x. pm_cseq msg = Some (n, x) \<and> dec_int n = sm_cseq m" by auto
  qed
  have tags: "sm_fromTag m \<noteq> [] \<longrightarrow> dialogTag (pm_from msg) = sm_fromTag m" "sm_toTag m \<noteq> [] \<longrightarrow> dialogTag (pm_to msg) = sm_toTag m"
    using m r unfolding out by (auto dest: unless_empty_keeps)
  have dig: "pm_authorization msg = (if df_response (sm_digestAuth m) = [] then None else Some (sm_digestAuth m))"
    using m r out_digest_clean unfolding out by auto
  have meth: "pm_method msg = sm_method m" and ex: "pm_expires msg = or_expires out" using r out(1) by simp_all
  have ev: "sm_method m \<in> {''REGISTER'', ''INVITE'', ''ACK'', ''BYE''} \<longrightarrow> rq_event (toRequestContext msg) = ''request''"
    using request_context_event(1) [of msg] unfolding meth by simp
  have mx: "sm_method m = ''MESSAGE'' \<longrightarrow> (case parseManscdpMessage (sm_body m) of
      None \<Rightarrow> rq_event (toRequestContext msg) = []
    | Some mx \<Rightarrow> rq_manscdp (toRequestContext msg) = mx \<and> rq_event (toRequestContext msg) = mx_event mx)"
    using request_context_event [of msg] unfolding meth body by (cases "parseManscdpMessage (sm_body m)") simp_all
  have call: "sm_callId m \<noteq> [] \<longrightarrow> rq_callId (toRequestContext msg) = sm_callId m"
    "sm_cseq m \<noteq> [] \<longrightarrow> rq_cseq (toRequestContext msg) = sm_cseq m"
    using cid cseq by (auto simp: request_context_fields)
  show ?thesis
    unfolding reads_request_def by (intro conjI ev mx call) (simp_all add: request_context_fields id body meth tags dig ex out(8))
qed

lemma answer_read:
  assumes "answer_clean p" "response_arrives req (build_response p) msg" "pm_cseq req \<noteq> None"
    "pm_method req = sm_method p \<or> sm_body p = []"
  shows "reads_answer (toRequestContext req) p (toResponseContext msg)"
proof -
  note r = assms(2) [unfolded response_arrives_def]
  note c = assms(1) [unfolded answer_clean_def list.pred_inject]
  have body: "body_text msg = sm_body p"
    using r c by (auto simp: body_text_def build_response_def split: prod.splits if_splits)
  have meth: "cseqMethod msg = pm_method req" using r assms(3) by (auto simp: cseqMethod_def)
  have ev: "rq_event (toResponseContext msg) = ''response''"
  proof (cases "cseqMethod msg = ''MESSAGE''")
    case True
    then have "body_text msg = []" using c assms(4) meth body by auto
    then have "parseManscdpMessage (body_text msg) = None" by (simp add: parseManscdpMessage_def)
    then show ?thesis using True by (simp add: toResponseContext_def manscdp_event_def Let_def)
  qed (rule response_context_fields(11))
  have dig: "no_algorithm (rq_digestAuth (toResponseContext msg)) = new_digest_fields\<lparr>df_realm := sm_authRealm p,
        df_nonce := sm_authNonce p, df_opaque := sm_authOpaque p\<rparr>" if "sm_authRealm p \<noteq> []"
  proof -
    have "map_option no_algorithm (pm_challenge msg) = map_option no_algorithm (os_challenge (build_response p))"
      using r by blast
    also have "\<dots> = Some (new_digest_fields\<lparr>df_realm := sm_authRealm p, df_nonce := sm_authNonce p, df_opaque := sm_authOpaque p\<rparr>)"
      using c that by (simp add: build_response_def no_algorithm_def new_digest_fields_def)
    finally obtain d where d: "pm_challenge msg = Some d" "no_algorithm d = new_digest_fields\<lparr>df_realm := sm_authRealm p,
        df_nonce := sm_authNonce p, df_opaque := sm_authOpaque p\<rparr>"
      by blast
    have "df_realm d = sm_authRealm p" "df_nonce d = sm_authNonce p" "df_opaque d = sm_authOpaque p" "df_qop d = []"
      using d(2) by (cases d; simp add: no_algorithm_def new_digest_fields_def)+
    then show ?thesis
      using response_context_fields(10) [OF d(1)] by (simp add: no_algorithm_def new_digest_fields_def)
  qed
  show ?thesis
    unfolding reads_answer_def response_context_fields request_context_fields body
    using r assms(3) meth ev dig parseHeaderId_text [of "pm_to msg" "pm_to req"]
    by (auto simp: build_response_def split: option.split)
qed

text \<open>C8: what one node sends another reads: method, ids, Call-ID, sequence number, tags, digest, body and event of
  a request arrive as they were sent; the other side answers it, and the answer the first node reads belongs to
  the same dialog and carries the status, the body and the challenge (its algorithm apart) that the handler gave,
  or 200 or 403 when it gave none.\<close>

theorem exchange_is_read:
  assumes "pj_send calls m a = (True, Some out, a')" and "message_clean m" and "request_arrives out msg" and "pm_cseq msg \<noteq> None"
    and "handler (toRequestContext msg) (r, b\<lparr>pa_pendingResponse := None\<rparr>) = (handled, r', b')"
    and "p = (case pa_pendingResponse b' of Some p \<Rightarrow> p | None \<Rightarrow> default_response handled)"
    and "answer_clean p" and "pm_method msg = sm_method p \<or> sm_body p = []"
    and "handleRxRequest handler (Some msg) (r, b) = (handled, Some resp, r', b'')" and "response_arrives msg resp ans"
  shows "reads_request m (toRequestContext msg) \<and> reads_answer (toRequestContext msg) p (toResponseContext ans)"
proof -
  have out: "build_request m = Some out"
    using assms(1) by (auto simp: pj_send_def split: if_splits option.splits)
  have "pa_handler b"
    using assms(9) by (auto simp: handleRxRequest_def split: if_splits)
  then have "resp = build_response p"
    using assms(5,6,9) by (auto simp: handleRxRequest_def sendStatelessResponse_def split: if_splits option.splits)
  then show ?thesis
    using request_read [OF out assms(2,3)] answer_read [OF assms(7) _ assms(4,8)] assms(10) by blast
qed

section \<open>Two small adapters\<close>

definition sample_calls :: pj_calls where
  "sample_calls = \<lparr>pc_init = True, pc_utilInit = True, pc_endptCreate = True, pc_mediaCreate = True, pc_tsxInit = True,
     pc_uaInit = True, pc_createPool = True, pc_udpStart = \<lambda>_. True, pc_tcpStart = \<lambda>_. TcpStarted,
     pc_registerModule = True, pc_createRequest = \<lambda>_. True, pc_sendRequest = \<lambda>_. True\<rparr>"

definition sample_adapter :: pjsip_adapter where
  "sample_adapter = snd (the (pj_start sample_calls [\<lparr>le_name = ''node'', le_sipId = ''34'', le_ip = [], le_port = 5060\<rparr>]
     True new_pjsip_adapter))"

lemma sample_adapter_running: "pa_ok sample_adapter" "pa_running sample_adapter"
  by (simp_all add: sample_adapter_def sample_calls_def pj_start_def initPjlib_def initEndpoint_def startTransport_def
      new_pjsip_adapter_def pa_ok_def Let_def)

definition sample_wire_register :: sip_message where
  "sample_wire_register = new_sip_message\<lparr>sm_method := ''REGISTER'', sm_fromId := ''35'', sm_toId := ''34'', sm_localIp := ''b'',
     sm_localPort := 5060, sm_remoteIp := ''a'', sm_remotePort := 5060, sm_callId := ''c'', sm_cseq := dec_int 2,
     sm_expires := 60\<rparr>"

definition sample_wire_msg :: pj_msg where
  "sample_wire_msg = \<lparr>pm_request = True, pm_method = ''REGISTER'', pm_status = 0, pm_reason = [],
     pm_from = Some (''From: <'' @ sipUri ''35'' ''b'' 5060 @ ''>'', ''t''), pm_to = Some (''To: <'' @ sipUri ''34'' ''a'' 5060 @ ''>'', []),
     pm_contact = None, pm_callId = Some ''c'', pm_cseq = Some (2, ''REGISTER''), pm_authorization = None,
     pm_challenge = None, pm_expires = Some 60, pm_body = None\<rparr>"

definition sample_challenge :: sip_message where
  "sample_challenge = (makeAuthChallengeResponse (toRequestContext sample_wire_msg)
     (new_endpoint_config\<lparr>ep_realm := ''r''\<rparr>) ''n'' ''o'')"

definition sample_challenger :: "unit rx_handler" where
  "sample_challenger q world = (let (_, _, a) = pj_send sample_calls sample_challenge (snd world) in (True, (), a))"

theorem exchange_is_read_witness:
  "reads_request sample_wire_register (toRequestContext sample_wire_msg) \<and>
    reads_answer (toRequestContext sample_wire_msg) sample_challenge
      (toResponseContext (sample_wire_msg\<lparr>pm_request := False, pm_status := 401, pm_reason := ''Unauthorized'', pm_expires := None,
         pm_challenge := os_challenge (build_response sample_challenge)\<rparr>))"
proof (rule exchange_is_read)
  let ?out = "request_to [] sample_wire_register"
  show "pj_send sample_calls sample_wire_register sample_adapter = (True, Some ?out, snd (snd (pj_send sample_calls sample_wire_register sample_adapter)))"
    using sample_adapter_running
    by (simp add: pj_send_def pa_ok_def sample_calls_def sample_wire_register_def build_request_def sipUriFromContact_def
        find_from_def new_sip_message_def)
  show "message_clean sample_wire_register"
    by (simp add: message_clean_def sample_wire_register_def new_sip_message_def sip_id_def no_zero_def new_digest_fields_def
        INT_MIN_def INT_MAX_def exI [of _ 2])
  have shown: "shows_uri u (Some (''From: <'' @ u @ ''>'', tag))" "shows_uri u (Some (''To: <'' @ u @ ''>'', tag))" for u tag
    unfolding shows_uri_def by (intro exI [of _ "''From: <''"] exI [of _ "''To: <''"] exI [of _ "''>''"] exI [of _ tag]; simp)+
  have from_to: "or_from ?out = sipUri ''35'' ''b'' 5060" "or_to ?out = sipUri ''34'' ''a'' 5060"
    by (simp_all add: request_to_def sample_wire_register_def Let_def new_sip_message_def)
      (rule c_string_clean, rule sipUri_no_zero; simp add: sip_id_def no_zero_def)+
  show "request_arrives ?out sample_wire_msg"
    unfolding request_arrives_def from_to
    using shown by (auto simp: sample_wire_msg_def sample_wire_register_def request_to_def new_sip_message_def
        keeps_value_def unless_empty_def new_digest_fields_def atoi_dec_int INT_MIN_def INT_MAX_def Let_def)
  show "pm_cseq sample_wire_msg \<noteq> None" by (simp add: sample_wire_msg_def)
  let ?b = "sample_adapter\<lparr>pa_pendingResponse := None\<rparr>"
  let ?b' = "snd (snd (pj_send sample_calls sample_challenge ?b))"
  have run: "pa_running ?b" "pa_endpoint ?b" "pa_handler ?b" "sm_method sample_challenge \<noteq> []" "sm_response sample_challenge"
    "sm_statusCode sample_challenge = 401"
    using sample_adapter_running
    by (simp_all add: pa_ok_def sample_challenge_def makeAuthChallengeResponse_def makeResponse_def request_context_fields
        sample_wire_msg_def new_sip_message_def)
  then have b': "?b' = ?b\<lparr>pa_pendingResponse := Some sample_challenge, pa_sentMessageCount := pa_sentMessageCount ?b + 1\<rparr>"
    by (simp add: pj_send_def)
  show h: "sample_challenger (toRequestContext sample_wire_msg) ((), ?b) = (True, (), ?b')"
    by (simp add: sample_challenger_def split_beta)
  show "sample_challenge = (case pa_pendingResponse ?b' of Some p \<Rightarrow> p | None \<Rightarrow> default_response True)" by (simp add: b')
  show "answer_clean sample_challenge"
    by (simp add: answer_clean_def sample_challenge_def makeAuthChallengeResponse_def makeResponse_def new_sip_message_def no_zero_def)
  show "pm_method sample_wire_msg = sm_method sample_challenge \<or> sm_body sample_challenge = []"
    by (simp add: sample_challenge_def makeAuthChallengeResponse_def makeResponse_def new_sip_message_def)
  show "handleRxRequest sample_challenger (Some sample_wire_msg) ((), sample_adapter) =
      (True, Some (build_response sample_challenge), (), ?b'\<lparr>pa_pendingResponse := None\<rparr>)"
    using h run b' by (simp add: handleRxRequest_def sendStatelessResponse_def)
  show "response_arrives sample_wire_msg (build_response sample_challenge) (sample_wire_msg\<lparr>pm_request := False, pm_status := 401,
      pm_reason := ''Unauthorized'', pm_expires := None, pm_challenge := os_challenge (build_response sample_challenge)\<rparr>)"
    by (simp add: response_arrives_def build_response_def run(6)) (simp add: sample_wire_msg_def sample_challenge_def
        makeAuthChallengeResponse_def makeResponse_def new_sip_message_def keeps_value_def unless_empty_def)
qed

end
