(* ===== verification/SipAnswers.thy ===== *)
theory SipAnswers
  imports SipWire NodeInvariant
begin

text \<open>
  The node behind the adapter: a received request goes through \<open>dispatch\<close> to one capability, and the adapter
  answers it with the response the capability sent, or with one of its own. The handlers are shown to send at
  most one response each, so that the adapter never drops one (\<open>src/src/adapters/pjsip/PjsipStackAdapter.cpp\<close>,
  \<open>src/src/capabilities/GB28181Capabilities.cpp\<close>).
\<close>

section \<open>How many responses a handler sends\<close>

text \<open>From one state of the stack to another one response was sent at most, none if \<open>b\<close> does not hold, and each has a
  status.\<close>

definition adds :: "bool \<Rightarrow> 'h sip_stack \<Rightarrow> 'h sip_stack \<Rightarrow> bool" where
  "adds b s s' \<longleftrightarrow> (\<exists>ms. sent_messages s' = sent_messages s @ ms \<and> length (filter sm_response ms) \<le> (if b then 1 else 0) \<and>
     (\<forall>m \<in> set ms. sm_method m \<noteq> [] \<and> (sm_response m \<longrightarrow> 0 < sm_statusCode m)))"

lemma adds_refl [simp]: "adds b s s"
  by (simp add: adds_def)

lemma adds_mono: "adds False s t \<Longrightarrow> adds b s t"
  by (cases b) (auto simp: adds_def)

lemma adds_trans:
  assumes "adds a r s" "adds b s t" "\<not> (a \<and> b)" shows "adds (a \<or> b) r t"
proof -
  obtain ms ms' where "sent_messages s = sent_messages r @ ms" "sent_messages t = sent_messages s @ ms'"
    and n: "length (filter sm_response ms) \<le> (if a then 1 else 0)" "length (filter sm_response ms') \<le> (if b then 1 else 0)"
    and m: "\<forall>m \<in> set (ms @ ms'). sm_method m \<noteq> [] \<and> (sm_response m \<longrightarrow> 0 < sm_statusCode m)"
    using assms(1,2) unfolding adds_def set_append ball_Un by metis
  then have "sent_messages t = sent_messages r @ ms @ ms'" by simp
  moreover have "length (filter sm_response (ms @ ms')) \<le> (if a \<or> b then 1 else 0)"
    using n assms(3) by (cases a; cases b) auto
  ultimately show ?thesis unfolding adds_def using m by blast
qed

lemma adds_send:
  assumes "adds (b \<and> \<not> sm_response m) r s" "sm_response m \<longrightarrow> b \<and> 0 < sm_statusCode m"
  shows "adds b r (snd (st_send m s))"
proof -
  have "adds (sm_response m) s (snd (st_send m s))"
    using assms(2) by (simp add: adds_def st_send_def im_ops_def im_send_def)
  from adds_trans [OF assms(1) this] assms(2) show ?thesis by (cases b; cases "sm_response m") simp_all
qed

lemma adds_fold: "(\<And>x rt. adds False (rt_sip rt) (rt_sip (f x rt))) \<Longrightarrow> adds False (rt_sip rt) (rt_sip (fold f xs rt))"
proof (induction xs arbitrary: rt)
  case (Cons x xs)
  then show ?case using adds_trans [of False "rt_sip rt" "rt_sip (f x rt)" False] by simp
qed simp

lemma made_messages [simp]:
  "sm_response (makeResponse q c t)" "sm_statusCode (makeResponse q c t) = c"
  "\<not> sm_response (makeRequest p l m e)" "sm_response (makeAuthChallengeResponse q ep n opq)"
  "sm_statusCode (makeAuthChallengeResponse q ep n opq) = 401"
  by (simp_all add: makeResponse_def makeRequest_def makeAuthChallengeResponse_def new_sip_message_def)

lemma sip_of_effects [simp]:
  "rt_sip (snd (rt_send m rt)) = snd (st_send m (rt_sip rt))" "rt_sip (createSendSession c p st b rt) = rt_sip rt"
  "rt_sip (snd (nextSn rt)) = rt_sip rt" "rt_sip (snd (nextOutboundCallId pre i rt)) = rt_sip rt"
  "rt_sip (snd (makeRandomNonce seed rt)) = rt_sip rt" "rt_sip (cleanupExpiredChallenges now rt) = rt_sip rt"
  "rt_sip (snd (issueChallenge q e rt)) = rt_sip rt" "rt_sip (rt_closeMedia k rt) = rt_sip rt"
  "rt_sip (snd (makeRegisterDigest q p l rt)) = rt_sip rt"
  by (simp_all add: rt_send_def createSendSession_def nextSn_def nextOutboundCallId_def makeRandomNonce_def
      cleanupExpiredChallenges_def issueChallenge_def rt_closeMedia_def makeRegisterDigest_def Let_def split_beta)

lemma sip_of_verify [simp]: "rt_sip (snd (verifyChallenge q e rt)) = rt_sip rt"
  by (simp add: verifyChallenge_def Let_def split: option.split)

lemma adds_ack: "adds False (rt_sip rt) (rt_sip (snd (sendAckForInviteResponse c p t q rt)))"
  by (auto simp: sendAckForInviteResponse_def Let_def split_beta intro!: adds_send split: option.split)

lemma adds_register_auth: "adds False (rt_sip rt) (rt_sip (snd (sendRegisterWithDigest c p l q rt)))"
  by (auto simp: sendRegisterWithDigest_def Let_def split_beta intro!: adds_send)

lemma adds_accept: "adds True (rt_sip rt) (rt_sip (snd (accept_register q rt)))"
  by (auto simp: accept_register_def Let_def split_beta intro!: adds_send)

lemma adds_refuse: "adds True (rt_sip rt) (rt_sip (snd (refuse a b q rt)))"
  by (auto simp: refuse_def intro!: adds_send)

text \<open>One lemma for each handler; a response path adds one, the others none.\<close>

lemma adds_client_handlers:
  "adds False (rt_sip rt) (rt_sip (snd (CatalogClient_handle q rt)))"
  "adds False (rt_sip rt) (rt_sip (snd (RecordQueryClient_handle q rt)))"
  "adds False (rt_sip rt) (rt_sip (snd (Lifecycle_handle cap q rt)))"
  by (simp_all add: CatalogClient_handle_def RecordQueryClient_handle_def Lifecycle_handle_def Let_def)

lemma adds_RegisterClient: "adds False (rt_sip rt) (rt_sip (snd (RegisterClient_handle q rt)))"
proof -
  have "adds False (rt_sip rt) (rt_sip (snd (sendRegisterWithDigest c p l q (rt_createSession s rt))))" for c p l s
    using adds_register_auth [of "rt_createSession s rt" c p l q] by simp
  then show ?thesis by (auto simp: RegisterClient_handle_def Let_def split_beta split: option.split)
qed

lemma adds_InviteClient: "adds False (rt_sip rt) (rt_sip (snd (InviteClient_handle q rt)))"
proof -
  have a: "adds False (rt_sip rt) (rt_sip (snd (sendAckForInviteResponse c p t q r)))" if "rt_sip r = rt_sip rt" for c p t r
    using adds_ack [of r c p t q] that by simp
  show ?thesis by (auto simp: InviteClient_handle_def Let_def split_beta intro!: a split: option.split)
qed

lemma adds_RegisterServer: "adds True (rt_sip rt) (rt_sip (snd (RegisterServer_handle q rt)))"
proof -
  have a: "adds True (rt_sip rt) (rt_sip (snd (accept_register q r)))" "adds True (rt_sip rt) (rt_sip (snd (refuse x y q r)))"
    if "rt_sip r = rt_sip rt" for r x y
    using adds_accept [of r q] adds_refuse [of r x y q] that by simp_all
  show ?thesis by (auto simp: RegisterServer_handle_def Let_def split_beta intro!: a adds_send split: option.split)
qed

lemma adds_KeepaliveServer: "adds True (rt_sip rt) (rt_sip (snd (KeepaliveServer_handle q rt)))"
  by (auto simp: KeepaliveServer_handle_def Let_def split_beta intro!: adds_send)

lemma adds_bad_query: "adds True (rt_sip rt) (rt_sip (snd (bad_query cap q rt)))"
  by (auto simp: bad_query_def intro!: adds_send)

lemma adds_respond_catalog: fixes rt :: "('a, 's) runtime" shows "adds False (rt_sip rt) (rt_sip (respond_catalog env sn p l rt))"
proof -
  have s: "adds False (rt_sip r) (rt_sip (send_catalog_body p l b r))" for b and r :: "('a, 's) runtime"
    by (auto simp: send_catalog_body_def Let_def split_beta intro!: adds_send)
  have "adds False (rt_sip rt) (rt_sip (fold (send_catalog_body p l) bs r))" if "rt_sip r = rt_sip rt"
    for bs and r :: "('a, 's) runtime"
    using adds_fold [of "send_catalog_body p l" r bs] s that by simp
  then show ?thesis by (simp add: respond_catalog_def Let_def split_beta)
qed

lemma adds_CatalogServer: "adds True (rt_sip rt) (rt_sip (snd (CatalogServer_handle env q rt)))"
proof -
  have a: "adds True (rt_sip rt) (rt_sip (respond_catalog env sn p l r))" if "adds True (rt_sip rt) (rt_sip r)" for sn p l r
    using adds_trans [OF that adds_respond_catalog] by simp
  show ?thesis
    by (auto simp: CatalogServer_handle_def Let_def split_beta intro!: a adds_send adds_bad_query split: option.split)
qed

lemma adds_RecordQueryServer: "adds True (rt_sip rt) (rt_sip (snd (RecordQueryServer_handle q rt)))"
  by (auto simp: RecordQueryServer_handle_def Let_def split_beta intro!: adds_send adds_bad_query split: option.split)

lemma adds_InviteServer:
  "adds (rq_method q \<noteq> ''ACK'') (rt_sip rt) (rt_sip (snd (InviteServer_handle env q rt)))"
proof -
  have "adds False (rt_sip rt) (rt_sip (snd (InviteServer_ack env q rt)))"
    by (auto simp: InviteServer_ack_def Let_def split_beta split: option.split sum.split)
  moreover have "adds True (rt_sip rt) (rt_sip (snd (InviteServer_bye q rt)))"
    by (auto simp: InviteServer_bye_def Let_def split_beta intro!: adds_send)
  moreover have "adds True (rt_sip rt) (rt_sip (snd (InviteServer_invite q rt)))"
    by (auto simp: InviteServer_invite_def answer_invite_def Let_def split_beta intro!: adds_send split: option.split)
  ultimately show ?thesis by (simp add: InviteServer_handle_def)
qed

text \<open>A handler that sends at most one response is a request handler the adapter can serve.\<close>

locale answering_handler = request_handler +
  assumes answers: "adds True (rt_sip rt) (rt_sip (snd (handle q rt)))"
begin

text \<open>The responses it sends, none or one.\<close>

lemma one_answer: "\<exists>ms. sent_messages (rt_sip (snd (handle q rt))) = sent_messages (rt_sip rt) @ ms \<and>
    (filter sm_response ms = [] \<or> (\<exists>p. filter sm_response ms = [p] \<and> sm_method p \<noteq> [] \<and> 0 < sm_statusCode p))"
proof -
  obtain ms where ms: "sent_messages (rt_sip (snd (handle q rt))) = sent_messages (rt_sip rt) @ ms"
    "length (filter sm_response ms) \<le> 1" "\<forall>m \<in> set ms. sm_method m \<noteq> [] \<and> (sm_response m \<longrightarrow> 0 < sm_statusCode m)"
    using answers [of rt q] by (auto simp: adds_def)
  consider "filter sm_response ms = []" | p where "filter sm_response ms = [p]"
    using ms(2) by (cases "filter sm_response ms") auto
  then have "filter sm_response ms = [] \<or> (\<exists>p. filter sm_response ms = [p] \<and> sm_method p \<noteq> [] \<and> 0 < sm_statusCode p)"
  proof cases
    case (2 p)
    then have "p \<in> set ms" "sm_response p" by (auto simp: filter_eq_Cons_iff)
    then show ?thesis using 2 ms(3) by blast
  qed simp
  then show ?thesis using ms(1) by blast
qed

end

lemma cap_answers: "adds True (rt_sip rt) (rt_sip (snd (cap_handle env cap q rt)))"
proof (cases cap)
  case InviteServerCapability
  then show ?thesis using adds_InviteServer [of q rt env] adds_mono by (cases "rq_method q = ''ACK''") auto
qed (simp_all add: adds_RegisterServer adds_KeepaliveServer adds_CatalogServer adds_RecordQueryServer
    adds_client_handlers [THEN adds_mono] adds_RegisterClient [THEN adds_mono] adds_InviteClient [THEN adds_mono])

interpretation ah: answering_handler "cap_handle env cap" for env cap
  by unfold_locales (rule cap_answers)

section \<open>A request is answered once\<close>

text \<open>The node as the handler of the adapter: what it sent goes through \<open>send\<close>, in order.\<close>

definition adapter_sends :: "pj_calls \<Rightarrow> sip_message list \<Rightarrow> pjsip_adapter \<Rightarrow> pjsip_adapter" where
  "adapter_sends calls ms a = fold (\<lambda>m a. snd (snd (pj_send calls m a))) ms a"

definition node_rx :: "'a node_env \<Rightarrow> pj_calls \<Rightarrow> ('a, 's) node rx_handler" where
  "node_rx env calls request world =
    (let (node, a) = world;
         (handled, node') = dispatchSipRequest env request node;
         ms = drop (length (sent_messages (rt_sip (nd_rt node)))) (sent_messages (rt_sip (nd_rt node')))
     in (handled, node', adapter_sends calls ms a))"

lemma adapter_sends_pending:
  assumes "pa_running a" "pa_endpoint a" "\<forall>m \<in> set ms. sm_method m \<noteq> []"
  shows "pa_pendingResponse (adapter_sends calls ms a) =
      (if filter sm_response ms = [] then pa_pendingResponse a else Some (List.last (filter sm_response ms))) \<and>
    pa_endpoint (adapter_sends calls ms a)"
  using assms
proof (induction ms arbitrary: a)
  case (Cons m ms)
  obtain b out a1 where s: "pj_send calls m a = (b, out, a1)" by (cases "pj_send calls m a") auto
  have a1: "pa_running a1" "pa_endpoint a1" using pj_send_ok [OF s] Cons.prems by simp_all
  have p: "pa_pendingResponse a1 = (if sm_response m then Some m else pa_pendingResponse a)"
    using s Cons.prems by (auto simp: pj_send_def split: if_splits option.splits)
  show ?case using Cons.IH [OF a1] Cons.prems(3) s p by (auto simp: adapter_sends_def)
qed (simp add: adapter_sends_def)

lemma dispatch_adds:
  "adds True (rt_sip (nd_rt node)) (rt_sip (nd_rt (snd (dispatchSipRequest env q node))))"
  using ah.answers [of "nd_rt node" env _ q]
  by (auto simp: dispatchSipRequest_def st_dispatch_def split_beta split: option.split)

text \<open>The routes of the standard capabilities, in the order they register them.\<close>

definition standard_routes :: "capability sip_route list" where
  "standard_routes = concat (map (\<lambda>c. map (route_of c) (cap_routes c)) createStandardCapabilities)"

lemma standard_ack: "find_route q standard_routes = Some cap \<Longrightarrow> rq_method q = ''ACK'' \<Longrightarrow> cap = InviteServerCapability"
  by (auto simp: standard_routes_def createStandardCapabilities_def route_of_def split: if_splits)

lemma ack_adds:
  assumes "st_routes (rt_sip (nd_rt node)) = standard_routes" "rq_method q = ''ACK''"
  shows "adds False (rt_sip (nd_rt node)) (rt_sip (nd_rt (snd (dispatchSipRequest env q node))))"
proof (cases "find_route q standard_routes")
  case (Some cap)
  then have "cap = InviteServerCapability" using standard_ack assms(2) by blast
  then show ?thesis
    using Some assms adds_InviteServer [of q "nd_rt node" env]
    by (simp add: dispatchSipRequest_def st_dispatch_def split_beta)
qed (use assms in \<open>simp add: dispatchSipRequest_def st_dispatch_def split_beta\<close>)

text \<open>The messages of one request, and what the callback does with them.\<close>

lemma dispatch_messages:
  assumes "st_routes (rt_sip (nd_rt node)) = standard_routes" "dispatchSipRequest env q node = (h, node')"
  shows "\<exists>ms. sent_messages (rt_sip (nd_rt node')) = sent_messages (rt_sip (nd_rt node)) @ ms \<and>
    (\<forall>m \<in> set ms. sm_method m \<noteq> []) \<and>
    (filter sm_response ms = [] \<or> (\<exists>p. filter sm_response ms = [p] \<and> 0 < sm_statusCode p \<and> rq_method q \<noteq> ''ACK''))"
proof -
  have "adds (rq_method q \<noteq> ''ACK'') (rt_sip (nd_rt node)) (rt_sip (nd_rt node'))"
    using ack_adds [OF assms(1), of q env] dispatch_adds [of node env q] assms(2) by (cases "rq_method q = ''ACK''") simp_all
  then obtain ms where ms: "sent_messages (rt_sip (nd_rt node')) = sent_messages (rt_sip (nd_rt node)) @ ms"
    "length (filter sm_response ms) \<le> (if rq_method q \<noteq> ''ACK'' then 1 else 0)"
    "\<forall>m \<in> set ms. sm_method m \<noteq> [] \<and> (sm_response m \<longrightarrow> 0 < sm_statusCode m)"
    by (auto simp: adds_def)
  have "filter sm_response ms = [] \<or> (\<exists>p. filter sm_response ms = [p] \<and> 0 < sm_statusCode p \<and> rq_method q \<noteq> ''ACK'')"
  proof (cases "filter sm_response ms")
    case (Cons p ps)
    then have "p \<in> set ms" "sm_response p" by (auto simp: filter_eq_Cons_iff)
    then show ?thesis using Cons ms(2,3) by (auto split: if_splits)
  qed simp
  then show ?thesis using ms(1,3) by blast
qed

lemma handleRx_node:
  assumes "pa_ok b" "pa_running b" "pm_request msg" "dispatchSipRequest env (toRequestContext msg) node = (h, n)"
    "sent_messages (rt_sip (nd_rt n)) = sent_messages (rt_sip (nd_rt node)) @ ms" "\<forall>m \<in> set ms. sm_method m \<noteq> []"
    "filter sm_response ms = [] \<or> (\<exists>p. filter sm_response ms = [p] \<and> 0 < sm_statusCode p)"
    "handleRxRequest (node_rx env calls) (Some msg) (node, b) = (handled, out, node', b')"
  shows "handled = h \<and> node' = n \<and> pa_pendingResponse b' = None \<and>
    out = (case filter sm_response ms of p # _ \<Rightarrow> Some (build_response p)
      | [] \<Rightarrow> if pm_method msg = ''ACK'' then None else Some (build_response (default_response h)))"
proof -
  let ?b = "b\<lparr>pa_pendingResponse := None\<rparr>" and ?a = "adapter_sends calls ms (b\<lparr>pa_pendingResponse := None\<rparr>)"
  have b: "pa_handler b" "pa_endpoint ?b" "pa_running ?b" using assms(1,2) by (simp_all add: pa_ok_def)
  have a: "pa_pendingResponse ?a = (if filter sm_response ms = [] then None else Some (List.last (filter sm_response ms)))"
    "pa_endpoint ?a"
    using adapter_sends_pending [OF b(3,2) assms(6), of calls] by simp_all
  have "0 < sm_statusCode (default_response h)" by (simp add: default_response_def new_sip_message_def)
  then show ?thesis
    using assms(3-5,7,8) a b(1)
    by (auto simp: handleRxRequest_def node_rx_def rxDataMethod_def sendStatelessResponse_def split: if_splits)
qed

text \<open>C5: a node that started with the standard capabilities answers every request it receives over the adapter
  exactly once: with the only response its capability sent, or with 200 or 403 when the capability sent none,
  and an ACK not at all. No response is left over for the next request.\<close>

theorem request_answered_once:
  assumes "st_routes (rt_sip (nd_rt node)) = standard_routes" and "pa_ok b" and "pa_running b" and "pm_request msg"
    and "handleRxRequest (node_rx env calls) (Some msg) (node, b) = (handled, out, node', b')"
  shows "\<exists>ms. sent_messages (rt_sip (nd_rt node')) = sent_messages (rt_sip (nd_rt node)) @ ms \<and>
    (if pm_method msg = ''ACK'' then filter sm_response ms = [] \<and> out = None
     else \<exists>p. out = Some (build_response p) \<and>
       (filter sm_response ms = [p] \<or> filter sm_response ms = [] \<and> p = default_response handled)) \<and>
    pa_pendingResponse b' = None"
proof -
  obtain h n where d: "dispatchSipRequest env (toRequestContext msg) node = (h, n)" by fastforce
  obtain ms where ms: "sent_messages (rt_sip (nd_rt n)) = sent_messages (rt_sip (nd_rt node)) @ ms"
    "\<forall>m \<in> set ms. sm_method m \<noteq> []"
    and f: "filter sm_response ms = [] \<or>
      (\<exists>p. filter sm_response ms = [p] \<and> 0 < sm_statusCode p \<and> pm_method msg \<noteq> ''ACK'')"
    using dispatch_messages [OF assms(1) d] by (auto simp: request_context_fields)
  then have "filter sm_response ms = [] \<or> (\<exists>p. filter sm_response ms = [p] \<and> 0 < sm_statusCode p)" by blast
  from handleRx_node [OF assms(2-4) d ms this assms(5)] show ?thesis
    using ms(1) f by (intro exI [of _ ms]) (auto split: if_splits)
qed

section \<open>A request to a small node\<close>

definition sample_bye_msg :: pj_msg where
  "sample_bye_msg = \<lparr>pm_request = True, pm_method = ''BYE'', pm_status = 0, pm_reason = [],
     pm_from = Some (''From: <sip:35@10.0.0.2>'', ''t''), pm_to = Some (''To: <sip:34@10.0.0.1>'', []), pm_contact = None,
     pm_callId = Some ''c'', pm_cseq = Some (2, ''BYE''), pm_authorization = None, pm_challenge = None,
     pm_expires = None, pm_body = None\<rparr>"

theorem request_answered_once_witness:
  "\<exists>node. gn_start sample_adapter_env sample_full_node = Some (True, node) \<and>
    (\<exists>p. fst (snd (handleRxRequest (node_rx sample_adapter_env sample_calls) (Some sample_bye_msg) (node, sample_adapter))) =
      Some (build_response p))"
proof -
  have ok: "node_ok sample_full_node" by (rule node_steps_ok [OF sample_full_node_reachable new_node_ok])
  obtain node where n: "gn_start sample_adapter_env sample_full_node = Some (True, node)"
    "st_routes (rt_sip (nd_rt node)) = standard_routes"
    using started_node_routes [OF ok sample_full_node_start(1) sample_config_start] sample_full_node_start(2)
    by (auto simp: standard_routes_def)
  obtain handled out node' b' where h: "handleRxRequest (node_rx sample_adapter_env sample_calls) (Some sample_bye_msg)
      (node, sample_adapter) = (handled, out, node', b')" by (metis prod_cases4)
  have "pm_request sample_bye_msg" "pm_method sample_bye_msg \<noteq> ''ACK''" by (simp_all add: sample_bye_msg_def)
  from request_answered_once [OF n(2) sample_adapter_running this(1) h] this(2) n(1) h show ?thesis by auto
qed

end
