(* ===== verification/TwoNodes.thy ===== *)
theory TwoNodes
  imports SipAnswers
begin

text \<open>
  Two nodes and a stream between them: the request of the operator at one node, the server of INVITE at the other, the
  answer at the first and the ACK at the second (\<open>src/src/core/GB28181Node.cpp\<close>,
  \<open>src/src/capabilities/GB28181Capabilities.cpp\<close>). What the transport does to a message are the predicates
  \<open>reads_request\<close> and \<open>reads_answer\<close> of \<open>SipWire\<close>.
\<close>

section \<open>The four steps\<close>

lemma pad10_text: "sdp_text (pad10 (dec n))"
proof -
  have d: "isdigit c" if "c \<in> set (pad10 (dec n))" for c
    using that dec_digits [of n] by (auto simp: pad10_def list_all_iff isdigit_def)
  have l: "List.last (pad10 (dec n)) \<in> set (pad10 (dec n))" by (rule last_in_set) (simp add: pad10_def)
  have n: "CHR 0x0A \<notin> set (pad10 (dec n))" using d [of "CHR 0x0A"] by (auto simp: isdigit_def)
  show ?thesis using digit_not_blank [OF d [OF l]] n by (simp add: sdp_text_def)
qed

text \<open>A request that succeeded: the session that waits for the answer, and the INVITE that went out last.\<close>

definition invite_message :: "endpoint_config \<Rightarrow> peer_info \<Rightarrow> string \<Rightarrow> media_session \<Rightarrow> sip_message" where
  "invite_message local peer deviceId s = (node_message ''INVITE'' ''request'' local deviceId peer)
     \<lparr>sm_callId := ms_callId s, sm_cseq := ms_inviteCseq s, sm_contentType := ''Application/SDP'',
      sm_body := buildInviteSdp (ep_sipId local) (ep_sipIp local) (ms_localRtpPort s) (ms_ssrc s)\<rparr>"

lemma send_invite_sent:
  assumes "send_invite env peer dev s rt = (Inr (), rt')" "findSession (ms_id s) (rt_media rt) = Some s" "online rt"
  shows "findSession (ms_id s) (rt_media rt') = Some s \<and> online rt' \<and> rt_config rt' = rt_config rt \<and> rt_peers rt' = rt_peers rt \<and>
    sent_messages (rt_sip rt') = sent_messages (rt_sip rt) @ [invite_message (nc_node (rt_config rt)) peer dev s]"
proof -
  obtain mm where st: "startRtpSessionAdapter (en_adapter env) (ms_id s) (en_newAdapter env) (rt_media rt) = (Inr (), mm)"
    using assms(1) by (auto simp: send_invite_def Let_def split: prod.splits sum.splits)
  let ?m = "invite_message (nc_node (rt_config rt)) peer dev s" and ?r = "rt\<lparr>rt_media := mm\<rparr>"
  have rt': "rt' = snd (rt_send ?m ?r)"
    using assms(1) st by (auto simp: send_invite_def Let_def invite_message_def split: prod.splits if_splits)
  have on: "online ?r" "sm_method ?m \<noteq> []" using assms(3) by (simp_all add: online_def invite_message_def node_message_def)
  have "mm_sessions mm = mm_sessions (rt_media rt)" using start_frame [OF st] by simp
  then show ?thesis using assms(2) rt_send_online [OF on] by (simp add: rt' findSession_def)
qed

lemma invite_requested:
  assumes "requestInvite env dev node = (Inr (), node')" "rt_ok (nd_rt node)" "online (nd_rt node)"
  shows "\<exists>peer s. invite_owner dev (nd_rt node) = Inr peer \<and> findSession (ms_id s) (rt_media (nd_rt node')) = Some s \<and>
    ms_id s = clientInviteSessionId (ms_callId s) \<and> ms_callId s \<noteq> [] \<and> ms_inviteCseq s = ''1'' \<and> ms_peerId s = pi_sipId peer \<and>
    ms_targetDeviceId s = dev \<and> ms_localIp s = ep_sipIp (nc_node (rt_config (nd_rt node))) \<and>
    0 < ms_localRtpPort s \<and> ms_localRtpPort s < INT_MAX \<and> ms_ssrc s = fst (nextInviteSsrc node) \<and> between_frames s \<and>
    online (nd_rt node') \<and> rt_ok (nd_rt node') \<and> rt_config (nd_rt node') = rt_config (nd_rt node) \<and>
    rt_peers (nd_rt node') = rt_peers (nd_rt node) \<and>
    sent_messages (rt_sip (nd_rt node')) =
      sent_messages (rt_sip (nd_rt node)) @ [invite_message (nc_node (rt_config (nd_rt node))) peer dev s]"
proof -
  let ?rt = "nd_rt node"
  have m: "manager_ok (rt_media ?rt)" "mm_ok (rt_media ?rt)" using assms(2) by (simp_all add: rt_ok_manager manager_ok_def)
  obtain peer where peer: "invite_owner dev ?rt = Inr peer"
    using assms(1) by (auto simp: requestInvite_def split: sum.splits)
  obtain p mm where al: "allocateRtpPort (rt_media ?rt) = (p, mm)" by fastforce
  have p: "0 < p" using assms(1) peer al by (auto simp: requestInvite_def Let_def split: if_splits)
  define node1 where "node1 = node\<lparr>nd_rt := ?rt\<lparr>rt_media := mm\<rparr>\<rparr>"
  obtain cid node2 where cid: "nextTransactionCallId ''invite'' (ep_sipId (nc_node (rt_config ?rt))) node1 = (cid, node2)" by fastforce
  obtain ssrc node3 where ssrc: "nextInviteSsrc node2 = (ssrc, node3)" by fastforce
  have n3: "nd_rt node3 = ?rt\<lparr>rt_media := mm\<rparr>" "cid \<noteq> []" "ssrc = fst (nextInviteSsrc node)"
    using cid ssrc by (auto simp: nextTransactionCallId_def nextInviteSsrc_def node1_def Let_def)
  define s where "s = invited_session peer dev (nc_node (rt_config ?rt)) p ssrc cid"
  have sf: "ms_localRtpPort s = p" "ms_id s = clientInviteSessionId cid" "ms_callId s = cid"
    by (simp_all add: s_def invited_session_def)
  obtain mm2 where cr: "createSession s mm = (True, mm2)"
    using createSession_fresh [OF m(1) al p sf(1)] sf(2) by (cases "createSession s mm") (auto simp: clientInviteSessionId_def)
  obtain rt' where si: "send_invite env peer dev s (?rt\<lparr>rt_media := mm2\<rparr>) = (Inr (), rt')" "node' = node3\<lparr>nd_rt := rt'\<rparr>"
    using assms(1) peer al p cid ssrc cr n3(1)
    by (auto simp: requestInvite_def Let_def node1_def [symmetric] s_def [symmetric] split: prod.splits)
  have f: "findSession (ms_id s) (rt_media (?rt\<lparr>rt_media := mm2\<rparr>)) = Some s" "online (?rt\<lparr>rt_media := mm2\<rparr>)"
    using created_sessions [OF cr] allocate_fresh(1) [OF m(1) al p] assms(3) by (simp_all add: findSession_def online_def)
  have pr: "p < INT_MAX"
    using allocate_ports_ok [OF mm_ok_ports [OF m(2)] al] mm_ok_ports [OF m(2)] p by (auto simp: ports_ok_def split: if_splits)
  have ok: "rt_ok (nd_rt node')"
    using keeps_requestInvite [of node env dev] assms(1,2) by (simp add: keeps_def)
  have fields: "ms_inviteCseq s = ''1''" "ms_peerId s = pi_sipId peer" "ms_targetDeviceId s = dev"
    "ms_localIp s = ep_sipIp (nc_node (rt_config ?rt))" "ms_ssrc s = ssrc"
    "between_frames s"
    by (simp_all add: s_def invited_session_def between_frames_def no_frame_def collecting_def new_media_session_def)
  show ?thesis
    using send_invite_sent [OF si(1) f] ok peer sf p pr n3(2,3) fields by (intro exI [of _ peer] exI [of _ s]) (simp add: si(2))
qed

text \<open>An INVITE with a readable offer at a node with a free port.\<close>

definition answer_message :: "sip_request \<Rightarrow> string \<Rightarrow> int \<Rightarrow> sdp_info \<Rightarrow> sip_message" where
  "answer_message q ip port sdp = (makeResponse q 200 ''OK'')
     \<lparr>sm_body := buildInviteResponseSdp (rq_toId q) ip port sdp, sm_contentType := ''Application/SDP''\<rparr>"

lemma invite_answered:
  assumes "rt_ok rt" "online rt" "mm_availablePortSet (rt_media rt) \<noteq> {}" "parseSdp (rq_body q) = Some sdp" "rq_method q = ''INVITE''"
  shows "\<exists>p ip rt'. InviteServer_handle env q rt = (True, rt') \<and> 0 < p \<and> p < INT_MAX \<and>
    ip = invite_localIp q sdp rt \<and> findSession (server_dialog q) (rt_media rt') = Some (requested_session q sdp ip p) \<and>
    mm_rtpSessionAdapters (rt_media rt') = mm_rtpSessionAdapters (rt_media rt) \<and> online rt' \<and> rt_ok rt' \<and>
    sent_messages (rt_sip rt') = sent_messages (rt_sip rt) @ [answer_message q ip p sdp]"
proof -
  have m: "manager_ok (rt_media rt)" "mm_ok (rt_media rt)" using assms(1) by (simp_all add: rt_ok_manager manager_ok_def)
  obtain p mm where al: "allocateRtpPort (rt_media rt) = (p, mm)" by fastforce
  note po = allocate_ports_ok [OF mm_ok_ports [OF m(2)] al]
  have p: "0 < p" "p < INT_MAX"
    using po mm_ok_ports [OF m(2)] assms(3) by (auto simp: ports_ok_def split: if_splits)
  define r where "r = rt_createSession (server_session q (server_dialog q) (requested_state p sdp)) (rt\<lparr>rt_media := mm\<rparr>)"
  define ip where "ip = invite_localIp q sdp r"
  have ip: "ip = invite_localIp q sdp rt" by (simp add: ip_def r_def invite_localIp_def cong: option.case_cong)
  have i: "ms_id (requested_session q sdp ip p) = server_dialog q" "ms_localIp (requested_session q sdp ip p) = ip"
    by (simp_all add: requested_session_def)
  obtain mm2 where cr: "createSession (requested_session q sdp ip p) mm = (True, mm2)"
    using createSession_fresh [OF m(1) al p(1), of "requested_session q sdp ip p"] i(1)
    by (cases "createSession (requested_session q sdp ip p) mm") (auto simp: requested_session_def)
  let ?rt' = "snd (rt_send (answer_message q ip p sdp) (r\<lparr>rt_media := mm2\<rparr>))"
  have rm: "rt_media r = mm" by (simp add: r_def)
  have h: "InviteServer_handle env q rt = (True, ?rt')"
    using al p(1) assms(4,5) cr rm
    by (simp add: InviteServer_handle_def InviteServer_invite_def answer_invite_def Let_def r_def [symmetric]
        ip_def [symmetric] answer_message_def i(2))
  have on: "online (r\<lparr>rt_media := mm2\<rparr>)" "sm_method (answer_message q ip p sdp) \<noteq> []"
    using assms(2,5) by (simp_all add: r_def online_def answer_message_def makeResponse_def)
  have s: "findSession (server_dialog q) mm2 = Some (requested_session q sdp ip p)"
    using created_sessions [OF cr] allocate_fresh(1) [OF m(1) al p(1)] i(1) by (simp add: findSession_def)
  have ad: "mm_rtpSessionAdapters mm2 = mm_rtpSessionAdapters (rt_media rt)"
    using created_adapters [OF cr] allocate_fresh(5) [OF m(1) al p(1)] by simp
  have ok: "rt_ok ?rt'" using keeps_InviteServer [of rt env q] assms(1) h by (simp add: keeps_def)
  show ?thesis
    using h p ip s ad ok rt_send_online [OF on] by (intro exI [of _ p] exI [of _ ip] exI [of _ ?rt']) (simp add: r_def)
qed

text \<open>The 200 at the node that asked, and the ACK at the other.\<close>

lemma ack_sent:
  assumes "online rt" "localEndpointForPeer (rt_config rt) \<noteq> None"
  shows "\<exists>ack rt'. sendAckForInviteResponse c p t q rt = (True, rt') \<and> rt_media rt' = rt_media rt \<and>
    sent_messages (rt_sip rt') = sent_messages (rt_sip rt) @ [ack] \<and> sm_method ack = ''ACK'' \<and>
    sm_callId ack = rq_callId q \<and> sm_cseq ack = rq_cseq q"
proof -
  obtain l where l: "localEndpointForPeer (rt_config rt) = Some l" using assms(2) by blast
  have "fst (rt_send m rt)" if "sm_method m \<noteq> []" for m
    using that assms(1) by (simp add: rt_send_def online_def st_send_def im_ops_def im_send_def)
  then have "fst (sendAckForInviteResponse c p t q rt)"
    by (simp add: sendAckForInviteResponse_def l Let_def split_beta makeRequest_def)
  then show ?thesis
    using ack_sent_fields [of c p t q rt] by (cases "sendAckForInviteResponse c p t q rt") auto
qed

lemma answer_confirms:
  assumes "rt_ok rt" "online rt" "localEndpointForPeer (rt_config rt) \<noteq> None" "rq_callId q \<noteq> []"
    "findSession (client_dialog q) (rt_media rt) = Some s" "rq_statusCode q = 200"
    "findBySipId (ms_peerId s) (rt_peers rt) = Some peer" "parseSdp (rq_body q) = Some sdp"
  shows "\<exists>ack rt'. InviteClient_handle q rt = (True, rt') \<and>
    findSession (client_dialog q) (rt_media rt') = Some (confirmed_session s sdp q) \<and>
    sent_messages (rt_sip rt') = sent_messages (rt_sip rt) @ [ack] \<and> sm_method ack = ''ACK'' \<and>
    sm_callId ack = rq_callId q \<and> sm_cseq ack = rq_cseq q"
proof -
  have m: "manager_ok (rt_media rt)" "map_of (mm_sessions (rt_media rt)) (client_dialog q) = Some s"
    using assms(1,5) by (simp_all add: rt_ok_manager findSession_def)
  obtain r where r: "rt_media r = rt_media rt" "rt_sip r = rt_sip rt" "rt_config r = rt_config rt" and
    H: "InviteClient_handle q rt =
      (let (ackSent, r) = sendAckForInviteResponse (cap_name InviteClientCapability) peer (ms_targetDeviceId s) q
             (r\<lparr>rt_media := confirm_in s sdp q (rt_media rt)\<rparr>)
       in if \<not> ackSent then (False, rt_closeMedia (client_dialog q) r) else (True, r))"
    using client_answer [OF assms(1,4,5)] assms(6-8) by (auto split: option.splits)
  let ?r = "r\<lparr>rt_media := confirm_in s sdp q (rt_media rt)\<rparr>"
  have "online ?r" "localEndpointForPeer (rt_config ?r) \<noteq> None" using assms(2,3) r by (simp_all add: online_def)
  from ack_sent [OF this, of "cap_name InviteClientCapability" peer "ms_targetDeviceId s" q]
  show ?thesis using H confirm_in_ok(3) [OF m] r by (auto simp: findSession_def)
qed

text \<open>Nothing is in the way of the RTP adapter of a session that sends to an address.\<close>

definition adapter_options :: "media_session \<Rightarrow> rtp_session_options" where
  "adapter_options s = new_rtp_session_options\<lparr>ro_sessionId := ms_id s, ro_localRtpPort := ms_localRtpPort s,
     ro_remoteIp := ms_remoteIp s, ro_remoteRtpPort := ms_remoteRtpPort s\<rparr>"

definition adapters_start :: "'b node_env \<Rightarrow> string \<Rightarrow> bool" where
  "adapters_start env ip \<longleftrightarrow> (\<forall>s. ms_id s \<noteq> [] \<and> 0 < ms_localRtpPort s \<and> ms_remoteIp s = ip \<longrightarrow>
     fst (ra_start (en_adapter env) (adapter_options s) (en_newAdapter env)) = Inr ())"

lemma adapter_starts:
  assumes "findSession (ms_id s) mm = Some s" "map_of (mm_rtpSessionAdapters mm) (ms_id s) = None" "ms_id s \<noteq> []"
    "0 < ms_localRtpPort s" "adapters_start env (ms_remoteIp s)"
  shows "startRtpSessionAdapter (en_adapter env) (ms_id s) (en_newAdapter env) mm = (Inr (), mm\<lparr>mm_rtpSessionAdapters :=
    om_set (ms_id s) (snd (ra_start (en_adapter env) (adapter_options s) (en_newAdapter env))) (mm_rtpSessionAdapters mm)\<rparr>)"
proof -
  have "fst (ra_start (en_adapter env) (adapter_options s) (en_newAdapter env)) = Inr ()"
    using assms(3-5) by (simp add: adapters_start_def)
  then obtain ad where "ra_start (en_adapter env) (adapter_options s) (en_newAdapter env) = (Inr (), ad)"
    by (cases "ra_start (en_adapter env) (adapter_options s) (en_newAdapter env)") auto
  then show ?thesis
    using assms(1,2) by (simp add: startRtpSessionAdapter_def findSession_def adapter_options_def Let_def)
qed

lemma ack_confirms:
  assumes "findSession (server_dialog q) (rt_media rt) = Some s" "ms_id s = server_dialog q" "0 < ms_localRtpPort s" "rt_ok rt"
    "rq_method q = ''ACK''" "ms_inviteCseq s = rq_cseq q"
    "map_of (mm_rtpSessionAdapters (rt_media rt)) (server_dialog q) = None" "adapters_start env (ms_remoteIp s)"
  shows "\<exists>rt'. InviteServer_handle env q rt = (True, rt') \<and>
    findSession (server_dialog q) (rt_media rt') = Some (s\<lparr>ms_state := ''stream-confirmed''\<rparr>) \<and>
    map_of (mm_rtpSessionAdapters (rt_media rt')) (server_dialog q) =
      Some (snd (ra_start (en_adapter env) (adapter_options s) (en_newAdapter env)))"
proof -
  let ?k = "server_dialog q" and ?m = "rt_media rt"
  have ok: "mm_ok ?m" using assms(4) by (simp add: rt_ok_manager manager_ok_def)
  have f: "findSession (ms_id s) ?m = Some s" "map_of (mm_rtpSessionAdapters ?m) (ms_id s) = None" "ms_id s \<noteq> []"
    using assms(1,2,7) server_dialog_nonempty [of q] by simp_all
  define mm where "mm = ?m\<lparr>mm_rtpSessionAdapters := om_set ?k (snd (ra_start (en_adapter env) (adapter_options s) (en_newAdapter env)))
    (mm_rtpSessionAdapters ?m)\<rparr>"
  have st: "startRtpSessionAdapter (en_adapter env) ?k (en_newAdapter env) ?m = (Inr (), mm)"
    using adapter_starts [OF f assms(3,8)] by (simp add: mm_def assms(2))
  have run: "\<not> rtpSessionAdapterRunning (en_adapter env) ?k ?m" using assms(7) by (simp add: rtpSessionAdapterRunning_def)
  let ?mm2 = "mm\<lparr>mm_sessions := om_set ?k (s\<lparr>ms_state := ''stream-confirmed''\<rparr>) (mm_sessions mm)\<rparr>"
  have up: "updateSessionState ?k ''stream-confirmed'' mm = (True, ?mm2)"
    using assms(1) by (simp add: updateSessionState_def findSession_def mm_def)
  have "findSession ?k ?mm2 = Some (s\<lparr>ms_state := ''stream-confirmed''\<rparr>)"
    using mm_ok_om(1) [OF ok] by (simp add: findSession_def mm_def)
  moreover have "map_of (mm_rtpSessionAdapters ?mm2) ?k =
      Some (snd (ra_start (en_adapter env) (adapter_options s) (en_newAdapter env)))"
    using mm_ok_om(2) [OF ok] by (simp add: mm_def)
  ultimately show ?thesis
    using assms(1,5,6) st run up by (simp add: InviteServer_handle_def InviteServer_ack_def Let_def)
qed

section \<open>The stream between the nodes\<close>

text \<open>The two sides agree: confirmed, with each other's address and the same SSRC and Call-ID.\<close>

definition crossed :: "media_session \<Rightarrow> media_session \<Rightarrow> bool" where
  "crossed sA sB \<longleftrightarrow> ms_state sA = ''stream-confirmed'' \<and> ms_state sB = ''stream-confirmed'' \<and>
     ms_remoteRtpPort sA = ms_localRtpPort sB \<and> ms_remoteRtpPort sB = ms_localRtpPort sA \<and>
     ms_remoteIp sA = ms_localIp sB \<and> ms_remoteIp sB = ms_localIp sA \<and> ms_ssrc sA = ms_ssrc sB \<and>
     ms_callId sA = ms_callId sB \<and> ms_transport sA = ms_transport sB"

text \<open>What the operator's node needs of its configuration, and the other node of its own.\<close>

definition asking_ok :: "node_config \<Rightarrow> bool" where
  "asking_ok config \<longleftrightarrow> sdp_token (ep_sipId (nc_node config)) \<and> sdp_token (ep_sipIp (nc_node config)) \<and>
     localEndpointForPeer config \<noteq> None"

definition answering_ok :: "node_config \<Rightarrow> bool" where
  "answering_ok config \<longleftrightarrow> list_all (\<lambda>e. sdp_token (ep_sipIp e)) (nc_sipEndpoints config)"

lemma client_dialog_name: "rq_callId q \<noteq> [] \<Longrightarrow> client_dialog q = clientInviteSessionId (rq_callId q)"
  by (simp only: client_dialog_def clientInviteSessionId_def if_False)

lemma server_dialog_name:
  "rq_callId q \<noteq> [] \<Longrightarrow> rq_callId q' = rq_callId q \<Longrightarrow> server_dialog q' = server_dialog q"
  by (simp only: server_dialog_def inviteSessionId_def not_False_eq_True if_True)

lemma adapter_has_session:
  assumes "mm_ok mm" "findSession k mm = None" shows "map_of (mm_rtpSessionAdapters mm) k = None"
proof -
  have "dom (map_of (mm_rtpSessionAdapters mm)) \<subseteq> dom (map_of (mm_sessions mm))"
    using assms(1) unfolding mm_ok_def sessions_ok_def by blast
  moreover have "k \<notin> dom (map_of (mm_sessions mm))" using assms(2) unfolding findSession_def domIff by simp
  ultimately have "k \<notin> dom (map_of (mm_rtpSessionAdapters mm))" by (rule contra_subsetD)
  then show ?thesis unfolding domIff by simp
qed

lemma answering_ip:
  assumes "answering_ok (rt_config rt)" "sdp_token (sdp_connectionIp sdp)" shows "sdp_token (invite_localIp q sdp rt)"
proof -
  let ?c = "rt_config rt"
  have e: "sdp_token (ep_sipIp l)" if "l \<in> set (nc_sipEndpoints ?c)" for l
    using that assms(1) by (simp add: answering_ok_def list_all_iff)
  have "l \<in> set (nc_sipEndpoints ?c)" if "findEndpointBySipId ?c i = Some l" for i l
    using that by (auto simp: findEndpointBySipId_def find_Some_iff)
  moreover have "l \<in> set (nc_sipEndpoints ?c)" if "localEndpointForPeer ?c = Some l" for l
    using that by (auto simp: localEndpointForPeer_def findEndpointByName_def find_Some_iff split: option.splits list.splits)
  ultimately show ?thesis
    using e assms(2) by (auto simp: invite_localIp_def split: option.split)
qed

text \<open>What the operator's node offered, as the other reads it.\<close>

definition offer :: "endpoint_config \<Rightarrow> media_session \<Rightarrow> sdp_info" where
  "offer local s = new_sdp_info\<lparr>sdp_originUser := ep_sipId local, sdp_sessionName := ''Play'', sdp_connectionIp := ep_sipIp local,
     sdp_mediaPort := ms_localRtpPort s, sdp_transport := ''RTP/AVP'', sdp_direction := ''recvonly'', sdp_ssrc := ms_ssrc s\<rparr>"

lemma offered:
  assumes "reads_request (invite_message local peer dev s) q" "sdp_token (ep_sipId local)" "sdp_token (ep_sipIp local)"
    "0 < ms_localRtpPort s" "ms_localRtpPort s < INT_MAX" "sdp_text (ms_ssrc s)" "ms_callId s \<noteq> []" "ms_inviteCseq s = ''1''"
  shows "parseSdp (rq_body q) = Some (offer local s)" "rq_method q = ''INVITE''" "rq_toId q = dev"
    "rq_callId q = ms_callId s" "rq_cseq q = ''1''"
  using assms invite_sdp_parsed [OF assms(2-4) _ assms(6)]
  by (simp_all add: reads_request_def invite_message_def node_message_def offer_def)

lemma answered:
  assumes "sdp_token dev" "sdp_token ip" "0 < p" "p < INT_MAX" "sdp_text (ms_ssrc s)"
  shows "parseSdp (buildInviteResponseSdp dev ip p (offer local s)) = Some (sdp_answer dev ip p (offer local s))"
proof (rule answer_sdp_parsed [OF assms(1-3)])
  show "sdp_text (sdp_sessionName (offer local s))" by (simp add: offer_def sdp_text_def blank_def)
qed (use assms sdp_token_literals(6) in \<open>simp_all add: offer_def new_sdp_info_def\<close>)

lemma crossed_sessions:
  assumes "ms_callId s = rq_callId q" "ms_localIp s = ep_sipIp local"
  shows "crossed (confirmed_session s (sdp_answer dev ip p (offer local s)) r)
    ((requested_session q (offer local s) ip p)\<lparr>ms_state := ''stream-confirmed''\<rparr>)"
  using assms by (simp add: crossed_def confirmed_session_def requested_session_def sdp_answer_def offer_def new_sdp_info_def)

text \<open>What both nodes are before the call, and the call: the request of the operator, the INVITE as the other node
  reads it, its answer as the first reads it, and the ACK as the other reads it. \<open>h\<close> is what the handlers
  returned.\<close>

definition nodes_ready :: "('a, 's) node \<Rightarrow> 'b node_env \<Rightarrow> ('b, 't) runtime \<Rightarrow> string \<Rightarrow> bool" where
  "nodes_ready a envB b device \<longleftrightarrow> rt_ok (nd_rt a) \<and> online (nd_rt a) \<and> asking_ok (rt_config (nd_rt a)) \<and>
     sdp_token device \<and> rt_ok b \<and> online b \<and> answering_ok (rt_config b) \<and> mm_availablePortSet (rt_media b) \<noteq> {} \<and>
     adapters_start envB (ep_sipIp (nc_node (rt_config (nd_rt a))))"

inductive call :: "'a node_env \<Rightarrow> ('a, 's) node \<Rightarrow> 'b node_env \<Rightarrow> ('b, 't) runtime \<Rightarrow> string \<Rightarrow>
    sip_request \<Rightarrow> sip_request \<Rightarrow> bool \<Rightarrow> ('a, 's) runtime \<Rightarrow> ('b, 't) runtime \<Rightarrow> bool" where
  "requestInvite envA device a = (Inr (), a1) \<Longrightarrow> reads_request (List.last (sent_messages (rt_sip (nd_rt a1)))) q \<Longrightarrow>
   findSession (server_dialog q) (rt_media b) = None \<Longrightarrow>
   InviteServer_handle envB q b = (h1, b1) \<Longrightarrow> reads_answer q (List.last (sent_messages (rt_sip b1))) r \<Longrightarrow>
   InviteClient_handle r (nd_rt a1) = (h2, a2) \<Longrightarrow> reads_request (List.last (sent_messages (rt_sip a2))) k \<Longrightarrow>
   InviteServer_handle envB k b1 = (h3, b2) \<Longrightarrow> call envA a envB b device q r (h1 \<and> h2 \<and> h3) a2 b2"

inductive_cases callE: "call envA a envB b device q r h a2 b2"

lemma call_sessions:
  assumes "nodes_ready a envB b device" "call envA a envB b device q r h a2 b2"
  obtains sA sB where "h" "findSession (client_dialog r) (rt_media a2) = Some sA" "findSession (server_dialog q) (rt_media b2) = Some sB"
    "ms_targetDeviceId sA = device" "crossed sA sB" "ms_ssrc sA = fst (nextInviteSsrc a)" "between_frames sA" "rt_ok a2" "rt_ok b2"
    "map_of (mm_rtpSessionAdapters (rt_media b2)) (server_dialog q) =
       Some (snd (ra_start (en_adapter envB) (adapter_options sB) (en_newAdapter envB)))"
proof -
  have ready: "rt_ok (nd_rt a)" "online (nd_rt a)" "asking_ok (rt_config (nd_rt a))" "sdp_token device" "rt_ok b" "online b"
    "answering_ok (rt_config b)" "mm_availablePortSet (rt_media b) \<noteq> {}"
    "adapters_start envB (ep_sipIp (nc_node (rt_config (nd_rt a))))"
    using assms(1) by (simp_all add: nodes_ready_def)
  from assms(2) obtain a1 k h1 h2 h3 b1 where c: "requestInvite envA device a = (Inr (), a1)"
    "reads_request (List.last (sent_messages (rt_sip (nd_rt a1)))) q" "findSession (server_dialog q) (rt_media b) = None"
    "InviteServer_handle envB q b = (h1, b1)" "reads_answer q (List.last (sent_messages (rt_sip b1))) r"
    "InviteClient_handle r (nd_rt a1) = (h2, a2)" "reads_request (List.last (sent_messages (rt_sip a2))) k"
    "InviteServer_handle envB k b1 = (h3, b2)" "h = (h1 \<and> h2 \<and> h3)"
    by (rule callE) blast
  let ?local = "nc_node (rt_config (nd_rt a))"
  have loc: "sdp_token (ep_sipId ?local)" "sdp_token (ep_sipIp ?local)" "localEndpointForPeer (rt_config (nd_rt a)) \<noteq> None"
    using ready(3) by (simp_all add: asking_ok_def)
  obtain peer s where peer: "invite_owner device (nd_rt a) = Inr peer" and s: "findSession (ms_id s) (rt_media (nd_rt a1)) = Some s"
    "ms_id s = clientInviteSessionId (ms_callId s)" "ms_callId s \<noteq> []" "ms_inviteCseq s = ''1''" "ms_peerId s = pi_sipId peer"
    "ms_targetDeviceId s = device" "ms_localIp s = ep_sipIp ?local" "0 < ms_localRtpPort s" "ms_localRtpPort s < INT_MAX"
    "ms_ssrc s = fst (nextInviteSsrc a)" "between_frames s"
    and a1: "online (nd_rt a1)" "rt_ok (nd_rt a1)" "rt_config (nd_rt a1) = rt_config (nd_rt a)" "rt_peers (nd_rt a1) = rt_peers (nd_rt a)"
    and m1: "List.last (sent_messages (rt_sip (nd_rt a1))) = invite_message ?local peer device s"
    using invite_requested [OF c(1) ready(1,2)] by auto
  have st: "sdp_text (ms_ssrc s)" using pad10_text s(10) by (simp add: nextInviteSsrc_def Let_def)
  note q = offered [OF c(2) [unfolded m1] loc(1,2) s(8,9) st s(3,4)]
  obtain p ip where b1: "h1" "0 < p" "p < INT_MAX" "ip = invite_localIp q (offer ?local s) b"
    "findSession (server_dialog q) (rt_media b1) = Some (requested_session q (offer ?local s) ip p)"
    "mm_rtpSessionAdapters (rt_media b1) = mm_rtpSessionAdapters (rt_media b)" "rt_ok b1"
    "List.last (sent_messages (rt_sip b1)) = answer_message q ip p (offer ?local s)"
    using invite_answered [OF ready(5,6,8) q(1,2), of envB] c(4) by auto
  have ip: "sdp_token ip" unfolding b1(4) using answering_ip [OF ready(7)] loc(2) by (simp add: offer_def)
  have r: "rq_statusCode r = 200" "rq_callId r = ms_callId s" "rq_cseq r = ''1''"
    "parseSdp (rq_body r) = Some (sdp_answer device ip p (offer ?local s))"
    using c(5) answered [OF ready(4) ip b1(2,3) st] q(3-5)
    by (simp_all add: b1(8) reads_answer_def answer_message_def makeResponse_def new_sip_message_def)
  have cd: "client_dialog r = ms_id s" using client_dialog_name [of r] r(2) s(2,3) by simp
  have "findBySipId (pi_sipId peer) (rt_peers (nd_rt a)) = Some peer"
    using peer findBySipId_Some by (fastforce simp: invite_owner_def split: list.splits option.splits if_splits)
  then have "findBySipId (ms_peerId s) (rt_peers (nd_rt a1)) = Some peer" using s(5) a1(4) by simp
  from answer_confirms [OF a1(2,1) _ _ _ r(1) this r(4)] obtain ack where a2: "h2"
    "findSession (client_dialog r) (rt_media a2) = Some (confirmed_session s (sdp_answer device ip p (offer ?local s)) r)"
    "List.last (sent_messages (rt_sip a2)) = ack" "sm_method ack = ''ACK''" "sm_callId ack = rq_callId r" "sm_cseq ack = rq_cseq r"
    using c(6) loc(3) a1(3) r(2) s(1,3) cd by auto
  have k: "rq_method k = ''ACK''" "rq_callId k = rq_callId q" "rq_cseq k = ''1''"
    using c(7) [unfolded a2(3)] a2(4-6) r(2,3) s(3) q(4) by (simp_all add: reads_request_def)
  have sd: "server_dialog k = server_dialog q" using server_dialog_name [of q k] k(2) q(4) s(3) by simp
  have "mm_ok (rt_media b)" using ready(5) by (simp add: rt_ok_manager manager_ok_def)
  then have "map_of (mm_rtpSessionAdapters (rt_media b)) (server_dialog q) = None"
    using c(3) by (rule adapter_has_session)
  then have free: "map_of (mm_rtpSessionAdapters (rt_media b1)) (server_dialog k) = None" using b1(6) sd by simp
  let ?sB = "requested_session q (offer ?local s) ip p"
  have sB: "ms_id ?sB = server_dialog q" "ms_localRtpPort ?sB = p" "ms_inviteCseq ?sB = rq_cseq k" "adapters_start envB (ms_remoteIp ?sB)"
    using ready(9) k(3) q(5) by (simp_all add: requested_session_def offer_def)
  have ack: "h3 \<and> findSession (server_dialog q) (rt_media b2) = Some (?sB\<lparr>ms_state := ''stream-confirmed''\<rparr>) \<and>
      map_of (mm_rtpSessionAdapters (rt_media b2)) (server_dialog q) =
        Some (snd (ra_start (en_adapter envB) (adapter_options ?sB) (en_newAdapter envB)))"
    using ack_confirms [of k b1 ?sB envB, unfolded sd, OF b1(5) sB(1) _ b1(7) k(1) sB(3) free [unfolded sd] sB(4)] sB(2) b1(2) c(8)
    by simp
  have ao: "adapter_options (?sB\<lparr>ms_state := x\<rparr>) = adapter_options ?sB" for x by (simp add: adapter_options_def)
  have ok: "rt_ok a2" "rt_ok b2"
    using keeps_InviteClient [of "nd_rt a1" r] a1(2) c(6) keeps_InviteServer [of b1 envB k] b1(7) c(8) by (simp_all add: keeps_def)
  let ?sA = "confirmed_session s (sdp_answer device ip p (offer ?local s)) r"
  have "ms_targetDeviceId ?sA = device" "ms_ssrc ?sA = fst (nextInviteSsrc a)" "between_frames ?sA"
    using s(6,10,11) by (simp_all add: confirmed_session_def between_frames_def no_frame_def collecting_def)
  then show thesis
    using that [OF _ a2(2) conjunct1 [OF conjunct2 [OF ack]] _ crossed_sessions [OF _ s(7)] _ _ ok] ack b1(1) a2(1) q(4) c(9) ao by simp
qed

text \<open>C2: when the operator of one node asks for a device that another node serves, and the messages between them
  arrive, both nodes end with a confirmed session: the server accepts the INVITE and answers it, the client
  accepts the answer and sends the ACK, the server accepts the ACK and starts an RTP adapter towards the port the
  first opened, and each side has the address and the RTP port of the other, with one SSRC.\<close>

theorem invite_between_nodes:
  assumes "nodes_ready a envB b device" and "call envA a envB b device q r h a2 b2"
  shows "h \<and> (\<exists>sA sB. findSession (client_dialog r) (rt_media a2) = Some sA \<and>
    findSession (server_dialog q) (rt_media b2) = Some sB \<and> ms_targetDeviceId sA = device \<and> crossed sA sB \<and>
    map_of (mm_rtpSessionAdapters (rt_media b2)) (server_dialog q) =
      Some (snd (ra_start (en_adapter envB) (adapter_options sB) (en_newAdapter envB))))"
  using call_sessions [OF assms] by metis

section \<open>A call between two nodes\<close>

lemma rt_send_goes: "online rt \<Longrightarrow> sm_method m \<noteq> [] \<Longrightarrow> fst (rt_send m rt)"
  by (simp add: rt_send_def online_def st_send_def im_ops_def im_send_def split_beta)

lemma invite_goes_out:
  assumes "invite_owner dev (nd_rt node) = Inr peer" "manager_ok (rt_media (nd_rt node))" "online (nd_rt node)"
    "allocateRtpPort (rt_media (nd_rt node)) = (p, mm)" "0 < p" "mm_rtpSessionAdapters (rt_media (nd_rt node)) = []"
    "adapters_start env (pi_ip peer)"
  shows "fst (requestInvite env dev node) = Inr ()"
proof -
  let ?rt = "nd_rt node" and ?local = "nc_node (rt_config (nd_rt node))"
  define node1 where "node1 = node\<lparr>nd_rt := ?rt\<lparr>rt_media := mm\<rparr>\<rparr>"
  obtain cid node2 where cid: "nextTransactionCallId ''invite'' (ep_sipId ?local) node1 = (cid, node2)" by fastforce
  obtain ssrc node3 where ssrc: "nextInviteSsrc node2 = (ssrc, node3)" by fastforce
  define s where "s = invited_session peer dev ?local p ssrc cid"
  have n3: "nd_rt node3 = ?rt\<lparr>rt_media := mm\<rparr>"
    using cid ssrc by (auto simp: nextTransactionCallId_def nextInviteSsrc_def node1_def Let_def)
  obtain mm2 where cr: "createSession s mm = (True, mm2)"
    using createSession_fresh [OF assms(2,4,5), of s]
    by (cases "createSession s mm") (auto simp: s_def invited_session_def clientInviteSessionId_def)
  have "map_of (mm_rtpSessionAdapters mm2) (ms_id s) = None" "findSession (ms_id s) mm2 = Some s"
    using created_adapters [OF cr] created_sessions [OF cr] allocate_fresh(1,5) [OF assms(2,4,5)] assms(6)
    by (simp_all add: mm_ok_om(1) findSession_def)
  moreover have "ms_id s \<noteq> []" "0 < ms_localRtpPort s" "adapters_start env (ms_remoteIp s)"
    using assms(5,7) by (simp_all add: s_def invited_session_def clientInviteSessionId_def)
  ultimately obtain mm3 where "startRtpSessionAdapter (en_adapter env) (ms_id s) (en_newAdapter env) mm2 = (Inr (), mm3)"
    using adapter_starts by blast
  moreover have "fst (rt_send m (?rt\<lparr>rt_media := mm3\<rparr>))" if "sm_method m = ''INVITE''" for m
    using that assms(3) by (intro rt_send_goes) (simp_all add: online_def)
  ultimately have "fst (send_invite env peer dev s (?rt\<lparr>rt_media := mm2\<rparr>)) = Inr ()"
    by (simp add: send_invite_def Let_def split_beta node_message_def)
  then show ?thesis
    using assms(1,4,5) cid ssrc cr n3
    by (simp add: requestInvite_def Let_def node1_def [symmetric] s_def [symmetric] split_beta)
qed

definition sample_item :: manscdp_item where
  "sample_item = new_item\<lparr>mi_deviceId := ''37''\<rparr>"

definition sample_serving_peer :: peer_info where
  "sample_serving_peer = new_peer_info\<lparr>pi_sipId := ''35'', pi_relation := PEER_DOWNSTREAM, pi_registered := True\<rparr>"

definition sample_asking :: "(unit, unit) node" where
  "sample_asking = (new_node new_node_config 0 (\<lambda>_. 0))\<lparr>nd_rt := sample_media_rt\<lparr>
     rt_now := 1700000000, rt_config := new_node_config\<lparr>nc_node := new_endpoint_config\<lparr>ep_sipId := ''34'', ep_sipIp := ''10.0.0.1''\<rparr>,
       nc_sipEndpoints := [new_endpoint_config]\<rparr>,
     rt_peers := [sample_serving_peer], rt_business := new_business_state\<lparr>bs_catalogItems := [(''35'', [sample_item])]\<rparr>\<rparr>\<rparr>"

text \<open>A transport that delivers: the request as the other node reads it, the answer as the first does.\<close>

definition delivered :: "sip_message \<Rightarrow> sip_request" where
  "delivered m = (let mx = if sm_method m = ''MESSAGE'' then parseManscdpMessage (sm_body m) else None
     in new_sip_request\<lparr>rq_method := sm_method m, rq_fromId := sm_fromId m, rq_toId := sm_toId m, rq_body := sm_body m,
       rq_callId := sm_callId m, rq_cseq := sm_cseq m, rq_fromTag := sm_fromTag m, rq_toTag := sm_toTag m,
       rq_digestAuth := sm_digestAuth m, rq_authenticated := df_response (sm_digestAuth m) \<noteq> [],
       rq_expires := (if sm_method m = ''REGISTER'' \<and> sm_expires m \<ge> 0 then sm_expires m else 0),
       rq_event := (if sm_method m = ''MESSAGE'' then (case mx of None \<Rightarrow> [] | Some x \<Rightarrow> mx_event x) else ''request''),
       rq_manscdp := (case mx of None \<Rightarrow> new_manscdp_message | Some x \<Rightarrow> x)\<rparr>)"

definition answered_with :: "sip_request \<Rightarrow> sip_message \<Rightarrow> sip_request" where
  "answered_with q m = q\<lparr>rq_event := ''response'', rq_statusCode := sm_statusCode m, rq_body := sm_body m,
     rq_digestAuth := new_digest_fields\<lparr>df_realm := sm_authRealm m, df_nonce := sm_authNonce m, df_opaque := sm_authOpaque m\<rparr>\<rparr>"

lemma delivered_reads: "reads_request m (delivered m)"
proof (cases "sm_method m = ''MESSAGE''")
  case True
  then show ?thesis by (simp add: reads_request_def delivered_def Let_def split: option.split)
next
  case False
  then show ?thesis by (simp add: reads_request_def delivered_def)
qed

lemma answered_reads: "reads_answer q m (answered_with q m)"
  by (simp add: reads_answer_def answered_with_def no_algorithm_def new_digest_fields_def)

lemma sample_asking_ok:
  "rt_ok (nd_rt sample_asking)" "online (nd_rt sample_asking)" "asking_ok (rt_config (nd_rt sample_asking))"
  "invite_owner ''37'' (nd_rt sample_asking) = Inr sample_serving_peer" "rt_media (nd_rt sample_asking) = rt_media sample_media_rt"
proof -
  show m: "rt_media (nd_rt sample_asking) = rt_media sample_media_rt" by (simp add: sample_asking_def)
  show "rt_ok (nd_rt sample_asking)"
    using sample_media_ok(1) by (simp add: rt_ok_def sample_asking_def om_ok_def new_business_state_def)
  show "online (nd_rt sample_asking)" by (simp add: online_def sample_asking_def sample_media_rt_def)
  have "sdp_token ''34''" "sdp_token ''10.0.0.1''" by code_simp+
  then show "asking_ok (rt_config (nd_rt sample_asking))"
    by (simp add: asking_ok_def sample_asking_def localEndpointForPeer_def findEndpointByName_def)
  show "invite_owner ''37'' (nd_rt sample_asking) = Inr sample_serving_peer"
    by (simp add: invite_owner_def catalogOwners_def sample_asking_def sample_item_def findBySipId_def sample_serving_peer_def)
qed

lemma sample_starts: "adapters_start sample_adapter_env ip"
  by (simp add: adapters_start_def sample_adapter_env_def)

lemma sample_ready: "nodes_ready sample_asking sample_adapter_env sample_media_rt ''37''"
proof -
  have b: "answering_ok (rt_config sample_media_rt)" "mm_availablePortSet (rt_media sample_media_rt) \<noteq> {}" "online sample_media_rt"
    by (simp_all add: answering_ok_def sample_media_rt_def new_runtime_def new_node_config_def online_def)
  have t: "sdp_token ''37''" by code_simp
  show ?thesis
    unfolding nodes_ready_def using sample_asking_ok(1-3) sample_media_ok(1) b t sample_starts by simp
qed

lemma sample_call:
  assumes "mm_sessions (rt_media b) = []"
  obtains q r h a2 b2 where "call sample_adapter_env sample_asking envB b ''37'' q r h a2 b2"
proof -
  have m: "manager_ok (rt_media (nd_rt sample_asking))" using sample_asking_ok(1) by (simp add: rt_ok_manager)
  have ad: "mm_rtpSessionAdapters (rt_media (nd_rt sample_asking)) = []"
    by (simp add: sample_asking_ok(5) sample_media_rt_def new_media_manager_def new_runtime_def)
  have al: "allocateRtpPort (rt_media (nd_rt sample_asking)) = (4, snd (allocateRtpPort (rt_media sample_media_rt)))"
    unfolding sample_asking_ok(5) by (rule sample_allocate(1))
  obtain a1 where a1: "requestInvite sample_adapter_env ''37'' sample_asking = (Inr (), a1)"
    using invite_goes_out [OF sample_asking_ok(4) m sample_asking_ok(2) al _ ad sample_starts] by (metis prod.collapse zero_less_numeral)
  have n: "findSession x (rt_media b) = None" for x using assms by (simp add: findSession_def)
  from call.intros [OF a1 delivered_reads n surjective_pairing answered_reads surjective_pairing delivered_reads surjective_pairing]
  show thesis by (rule that)
qed

theorem invite_between_nodes_witness:
  "\<exists>q r a2 b2. call sample_adapter_env sample_asking sample_adapter_env sample_media_rt ''37'' q r True a2 b2 \<and>
    (\<exists>sB. findSession (server_dialog q) (rt_media b2) = Some sB \<and> ms_state sB = ''stream-confirmed'')"
proof -
  obtain q r h a2 b2 where c: "call sample_adapter_env sample_asking sample_adapter_env sample_media_rt ''37'' q r h a2 b2"
    by (rule sample_call [of sample_media_rt sample_adapter_env]) (simp add: sample_media_rt_def new_media_manager_def)
  note b = invite_between_nodes [OF sample_ready c]
  have "call sample_adapter_env sample_asking sample_adapter_env sample_media_rt ''37'' q r True a2 b2" using b c by simp
  moreover obtain sB where "findSession (server_dialog q) (rt_media b2) = Some sB" "ms_state sB = ''stream-confirmed''"
    using b by (auto simp: crossed_def)
  ultimately show ?thesis by blast
qed

end
