(* ===== verification/StreamPath.thy ===== *)
theory StreamPath
  imports TwoNodes
begin

text \<open>
  The media of a call between two nodes: a frame that the serving node sends through its RTP adapter
  (\<open>src/src/adapters/jrtplib/JrtplibRtpSessionAdapter.cpp\<close>), the packets the RTP library makes of it, and the
  session that waits for them at the node that asked (\<open>src/src/media/MediaManager.cpp\<close>).
\<close>

section \<open>What the RTP library writes\<close>

text \<open>A packet of RFC 3550 for every payload handed to \<open>SendPacket\<close>, with consecutive sequence numbers. The time stamp
  increment takes effect after the packet. The SSRC is the one the library gave the session.\<close>

fun library_packets :: "u32 \<Rightarrow> u16 \<Rightarrow> u32 \<Rightarrow> rtp_payload_packet list \<Rightarrow> bytes list" where
  "library_packets c q T [] = []"
| "library_packets c q T (p # ps) = buildRtpPacket (rp_payloadType p) (rp_marker p) q T c (rp_payload p)
     # library_packets c (q + 1) (T + rp_timestampIncrement p) ps"

lemma length_library_packets [simp]: "length (library_packets c q T ps) = length ps"
  by (induction ps arbitrary: q T) simp_all

definition stream_options :: "nat \<Rightarrow> u16 \<Rightarrow> u32 \<Rightarrow> u32 \<Rightarrow> rtp_options" where
  "stream_options m q T c = default_rtp_options\<lparr>opt_payloadType := 96, opt_firstSequenceNumber := q, opt_timestamp := T,
     opt_ssrc := c, opt_maxPayloadBytes := m\<rparr>"

lemma stream_options_fields [simp]:
  "opt_payloadType (stream_options m q T c) = 96" "opt_firstSequenceNumber (stream_options m q T c) = q"
  "opt_timestamp (stream_options m q T c) = T" "opt_ssrc (stream_options m q T c) = c"
  "opt_maxPayloadBytes (stream_options m q T c) = m"
  by (simp_all add: stream_options_def)

text \<open>They parse to the burst of the stream.\<close>

lemma library_burst:
  "opt_timestamp opts = T \<Longrightarrow> opt_ssrc opts = c \<Longrightarrow> opt_payloadType opts = 96 \<Longrightarrow>
   map parseRtpPacket (library_packets c q T (stream_packets inc cs)) = map (\<lambda>p. Some (Stored True p)) (burst opts q cs)"
proof (induction cs arbitrary: q)
  case (Cons x cs)
  have "library_packets c (q + 1) (T + (if cs = [] then inc else 0)) (stream_packets inc cs) =
      library_packets c (q + 1) T (stream_packets inc cs)"
    by (cases cs) simp_all
  then show ?case using Cons by (simp add: parse_built_rtp)
qed simp

section \<open>A refused stream\<close>

lemma refused_packets:
  assumes "om_ok (mm_sessions mm)" "map_of (mm_sessions mm) sid = Some s" "ms_ssrc s \<noteq> []" "ms_ssrc s \<noteq> uint32ToString c"
    "map parseRtpPacket bs = map (\<lambda>p. Some (Stored True p)) ps" "\<forall>p \<in> set ps. pkt_ssrc p = c"
  shows "receive_packets w sid bs mm = Some (replicate (length bs) (Inl ''RTP SSRC does not match media session''), mm)"
  using assms(5,6)
proof (induction bs arbitrary: ps)
  case (Cons b bs)
  then obtain p ps' where p: "ps = p # ps'" "parseRtpPacket b = Some (Stored True p)" "pkt_ssrc p = c" by (cases ps) auto
  have "session_receive w b s (mm_frameSink mm) = Some (Inl ''RTP SSRC does not match media session'', s, mm_frameSink mm)"
    using p assms(3,4) by (simp add: session_receive_def)
  then have "receiveRtpPacket w sid b mm = Some (Inl ''RTP SSRC does not match media session'', mm)"
    using assms(1,2) by (simp add: receiveRtpPacket_def om_set_same)
  then show ?case using Cons p(1) by simp
qed simp

lemma burst_ssrc: "p \<in> set (burst opts q cs) \<Longrightarrow> pkt_ssrc p = opt_ssrc opts"
  by (induction cs arbitrary: q) auto

section \<open>The stream of a call\<close>

text \<open>What the node that asked makes of the packets: every one accepted and the frame in the sink, or none.\<close>

definition frame_arrives ::
  "'s frame_writer \<Rightarrow> string \<Rightarrow> bytes list \<Rightarrow> bytes \<Rightarrow> ('a, 's) media_manager \<Rightarrow> ('a, 's) media_manager \<Rightarrow> bool" where
  "frame_arrives w k wire v mm mm' \<longleftrightarrow> receive_packets w k wire mm = Some (replicate (length wire) (Inr ()), mm') \<and>
     (\<exists>s s' f. findSession k mm = Some s \<and> findSession k mm' = Some s' \<and> fr_data f = v \<and> fr_sessionId f = ms_id s \<and>
        ms_completedVideoFrames s' = ms_completedVideoFrames s + 1 \<and> ms_state s' = ''stream-receiving'' \<and>
        mm_frameSink mm' = map_option (\<lambda>x. snd (w f x)) (mm_frameSink mm))"

definition stream_refused :: "'s frame_writer \<Rightarrow> string \<Rightarrow> bytes list \<Rightarrow> ('a, 's) media_manager \<Rightarrow> bool" where
  "stream_refused w k wire mm \<longleftrightarrow>
     receive_packets w k wire mm = Some (replicate (length wire) (Inl ''RTP SSRC does not match media session''), mm)"

lemma sent_stream:
  assumes "sendAnnexBFrame (jr_ops J) k v inc m mm = (Inr (), mm')" "om_ok (mm_rtpSessionAdapters mm)"
    "map_of (mm_rtpSessionAdapters mm) k = Some a"
  shows "\<exists>a'. map_of (mm_rtpSessionAdapters mm') k = Some a' \<and> 0 < m \<and>
    jr_sent a' = jr_sent a @ stream_packets inc (chunks m (buildProgramStreamSample v))"
proof -
  let ?ps = "buildProgramStreamSample v"
  obtain r a' where l: "send_loop (jr_ops J) ?ps inc m 0 0 0 a = (r, a')" by fastforce
  obtain s where s: "map_of (mm_sessions mm) k = Some s" and m: "0 < m" "v \<noteq> []"
    using assms(1) by (auto simp: sendAnnexBFrame_def split: if_splits option.splits)
  obtain n b where r: "r = Inr (n, b)"
    using assms(1,3) s m l by (cases r) (auto simp: sendAnnexBFrame_def)
  have "map_of (mm_rtpSessionAdapters mm') k = Some a'"
    using assms s m l r by (auto simp: sendAnnexBFrame_def)
  then show ?thesis using jr.send_loop_sent [OF m(1) l] r m(1) by simp
qed

lemma frame_received:
  assumes "mm_ok mm" "findSession k mm = Some s" "ms_ssrc s = uint32ToString c" "between_frames s"
    "parseElementaryStream v = Some (Stored True es)" "length v < 2 ^ 64" "0 < m"
    "wire = library_packets c n T (stream_packets inc (chunks m (buildProgramStreamSample v)))"
    "\<And>f x. fst (w f x) = Inr ()"
  shows "\<exists>mm'. frame_arrives w k wire v mm mm'"
proof -
  let ?o = "stream_options m n T c" and ?k = "mm_frameSink mm"
  have b: "map parseRtpPacket wire = map (\<lambda>p. Some (Stored True p)) (burst ?o n (chunks (opt_maxPayloadBytes ?o) (buildProgramStreamSample v)))"
    unfolding assms(8) by (simp add: library_burst)
  have acc: "ssrc_accepted s (opt_ssrc ?o)" "0 < opt_maxPayloadBytes ?o" using assms(3,7) by (simp_all add: ssrc_accepted_def)
  obtain s' where s': "receive_all w wire s ?k = Some (replicate (length wire) (Inr ()), s',
      map_option (\<lambda>x. snd (w (the_frame s es T (length wire) v) x)) ?k)"
    "ms_completedVideoFrames s' = ms_completedVideoFrames s + 1" "ms_state s' = ''stream-receiving''"
    by (rule receive_burst [where w = w and k = ?k, OF assms(5,6) b acc(2,1) assms(4)]) (use assms(9) in auto)
  have o: "om_ok (mm_sessions mm)" "map_of (mm_sessions mm) k = Some s"
    using assms(1,2) by (simp_all add: mm_ok_om(1) findSession_def)
  let ?mm' = "mm\<lparr>mm_sessions := om_set k s' (mm_sessions mm),
    mm_frameSink := map_option (\<lambda>x. snd (w (the_frame s es T (length wire) v) x)) ?k\<rparr>"
  have "receive_packets w k wire mm = Some (replicate (length wire) (Inr ()), ?mm')"
    by (rule receive_packets_session [OF o s'(1)])
  moreover have "findSession k ?mm' = Some s'" using o(1) by (simp add: findSession_def)
  moreover have "fr_data (the_frame s es T (length wire) v) = v" "fr_sessionId (the_frame s es T (length wire) v) = ms_id s"
    by (simp_all add: the_frame_def)
  ultimately show ?thesis
    using assms(2) s'(2,3) unfolding frame_arrives_def by (intro exI [of _ ?mm'] conjI exI [of _ s] exI [of _ s'] exI) simp_all
qed

text \<open>C3: after a call between two nodes with the RTP adapters of the program, a frame the serving node sends is
  delivered byte for byte to the sink of the node that asked, all of its packets accepted, exactly when the RTP library
  happened to give its session the SSRC that the INVITE agreed on; otherwise every packet is refused and
  the node stays as it was. The program agrees on an SSRC but never tells it to the library.\<close>

theorem stream_needs_agreed_ssrc:
  assumes "nodes_ready a envB b device" and "call envA a envB b device q r h a2 b2"
    and "en_adapter envB = jr_ops J" and "en_newAdapter envB = new_jrtp_adapter j"
    and "sendAnnexBFrame (jr_ops J) (server_dialog q) v inc m (rt_media b2) = (Inr (), mmB)"
    and "map_of (mm_rtpSessionAdapters mmB) (server_dialog q) = Some ad" and "wire = library_packets c n T (jr_sent ad)"
    and "parseElementaryStream v = Some (Stored True es)" and "length v < 2 ^ 64" and "\<And>f x. fst (w f x) = Inr ()"
  shows "if fst (nextInviteSsrc a) = uint32ToString c
    then \<exists>mm'. frame_arrives w (client_dialog r) wire v (rt_media a2) mm'
    else stream_refused w (client_dialog r) wire (rt_media a2)"
proof -
  obtain sA sB where s: "findSession (client_dialog r) (rt_media a2) = Some sA" "ms_ssrc sA = fst (nextInviteSsrc a)"
    "between_frames sA" "rt_ok a2" "rt_ok b2"
    and ad: "map_of (mm_rtpSessionAdapters (rt_media b2)) (server_dialog q) =
       Some (snd (ra_start (en_adapter envB) (adapter_options sB) (en_newAdapter envB)))"
    using call_sessions [OF assms(1,2)] by metis
  have ok: "mm_ok (rt_media a2)" "mm_ok (rt_media b2)" using s(4,5) by (simp_all add: rt_ok_manager manager_ok_def)
  let ?ps = "chunks m (buildProgramStreamSample v)"
  have silent: "jr_sent (snd (ra_start (en_adapter envB) (adapter_options sB) (en_newAdapter envB))) = []"
    unfolding assms(3,4) jr.start_silent by (simp add: new_jrtp_adapter_def)
  have sent: "jr_sent ad = stream_packets inc ?ps" "0 < m"
    using sent_stream [OF assms(5) mm_ok_om(2) [OF ok(2)] ad] assms(6) silent by auto
  have wire: "wire = library_packets c n T (stream_packets inc ?ps)" using assms(7) sent(1) by simp
  show ?thesis
  proof (cases "fst (nextInviteSsrc a) = uint32ToString c")
    case True
    then show ?thesis using frame_received [OF ok(1) s(1) _ s(3) assms(8,9) sent(2) wire assms(10)] s(2) by simp
  next
    case False
    have o: "om_ok (mm_sessions (rt_media a2))" "map_of (mm_sessions (rt_media a2)) (client_dialog r) = Some sA"
      using ok(1) s(1) by (simp_all add: mm_ok_om(1) findSession_def)
    have "ms_ssrc sA \<noteq> []" using s(2) by (auto simp: nextInviteSsrc_def pad10_def Let_def)
    then show ?thesis
      using refused_packets [OF o, of c wire "burst (stream_options m n T c) n ?ps" w] False s(2) wire burst_ssrc
        library_burst [of "stream_options m n T c" T c n inc ?ps] by (auto simp: stream_refused_def)
  qed
qed

section \<open>A stream between two small nodes\<close>

definition sample_library :: "unit jrtplib" where
  "sample_library = \<lparr>j_Create = \<lambda>_ j. (0, j), j_SetMaximumPacketSize = \<lambda>_ j. (0, j), j_AddDestination = \<lambda>_ _ j. (0, j),
     j_SendPacket = \<lambda>_ _ _ _ j. (0, j), j_Destroy = \<lambda>j. j, j_BYEDestroy = \<lambda>j. j, j_ErrorString = \<lambda>_. [],
     j_inet_addr = \<lambda>_. 0\<rparr>"

definition sample_jrtp_env :: "unit jrtp_adapter node_env" where
  "sample_jrtp_env = \<lparr>en_adapter = jr_ops sample_library, en_newAdapter = new_jrtp_adapter (), en_catalog = \<lambda>_. CatalogMissing,
     en_files = \<lambda>_. None\<rparr>"

definition sample_serving :: "(unit jrtp_adapter, unit) runtime" where
  "sample_serving = (new_runtime new_node_config 0 (\<lambda>_. 0))\<lparr>
     rt_media := new_media_manager\<lparr>mm_availablePorts := [6], mm_availablePortSet := {6}\<rparr>,
     rt_sip := new_sip_stack\<lparr>st_started := True, st_transport := new_in_memory_transport\<lparr>im_running := True\<rparr>\<rparr>\<rparr>"

lemma sample_serving_ok: "rt_ok sample_serving"
proof -
  have "mm_ok (rt_media sample_serving)" "no_leak (rt_media sample_serving)"
    by (rule mm_okI; simp add: sample_serving_def new_runtime_def new_media_manager_def ports_ok_def INT_MAX_def)
      (simp add: no_leak_def session_ports_def sample_serving_def new_runtime_def new_media_manager_def)
  then show ?thesis by (simp add: rt_ok_def sample_serving_def new_runtime_def new_business_state_def)
qed

lemma sample_jrtp_starts: "adapters_start sample_jrtp_env ip"
  by (simp add: adapters_start_def sample_jrtp_env_def jr_ops_def jr_start_def new_jrtp_adapter_def sample_library_def
      adapter_options_def jr_destination_def)

lemma sample_nodes_ready: "nodes_ready sample_asking sample_jrtp_env sample_serving ''37''"
proof -
  have b: "answering_ok (rt_config sample_serving)" "mm_availablePortSet (rt_media sample_serving) \<noteq> {}" "online sample_serving"
    by (simp_all add: answering_ok_def sample_serving_def new_runtime_def new_node_config_def online_def)
  have t: "sdp_token ''37''" by code_simp
  show ?thesis
    unfolding nodes_ready_def using sample_asking_ok(1-3) sample_serving_ok b t sample_jrtp_starts by simp
qed

lemma sample_ssrc: "fst (nextInviteSsrc sample_asking) = uint32ToString 1700000001"
proof -
  have "fst (nextInviteSsrc sample_asking) = pad10 (dec 1700000001)"
    by (simp add: nextInviteSsrc_def sample_asking_def new_node_def Let_def)
  moreover have "length (dec 1700000001) = 10" by (simp add: dec.simps)
  ultimately show ?thesis by (simp add: pad10_def uint32ToString_def)
qed

theorem stream_needs_agreed_ssrc_witness:
  "\<exists>q r h a2 b2 mmB ad. call sample_adapter_env sample_asking sample_jrtp_env sample_serving ''37'' q r h a2 b2 \<and>
    sendAnnexBFrame (jr_ops sample_library) (server_dialog q) [0, 0, 1, 0x65, 0x88] 3600 8 (rt_media b2) = (Inr (), mmB) \<and>
    map_of (mm_rtpSessionAdapters mmB) (server_dialog q) = Some ad \<and>
    (\<exists>mm'. frame_arrives (\<lambda>f x. (Inr (), x)) (client_dialog r) (library_packets 1700000001 1 0 (jr_sent ad)) [0, 0, 1, 0x65, 0x88]
      (rt_media a2) mm')"
proof -
  obtain q r h a2 b2 where c: "call sample_adapter_env sample_asking sample_jrtp_env sample_serving ''37'' q r h a2 b2"
    by (rule sample_call [of sample_serving sample_jrtp_env]) (simp add: sample_serving_def new_media_manager_def)
  have env: "en_adapter sample_jrtp_env = jr_ops sample_library" "en_newAdapter sample_jrtp_env = new_jrtp_adapter ()"
    by (simp_all add: sample_jrtp_env_def)
  let ?k = "server_dialog q" and ?v = "[0, 0, 1, 0x65, 0x88] :: bytes"
  obtain sA sB where s: "findSession ?k (rt_media b2) = Some sB" "rt_ok b2"
    and ad0: "map_of (mm_rtpSessionAdapters (rt_media b2)) ?k = Some (snd (ra_start (jr_ops sample_library) (adapter_options sB) (new_jrtp_adapter ())))"
    using call_sessions [OF sample_nodes_ready c] unfolding env by metis
  let ?ad = "snd (ra_start (jr_ops sample_library) (adapter_options sB) (new_jrtp_adapter ()))"
  have ok: "mm_ok (rt_media b2)" using s(2) by (simp add: rt_ok_manager manager_ok_def)
  have "ms_id sB = ?k" "0 < ms_localRtpPort sB" using mm_okD [OF ok] s(1) by (auto simp: findSession_def)
  then have run: "jr_running ?ad"
    by (simp add: jr_ops_def jr_start_def new_jrtp_adapter_def sample_library_def adapter_options_def jr_destination_def)
  obtain n b a' where l: "send_loop (jr_ops sample_library) (buildProgramStreamSample ?v) 3600 8 0 0 0 ?ad = (Inr (n, b), a')"
    using send_loop_succeeds [of sample_library 8, OF _ _ run] by (fastforce simp: sample_library_def)
  then obtain mmB where mmB: "sendAnnexBFrame (jr_ops sample_library) ?k ?v 3600 8 (rt_media b2) = (Inr (), mmB)"
    using s(1) ad0 by (simp add: sendAnnexBFrame_def findSession_def)
  obtain ad where ad: "map_of (mm_rtpSessionAdapters mmB) ?k = Some ad"
    using sent_stream [OF mmB mm_ok_om(2) [OF ok] ad0] by blast
  have "\<exists>mm'. frame_arrives (\<lambda>f x. (Inr (), x)) (client_dialog r) (library_packets 1700000001 1 0 (jr_sent ad)) ?v (rt_media a2) mm'"
    using stream_needs_agreed_ssrc [where w = "\<lambda>f x. (Inr (), x)" and c = 1700000001 and n = 1 and T = 0, OF sample_nodes_ready c env mmB ad refl small_idr_stream]
    by (simp add: sample_ssrc)
  then show ?thesis using c mmB ad by blast
qed

end
