(* ===== verification/LegacyStream.thy ===== *)
theory LegacyStream
  imports MediaManager
begin

text \<open>
  The media path of the historical pair of services: the packets the subordinate service cuts from its
  program stream (\<open>sendPackData\<close> of \<open>src/SipSubService/src/Gb28181Session.cpp\<close>) and what the supervising
  service makes of them (\<open>src/SipSupService/src/Gb28181Session.cpp\<close>): reassembly of the frames, loss of
  packets, the program stream demuxer and the frames handed to the front end.

  The demuxer is a library that is not in the repository, and the H.264 tools are copies of other projects' (\<open>h26x/\<close>); both are
  parameters. The structure
  \<open>PackProcStat\<close> is modelled in its two halves, the one of \<open>OnRTPPacketProcPs\<close> and the one of
  \<open>ps_demux_callback\<close>; a buffer and its \<open>Now\<close> counter are the list of the bytes in use, its capacity stays a number.
  \<open>None\<close> stands for an overflow of an \<open>int\<close> or a read of bytes that are not the frame's. The debug dump
  of the decoded stream and the log are left out; \<open>realloc\<close> succeeds.
\<close>

section \<open>The libraries\<close>

record demuxed =
  dx_codec :: int
  dx_flags :: int
  dx_pts :: int
  dx_data :: bytes

text \<open>What the code can tell of the frame rate, a \<open>float\<close> it compares with zero and converts to \<open>char\<close>.\<close>

datatype frame_rate = Rate_positive byte | Rate_zero | Rate_other

record picinfo =
  pic_width :: u16
  pic_height :: u16
  pic_max_framerate :: frame_rate

record 'h media_library =
  ml_create :: "'h option"
  ml_input :: "'h \<Rightarrow> bytes \<Rightarrow> int \<times> demuxed list \<times> 'h"
  ml_STREAM_VIDEO_H264 :: int
  ml_STREAM_VIDEO_H265 :: int
  ml_STREAM_AUDIO_AAC :: int
  ml_STREAM_AUDIO_G711A :: int
  ml_STREAM_AUDIO_G711U :: int
  ml_sps :: "bytes \<Rightarrow> bytes option"
  ml_configure_parse :: "bytes \<Rightarrow> picinfo option"

section \<open>State\<close>

record stream_header =
  sh_type :: int
  sh_length :: int
  sh_videoH :: int
  sh_videoW :: int
  sh_format :: bytes

definition no_header :: stream_header where
  "no_header = \<lparr>sh_type = 0, sh_length = 0, sh_videoH = 0, sh_videoW = 0, sh_format = [0, 0, 0, 0]\<rparr>"

text \<open>The half of \<open>PackProcStat\<close> that the demuxer's callback uses, with \<open>m_count\<close> and \<open>bev\<close> of the session
  and what was written to \<open>bev\<close>.\<close>

record frame_output =
  fo_sCodec :: int
  fo_sBuf :: bytes
  fo_slen :: int
  fo_sKeyFrame :: int
  fo_sPts :: int
  fo_count :: int
  fo_bev :: bool
  fo_written :: "(stream_header \<times> bytes) list"

record 'h pack_proc =
  pp_rSeq :: int
  pp_rTimeStamp :: int
  pp_rState :: int
  pp_rlen :: int
  pp_rBuf :: bytes
  pp_unpackHnd :: "'h option"
  pp_out :: frame_output
  pp_curTime :: int

definition new_frame_output :: "bool \<Rightarrow> frame_output" where
  "new_frame_output bev = \<lparr>fo_sCodec = 0, fo_sBuf = [], fo_slen = 10 * 1024, fo_sKeyFrame = 0, fo_sPts = - 1, fo_count = 0,
     fo_bev = bev, fo_written = []\<rparr>"

definition new_pack_proc :: "bool \<Rightarrow> int \<Rightarrow> 'h pack_proc" where
  "new_pack_proc bev t = \<lparr>pp_rSeq = - 1, pp_rTimeStamp = 0, pp_rState = 1, pp_rlen = 10 * 1024, pp_rBuf = [],
     pp_unpackHnd = None, pp_out = new_frame_output bev, pp_curTime = t\<rparr>"

section \<open>Integers and buffers\<close>

definition int32 :: "int \<Rightarrow> int option" where
  "int32 i = (if - (2 ^ 31) \<le> i \<and> i < 2 ^ 31 then Some i else None)"

text \<open>The capacity of a buffer that must hold \<open>need\<close> bytes.\<close>

definition reserve :: "int \<Rightarrow> int \<Rightarrow> int option" where
  "reserve cap need = do {
     n \<leftarrow> int32 need;
     if cap < n then int32 (n + 1024) else Some cap }"

text \<open>Comparison of the first bytes with a start code, byte by byte and no further than the first difference.\<close>

fun code_at :: "bytes \<Rightarrow> bytes \<Rightarrow> bool option" where
  "code_at [] ds = Some True"
| "code_at (c # cs) [] = None"
| "code_at (c # cs) (d # ds) = (if d = c then code_at cs ds else Some False)"

section \<open>A frame for the front end\<close>

text \<open>\<open>None\<close> is the return value 1. The parameter \<open>size\<close> is a \<open>uint16_t\<close>.\<close>

definition GetH264pic :: "'h media_library \<Rightarrow> bytes \<Rightarrow> u16 \<Rightarrow> picinfo option" where
  "GetH264pic L data sz =
     (if sz = 0 then None
      else case ml_sps L (take (unat sz) data) of
        None \<Rightarrow> None
      | Some sps \<Rightarrow> ml_configure_parse L sps)"

text \<open>The inner \<open>None\<close>: there is no start code.\<close>

definition nal_type :: "bytes \<Rightarrow> byte option option" where
  "nal_type data = do {
     four \<leftarrow> code_at [0, 0, 0, 1] data;
     if four then do { b \<leftarrow> at data 4; Some (Some (b AND 0x1F)) }
     else do {
       three \<leftarrow> code_at [0, 0, 1] data;
       if three then do { b \<leftarrow> at data 3; Some (Some (b AND 0x1F)) } else Some None } }"

text \<open>The picture's size and rate, looked up for some of the key frames: the header and the count of key frames after it.\<close>

definition picture_header :: "'h media_library \<Rightarrow> bytes \<Rightarrow> int \<Rightarrow> stream_header \<Rightarrow> stream_header \<times> int" where
  "picture_header L data n h =
     (if n = 0 \<or> 50 < n then
        (case GetH264pic L data (word_of_int (int (length data))) of
           None \<Rightarrow> (h, n)
         | Some info \<Rightarrow>
             let (h1, n1) = (if pic_height info \<noteq> 0 \<and> pic_width info \<noteq> 0
                             then (h\<lparr>sh_videoH := uint (pic_height info), sh_videoW := uint (pic_width info)\<rparr>, n + 1)
                             else (h, n));
                 h2 = (case pic_max_framerate info of
                         Rate_positive r \<Rightarrow> h1\<lparr>sh_format := (sh_format h1)[0 := r]\<rparr>
                       | Rate_zero \<Rightarrow> h1\<lparr>sh_format := (sh_format h1)[0 := 25]\<rparr>
                       | Rate_other \<Rightarrow> h1)
             in (h2, if 50 < n1 then 0 else n1))
      else (h, n + 1))"

definition key_frame_header :: "'h media_library \<Rightarrow> bytes \<Rightarrow> int \<Rightarrow> int \<Rightarrow> stream_header \<Rightarrow> stream_header \<times> int" where
  "key_frame_header L data codecId n h =
     (let (h1, n1) = picture_header L data n h
      in (h1\<lparr>sh_format := (sh_format h1)[1 := 1, 2 := word_of_int codecId]\<rparr>, n1))"

definition SendPacket :: "'h media_library \<Rightarrow> int \<Rightarrow> bytes \<Rightarrow> int \<Rightarrow> frame_output \<Rightarrow> (int \<times> frame_output) option" where
  "SendPacket L media data codecId o1 = do {
     _ \<leftarrow> int32 (20 + int (length data));
     let h = no_header\<lparr>sh_length := int (length data)\<rparr>;
     if media = 2 then do {
       let h = h\<lparr>sh_type := media\<rparr>;
       r \<leftarrow> (if codecId = ml_STREAM_VIDEO_H264 L then do {
               nal \<leftarrow> nal_type data;
               Some (case nal of
                  None \<Rightarrow> None
                | Some t \<Rightarrow> Some (if t = 7 then key_frame_header L data codecId (fo_count o1) h else (h, fo_count o1))) }
             else Some (Some (h, fo_count o1)));
       case r of
         None \<Rightarrow> Some (- 1, o1)
       | Some (h2, n) \<Rightarrow>
           Some (0, o1\<lparr>fo_count := n, fo_written := fo_written o1 @ (if fo_bev o1 then [(h2, data)] else [])\<rparr>) }
     else Some (0, o1) }"

definition media_of :: "'h media_library \<Rightarrow> int \<Rightarrow> int" where
  "media_of L codec =
     (if codec = ml_STREAM_VIDEO_H264 L \<or> codec = ml_STREAM_VIDEO_H265 L then 2
      else if codec = ml_STREAM_AUDIO_AAC L \<or> codec = ml_STREAM_AUDIO_G711A L \<or> codec = ml_STREAM_AUDIO_G711U L then 1
      else - 1)"

definition ps_demux_callback :: "'h media_library \<Rightarrow> demuxed \<Rightarrow> frame_output \<Rightarrow> frame_output option" where
  "ps_demux_callback L d o1 =
     (if dx_codec d = 0 then Some o1
      else if fo_sCodec o1 = dx_codec d \<and> fo_sPts o1 = dx_pts d then do {
        cap \<leftarrow> reserve (fo_slen o1) (int (length (fo_sBuf o1)) + int (length (dx_data d)));
        Some (o1\<lparr>fo_slen := cap, fo_sBuf := fo_sBuf o1 @ dx_data d, fo_sKeyFrame := dx_flags d\<rparr>) }
      else do {
        o2 \<leftarrow> (if fo_sBuf o1 \<noteq> [] then do {
                  (_, o2) \<leftarrow> SendPacket L (media_of L (fo_sCodec o1)) (fo_sBuf o1) (fo_sCodec o1) o1;
                  Some o2 }
                else Some o1);
        cap \<leftarrow> reserve (fo_slen o2) (int (length (dx_data d)));
        Some (o2\<lparr>fo_slen := cap, fo_sBuf := dx_data d, fo_sKeyFrame := dx_flags d, fo_sPts := dx_pts d,
          fo_sCodec := dx_codec d\<rparr>) })"

fun callbacks :: "'h media_library \<Rightarrow> demuxed list \<Rightarrow> frame_output \<Rightarrow> frame_output option" where
  "callbacks L [] o1 = Some o1"
| "callbacks L (d # ds) o1 = (case ps_demux_callback L d o1 of None \<Rightarrow> None | Some o2 \<Rightarrow> callbacks L ds o2)"

section \<open>Frames from packets\<close>

text \<open>The loop over the buffer: the demuxer's last answer, the bytes it left, its state and the output.\<close>

function demux_loop :: "'h media_library \<Rightarrow> 'h \<Rightarrow> bytes \<Rightarrow> int \<Rightarrow> frame_output \<Rightarrow> (int \<times> bytes \<times> 'h \<times> frame_output) option" where
  "demux_loop L h rest last_ret o1 =
     (if rest = [] then Some (last_ret, [], h, o1)
      else case ml_input L h rest of (ret, ds, h2) \<Rightarrow>
        case callbacks L ds o1 of
          None \<Rightarrow> None
        | Some o2 \<Rightarrow>
            if ret \<le> 0 \<or> int (length rest) < ret then Some (ret, rest, h2, o2)
            else demux_loop L h2 (drop (nat ret) rest) ret o2)"
  by pat_completeness auto
termination by (relation "measure (\<lambda>(_, _, rest, _). length rest)") auto

declare demux_loop.simps [simp del]

definition demux_buffer :: "'h media_library \<Rightarrow> 'h pack_proc \<Rightarrow> 'h pack_proc option" where
  "demux_buffer L p =
     (let hnd = (case pp_unpackHnd p of None \<Rightarrow> ml_create L | Some h \<Rightarrow> Some h);
          p1 = p\<lparr>pp_unpackHnd := hnd\<rparr>
      in case hnd of
           None \<Rightarrow> Some p1
         | Some h \<Rightarrow>
             if pp_rBuf p = [] then Some p1
             else do {
               (last_ret, rest, h2, o2) \<leftarrow> demux_loop L h (pp_rBuf p) 0 (pp_out p);
               let p2 = p1\<lparr>pp_unpackHnd := Some h2, pp_out := o2\<rparr>;
               Some (if rest \<noteq> [] then
                       (if last_ret < 0 then p2\<lparr>pp_unpackHnd := None, pp_rBuf := []\<rparr> else p2\<lparr>pp_rBuf := rest\<rparr>)
                     else p2\<lparr>pp_rBuf := []\<rparr>) })"

definition keep_payload :: "bytes \<Rightarrow> 'h pack_proc \<Rightarrow> 'h pack_proc option" where
  "keep_payload payload p = do {
     cap \<leftarrow> reserve (pp_rlen p) (int (length payload) + int (length (pp_rBuf p)));
     Some (p\<lparr>pp_rlen := cap, pp_rBuf := pp_rBuf p @ payload\<rparr>) }"

datatype frame_stat = FrameContinue | FrameCurFinsh | FrameNextStart

definition OnRTPPacketProcPs :: "'h media_library \<Rightarrow> bool \<Rightarrow> int \<Rightarrow> int \<Rightarrow> bytes \<Rightarrow> 'h pack_proc \<Rightarrow> 'h pack_proc option" where
  "OnRTPPacketProcPs L mark curSeq timestamp payload p0 = do {
     let p1 = (if pp_rSeq p0 = - 1 then p0\<lparr>pp_rSeq := curSeq\<rparr> else p0);
     let p2 = (if pp_rTimeStamp p1 = 0 then p1\<lparr>pp_rTimeStamp := timestamp\<rparr> else p1);
     diff \<leftarrow> int32 (curSeq - pp_rSeq p2);
     let p3 = (if diff > 1 then p2\<lparr>pp_rState := 2\<rparr> else p2);
     let stat = (if mark then FrameCurFinsh else if timestamp \<noteq> pp_rTimeStamp p3 then FrameNextStart else FrameContinue);
     let p4 = p3\<lparr>pp_rSeq := curSeq, pp_rTimeStamp := timestamp\<rparr>;
     if pp_rState p4 = 2 then
       (let p5 = p4\<lparr>pp_rBuf := []\<rparr>
        in if stat = FrameNextStart then do {
             p6 \<leftarrow> keep_payload payload p5;
             Some (p6\<lparr>pp_rState := 1\<rparr>) }
           else Some p5)
     else do {
       p5 \<leftarrow> (if pp_rState p4 = 1 \<and> stat \<noteq> FrameNextStart then keep_payload payload p4 else Some p4);
       if stat \<noteq> FrameContinue then do {
         p6 \<leftarrow> demux_buffer L p5;
         if stat = FrameNextStart then keep_payload payload p6 else Some p6 }
       else Some p5 } }"

text \<open>A packet as the RTP library hands it over: the fields the code reads of it.\<close>

record rtp_in =
  ri_payloadType :: byte
  ri_marker :: bool
  ri_extendedSequenceNumber :: u32
  ri_timestamp :: u32
  ri_payload :: bytes

definition ProcessRTPPacket :: "'h media_library \<Rightarrow> int \<Rightarrow> rtp_in \<Rightarrow> 'h pack_proc \<Rightarrow> 'h pack_proc option" where
  "ProcessRTPPacket L now pack p =
     (if ri_payloadType pack \<noteq> 96 \<and> ri_payloadType pack \<noteq> 98 then Some p
      else let p1 = p\<lparr>pp_curTime := now\<rparr>
        in if ri_payloadType pack = 96
           then OnRTPPacketProcPs L (ri_marker pack) (sint (ri_extendedSequenceNumber pack)) (sint (ri_timestamp pack)) (ri_payload pack) p1
           else Some p1)"

fun process_packets :: "'h media_library \<Rightarrow> int \<Rightarrow> rtp_in list \<Rightarrow> 'h pack_proc \<Rightarrow> 'h pack_proc option" where
  "process_packets L now [] p = Some p"
| "process_packets L now (x # xs) p = (case ProcessRTPPacket L now x p of None \<Rightarrow> None | Some p1 \<Rightarrow> process_packets L now xs p1)"

text \<open>One run of the library's poll thread: the sources that have data at that time, each with its packets. The reassembly state
  lives on from one run to the next (\<open>poll_runs\<close> below).\<close>

definition OnPollThreadStep :: "'h media_library \<Rightarrow> int \<Rightarrow> rtp_in list list \<Rightarrow> 'h pack_proc \<Rightarrow> 'h pack_proc option" where
  "OnPollThreadStep L now sources p = process_packets L now (concat sources) p"

section \<open>The subordinate's packets\<close>

text \<open>\<open>sendPackData\<close>: \<open>snd_packet\<close> is \<open>SendPacket\<close> of the RTP library.\<close>

function send_from :: "(rtp_payload_packet \<Rightarrow> 'l \<Rightarrow> int \<times> 'l) \<Rightarrow> bytes \<Rightarrow> nat \<Rightarrow> int \<Rightarrow> 'l \<Rightarrow> int \<times> 'l" where
  "send_from snd_packet packet sz status l =
     (if sz < length packet then
        (let packlen = (if 1300 \<le> length packet - sz then 1300 else length packet - sz);
             one = (\<lambda>payload marker inc. \<lparr>rp_payload = payload, rp_payloadType = 96, rp_marker = marker, rp_timestampIncrement = inc\<rparr>);
             (status1, l1) =
               (if length packet < 1300 then snd_packet (one packet True 3600) l
                else if 1300 < length packet - sz then snd_packet (one (take packlen (drop sz packet)) False 0) l
                else snd_packet (one (take packlen (drop sz packet)) True 3600) l)
         in send_from snd_packet packet (sz + packlen) status1 l1)
      else (status, l))"
  by pat_completeness auto
termination by (relation "measure (\<lambda>(_, packet, sz, _). length packet - sz)") (auto simp: Let_def split: if_splits)

declare send_from.simps [simp del]

definition sendPackData :: "(rtp_payload_packet \<Rightarrow> 'l \<Rightarrow> int \<times> 'l) \<Rightarrow> bytes \<Rightarrow> 'l \<Rightarrow> int \<times> 'l" where
  "sendPackData snd_packet packet l = send_from snd_packet packet 0 0 l"

section \<open>Packets on the wire\<close>

text \<open>What the library of the receiver makes of a list of packets sent from the extended sequence number \<open>n\<close> on.\<close>

fun as_received :: "nat \<Rightarrow> u32 \<Rightarrow> rtp_payload_packet list \<Rightarrow> rtp_in list" where
  "as_received n T [] = []"
| "as_received n T (p # ps) =
     \<lparr>ri_payloadType = rp_payloadType p, ri_marker = rp_marker p, ri_extendedSequenceNumber = of_nat n,
       ri_timestamp = T, ri_payload = rp_payload p\<rparr> # as_received (Suc n) (T + rp_timestampIncrement p) ps"

definition frame_packets :: "bytes \<Rightarrow> rtp_payload_packet list" where
  "frame_packets f = stream_packets 3600 (chunks 1300 f)"

definition unmarked :: "bytes \<Rightarrow> rtp_payload_packet" where
  "unmarked c = \<lparr>rp_payload = c, rp_payloadType = 96, rp_marker = False, rp_timestampIncrement = 0\<rparr>"

definition marked :: "bytes \<Rightarrow> rtp_payload_packet" where
  "marked c = \<lparr>rp_payload = c, rp_payloadType = 96, rp_marker = True, rp_timestampIncrement = 3600\<rparr>"

lemma stream_packets_marked:
  "cs \<noteq> [] \<Longrightarrow> stream_packets 3600 cs = map unmarked (butlast cs) @ [marked (List.last cs)]"
  by (induction cs) (auto simp: unmarked_def marked_def)

lemma as_received_append:
  "as_received n T (map unmarked cs @ ps) = as_received n T (map unmarked cs) @ as_received (n + length cs) T ps"
  by (induction cs arbitrary: n) (simp_all add: unmarked_def)

lemma length_as_received [simp]: "length (as_received n T ps) = length ps"
  by (induction ps arbitrary: n T) simp_all

lemma take_as_received: "take j (as_received n T ps) = as_received n T (take j ps)"
  by (induction ps arbitrary: n T j) (auto simp: take_Cons split: nat.split)

lemma drop_as_received_unmarked:
  "k \<le> length cs \<Longrightarrow> drop k (as_received n T (map unmarked cs @ ps)) = as_received (n + k) T (map unmarked (drop k cs) @ ps)"
  by (induction cs arbitrary: n k) (auto simp: drop_Cons unmarked_def split: nat.split)

lemma process_append:
  "process_packets L now (xs @ ys) p = (case process_packets L now xs p of None \<Rightarrow> None | Some p1 \<Rightarrow> process_packets L now ys p1)"
  by (induction xs arbitrary: p) (simp_all split: option.split)

text \<open>The loop of \<open>sendPackData\<close> cuts the bytes into chunks of 1300.\<close>

lemma send_from_chunks:
  assumes "1300 \<le> length packet \<or> sz = 0 \<or> length packet \<le> sz"
  shows "send_from (\<lambda>p l. (0, l @ [p])) packet sz 0 l = (0, l @ frame_packets (drop sz packet))"
  using assms
proof (induction "length packet - sz" arbitrary: sz l rule: less_induct)
  case less
  let ?snd = "\<lambda>p l. (0 :: int, l @ [p])"
  consider (fin) "length packet \<le> sz" | (short) "length packet < 1300" "sz = 0" "sz < length packet"
    | (full) "1300 \<le> length packet" "sz < length packet" using less.prems by linarith
  then show ?case
  proof cases
    case fin
    then show ?thesis by (subst send_from.simps) (simp add: frame_packets_def)
  next
    case short
    have "send_from ?snd packet (length packet) 0 l' = (0, l')" for l' by (subst send_from.simps) simp
    moreover have "chunks 1300 packet = [packet]" using short by (subst chunks_step) auto
    ultimately show ?thesis using short
      by (subst send_from.simps) (simp add: frame_packets_def Let_def)
  next
    case full
    have c: "chunks 1300 (drop sz packet) = take 1300 (drop sz packet) # chunks 1300 (drop (sz + 1300) packet)"
      using full by (subst chunks_step) (simp_all add: add.commute)
    show ?thesis
    proof (cases "1300 < length packet - sz")
      case True
      have "send_from ?snd packet (sz + 1300) 0 l' = (0, l' @ frame_packets (drop (sz + 1300) packet))" for l'
        by (rule less.hyps) (use True full in auto)
      then show ?thesis using True full c
        by (subst send_from.simps) (simp add: frame_packets_def Let_def)
    next
      case False
      have "send_from ?snd packet (length packet) 0 l' = (0, l')" for l' by (subst send_from.simps) simp
      then show ?thesis using False full c
        by (subst send_from.simps) (auto simp: frame_packets_def Let_def)
    qed
  qed
qed

section \<open>One packet\<close>

lemma sint_seq [simp]: "n < 2 ^ 31 \<Longrightarrow> sint (of_nat n :: u32) = int n"
  by (simp add: sint_uint unsigned_of_nat signed_take_bit_int_eq_self take_bit_nat_eq_self)

lemma reserve_small: "0 \<le> need \<Longrightarrow> need \<le> 2 ^ 30 \<Longrightarrow> \<exists>c. reserve cap need = Some c"
  by (auto simp: reserve_def int32_def)

lemma keep_payload_small:
  assumes "length (pp_rBuf p) + length x \<le> 2 ^ 30"
  obtains cap where "keep_payload x p = Some (p\<lparr>pp_rlen := cap, pp_rBuf := pp_rBuf p @ x\<rparr>)"
proof -
  have "int (length x) + int (length (pp_rBuf p)) \<le> 2 ^ 30" using assms by simp
  then show thesis using that reserve_small [of "int (length x) + int (length (pp_rBuf p))" "pp_rlen p"]
    by (auto simp: keep_payload_def)
qed

definition opened :: "'h media_library \<Rightarrow> 'h option \<Rightarrow> 'h option" where
  "opened L h = (case h of None \<Rightarrow> ml_create L | Some h \<Rightarrow> Some h)"

lemma opened_idem [simp]: "opened L (opened L h) = opened L h"
  by (simp add: opened_def split: option.split)

text \<open>The receiver has the bytes \<open>b\<close> of a frame, expects the packet \<open>n\<close>, and its demuxer and output are \<open>d\<close>.\<close>

definition has_bytes :: "'h media_library \<Rightarrow> nat \<Rightarrow> bytes \<Rightarrow> 'h option \<times> frame_output \<Rightarrow> 'h pack_proc \<Rightarrow> bool" where
  "has_bytes L n b d p \<longleftrightarrow> pp_rState p = 1 \<and> pp_rBuf p = b \<and> (pp_rSeq p = - 1 \<and> b = [] \<or> pp_rSeq p = int n - 1) \<and>
     opened L (pp_unpackHnd p) = opened L (fst d) \<and> pp_out p = snd d"

text \<open>A whole frame given to the demuxer: it must use up all of it.\<close>

definition decode_frame :: "'h media_library \<Rightarrow> bytes \<Rightarrow> 'h option \<times> frame_output \<Rightarrow> ('h option \<times> frame_output) option" where
  "decode_frame L f d =
     (case opened L (fst d) of
        None \<Rightarrow> None
      | Some h \<Rightarrow>
          (case demux_loop L h f 0 (snd d) of
             None \<Rightarrow> None
           | Some (_, rest, h2, o2) \<Rightarrow> if rest = [] then Some (Some h2, o2) else None))"

fun decode_frames :: "'h media_library \<Rightarrow> bytes list \<Rightarrow> 'h option \<times> frame_output \<Rightarrow> ('h option \<times> frame_output) option" where
  "decode_frames L [] d = Some d"
| "decode_frames L (f # fs) d = (case decode_frame L f d of None \<Rightarrow> None | Some d1 \<Rightarrow> decode_frames L fs d1)"

lemma seq_step:
  assumes "has_bytes L n b d p" "n < 2 ^ 31"
  shows "int32 (int n - (if pp_rSeq p = - 1 then int n else pp_rSeq p)) = Some (if pp_rSeq p = - 1 then 0 else 1)"
  using assms by (auto simp: has_bytes_def int32_def)

lemma step_continue:
  assumes b: "has_bytes L n b d p" and n: "n < 2 ^ 31" and T: "pp_rTimeStamp p = T \<or> pp_rTimeStamp p = 0"
    and x: "length b + length x \<le> 2 ^ 30"
  obtains p1 where "OnRTPPacketProcPs L False (int n) T x p = Some p1" "has_bytes L (Suc n) (b @ x) d p1" "pp_rTimeStamp p1 = T"
proof -
  let ?q = "p\<lparr>pp_rSeq := int n, pp_rTimeStamp := T\<rparr>"
  obtain cap where k: "keep_payload x ?q = Some (?q\<lparr>pp_rlen := cap, pp_rBuf := b @ x\<rparr>)"
    by (rule keep_payload_small [where p = ?q and x = x]) (use b x in \<open>simp_all add: has_bytes_def\<close>)
  have "OnRTPPacketProcPs L False (int n) T x p = Some (?q\<lparr>pp_rlen := cap, pp_rBuf := b @ x\<rparr>)"
    using b T k seq_step [OF b n] by (auto simp: OnRTPPacketProcPs_def has_bytes_def Let_def)
  moreover have "has_bytes L (Suc n) (b @ x) d (?q\<lparr>pp_rlen := cap, pp_rBuf := b @ x\<rparr>)"
    using b by (simp add: has_bytes_def)
  ultimately show thesis using that by simp
qed

text \<open>The first of several packets of a frame, when the time stamp has moved on.\<close>

lemma step_start:
  assumes b: "has_bytes L n [] d p" and n: "n < 2 ^ 31" and T: "pp_rTimeStamp p \<noteq> T" "pp_rTimeStamp p \<noteq> 0"
    and x: "length x \<le> 2 ^ 30"
  obtains p1 where "OnRTPPacketProcPs L False (int n) T x p = Some p1" "has_bytes L (Suc n) x d p1" "pp_rTimeStamp p1 = T"
proof -
  let ?q = "p\<lparr>pp_rSeq := int n, pp_rTimeStamp := T, pp_unpackHnd := opened L (pp_unpackHnd p)\<rparr>"
  have "demux_buffer L (p\<lparr>pp_rSeq := int n, pp_rTimeStamp := T\<rparr>) = Some ?q"
    using b by (simp add: demux_buffer_def opened_def has_bytes_def Let_def split: option.split)
  moreover obtain cap where "keep_payload x ?q = Some (?q\<lparr>pp_rlen := cap, pp_rBuf := x\<rparr>)"
    by (rule keep_payload_small [where p = ?q and x = x]) (use b x in \<open>simp_all add: has_bytes_def\<close>)
  ultimately have "OnRTPPacketProcPs L False (int n) T x p = Some (?q\<lparr>pp_rlen := cap, pp_rBuf := x\<rparr>)"
    using b T seq_step [OF b n] by (auto simp: OnRTPPacketProcPs_def has_bytes_def Let_def)
  moreover have "has_bytes L (Suc n) x d (?q\<lparr>pp_rlen := cap, pp_rBuf := x\<rparr>)"
    using b by (simp add: has_bytes_def)
  ultimately show thesis using that by simp
qed

lemma step_last:
  assumes b: "has_bytes L n b d p" and n: "n < 2 ^ 31" and x: "length b + length x \<le> 2 ^ 30" "b @ x \<noteq> []"
    and d: "decode_frame L (b @ x) d = Some d1"
  obtains p1 where "OnRTPPacketProcPs L True (int n) T x p = Some p1" "has_bytes L (Suc n) [] d1 p1" "pp_rTimeStamp p1 = T"
proof -
  let ?q = "p\<lparr>pp_rSeq := int n, pp_rTimeStamp := T\<rparr>"
  obtain cap where k: "keep_payload x ?q = Some (?q\<lparr>pp_rlen := cap, pp_rBuf := b @ x\<rparr>)"
    by (rule keep_payload_small [where p = ?q and x = x]) (use b x in \<open>simp_all add: has_bytes_def\<close>)
  let ?r = "?q\<lparr>pp_rlen := cap, pp_rBuf := b @ x\<rparr>"
  obtain h r h2 o2 where h: "opened L (pp_unpackHnd p) = Some h" "demux_loop L h (b @ x) 0 (pp_out p) = Some (r, [], h2, o2)"
    "d1 = (Some h2, o2)"
    using b d by (auto simp: decode_frame_def has_bytes_def split: option.splits if_splits)
  have "demux_buffer L ?r = Some (?r\<lparr>pp_unpackHnd := Some h2, pp_out := o2, pp_rBuf := []\<rparr>)"
    using h x(2) by (auto simp: demux_buffer_def Let_def simp flip: opened_def)
  then have "OnRTPPacketProcPs L True (int n) T x p = Some (?r\<lparr>pp_unpackHnd := Some h2, pp_out := o2, pp_rBuf := []\<rparr>)"
    using b k seq_step [OF b n] by (auto simp: OnRTPPacketProcPs_def has_bytes_def Let_def)
  moreover have "has_bytes L (Suc n) [] d1 (?r\<lparr>pp_unpackHnd := Some h2, pp_out := o2, pp_rBuf := []\<rparr>)"
    using b h(3) by (simp add: has_bytes_def)
  ultimately show thesis using that by simp
qed

text \<open>The first packet after a loss: it starts the buffer when its time stamp is a new one, and is dropped otherwise.\<close>

definition packet_missing :: "nat \<Rightarrow> 'h pack_proc \<Rightarrow> bool" where
  "packet_missing n p \<longleftrightarrow> pp_rSeq p \<noteq> - 1 \<and> - (2 ^ 31) < pp_rSeq p \<and> pp_rSeq p < int n \<and> (pp_rState p = 2 \<or> pp_rSeq p + 1 < int n)"

lemma missing_seq:
  assumes "packet_missing n p" "n < 2 ^ 30" "0 \<le> pp_rSeq p"
  shows "int32 (int n - pp_rSeq p) = Some (int n - pp_rSeq p)"
  using assms by (auto simp: packet_missing_def int32_def)

lemma step_recover:
  assumes m: "packet_missing n p" "0 \<le> pp_rSeq p" and n: "n < 2 ^ 30" and T: "pp_rTimeStamp p \<noteq> T" "pp_rTimeStamp p \<noteq> 0"
    and x: "length x \<le> 2 ^ 30" and d: "opened L (pp_unpackHnd p) = opened L (fst d)" "pp_out p = snd d"
  obtains p1 where "OnRTPPacketProcPs L False (int n) T x p = Some p1" "has_bytes L (Suc n) x d p1" "pp_rTimeStamp p1 = T"
proof -
  let ?q = "p\<lparr>pp_rState := 2, pp_rSeq := int n, pp_rTimeStamp := T, pp_rBuf := []\<rparr>"
  obtain cap where k: "keep_payload x ?q = Some (?q\<lparr>pp_rlen := cap, pp_rBuf := x\<rparr>)"
    by (rule keep_payload_small [where p = ?q and x = x]) (use x in simp_all)
  have "OnRTPPacketProcPs L False (int n) T x p = Some (?q\<lparr>pp_rlen := cap, pp_rBuf := x, pp_rState := 1\<rparr>)"
  proof (cases "1 < int n - pp_rSeq p")
    case True
    then show ?thesis using m T k missing_seq [OF m(1) n m(2)]
      by (simp add: OnRTPPacketProcPs_def packet_missing_def Let_def)
  next
    case False
    then have "pp_rState p = 2" using m(1) by (auto simp: packet_missing_def)
    then obtain p0 where "p = p0\<lparr>pp_rState := 2\<rparr>" by (metis pack_proc.surjective pack_proc.update_convs(3) pack_proc.select_convs(3))
    then show ?thesis using m T k missing_seq [OF m(1) n m(2)] False
      by (simp add: OnRTPPacketProcPs_def packet_missing_def Let_def)
  qed
  moreover have "has_bytes L (Suc n) x d (?q\<lparr>pp_rlen := cap, pp_rBuf := x, pp_rState := 1\<rparr>)"
    using d by (simp add: has_bytes_def)
  ultimately show thesis using that by simp
qed

lemma step_lost:
  assumes m: "packet_missing n p" "0 \<le> pp_rSeq p" and n: "n < 2 ^ 30" and T: "mark \<or> pp_rTimeStamp p = T" "pp_rTimeStamp p \<noteq> 0"
  shows "OnRTPPacketProcPs L mark (int n) T x p = Some (p\<lparr>pp_rState := 2, pp_rSeq := int n, pp_rTimeStamp := T, pp_rBuf := []\<rparr>)"
proof -
  have st: "(if 1 < int n - pp_rSeq p then p\<lparr>pp_rState := 2\<rparr> else p) = p\<lparr>pp_rState := 2\<rparr>"
    using m(1) by (auto simp: packet_missing_def)
  show ?thesis
    using m T missing_seq [OF m(1) n m(2)] st by (auto simp: OnRTPPacketProcPs_def packet_missing_def Let_def)
qed

section \<open>One frame\<close>

lemma process_unmarked:
  "process_packets L now (as_received n T (unmarked c # ps)) p =
     (case OnRTPPacketProcPs L False (sint (of_nat n :: u32)) (sint T) c (p\<lparr>pp_curTime := now\<rparr>) of
        None \<Rightarrow> None | Some p1 \<Rightarrow> process_packets L now (as_received (Suc n) T ps) p1)"
  by (simp add: unmarked_def ProcessRTPPacket_def)

lemma process_marked:
  "process_packets L now (as_received n T (marked c # ps)) p =
     (case OnRTPPacketProcPs L True (sint (of_nat n :: u32)) (sint T) c (p\<lparr>pp_curTime := now\<rparr>) of
        None \<Rightarrow> None | Some p1 \<Rightarrow> process_packets L now (as_received (Suc n) (T + 3600) ps) p1)"
  by (simp add: marked_def ProcessRTPPacket_def)

lemma has_bytes_time [simp]: "has_bytes L n b d (p\<lparr>pp_curTime := t\<rparr>) = has_bytes L n b d p"
  by (simp add: has_bytes_def)

lemma run_unmarked:
  assumes "has_bytes L n b d p" "n + length cs < 2 ^ 31" "pp_rTimeStamp p = sint T \<or> pp_rTimeStamp p = 0"
    "length b + length (concat cs) \<le> 2 ^ 30"
  shows "\<exists>p1. process_packets L now (as_received n T (map unmarked cs)) p = Some p1 \<and> has_bytes L (n + length cs) (b @ concat cs) d p1 \<and>
    (pp_rTimeStamp p1 = sint T \<or> pp_rTimeStamp p1 = 0 \<and> cs = [])"
  using assms
proof (induction cs arbitrary: n b p)
  case (Cons c cs)
  have "n < 2 ^ 31" using Cons.prems(2) by simp
  obtain p1 where p1: "OnRTPPacketProcPs L False (int n) (sint T) c (p\<lparr>pp_curTime := now\<rparr>) = Some p1" "has_bytes L (Suc n) (b @ c) d p1"
    "pp_rTimeStamp p1 = sint T"
    by (rule step_continue [of L n b d "p\<lparr>pp_curTime := now\<rparr>" "sint T" c]) (use Cons.prems \<open>n < 2 ^ 31\<close> in simp_all)
  have "\<exists>p2. process_packets L now (as_received (Suc n) T (map unmarked cs)) p1 = Some p2 \<and>
      has_bytes L (Suc n + length cs) ((b @ c) @ concat cs) d p2 \<and> (pp_rTimeStamp p2 = sint T \<or> pp_rTimeStamp p2 = 0 \<and> cs = [])"
    by (rule Cons.IH) (use Cons.prems p1 in simp_all)
  then obtain p2 where p2: "process_packets L now (as_received (Suc n) T (map unmarked cs)) p1 = Some p2"
    "has_bytes L (Suc n + length cs) ((b @ c) @ concat cs) d p2" "pp_rTimeStamp p2 = sint T \<or> pp_rTimeStamp p2 = 0 \<and> cs = []"
    by blast
  have "process_packets L now (as_received n T (map unmarked (c # cs))) p = Some p2"
    unfolding list.map process_unmarked sint_seq [OF \<open>n < 2 ^ 31\<close>] p1(1) option.case by (rule p2(1))
  moreover have "has_bytes L (n + length (c # cs)) (b @ concat (c # cs)) d p2" using p2(2) by simp
  moreover have "pp_rTimeStamp p2 = sint T"
    using p2(1,3) p1(3) by auto
  ultimately show ?case by blast
qed auto

text \<open>The rest of a frame, its last packet included.\<close>

lemma run_frame_rest:
  assumes "has_bytes L n b d p" "n + length cs < 2 ^ 31" "pp_rTimeStamp p = sint T \<or> pp_rTimeStamp p = 0 \<or> length cs = 1"
    "length b + length (concat cs) \<le> 2 ^ 30" "cs \<noteq> []" "b @ concat cs \<noteq> []" "decode_frame L (b @ concat cs) d = Some d1"
  obtains p1 where "process_packets L now (as_received n T (stream_packets 3600 cs)) p = Some p1" "has_bytes L (n + length cs) [] d1 p1"
    "pp_rTimeStamp p1 = sint T"
proof -
  obtain a c where ac: "cs = a @ [c]" using assms(5) by (cases cs rule: rev_cases) auto
  then have cs: "concat cs = concat a @ c" "length cs = Suc (length a)" by simp_all
  obtain p1 where p1: "process_packets L now (as_received n T (map unmarked a)) p = Some p1" "has_bytes L (n + length a) (b @ concat a) d p1"
  proof (cases "a = []")
    case True
    then show thesis using that assms(1) by simp
  next
    case False
    have "pp_rTimeStamp p = sint T \<or> pp_rTimeStamp p = 0" using assms(3) cs(2) False by (cases a) auto
    then show thesis using run_unmarked [OF assms(1), of a T now] that assms(2,4) cs by auto
  qed
  have n: "n + length a < 2 ^ 31" using assms(2) cs(2) by simp
  obtain p2 where p2: "OnRTPPacketProcPs L True (int (n + length a)) (sint T) c (p1\<lparr>pp_curTime := now\<rparr>) = Some p2"
    "has_bytes L (Suc (n + length a)) [] d1 p2" "pp_rTimeStamp p2 = sint T"
    by (rule step_last [of L "n + length a" "b @ concat a" d "p1\<lparr>pp_curTime := now\<rparr>" c d1 "sint T"])
      (use p1(2) n assms(4,6,7) cs(1) in simp_all)
  show thesis
  proof (rule that [OF _ _ p2(3)])
    have "stream_packets 3600 cs = map unmarked a @ [marked c]" unfolding ac by (subst stream_packets_marked) simp_all
    moreover have "process_packets L now (as_received (n + length a) T [marked c]) p1 = Some p2"
      unfolding process_marked sint_seq [OF n] p2(1) by simp
    ultimately show "process_packets L now (as_received n T (stream_packets 3600 cs)) p = Some p2"
      by (simp only: as_received_append process_append p1(1) option.case)
    show "has_bytes L (n + length cs) [] d1 p2" using p2(2) cs(2) by simp
  qed
qed

text \<open>Several packets of a frame from its first one on, when that packet is recognised as a beginning.\<close>

lemma run_from_start:
  assumes "OnRTPPacketProcPs L False (int n) (sint T) c (p\<lparr>pp_curTime := now\<rparr>) = Some p1" "has_bytes L (Suc n) c d p1"
    "pp_rTimeStamp p1 = sint T" "cs \<noteq> []" "c @ concat cs \<noteq> []" "n + Suc (length cs) < 2 ^ 31" "length (c @ concat cs) \<le> 2 ^ 30"
    "decode_frame L (c @ concat cs) d = Some d1"
  obtains p2 where "process_packets L now (as_received n T (stream_packets 3600 (c # cs))) p = Some p2"
    "has_bytes L (n + Suc (length cs)) [] d1 p2" "pp_rTimeStamp p2 = sint T"
proof -
  obtain p2 where p2: "process_packets L now (as_received (Suc n) T (stream_packets 3600 cs)) p1 = Some p2"
    "has_bytes L (Suc n + length cs) [] d1 p2" "pp_rTimeStamp p2 = sint T"
    by (rule run_frame_rest [where L = L and n = "Suc n" and b = c and d = d and p = p1 and cs = cs and T = T and ?d1.0 = d1 and now = now])
      (use assms in simp_all)
  have "n < 2 ^ 31" using assms(6) by simp
  have "stream_packets 3600 (c # cs) = unmarked c # stream_packets 3600 cs" using assms(4) by (simp add: unmarked_def)
  then have "process_packets L now (as_received n T (stream_packets 3600 (c # cs))) p = Some p2"
    by (simp only: process_unmarked sint_seq [OF \<open>n < 2 ^ 31\<close>] assms(1) option.case p2(1))
  then show thesis using that p2(2,3) by simp
qed

lemma run_frame:
  assumes "has_bytes L n [] d p" "n + length (frame_packets f) < 2 ^ 31" "f \<noteq> []" "length f \<le> 2 ^ 30" "decode_frame L f d = Some d1"
  obtains p1 where "process_packets L now (as_received n T (frame_packets f)) p = Some p1"
    "has_bytes L (n + length (frame_packets f)) [] d1 p1" "pp_rTimeStamp p1 = sint T"
proof -
  obtain c cs where c: "chunks 1300 f = c # cs" using assms(3) by (cases "chunks 1300 f") auto
  have "concat (chunks 1300 f) = f" by simp
  then have f: "f = c @ concat cs" using c by simp
  have len: "length (frame_packets f) = Suc (length cs)" using c by (simp add: frame_packets_def flip: length_map [of rp_payload])
  have n: "n < 2 ^ 31" using assms(2) len by simp
  show thesis
  proof (cases "(pp_rTimeStamp p = sint T \<or> pp_rTimeStamp p = 0) \<or> cs = []")
    case True
    obtain p1 where p1: "process_packets L now (as_received n T (stream_packets 3600 (c # cs))) p = Some p1"
      "has_bytes L (n + length (c # cs)) [] d1 p1" "pp_rTimeStamp p1 = sint T"
      by (rule run_frame_rest [where L = L and n = n and b = "[]" and d = d and p = p and cs = "c # cs" and T = T and ?d1.0 = d1 and now = now])
        (use assms True len f in auto)
    then show thesis using that c len by (simp add: frame_packets_def)
  next
    case False
    obtain p1 where p1: "OnRTPPacketProcPs L False (int n) (sint T) c (p\<lparr>pp_curTime := now\<rparr>) = Some p1" "has_bytes L (Suc n) c d p1"
      "pp_rTimeStamp p1 = sint T"
      by (rule step_start [where L = L and n = n and d = d and p = "p\<lparr>pp_curTime := now\<rparr>" and T = "sint T" and x = c])
        (use assms False n f in auto)
    obtain p2 where "process_packets L now (as_received n T (stream_packets 3600 (c # cs))) p = Some p2"
      "has_bytes L (n + Suc (length cs)) [] d1 p2" "pp_rTimeStamp p2 = sint T"
      by (rule run_from_start [OF p1, where cs = cs and ?d1.0 = d1]) (use assms False len f in auto)
    then show thesis using that c len by (simp add: frame_packets_def)
  qed
qed

section \<open>A whole stream\<close>

definition sent_packets :: "bytes \<Rightarrow> rtp_payload_packet list" where
  "sent_packets f = snd (sendPackData (\<lambda>p l. (0, l @ [p])) f [])"

lemma sent_packets_frame: "sent_packets f = frame_packets f"
  by (simp add: sent_packets_def sendPackData_def send_from_chunks)

fun frames_received :: "nat \<Rightarrow> u32 \<Rightarrow> bytes list \<Rightarrow> rtp_in list" where
  "frames_received n T [] = []"
| "frames_received n T (f # fs) =
     as_received n T (sent_packets f) @ frames_received (n + length (sent_packets f)) (T + 3600) fs"

lemma run_frames:
  assumes "has_bytes L n [] d p" "n + length (frames_received n T fs) < 2 ^ 31" "\<forall>f \<in> set fs. f \<noteq> [] \<and> length f \<le> 2 ^ 30"
    "decode_frames L fs d = Some d1"
  shows "\<exists>p1. process_packets L now (frames_received n T fs) p = Some p1 \<and> has_bytes L (n + length (frames_received n T fs)) [] d1 p1"
  using assms
proof (induction fs arbitrary: n T d p)
  case (Cons f fs)
  obtain d2 where d2: "decode_frame L f d = Some d2" "decode_frames L fs d2 = Some d1"
    using Cons.prems(4) by (auto split: option.splits)
  obtain p2 where "process_packets L now (as_received n T (frame_packets f)) p = Some p2"
    "has_bytes L (n + length (frame_packets f)) [] d2 p2"
    by (rule run_frame [where L = L and n = n and d = d and p = p and f = f and ?d1.0 = d2 and T = T and now = now])
      (use Cons.prems d2 in \<open>auto simp: sent_packets_frame\<close>)
  then have p2: "process_packets L now (as_received n T (sent_packets f)) p = Some p2"
    "has_bytes L (n + length (sent_packets f)) [] d2 p2" by (simp_all add: sent_packets_frame)
  have "\<exists>p1. process_packets L now (frames_received (n + length (sent_packets f)) (T + 3600) fs) p2 = Some p1 \<and>
      has_bytes L (n + length (sent_packets f) + length (frames_received (n + length (sent_packets f)) (T + 3600) fs)) [] d1 p1"
    by (rule Cons.IH [OF p2(2) _ _ d2(2)]) (use Cons.prems in auto)
  then show ?case using p2(1) by (auto simp: process_append add.assoc)
qed auto

lemma new_has_bytes: "has_bytes L n [] (None, new_frame_output bev) (new_pack_proc bev t)"
  by (simp add: has_bytes_def new_pack_proc_def)

section \<open>Lost packets\<close>

lemma frame_split:
  assumes "f \<noteq> []"
  obtains a c where "frame_packets f = map unmarked a @ [marked c]" "f = concat a @ c"
    "length (frame_packets f) = Suc (length a)" "chunks 1300 f = a @ [c]"
proof -
  obtain a c where ac: "chunks 1300 f = a @ [c]" using assms by (cases "chunks 1300 f" rule: rev_cases) auto
  moreover have "frame_packets f = map unmarked a @ [marked c]"
    unfolding frame_packets_def ac by (subst stream_packets_marked) simp_all
  moreover have "f = concat (chunks 1300 f)" by simp
  ultimately show thesis using that by simp
qed

lemma run_head:
  assumes b: "has_bytes L n [] d p" and cs: "cs \<noteq> []" "length (concat cs) \<le> 2 ^ 30" and n: "n + length cs < 2 ^ 31"
  obtains p1 where "process_packets L now (as_received n T (map unmarked cs)) p = Some p1" "has_bytes L (n + length cs) (concat cs) d p1"
    "pp_rTimeStamp p1 = sint T"
proof (cases "pp_rTimeStamp p = sint T \<or> pp_rTimeStamp p = 0")
  case True
  then show thesis using run_unmarked [OF b n, of T now] cs that by auto
next
  case False
  obtain c cs' where c: "cs = c # cs'" using cs by (cases cs) auto
  have n1: "n < 2 ^ 31" using n by simp
  obtain p1 where p1: "OnRTPPacketProcPs L False (int n) (sint T) c (p\<lparr>pp_curTime := now\<rparr>) = Some p1" "has_bytes L (Suc n) c d p1"
    "pp_rTimeStamp p1 = sint T"
    by (rule step_start [where L = L and n = n and d = d and p = "p\<lparr>pp_curTime := now\<rparr>" and T = "sint T" and x = c])
      (use b False n1 cs c in auto)
  obtain p2 where "process_packets L now (as_received (Suc n) T (map unmarked cs')) p1 = Some p2"
    "has_bytes L (Suc n + length cs') (c @ concat cs') d p2" "pp_rTimeStamp p2 = sint T"
    using run_unmarked [OF p1(2), of cs' T now] n cs c p1(3) by auto
  then show thesis using that p1(1) c sint_seq [OF n1] by (simp add: process_unmarked del: as_received.simps process_packets.simps)
qed

text \<open>What is left of a frame after a loss.\<close>

lemma run_lost:
  assumes "packet_missing n p" "0 \<le> pp_rSeq p" "n + length cs < 2 ^ 30" "pp_rTimeStamp p = sint T" "sint T \<noteq> 0"
  shows "\<exists>p1. process_packets L now (as_received n T (map unmarked cs @ [marked c])) p = Some p1 \<and> pp_rState p1 = 2 \<and>
    pp_rSeq p1 = int (n + length cs) \<and> pp_rTimeStamp p1 = sint T \<and> pp_unpackHnd p1 = pp_unpackHnd p \<and> pp_out p1 = pp_out p"
  using assms
proof (induction cs arbitrary: n p)
  case Nil
  have "n < 2 ^ 31" using Nil by simp
  have "OnRTPPacketProcPs L True (int n) (sint T) c (p\<lparr>pp_curTime := now\<rparr>) =
      Some (p\<lparr>pp_curTime := now, pp_rState := 2, pp_rSeq := int n, pp_rTimeStamp := sint T, pp_rBuf := []\<rparr>)"
    by (rule step_lost) (use Nil in \<open>simp_all add: packet_missing_def\<close>)
  then show ?case using sint_seq [OF \<open>n < 2 ^ 31\<close>]
    by (simp add: process_marked del: as_received.simps(2) process_packets.simps(2))
next
  case (Cons x cs)
  have n: "n < 2 ^ 31" using Cons.prems by simp
  let ?q = "p\<lparr>pp_curTime := now, pp_rState := 2, pp_rSeq := int n, pp_rTimeStamp := sint T, pp_rBuf := []\<rparr>"
  have s: "OnRTPPacketProcPs L False (int n) (sint T) x (p\<lparr>pp_curTime := now\<rparr>) = Some ?q"
    by (rule step_lost) (use Cons.prems in \<open>simp_all add: packet_missing_def\<close>)
  have "\<exists>p1. process_packets L now (as_received (Suc n) T (map unmarked cs @ [marked c])) ?q = Some p1 \<and> pp_rState p1 = 2 \<and>
    pp_rSeq p1 = int (Suc n + length cs) \<and> pp_rTimeStamp p1 = sint T \<and> pp_unpackHnd p1 = pp_unpackHnd ?q \<and> pp_out p1 = pp_out ?q"
    by (rule Cons.IH) (use Cons.prems in \<open>simp_all add: packet_missing_def\<close>)
  then obtain p1 where p1: "process_packets L now (as_received (Suc n) T (map unmarked cs @ [marked c])) ?q = Some p1" "pp_rState p1 = 2"
    "pp_rSeq p1 = int (Suc n + length cs)" "pp_rTimeStamp p1 = sint T" "pp_unpackHnd p1 = pp_unpackHnd p" "pp_out p1 = pp_out p"
    by auto
  have "process_packets L now (as_received n T (map unmarked (x # cs) @ [marked c])) p = Some p1"
    by (simp only: list.map append_Cons process_unmarked sint_seq [OF n] s option.case p1(1))
  then show ?case using p1(2-) by simp
qed

text \<open>Packets of one frame after a loss, recognised as a beginning by their time stamp.\<close>

lemma run_recover:
  assumes m: "packet_missing n p" "0 \<le> pp_rSeq p" and n: "n + length cs < 2 ^ 30" and T: "pp_rTimeStamp p \<noteq> sint T" "pp_rTimeStamp p \<noteq> 0"
    and h: "opened L (pp_unpackHnd p) = opened L (fst d)" "pp_out p = snd d"
    and cs: "2 \<le> length cs" "concat cs \<noteq> []" "length (concat cs) \<le> 2 ^ 30" and d: "decode_frame L (concat cs) d = Some d1"
  obtains p1 where "process_packets L now (as_received n T (stream_packets 3600 cs)) p = Some p1"
    "has_bytes L (n + length cs) [] d1 p1"
proof -
  obtain c cs' where c: "cs = c # cs'" using cs(1) by (cases cs) auto
  have "cs' \<noteq> []" using cs(1) c by auto
  obtain p1 where p1: "OnRTPPacketProcPs L False (int n) (sint T) c (p\<lparr>pp_curTime := now\<rparr>) = Some p1" "has_bytes L (Suc n) c d p1"
    "pp_rTimeStamp p1 = sint T"
    by (rule step_recover [where L = L and n = n and d = d and p = "p\<lparr>pp_curTime := now\<rparr>" and T = "sint T" and x = c])
      (use m n T h cs c in \<open>auto simp: packet_missing_def\<close>)
  obtain p2 where "process_packets L now (as_received n T (stream_packets 3600 (c # cs'))) p = Some p2"
    "has_bytes L (n + Suc (length cs')) [] d1 p2" "pp_rTimeStamp p2 = sint T"
    by (rule run_from_start [OF p1, where cs = cs' and ?d1.0 = d1]) (use c \<open>cs' \<noteq> []\<close> n cs d in auto)
  then show thesis using that c by simp
qed

lemma drop_chunks: "drop k (chunks m xs) = chunks m (drop (m * k) xs)"
proof (induction k arbitrary: xs)
  case (Suc k)
  show ?case
  proof (cases "xs = [] \<or> m = 0")
    case True
    then show ?thesis by (auto simp: chunks.simps [of 0])
  next
    case False
    then show ?thesis using Suc [of "drop m xs"] by (simp add: chunks_step add.commute)
  qed
qed simp

lemma recovered_frame:
  assumes "packet_missing n p" "0 \<le> pp_rSeq p" "n + length (frame_packets f) < 2 ^ 30"
    "pp_rTimeStamp p \<noteq> sint T" "pp_rTimeStamp p \<noteq> 0" "opened L (pp_unpackHnd p) = opened L (fst d)" "pp_out p = snd d"
    "2 \<le> length (frame_packets f)" "length f \<le> 2 ^ 30" "decode_frame L f d = Some d1"
  obtains p1 where "process_packets L now (as_received n T (frame_packets f)) p = Some p1"
    "has_bytes L (n + length (frame_packets f)) [] d1 p1"
proof -
  have f: "f \<noteq> []" using assms(8) by (auto simp: frame_packets_def)
  have len: "length (frame_packets f) = length (chunks 1300 f)"
    using length_map [of rp_payload "frame_packets f"] by (simp add: frame_packets_def)
  show thesis
    by (rule run_recover [where L = L and n = n and p = p and cs = "chunks 1300 f" and T = T and d = d and ?d1.0 = d1 and now = now])
      (use assms f len that in \<open>auto simp: frame_packets_def\<close>)
qed

section \<open>The stream between the two services\<close>

text \<open>The runs of the library's poll thread, one after the other on the same state, each at its own time with its own
  sources.\<close>

fun poll_runs :: "'h media_library \<Rightarrow> (int \<times> rtp_in list list) list \<Rightarrow> 'h pack_proc \<Rightarrow> 'h pack_proc option" where
  "poll_runs L [] p = Some p"
| "poll_runs L ((now, sources) # runs) p = (case OnPollThreadStep L now sources p of None \<Rightarrow> None | Some p1 \<Rightarrow> poll_runs L runs p1)"

text \<open>The time of a run is only kept in \<open>pp_curTime\<close>: nothing else depends on it.\<close>

definition timed :: "int \<Rightarrow> 'h pack_proc \<Rightarrow> 'h pack_proc" where
  "timed c p = p\<lparr>pp_curTime := c\<rparr>"

lemma timed_fields [simp]: "pp_rSeq (timed c p) = pp_rSeq p" "pp_rTimeStamp (timed c p) = pp_rTimeStamp p" "pp_rState (timed c p) = pp_rState p"
  "pp_rBuf (timed c p) = pp_rBuf p" "pp_rlen (timed c p) = pp_rlen p" "pp_unpackHnd (timed c p) = pp_unpackHnd p" "pp_out (timed c p) = pp_out p"
  by (simp_all add: timed_def)

lemma timed_updates [simp]: "(timed c p)\<lparr>pp_rSeq := a\<rparr> = timed c (p\<lparr>pp_rSeq := a\<rparr>)" "(timed c p)\<lparr>pp_rTimeStamp := a\<rparr> = timed c (p\<lparr>pp_rTimeStamp := a\<rparr>)"
  "(timed c p)\<lparr>pp_rState := s\<rparr> = timed c (p\<lparr>pp_rState := s\<rparr>)" "(timed c p)\<lparr>pp_rBuf := b\<rparr> = timed c (p\<lparr>pp_rBuf := b\<rparr>)"
  "(timed c p)\<lparr>pp_rlen := n\<rparr> = timed c (p\<lparr>pp_rlen := n\<rparr>)" "(timed c p)\<lparr>pp_unpackHnd := h\<rparr> = timed c (p\<lparr>pp_unpackHnd := h\<rparr>)"
  "(timed c p)\<lparr>pp_out := f\<rparr> = timed c (p\<lparr>pp_out := f\<rparr>)" "timed c (p\<lparr>pp_curTime := d\<rparr>) = timed c p" "(timed c p)\<lparr>pp_curTime := d\<rparr> = timed d p"
  by (simp_all add: timed_def)

lemma keep_time: "keep_payload x (timed c p) = map_option (timed c) (keep_payload x p)"
  by (cases "reserve (pp_rlen p) (int (length x) + int (length (pp_rBuf p)))") (simp_all add: keep_payload_def)
lemma demux_time: "demux_buffer L (timed c p) = map_option (timed c) (demux_buffer L p)"
proof (cases "case pp_unpackHnd p of None \<Rightarrow> ml_create L | Some h \<Rightarrow> Some h")
  case None
  then show ?thesis by (simp add: demux_buffer_def)
next
  case (Some h)
  then show ?thesis by (cases "demux_loop L h (pp_rBuf p) 0 (pp_out p)") (auto simp: demux_buffer_def Let_def)
qed

lemma if_timed: "(if b then timed c p else timed c q) = timed c (if b then p else q)"
  by simp

lemma bind_time:
  "(\<And>q. f (timed c q) = map_option (timed c) (g q)) \<Longrightarrow> (map_option (timed c) x \<bind> f) = map_option (timed c) (x \<bind> g)"
  by (cases x) simp_all

lemma proc_time:
  "OnRTPPacketProcPs L mark s ts payload (timed c p) = map_option (timed c) (OnRTPPacketProcPs L mark s ts payload p)"
proof -
  have b: "(x \<bind> (\<lambda>d. f d)) = map_option (timed c) (x \<bind> (\<lambda>d. g d))" if "\<And>d. f d = map_option (timed c) (g d)" for x :: "int option" and f g
    using that by (cases x) simp_all
  show ?thesis
    unfolding OnRTPPacketProcPs_def Let_def
    apply (simp only: timed_fields timed_updates if_timed)
    apply (rule b)
    apply (simp add: if_timed keep_time demux_time)
    apply (auto simp: keep_time demux_time intro!: bind_time)
    done
qed
lemma timed_timed [simp]: "timed a (timed b p) = timed a p"
  by (simp add: timed_def)

lemma packet_time:
  assumes "timed 0 p = timed 0 q"
  shows "map_option (timed 0) (ProcessRTPPacket L now x p) = map_option (timed 0) (ProcessRTPPacket L c x q)"
proof -
  have "p\<lparr>pp_curTime := now\<rparr> = timed now (timed 0 p)" "q\<lparr>pp_curTime := c\<rparr> = timed c (timed 0 q)" by (simp_all add: timed_def)
  then have t: "p\<lparr>pp_curTime := now\<rparr> = timed now (timed 0 q)" "q\<lparr>pp_curTime := c\<rparr> = timed c (timed 0 q)"
    by (simp_all only: assms)
  show ?thesis unfolding ProcessRTPPacket_def Let_def t proc_time using assms
    by (simp add: option.map_comp comp_def)
qed

lemma packets_time:
  "timed 0 p = timed 0 q \<Longrightarrow> map_option (timed 0) (process_packets L now xs p) = map_option (timed 0) (process_packets L c xs q)"
proof (induction xs arbitrary: p q)
  case (Cons x xs)
  then show ?case using packet_time [OF Cons.prems, of L now x c] Cons.IH
    by (cases "ProcessRTPPacket L now x p"; cases "ProcessRTPPacket L c x q") simp_all
qed simp

lemma runs_time:
  "timed 0 p = timed 0 q \<Longrightarrow>
   map_option (timed 0) (poll_runs L runs p) = map_option (timed 0) (process_packets L c (concat (concat (map snd runs))) q)"
proof (induction runs arbitrary: p q)
  case (Cons r runs)
  obtain now sources where r: "r = (now, sources)" by (cases r)
  show ?case using packets_time [OF Cons.prems, of L now "concat sources" c] Cons.IH
    by (cases "process_packets L now (concat sources) p"; cases "process_packets L c (concat sources) q")
      (simp_all add: r OnPollThreadStep_def process_append)
qed simp

lemma runs_split:
  assumes "process_packets L c (concat (concat (map snd runs))) p = Some p1"
  shows "\<exists>p2. poll_runs L runs p = Some p2 \<and> timed 0 p2 = timed 0 p1"
  using runs_time [OF refl, of L runs p c] assms by auto

text \<open>C14: The frames that the subordinate service sends arrive: whatever way the packets of \<open>sendPackData\<close> are spread over
  any number of runs of the library's poll thread, at any times and also in the middle of a frame, and over the sources of a run, the
  supervising service gives its demuxer exactly the frames, whole and in order, and its buffer is empty after the last run. Frames of
  one packet and of many, and any demuxer that uses up what it is given.\<close>

theorem frames_reassembled:
  assumes "concat (concat (map snd runs)) = frames_received n T fs" "n + length (frames_received n T fs) < 2 ^ 31"
    "\<forall>f \<in> set fs. f \<noteq> [] \<and> length f \<le> 2 ^ 30" "decode_frames L fs (None, new_frame_output bev) = Some d"
  shows "\<exists>p. poll_runs L runs (new_pack_proc bev t) = Some p \<and> pp_out p = snd d \<and> pp_rBuf p = []"
proof -
  obtain p1 where "process_packets L 0 (concat (concat (map snd runs))) (new_pack_proc bev t) = Some p1" "pp_out p1 = snd d" "pp_rBuf p1 = []"
    using run_frames [OF new_has_bytes assms(2-4), of 0 t] assms(1) by (auto simp: has_bytes_def)
  with runs_split obtain p2 where "poll_runs L runs (new_pack_proc bev t) = Some p2" "timed 0 p2 = timed 0 p1" by blast
  then show ?thesis using \<open>pp_out p1 = snd d\<close> \<open>pp_rBuf p1 = []\<close> by (metis timed_fields(4,7))
qed

text \<open>C15: A frame with a gap in it never reaches the demuxer. When the first packets of a frame have arrived, at least one after
  them is lost, and any number of the rest arrives, the next frame of several packets is decoded as if the damaged one had not been
  sent.\<close>

theorem damaged_frame_dropped:
  assumes "has_bytes L n [] d p" "0 < j" "j < k" "k \<le> length (sent_packets f)" "length f \<le> 2 ^ 30"
    "xs = as_received n T (sent_packets f)" "ys = as_received (n + length xs) (T + 3600) (sent_packets g)"
    "n + length xs + length ys < 2 ^ 30" "sint T \<noteq> 0" "1300 < length g" "length g \<le> 2 ^ 30" "decode_frame L g d = Some d1"
  shows "\<exists>p1. process_packets L now (take j xs @ drop k xs @ ys) p = Some p1 \<and> pp_out p1 = snd d1 \<and> pp_rBuf p1 = []"
proof -
  have "f \<noteq> []" using assms(2-4) by (auto simp: sent_packets_frame frame_packets_def)
  then obtain a c where ac: "frame_packets f = map unmarked a @ [marked c]" "f = concat a @ c" "length (frame_packets f) = Suc (length a)"
    "chunks 1300 f = a @ [c]"
    by (rule frame_split)
  have len: "length xs = Suc (length a)" "j \<le> length a" "k \<le> Suc (length a)" using assms(3,4,6) ac(3) by (simp_all add: sent_packets_frame)
  have xj: "take j xs = as_received n T (map unmarked (take j a))"
    unfolding assms(6) sent_packets_frame ac(1) take_as_received using len(2) by (simp add: take_map)
  have "concat a = concat (take j a) @ concat (drop j a)" by (metis append_take_drop_id concat_append)
  then have sum: "length (concat (take j a)) \<le> length f" unfolding ac(2) by simp
  obtain p1 where p1: "process_packets L now (take j xs) p = Some p1" "has_bytes L (n + j) (concat (take j a)) d p1" "pp_rTimeStamp p1 = sint T"
    unfolding xj
    by (rule run_head [where L = L and n = n and d = d and p = p and cs = "take j a" and T = T and now = now])
      (use assms(1,2,5,8) sum len in auto)
  have "take j a \<noteq> []" "\<forall>x \<in> set a. x \<noteq> []"
    using assms(2) len(2) chunks_sizes [of _ 1300 f] ac(4) by auto
  then have "concat (take j a) \<noteq> []" by (metis concat_eq_Nil_conv in_set_takeD list.set_sel(1))
  then have seq: "pp_rSeq p1 = int (n + j) - 1" using p1(2) by (auto simp: has_bytes_def)
  let ?m = "n + length xs"
  obtain p2 where p2: "process_packets L now (drop k xs) p1 = Some p2" "packet_missing ?m p2" "0 \<le> pp_rSeq p2"
    "pp_rTimeStamp p2 = sint T" "pp_unpackHnd p2 = pp_unpackHnd p1" "pp_out p2 = pp_out p1"
  proof (cases "k = Suc (length a)")
    case True
    show thesis by (rule that [of p1]) (use True len seq p1 assms(2,3) in \<open>auto simp: packet_missing_def\<close>)
  next
    case False
    then have k: "k \<le> length a" using len(3) by simp
    have "drop k xs = as_received (n + k) T (map unmarked (drop k a) @ [marked c])"
      unfolding assms(6) sent_packets_frame ac(1) by (rule drop_as_received_unmarked [OF k])
    moreover have "\<exists>p2. process_packets L now (as_received (n + k) T (map unmarked (drop k a) @ [marked c])) p1 = Some p2 \<and> pp_rState p2 = 2 \<and>
        pp_rSeq p2 = int (n + k + length (drop k a)) \<and> pp_rTimeStamp p2 = sint T \<and> pp_unpackHnd p2 = pp_unpackHnd p1 \<and> pp_out p2 = pp_out p1"
      by (rule run_lost) (use seq assms(2,3,8,9) p1(3) k len in \<open>auto simp: packet_missing_def\<close>)
    ultimately obtain p2 where "process_packets L now (drop k xs) p1 = Some p2" "pp_rState p2 = 2"
      "pp_rSeq p2 = int (n + k + length (drop k a))" "pp_rTimeStamp p2 = sint T" "pp_unpackHnd p2 = pp_unpackHnd p1" "pp_out p2 = pp_out p1"
      by auto
    then show thesis using k len by (intro that [of p2]) (auto simp: packet_missing_def)
  qed
  have g: "2 \<le> length (frame_packets g)"
    using assms(10) length_map [of rp_payload "frame_packets g"] by (simp add: frame_packets_def length_chunks del: length_map)
  have T: "sint T \<noteq> sint (T + 3600)" by (auto dest: signed_word_eqI)
  obtain p3 where "process_packets L now (as_received ?m (T + 3600) (frame_packets g)) p2 = Some p3" "has_bytes L (?m + length (frame_packets g)) [] d1 p3"
    by (rule recovered_frame [where L = L and n = ?m and p = p2 and f = g and T = "T + 3600" and d = d and ?d1.0 = d1 and now = now])
      (use p2 p1(2) g T assms(7-) in \<open>auto simp: has_bytes_def sent_packets_frame\<close>)
  then show ?thesis
    using p1(1) p2(1) by (auto simp: process_append assms(7) sent_packets_frame has_bytes_def)
qed

text \<open>C27: A loss that swallows the beginning of a frame goes unnoticed: the first packet that arrives after it has a time stamp of
  its own and is taken for the beginning of the frame, so the demuxer is given the frame without its first bytes, and what it makes of them
  goes to the front end.\<close>

theorem headless_frame_decoded:
  assumes "has_bytes L n [] d p" "0 \<le> pp_rSeq p" "0 < k" "k + 1 < length (sent_packets f)" "length f \<le> 2 ^ 30"
    "n + length (sent_packets f) < 2 ^ 30" "pp_rTimeStamp p \<noteq> 0" "pp_rTimeStamp p \<noteq> sint T"
    "decode_frame L (drop (1300 * k) f) d = Some d1"
  shows "\<exists>p1. process_packets L now (drop k (as_received n T (sent_packets f))) p = Some p1 \<and> pp_out p1 = snd d1 \<and> pp_rBuf p1 = []"
proof -
  have "f \<noteq> []" using assms(4) by (auto simp: sent_packets_frame frame_packets_def)
  then obtain a c where ac: "frame_packets f = map unmarked a @ [marked c]" "length (frame_packets f) = Suc (length a)" "chunks 1300 f = a @ [c]"
    by (rule frame_split) simp
  have k: "k \<le> length a" using assms(4) ac(2) by (simp add: sent_packets_frame)
  have h: "frame_packets (drop (1300 * k) f) = map unmarked (drop k a) @ [marked c]"
    unfolding frame_packets_def drop_chunks [symmetric] ac(3) using k by (subst stream_packets_marked) simp_all
  have x: "drop k (as_received n T (sent_packets f)) = as_received (n + k) T (frame_packets (drop (1300 * k) f))"
    unfolding sent_packets_frame ac(1) h by (rule drop_as_received_unmarked [OF k])
  obtain p1 where "process_packets L now (as_received (n + k) T (frame_packets (drop (1300 * k) f))) p = Some p1"
    "has_bytes L (n + k + length (frame_packets (drop (1300 * k) f))) [] d1 p1"
    by (rule recovered_frame [where L = L and n = "n + k" and p = p and f = "drop (1300 * k) f" and T = T and d = d and ?d1.0 = d1 and now = now])
      (use assms ac(2) h k in \<open>auto simp: has_bytes_def packet_missing_def sent_packets_frame\<close>)
  then show ?thesis unfolding x by (auto simp: has_bytes_def)
qed

section \<open>What the front end is given\<close>

text \<open>The pieces that come out of the demuxer, those of one codec and time stamp that follow each other put together.\<close>

fun merge_pieces :: "demuxed list \<Rightarrow> (int \<times> int \<times> bytes) list" where
  "merge_pieces [] = []"
| "merge_pieces (d # ds) =
     (if dx_codec d = 0 then merge_pieces ds
      else case merge_pieces ds of
        [] \<Rightarrow> [(dx_codec d, dx_pts d, dx_data d)]
      | (c, t, b) # gs \<Rightarrow>
          if c = dx_codec d \<and> t = dx_pts d then (c, t, dx_data d @ b) # gs
          else (dx_codec d, dx_pts d, dx_data d) # (c, t, b) # gs)"

text \<open>A frame as the front end sees it: only video, and of H.264 only what begins with a start code.\<close>

definition front_end :: "'h media_library \<Rightarrow> int \<times> int \<times> bytes \<Rightarrow> bytes list" where
  "front_end L g = (case g of (c, t, b) \<Rightarrow>
     if b \<noteq> [] \<and> media_of L c = 2 \<and> (c = ml_STREAM_VIDEO_H264 L \<longrightarrow> nal_type b \<noteq> Some None) then [b] else [])"

lemma code_at_Some: "length cs \<le> length ds \<Longrightarrow> \<exists>b. code_at cs ds = Some b"
  by (induction cs ds rule: code_at.induct) auto

lemma nal_type_Some: "5 \<le> length b \<Longrightarrow> \<exists>r. nal_type b = Some r"
  using code_at_Some [of "[0, 0, 0, 1]" b] code_at_Some [of "[0, 0, 1]" b]
  by (auto simp: nal_type_def)

lemma sent_frame:
  assumes "length b \<le> 2 ^ 30" "c = ml_STREAM_VIDEO_H264 L \<longrightarrow> 5 \<le> length b" "b \<noteq> []" "fo_bev o1"
  obtains r o2 n where "SendPacket L (media_of L c) b c o1 = Some (r, o2)"
    "map snd (fo_written o2) = map snd (fo_written o1) @ front_end L (c, t, b)"
    "o2 = o1\<lparr>fo_count := n, fo_written := fo_written o2\<rparr>"
proof -
  have i: "int32 (20 + int (length b)) = Some (20 + int (length b))" using assms(1) by (simp add: int32_def)
  consider (other) "media_of L c \<noteq> 2" | (plain) "media_of L c = 2" "c \<noteq> ml_STREAM_VIDEO_H264 L"
    | (bad) "media_of L c = 2" "c = ml_STREAM_VIDEO_H264 L" "nal_type b = Some None"
    | (good) nal where "media_of L c = 2" "c = ml_STREAM_VIDEO_H264 L" "nal_type b = Some (Some nal)"
    using nal_type_Some [of b] assms(2) by (metis not_None_eq)
  then show thesis
  proof cases
    case other
    show thesis by (rule that [where ?o2.0 = o1 and n = "fo_count o1"]) (use other i in \<open>simp_all add: SendPacket_def front_end_def Let_def\<close>)
  next
    case plain
    show thesis
      by (rule that [where n = "fo_count o1"]) (use plain i assms(3,4) in \<open>auto simp: SendPacket_def front_end_def Let_def\<close>)
  next
    case bad
    show thesis by (rule that [where ?o2.0 = o1 and n = "fo_count o1"]) (use bad i in \<open>simp_all add: SendPacket_def front_end_def Let_def\<close>)
  next
    case good
    obtain h n where k: "(if nal = 7 then key_frame_header L b c (fo_count o1) (no_header\<lparr>sh_length := int (length b), sh_type := 2\<rparr>)
      else (no_header\<lparr>sh_length := int (length b), sh_type := 2\<rparr>, fo_count o1)) = (h, n)" by fastforce
    show thesis
      by (rule that [where n = n and r = 0 and ?o2.0 = "o1\<lparr>fo_count := n, fo_written := fo_written o1 @ [(h, b)]\<rparr>"])
        (use good k i assms(3,4) in \<open>auto simp: SendPacket_def front_end_def Let_def split: if_splits\<close>)
  qed
qed

lemma merge_same:
  "dx_codec d = c \<Longrightarrow> dx_pts d = t \<Longrightarrow> c \<noteq> 0 \<Longrightarrow>
   merge_pieces (\<lparr>dx_codec = c, dx_flags = x, dx_pts = t, dx_data = b\<rparr> # d # ds) =
   merge_pieces (\<lparr>dx_codec = c, dx_flags = y, dx_pts = t, dx_data = b @ dx_data d\<rparr> # ds)"
  by (auto split: list.split)

lemma merge_new:
  "dx_codec d \<noteq> 0 \<Longrightarrow> c \<noteq> 0 \<Longrightarrow> \<not> (c = dx_codec d \<and> t = dx_pts d) \<Longrightarrow>
   merge_pieces (\<lparr>dx_codec = c, dx_flags = x, dx_pts = t, dx_data = b\<rparr> # d # ds) = (c, t, b) # merge_pieces (d # ds)"
  by (auto split: list.split)

lemma merge_fields:
  "merge_pieces (d # ds) = merge_pieces (\<lparr>dx_codec = dx_codec d, dx_flags = 0, dx_pts = dx_pts d, dx_data = dx_data d\<rparr> # ds)"
  by (auto split: list.split)

lemma merge_nonempty: "dx_codec d \<noteq> 0 \<Longrightarrow> merge_pieces (d # ds) \<noteq> []"
  by (auto split: list.split)

lemma callbacks_merge:
  assumes "o1 = o0\<lparr>fo_sCodec := c, fo_sPts := t, fo_sBuf := b\<rparr>" "c \<noteq> 0" "fo_bev o0"
    "length b + (\<Sum>d\<leftarrow>ds. length (dx_data d)) \<le> 2 ^ 30"
    "gs = merge_pieces (\<lparr>dx_codec = c, dx_flags = 0, dx_pts = t, dx_data = b\<rparr> # ds)"
    "\<forall>(c, t, b) \<in> set (butlast gs). c = ml_STREAM_VIDEO_H264 L \<longrightarrow> 5 \<le> length b"
  shows "\<exists>o2. callbacks L ds o1 = Some o2 \<and> map snd (fo_written o2) = map snd (fo_written o1) @ concat (map (front_end L) (butlast gs))"
  using assms
proof (induction ds arbitrary: c t b o0 o1 gs)
  case (Cons d ds)
  consider (unknown) "dx_codec d = 0" | (same) "dx_codec d \<noteq> 0" "c = dx_codec d" "t = dx_pts d"
    | (change) "dx_codec d \<noteq> 0" "\<not> (c = dx_codec d \<and> t = dx_pts d)" by blast
  then show ?case
  proof cases
    case unknown
    have "\<exists>o2. callbacks L ds o1 = Some o2 \<and> map snd (fo_written o2) = map snd (fo_written o1) @ concat (map (front_end L) (butlast gs))"
      by (rule Cons.IH [OF Cons.prems(1-3) _ _ Cons.prems(6)]) (use Cons.prems unknown in simp_all)
    then show ?thesis using unknown by (simp add: ps_demux_callback_def)
  next
    case same
    obtain cap where "reserve (fo_slen o0) (int (length b) + int (length (dx_data d))) = Some cap"
      using reserve_small [of "int (length b) + int (length (dx_data d))" "fo_slen o0"] Cons.prems(4) by auto
    then have cb: "ps_demux_callback L d o1 =
        Some (o0\<lparr>fo_slen := cap, fo_sKeyFrame := dx_flags d, fo_sCodec := c, fo_sPts := t, fo_sBuf := b @ dx_data d\<rparr>)" (is "_ = Some ?o2")
      using same Cons.prems(1,2) by (simp add: ps_demux_callback_def)
    have "\<exists>o2. callbacks L ds ?o2 = Some o2 \<and> map snd (fo_written o2) = map snd (fo_written ?o2) @ concat (map (front_end L) (butlast gs))"
      by (rule Cons.IH [OF refl Cons.prems(2) _ _ _ Cons.prems(6)])
        (use Cons.prems same merge_same [of d c t 0 b ds 0] in simp_all)
    then show ?thesis using cb Cons.prems(1) by simp
  next
    case change
    let ?gs = "merge_pieces (d # ds)"
    have gs: "gs = (c, t, b) # ?gs" unfolding Cons.prems(5) by (rule merge_new [OF change(1) Cons.prems(2) change(2)])
    have ne: "?gs \<noteq> []" by (rule merge_nonempty [OF change(1)])
    obtain o2 where o2: "(if fo_sBuf o1 \<noteq> [] then do { (_, o2) \<leftarrow> SendPacket L (media_of L (fo_sCodec o1)) (fo_sBuf o1) (fo_sCodec o1) o1; Some o2 } else Some o1) = Some o2"
      "map snd (fo_written o2) = map snd (fo_written o1) @ front_end L (c, t, b)" "fo_bev o2"
    proof (cases "b = []")
      case True
      then show thesis using Cons.prems(1,3) by (intro that [of o1]) (simp_all add: front_end_def)
    next
      case False
      obtain r o2 n where o2: "SendPacket L (media_of L c) b c o1 = Some (r, o2)"
        "map snd (fo_written o2) = map snd (fo_written o1) @ front_end L (c, t, b)" "o2 = o1\<lparr>fo_count := n, fo_written := fo_written o2\<rparr>"
        by (rule sent_frame [of b c L o1 t]) (use Cons.prems(1,3,4,6) False gs ne in auto)
      have "fo_bev o2" using Cons.prems(1,3) by (subst o2(3)) simp
      then show thesis using that [of o2] o2(1,2) False Cons.prems(1) by simp
    qed
    obtain cap where "reserve (fo_slen o2) (int (length (dx_data d))) = Some cap"
      using reserve_small [of "int (length (dx_data d))" "fo_slen o2"] Cons.prems(4) by auto
    then have cb: "ps_demux_callback L d o1 = Some (o2\<lparr>fo_slen := cap, fo_sKeyFrame := dx_flags d, fo_sCodec := dx_codec d,
        fo_sPts := dx_pts d, fo_sBuf := dx_data d\<rparr>)" (is "_ = Some ?o3")
      unfolding ps_demux_callback_def o2(1) using change Cons.prems(1) by auto
    have "\<exists>o4. callbacks L ds ?o3 = Some o4 \<and> map snd (fo_written o4) = map snd (fo_written ?o3) @ concat (map (front_end L) (butlast ?gs))"
    proof (rule Cons.IH [OF refl change(1)])
      show "?gs = merge_pieces (\<lparr>dx_codec = dx_codec d, dx_flags = 0, dx_pts = dx_pts d, dx_data = dx_data d\<rparr> # ds)" by (rule merge_fields)
    qed (use Cons.prems(4,6) gs ne o2(3) in simp_all)
    then show ?thesis using cb o2(2) gs ne by simp
  qed
qed simp

text \<open>C20: Of what comes out of the demuxer the front end gets the video frames, each whole, once and in order: the pieces of
  one codec and time stamp put together, audio and unknown codecs left out, H.264 only when it begins with a start code. The last
  frame stays in the buffer until the next one begins.\<close>

theorem front_end_frames:
  assumes "(\<Sum>d\<leftarrow>ds. length (dx_data d)) \<le> 2 ^ 30"
    "\<forall>(c, t, b) \<in> set (butlast (merge_pieces ds)). c = ml_STREAM_VIDEO_H264 L \<longrightarrow> 5 \<le> length b"
  shows "\<exists>o2. callbacks L ds (new_frame_output True) = Some o2 \<and>
    map snd (fo_written o2) = concat (map (front_end L) (butlast (merge_pieces ds)))"
  using assms
proof (induction ds)
  case (Cons d ds)
  show ?case
  proof (cases "dx_codec d = 0")
    case True
    then show ?thesis using Cons by (simp add: ps_demux_callback_def)
  next
    case False
    obtain cap where "reserve (10 * 1024) (int (length (dx_data d))) = Some cap"
      using reserve_small [of "int (length (dx_data d))" "10 * 1024"] Cons.prems(1) by auto
    then have cb: "ps_demux_callback L d (new_frame_output True) = Some ((new_frame_output True)\<lparr>fo_slen := cap, fo_sKeyFrame := dx_flags d,
        fo_sCodec := dx_codec d, fo_sPts := dx_pts d, fo_sBuf := dx_data d\<rparr>)" (is "_ = Some ?o2")
      using False by (simp add: ps_demux_callback_def new_frame_output_def)
    have "\<exists>o2. callbacks L ds ?o2 = Some o2 \<and>
        map snd (fo_written o2) = map snd (fo_written ?o2) @ concat (map (front_end L) (butlast (merge_pieces (d # ds))))"
    proof (rule callbacks_merge [OF refl False])
      show "merge_pieces (d # ds) = merge_pieces (\<lparr>dx_codec = dx_codec d, dx_flags = 0, dx_pts = dx_pts d, dx_data = dx_data d\<rparr> # ds)" by (rule merge_fields)
    qed (use Cons.prems in \<open>simp_all add: new_frame_output_def\<close>)
    then show ?thesis using cb by (simp add: new_frame_output_def)
  qed
qed (simp add: new_frame_output_def)

section \<open>A sample run\<close>

text \<open>A demuxer that gives every buffer out as one H.264 piece, with the length for a time stamp.\<close>

definition sample_demuxer :: "unit media_library" where
  "sample_demuxer = \<lparr>ml_create = Some (),
     ml_input = (\<lambda>h bs. (int (length bs), [\<lparr>dx_codec = 27, dx_flags = 0, dx_pts = int (length bs), dx_data = bs\<rparr>], h)),
     ml_STREAM_VIDEO_H264 = 27, ml_STREAM_VIDEO_H265 = 36, ml_STREAM_AUDIO_AAC = 15, ml_STREAM_AUDIO_G711A = 144,
     ml_STREAM_AUDIO_G711U = 145, ml_sps = (\<lambda>_. None), ml_configure_parse = (\<lambda>_. None)\<rparr>"

definition sample_slice :: bytes where
  "sample_slice = [0, 0, 0, 1, 0x65]"

lemma length_sent_packets [simp]: "length (sent_packets f) = (length f + 1299) div 1300"
  using length_map [of rp_payload "frame_packets f"] by (simp add: sent_packets_frame frame_packets_def length_chunks del: length_map)

lemma sample_decode:
  assumes "f \<noteq> []"
  shows "decode_frame sample_demuxer f d = map_option (Pair (Some ()))
    (callbacks sample_demuxer [\<lparr>dx_codec = 27, dx_flags = 0, dx_pts = int (length f), dx_data = f\<rparr>] (snd d))"
proof -
  have "demux_loop sample_demuxer () [] r o1 = Some (r, [], (), o1)" for r o1 by (subst demux_loop.simps) simp
  moreover have "opened sample_demuxer (fst d) = Some ()" by (cases "fst d") (auto simp: opened_def sample_demuxer_def)
  ultimately show ?thesis using assms
    by (auto simp: decode_frame_def demux_loop.simps [of _ _ f] sample_demuxer_def split: option.splits)
qed

lemma sample_first:
  assumes "f \<noteq> []" "length f \<le> 10240"
  shows "decode_frame sample_demuxer f (h, new_frame_output bev) =
    Some (Some (), (new_frame_output bev)\<lparr>fo_sBuf := f, fo_sPts := int (length f), fo_sCodec := 27\<rparr>)"
  using assms by (simp add: sample_decode ps_demux_callback_def new_frame_output_def reserve_def int32_def)

lemma sample_stream:
  "decode_frames sample_demuxer [sample_slice, replicate 2600 0] (None, new_frame_output True) =
     Some (Some (), (new_frame_output True)\<lparr>fo_sBuf := replicate 2600 0, fo_sPts := 2600, fo_sCodec := 27,
       fo_written := [(no_header\<lparr>sh_length := 5, sh_type := 2\<rparr>, sample_slice)]\<rparr>)"
proof -
  let ?o = "(new_frame_output True)\<lparr>fo_sBuf := sample_slice, fo_sPts := 5, fo_sCodec := 27\<rparr>"
  have "SendPacket sample_demuxer (media_of sample_demuxer 27) sample_slice 27 ?o =
      Some (0, ?o\<lparr>fo_written := [(no_header\<lparr>sh_length := 5, sh_type := 2\<rparr>, sample_slice)]\<rparr>)"
    by (simp add: SendPacket_def media_of_def sample_demuxer_def nal_type_def sample_slice_def int32_def new_frame_output_def Let_def)
  then have "decode_frame sample_demuxer (replicate 2600 0) (Some (), ?o) = Some (Some (), (new_frame_output True)\<lparr>fo_sBuf := replicate 2600 0,
      fo_sPts := 2600, fo_sCodec := 27, fo_written := [(no_header\<lparr>sh_length := 5, sh_type := 2\<rparr>, sample_slice)]\<rparr>)"
    by (simp add: sample_decode ps_demux_callback_def reserve_def int32_def new_frame_output_def) (simp add: sample_slice_def)
  moreover have "decode_frame sample_demuxer sample_slice (None, new_frame_output True) = Some (Some (), ?o)"
    by (subst sample_first) (simp_all add: sample_slice_def)
  ultimately show ?thesis by simp
qed

lemma frames_reassembled_witness:
  "\<exists>p. poll_runs sample_demuxer [(9, []), (10, [take 2 (frames_received 7 3600 [sample_slice, replicate 2600 0]), []]),
       (11, [drop 2 (frames_received 7 3600 [sample_slice, replicate 2600 0])])] (new_pack_proc True 0) = Some p \<and>
     fo_written (pp_out p) = [(no_header\<lparr>sh_length := 5, sh_type := 2\<rparr>, sample_slice)] \<and> pp_rBuf p = []"
  using frames_reassembled [OF _ _ _ sample_stream, of "[(9, []), (10, [take 2 (frames_received 7 3600 [sample_slice, replicate 2600 0]), []]),
       (11, [drop 2 (frames_received 7 3600 [sample_slice, replicate 2600 0])])]" 7 3600 0]
  by (auto simp: sample_slice_def)

lemma damaged_frame_dropped_witness:
  "\<exists>p1. process_packets sample_demuxer 9
      (take 1 (as_received 7 3600 (sent_packets (replicate 5000 1))) @ drop 3 (as_received 7 3600 (sent_packets (replicate 5000 1))) @
       as_received 11 7200 (sent_packets (replicate 2600 0))) (new_pack_proc True 0) = Some p1 \<and>
     fo_sBuf (pp_out p1) = replicate 2600 0 \<and> pp_rBuf p1 = []"
  using damaged_frame_dropped [where L = sample_demuxer and n = 7 and T = 3600 and d = "(None, new_frame_output True)" and j = 1 and k = 3
      and f = "replicate 5000 1" and g = "replicate 2600 0" and p = "new_pack_proc True 0" and now = 9, OF new_has_bytes _ _ _ _ refl refl _ _ _ _ sample_first]
  by auto

lemma headless_frame_decoded_witness:
  "\<exists>p1. process_packets sample_demuxer 9 (drop 1 (as_received 7 3600 (sent_packets (replicate 5000 1))))
      ((new_pack_proc True 0)\<lparr>pp_rSeq := 6, pp_rTimeStamp := 10\<rparr>) = Some p1 \<and>
     fo_sBuf (pp_out p1) = replicate 3700 1 \<and> pp_rBuf p1 = []"
  using headless_frame_decoded [where L = sample_demuxer and n = 7 and T = 3600 and d = "(None, new_frame_output True)" and k = 1
      and f = "replicate 5000 1" and p = "(new_pack_proc True 0)\<lparr>pp_rSeq := 6, pp_rTimeStamp := 10\<rparr>" and now = 9,
      OF _ _ _ _ _ _ _ _ sample_first]
  by (auto simp: has_bytes_def new_pack_proc_def)

definition sample_pieces :: "demuxed list" where
  "sample_pieces = [\<lparr>dx_codec = 27, dx_flags = 1, dx_pts = 3600, dx_data = [0, 0, 1]\<rparr>, \<lparr>dx_codec = 27, dx_flags = 1, dx_pts = 3600, dx_data = [0x41, 7]\<rparr>,
     \<lparr>dx_codec = 15, dx_flags = 0, dx_pts = 3600, dx_data = [9, 9, 9, 9, 9]\<rparr>, \<lparr>dx_codec = 27, dx_flags = 0, dx_pts = 7200, dx_data = [0, 0, 1]\<rparr>]"

lemma front_end_frames_witness:
  "\<exists>o2. callbacks sample_demuxer sample_pieces (new_frame_output True) = Some o2 \<and> map snd (fo_written o2) = [[0, 0, 1, 0x41, 7]]"
  using front_end_frames [of sample_pieces sample_demuxer]
  by (simp add: sample_pieces_def sample_demuxer_def front_end_def media_of_def nal_type_def at_def)

end
