(* ===== verification/LegacyPlayback.thy ===== *)
theory LegacyPlayback
  imports LegacyStream
begin

text \<open>
  What the historical subordinate service plays: the stream file it reads frame by frame (\<open>recvFrame\<close> of
  \<open>src/SipSubService/src/SipGbPlay.cpp\<close>), the window of a playback, and the way of a frame through the program stream muxer to
  the packets (\<open>incomeVideoData\<close>, \<open>onPsPacket\<close>, \<open>sendPackData\<close> of \<open>Gb28181Session.cpp\<close>).

  The muxer is a library that is not in the repository. The clock, the time of the last receiver report and the stop flag, as they
  are when the frame number \<open>k\<close> is looked at, are a function of \<open>k\<close>. \<open>None\<close> is an exception or the overflow of an \<open>int\<close>.
\<close>

section \<open>The muxer and the stream\<close>

record 'm muxer =
  mx_add_stream :: "int \<Rightarrow> 'm \<Rightarrow> int \<times> 'm"
  mx_input :: "int \<Rightarrow> int \<Rightarrow> int \<Rightarrow> int \<Rightarrow> bytes \<Rightarrow> 'm \<Rightarrow> int \<times> bytes list \<times> 'm"
  mx_STREAM_VIDEO_H264 :: int

record 'm ps_code =
  pc_muxer :: 'm
  pc_avStreamIndex :: int
  pc_rtpRRTime :: int
  pc_stopFlag :: bool
  pc_sent :: "rtp_payload_packet list"

text \<open>\<open>CheckAlive\<close>: the time of the last report after it, and whether ten seconds have passed without one.\<close>

definition CheckAlive :: "int \<Rightarrow> int \<Rightarrow> int \<times> bool" where
  "CheckAlive now rr = (let rr1 = (if rr = 0 then now else rr) in (rr1, 10 < now - rr1))"

text \<open>The packets of the muxer's callback, sent one after the other.\<close>

definition on_ps_packets :: "bytes list \<Rightarrow> rtp_payload_packet list \<Rightarrow> rtp_payload_packet list" where
  "on_ps_packets ps l = foldl (\<lambda>l p. snd (sendPackData (\<lambda>p l. (0, l @ [p])) p l)) l ps"

definition incomeVideoData :: "'m muxer \<Rightarrow> int \<Rightarrow> bytes \<Rightarrow> int \<Rightarrow> int \<Rightarrow> 'm ps_code \<Rightarrow> int \<times> 'm ps_code" where
  "incomeVideoData M now avdata pts isIframe s =
     (let s1 = (if pc_avStreamIndex s = - 1
                then (case mx_add_stream M (mx_STREAM_VIDEO_H264 M) (pc_muxer s) of (i, m) \<Rightarrow> s\<lparr>pc_muxer := m, pc_avStreamIndex := i\<rparr>)
                else s);
          (rr, dead) = CheckAlive now (pc_rtpRRTime s1);
          s2 = s1\<lparr>pc_rtpRRTime := rr\<rparr>
      in if dead then (- 1, s2\<lparr>pc_stopFlag := True\<rparr>)
         else (case mx_input M (pc_avStreamIndex s2) isIframe (pts * 90) (pts * 90) avdata (pc_muxer s2) of
                 (ret, ps, m) \<Rightarrow> (ret, s2\<lparr>pc_muxer := m, pc_sent := on_ps_packets ps (pc_sent s2)\<rparr>)))"

section \<open>The stream file\<close>

text \<open>An \<open>int\<close> of the file's header, least byte first.\<close>

definition le32 :: "bytes \<Rightarrow> nat \<Rightarrow> int" where
  "le32 h i = sint (ucast (h ! i) OR push_bit 8 (ucast (h ! (i + 1))) OR push_bit 16 (ucast (h ! (i + 2))) OR push_bit 24 (ucast (h ! (i + 3))) :: u32)"

text \<open>The window in milliseconds, when the call is a playback.\<close>

definition playback_window :: "int \<Rightarrow> int \<Rightarrow> (int \<times> int) option option" where
  "playback_window sTime eTime =
     (if 0 \<le> sTime \<and> 0 < eTime then do {
        a \<leftarrow> int32 (sTime * 1000);
        b \<leftarrow> int32 (eTime * 1000);
        Some (Some (a, b)) }
      else Some None)"

text \<open>The loop: it ends when the stop flag is set, at a frame after the window, or when a read has met the end of the file. \<open>junk\<close> fills
  what a read at the end of the file leaves of a frame's buffer. The flag of the result tells that the stop flag ended it.\<close>

function recv_loop ::
  "'m muxer \<Rightarrow> (nat \<Rightarrow> int \<times> int option \<times> bool) \<Rightarrow> (nat \<Rightarrow> byte) \<Rightarrow> (int \<times> int) option \<Rightarrow> nat \<Rightarrow> bytes \<Rightarrow> 'm ps_code \<Rightarrow> (bool \<times> 'm ps_code) option" where
  "recv_loop M env junk window k rest s =
     (case env k of (now, report, bye) \<Rightarrow>
        let s = s\<lparr>pc_rtpRRTime := (case report of None \<Rightarrow> pc_rtpRRTime s | Some t \<Rightarrow> t), pc_stopFlag := pc_stopFlag s \<or> bye\<rparr>
        in if pc_stopFlag s then Some (True, s)
           else
             let header = take 16 rest @ replicate (16 - length rest) 0;
                 body = drop 16 rest;
                 len = le32 header 8;
                 pts = le32 header 4;
                 data = take (nat len) body @ map junk [length body..<nat len];
                 eof = (length rest < 16 \<or> length body < nat len);
                 more = (\<lambda>s. if eof then Some (False, s) else recv_loop M env junk window (k + 1) (drop (nat len) body) s)
             in if len < 0 then None
                else if header ! 0 = 2 then
                  (case window of
                     None \<Rightarrow> more (snd (incomeVideoData M now data pts (le32 header 12) s))
                   | Some (a, b) \<Rightarrow>
                       if pts < a then more s
                       else if b < pts then Some (False, s)
                       else more (snd (incomeVideoData M now data pts (le32 header 12) s)))
                else more s)"
  by pat_completeness auto
termination by (relation "measure (\<lambda>(_, _, _, _, _, rest, _). length rest)") auto

declare recv_loop.simps [simp del]

definition recvFrame ::
  "'m muxer \<Rightarrow> (nat \<Rightarrow> int \<times> int option \<times> bool) \<Rightarrow> (nat \<Rightarrow> byte) \<Rightarrow> int \<Rightarrow> int \<Rightarrow> bytes option \<Rightarrow> 'm ps_code \<Rightarrow> (int \<times> 'm ps_code) option" where
  "recvFrame M env junk sTime eTime file s =
     (case file of
        None \<Rightarrow> Some (- 1, s)
      | Some bs \<Rightarrow> do {
          window \<leftarrow> playback_window sTime eTime;
          (_, s1) \<leftarrow> recv_loop M env junk window 0 bs s;
          Some (0, s1) })"

section \<open>A file of frames\<close>

record file_frame =
  ff_type :: byte
  ff_pts :: int
  ff_keyFrame :: int
  ff_data :: bytes

definition le_bytes :: "int \<Rightarrow> bytes" where
  "le_bytes v = (let w = word_of_int v :: u32 in [ucast w, ucast (drop_bit 8 w), ucast (drop_bit 16 w), ucast (drop_bit 24 w)])"

definition header_bytes :: "file_frame \<Rightarrow> bytes" where
  "header_bytes f = [ff_type f, 0, 0, 0] @ le_bytes (ff_pts f) @ le_bytes (int (length (ff_data f))) @ le_bytes (ff_keyFrame f)"

definition frame_ok :: "file_frame \<Rightarrow> bool" where
  "frame_ok f \<longleftrightarrow> int32 (ff_pts f) \<noteq> None \<and> int32 (ff_keyFrame f) \<noteq> None \<and> length (ff_data f) < 2 ^ 31"

lemma length_le_bytes [simp]: "length (le_bytes v) = 4"
  by (simp add: le_bytes_def Let_def)

lemma length_header_bytes [simp]: "length (header_bytes f) = 16"
  by (simp add: header_bytes_def)

lemma u32_of_bytes:
  "ucast (ucast w :: byte) OR push_bit 8 (ucast (ucast (drop_bit 8 w) :: byte)) OR push_bit 16 (ucast (ucast (drop_bit 16 w) :: byte)) OR
   push_bit 24 (ucast (ucast (drop_bit 24 w) :: byte)) = (w :: u32)"
proof (rule bit_word_eqI)
  fix n assume "n < LENGTH(32)"
  then consider "n < 8" | "8 \<le> n" "n < 16" | "16 \<le> n" "n < 24" | "24 \<le> n" "n < 32" by fastforce
  then show "bit (ucast (ucast w :: byte) OR push_bit 8 (ucast (ucast (drop_bit 8 w) :: byte)) OR push_bit 16 (ucast (ucast (drop_bit 16 w) :: byte)) OR
   push_bit 24 (ucast (ucast (drop_bit 24 w) :: byte)) :: u32) n = bit w n"
    by cases (auto simp: bit_simps)
qed

lemma le32_bytes:
  assumes "int32 v \<noteq> None" "length xs = i"
  shows "le32 (xs @ le_bytes v @ ys) i = v"
proof -
  have "le32 (xs @ le_bytes v @ ys) i = sint (word_of_int v :: u32)"
    using assms(2) by (auto simp: le32_def le_bytes_def Let_def nth_append u32_of_bytes)
  then show ?thesis using assms(1) by (auto simp: int32_def sint_sbintrunc' signed_take_bit_int_eq_self split: if_splits)
qed

lemma header_fields:
  assumes "frame_ok f"
  shows "header_bytes f ! 0 = ff_type f" "le32 (header_bytes f) 4 = ff_pts f" "le32 (header_bytes f) 8 = int (length (ff_data f))"
    "le32 (header_bytes f) 12 = ff_keyFrame f"
proof -
  have len: "int32 (int (length (ff_data f))) \<noteq> None" using assms by (simp add: frame_ok_def int32_def)
  show "header_bytes f ! 0 = ff_type f" by (simp add: header_bytes_def)
  show "le32 (header_bytes f) 4 = ff_pts f"
    using le32_bytes [of "ff_pts f" "[ff_type f, 0, 0, 0]" 4] assms by (simp add: header_bytes_def frame_ok_def)
  show "le32 (header_bytes f) 8 = int (length (ff_data f))"
    using le32_bytes [OF len, of "[ff_type f, 0, 0, 0] @ le_bytes (ff_pts f)" 8] by (simp add: header_bytes_def)
  show "le32 (header_bytes f) 12 = ff_keyFrame f"
    using le32_bytes [of "ff_keyFrame f" "[ff_type f, 0, 0, 0] @ le_bytes (ff_pts f) @ le_bytes (int (length (ff_data f)))" 12 "[]"] assms
    by (simp add: header_bytes_def frame_ok_def)
qed

text \<open>The frames that are played.\<close>

definition after_window :: "(int \<times> int) option \<Rightarrow> file_frame \<Rightarrow> bool" where
  "after_window window f = (case window of None \<Rightarrow> False | Some (a, b) \<Rightarrow> ff_type f = 2 \<and> a \<le> ff_pts f \<and> b < ff_pts f)"

definition in_window :: "(int \<times> int) option \<Rightarrow> file_frame \<Rightarrow> bool" where
  "in_window window f = (ff_type f = 2 \<and> (case window of None \<Rightarrow> True | Some (a, b) \<Rightarrow> a \<le> ff_pts f))"

definition played :: "(int \<times> int) option \<Rightarrow> file_frame list \<Rightarrow> file_frame list" where
  "played window fs = filter (in_window window) (takeWhile (\<lambda>f. \<not> after_window window f) fs)"

text \<open>A frame through the muxer: the muxer, the index of its stream and what was sent.\<close>

fun mux_frame :: "'m muxer \<Rightarrow> 'm \<times> int \<times> rtp_payload_packet list \<Rightarrow> file_frame \<Rightarrow> 'm \<times> int \<times> rtp_payload_packet list" where
  "mux_frame M (m, i, l) f =
     (let (i1, m1) = (if i = - 1 then mx_add_stream M (mx_STREAM_VIDEO_H264 M) m else (i, m));
          (ret, ps, m2) = mx_input M i1 (ff_keyFrame f) (ff_pts f * 90) (ff_pts f * 90) (ff_data f) m1
      in (m2, i1, l @ concat (map frame_packets ps)))"

definition mux_state :: "'m ps_code \<Rightarrow> 'm \<times> int \<times> rtp_payload_packet list" where
  "mux_state s = (pc_muxer s, pc_avStreamIndex s, pc_sent s)"

lemma on_ps_packets_frames: "on_ps_packets ps l = l @ concat (map frame_packets ps)"
proof -
  have "snd (sendPackData (\<lambda>p l. (0, l @ [p])) p l) = l @ frame_packets p" for p l
    by (simp add: sendPackData_def send_from_chunks)
  then show ?thesis by (induction ps arbitrary: l) (simp_all add: on_ps_packets_def)
qed

lemma income_alive:
  assumes "pc_rtpRRTime s = now" "now \<noteq> 0" "\<not> pc_stopFlag s"
  shows "mux_state (snd (incomeVideoData M now (ff_data f) (ff_pts f) (ff_keyFrame f) s)) = mux_frame M (mux_state s) f"
    "\<not> pc_stopFlag (snd (incomeVideoData M now (ff_data f) (ff_pts f) (ff_keyFrame f) s))"
  using assms by (auto simp: incomeVideoData_def CheckAlive_def mux_state_def on_ps_packets_frames Let_def split: prod.split)

lemma recv_frame:
  fixes s :: "'m ps_code"
  assumes "frame_ok f" "env k = (now, Some now, False)" "now \<noteq> 0" "\<not> pc_stopFlag s"
  obtains s1 where "\<not> pc_stopFlag s1" "mux_state s1 = (if in_window window f \<and> \<not> after_window window f then mux_frame M (mux_state s) f else mux_state s)"
    "recv_loop M env junk window k (header_bytes f @ ff_data f @ rest) s =
      (if after_window window f then Some (False, s1) else recv_loop M env junk window (k + 1) rest s1)"
proof -
  let ?s = "s\<lparr>pc_rtpRRTime := now, pc_stopFlag := False\<rparr>"
  let ?i = "snd (incomeVideoData M now (ff_data f) (ff_pts f) (ff_keyFrame f) ?s)"
  let ?s1 = "if in_window window f \<and> \<not> after_window window f then ?i else ?s"
  have i: "mux_state ?i = mux_frame M (mux_state ?s) f" "\<not> pc_stopFlag ?i" by (rule income_alive; use assms(3) in simp)+
  have ms: "mux_state ?s = mux_state s" by (simp add: mux_state_def)
  have h: "take 16 (header_bytes f @ ff_data f @ rest) = header_bytes f" "drop 16 (header_bytes f @ ff_data f @ rest) = ff_data f @ rest"
    by simp_all
  have "recv_loop M env junk window k (header_bytes f @ ff_data f @ rest) s =
      (if after_window window f then Some (False, ?s1) else recv_loop M env junk window (k + 1) rest ?s1)"
    by (subst recv_loop.simps)
      (use assms(2,4) header_fields [OF assms(1)] in \<open>auto simp: h Let_def in_window_def after_window_def split: option.splits\<close>)
  then show thesis using that [of ?s1] i ms by auto
qed

lemma recv_end:
  assumes "env k = (now, Some now, False)" "\<not> pc_stopFlag s"
  shows "\<exists>s1. recv_loop M env junk window k [] s = Some (False, s1) \<and> mux_state s1 = mux_state s"
proof -
  have z: "le32 (replicate 16 0) 8 = 0" by (simp add: le32_def)
  show ?thesis using assms by (subst recv_loop.simps) (auto simp: z Let_def mux_state_def)
qed

lemma recv_file:
  assumes "\<forall>f \<in> set fs. frame_ok f" "\<forall>k. \<exists>now. env k = (now, Some now, False) \<and> now \<noteq> 0" "\<not> pc_stopFlag s"
  shows "\<exists>s1. recv_loop M env junk window k (concat (map (\<lambda>f. header_bytes f @ ff_data f) fs)) s = Some (False, s1) \<and>
    mux_state s1 = foldl (mux_frame M) (mux_state s) (played window fs)"
  using assms(1,3)
proof (induction fs arbitrary: k s)
  case Nil
  obtain now where "env k = (now, Some now, False)" using assms(2) by blast
  from recv_end [where env = env and k = k, OF this Nil(2), of M junk window] show ?case by (simp add: played_def)
next
  case (Cons f fs)
  obtain now where e: "env k = (now, Some now, False)" "now \<noteq> 0" using assms(2) by blast
  have ok: "frame_ok f" using Cons.prems by simp
  obtain s1 where s1: "\<not> pc_stopFlag s1"
    "mux_state s1 = (if in_window window f \<and> \<not> after_window window f then mux_frame M (mux_state s) f else mux_state s)"
    "recv_loop M env junk window k (header_bytes f @ ff_data f @ concat (map (\<lambda>f. header_bytes f @ ff_data f) fs)) s =
      (if after_window window f then Some (False, s1)
       else recv_loop M env junk window (k + 1) (concat (map (\<lambda>f. header_bytes f @ ff_data f) fs)) s1)"
    by (rule recv_frame [where f = f and env = env and k = k and now = now and s = s and window = window and M = M and junk = junk
        and rest = "concat (map (\<lambda>f. header_bytes f @ ff_data f) fs)"]) (use ok e Cons.prems(2) in simp_all)
  show ?case
  proof (cases "after_window window f")
    case True
    then show ?thesis using s1 by (auto simp: played_def)
  next
    case False
    obtain s2 where "recv_loop M env junk window (k + 1) (concat (map (\<lambda>f. header_bytes f @ ff_data f) fs)) s1 = Some (False, s2)"
      "mux_state s2 = foldl (mux_frame M) (mux_state s1) (played window fs)"
      using Cons.IH [OF _ s1(1), of "k + 1"] Cons.prems by auto
    then show ?thesis using s1 False by (auto simp: played_def)
  qed
qed

text \<open>C21: What a call plays of the stream file: every video frame of a live call, and of a playback those from its start on, up to the
  first video frame after its end. Each goes through the muxer once, in the file's order, and the packets sent are
  the chunks of what the muxer writes; for as long as reports come in and no BYE does.\<close>

theorem playback_sends_window:
  assumes "\<forall>f \<in> set fs. frame_ok f" "\<forall>k. \<exists>now. env k = (now, Some now, False) \<and> now \<noteq> 0" "\<not> pc_stopFlag s"
    "playback_window sTime eTime = Some window"
  shows "\<exists>s1. recvFrame M env junk sTime eTime (Some (concat (map (\<lambda>f. header_bytes f @ ff_data f) fs))) s = Some (0, s1) \<and>
    (pc_muxer s1, pc_avStreamIndex s1, pc_sent s1) = foldl (mux_frame M) (pc_muxer s, pc_avStreamIndex s, pc_sent s) (played window fs)"
proof -
  obtain s1 where "recv_loop M env junk window 0 (concat (map (\<lambda>f. header_bytes f @ ff_data f) fs)) s = Some (False, s1)"
    "mux_state s1 = foldl (mux_frame M) (mux_state s) (played window fs)"
    using recv_file [OF assms(1-3), of M junk window 0] by blast
  then show ?thesis using assms(4) by (simp add: recvFrame_def mux_state_def)
qed

text \<open>A playback whose times are seconds since 1970 overflows.\<close>

lemma absolute_times_overflow: "2147484 \<le> eTime \<Longrightarrow> 0 \<le> sTime \<Longrightarrow> playback_window sTime eTime = None"
  by (simp add: playback_window_def int32_def)

section \<open>A sample\<close>

text \<open>A muxer that writes the frame as it is.\<close>

definition sample_muxer :: "unit muxer" where
  "sample_muxer = \<lparr>mx_add_stream = (\<lambda>_ m. (0, m)), mx_input = (\<lambda>i key pts dts data m. (0, [data], m)), mx_STREAM_VIDEO_H264 = 27\<rparr>"

definition sample_file :: "file_frame list" where
  "sample_file = [\<lparr>ff_type = 2, ff_pts = 500, ff_keyFrame = 1, ff_data = [1]\<rparr>, \<lparr>ff_type = 2, ff_pts = 1500, ff_keyFrame = 0, ff_data = [2, 2]\<rparr>,
     \<lparr>ff_type = 1, ff_pts = 1600, ff_keyFrame = 0, ff_data = [9]\<rparr>, \<lparr>ff_type = 2, ff_pts = 2000, ff_keyFrame = 0, ff_data = [3]\<rparr>,
     \<lparr>ff_type = 2, ff_pts = 2001, ff_keyFrame = 0, ff_data = [4]\<rparr>, \<lparr>ff_type = 2, ff_pts = 1999, ff_keyFrame = 0, ff_data = [5]\<rparr>]"

lemma playback_sends_window_witness:
  "\<exists>s1. recvFrame sample_muxer (\<lambda>k. (100 + int k, Some (100 + int k), False)) (\<lambda>_. 0) 1 2
     (Some (concat (map (\<lambda>f. header_bytes f @ ff_data f) sample_file)))
     \<lparr>pc_muxer = (), pc_avStreamIndex = - 1, pc_rtpRRTime = 0, pc_stopFlag = False, pc_sent = []\<rparr> = Some (0, s1) \<and>
   map rp_payload (pc_sent s1) = [[2, 2], [3]]"
proof -
  have c: "chunks 1300 [x] = [[x]]" "chunks 1300 [x, y] = [[x, y]]" for x y :: byte
    by (simp_all add: chunks.simps)
  have "\<forall>k. \<exists>now. (100 + int k, Some (100 + int k), False) = (now, Some now, False) \<and> now \<noteq> 0" by auto
  from playback_sends_window [where fs = sample_file and env = "\<lambda>k. (100 + int k, Some (100 + int k), False)" and junk = "\<lambda>_. 0" and sTime = 1
      and eTime = 2 and M = sample_muxer and window = "Some (1000, 2000)"
      and s = "\<lparr>pc_muxer = (), pc_avStreamIndex = - 1, pc_rtpRRTime = 0, pc_stopFlag = False, pc_sent = []\<rparr>", OF _ this]
  show ?thesis
    by (auto simp: sample_file_def frame_ok_def int32_def playback_window_def played_def in_window_def after_window_def sample_muxer_def
        frame_packets_def c)
qed

end
