(* ===== verification/LegacyConfig.thy ===== *)
theory LegacyConfig
  imports CppText
begin

text \<open>
  Configuration of the historical services: the reader of their configuration files
  (\<open>ConfReader.cpp\<close>, the same file in \<open>SipSupService\<close>, \<open>SipSubService\<close> and \<open>src/common\<close>) and the supervising service's
  \<open>SipLocalConfig.cpp\<close>, with the queue of RTP ports both services take their ports from.

  A pointer into the file's buffer is the character before it and the text from it on, so that a step past
  the end of the buffer is a text that is empty, and the result \<open>None\<close> of a parser a read outside the buffer.
\<close>

section \<open>The file's buffer\<close>

definition MAX_INI_FILE_SIZE :: nat where
  "MAX_INI_FILE_SIZE = 10240"

text \<open>\<open>None\<close>: the assertion on the size fails. \<open>(char)EOF\<close> is the character 255, which ends the text like the end of the file.\<close>

definition load_ini_file :: "string \<Rightarrow> string option" where
  "load_ini_file file =
     (let text = takeWhile (\<lambda>c. c \<noteq> CHR 0xFF) file
      in if length text < MAX_INI_FILE_SIZE then Some (text @ replicate (MAX_INI_FILE_SIZE - length text) (CHR 0x00)) else None)"

definition newline :: "char \<Rightarrow> bool" where
  "newline c \<longleftrightarrow> c = CHR 0x0A \<or> c = CHR 0x0D"

definition end_of_string :: "char \<Rightarrow> bool" where
  "end_of_string c \<longleftrightarrow> c = CHR 0x00"

definition tab_or_space :: "char \<Rightarrow> bool" where
  "tab_or_space c \<longleftrightarrow> c = CHR '' '' \<or> c = CHR 0x09"

text \<open>Step forward to a character: the text passed and what begins there.\<close>

fun scan_to :: "(char \<Rightarrow> bool) \<Rightarrow> string \<Rightarrow> (string \<times> string) option" where
  "scan_to P [] = None"
| "scan_to P (c # cs) = (if P c then Some ([], c # cs) else map_option (\<lambda>(a, b). (c # a, b)) (scan_to P cs))"

lemma scan_to_append [simp]: "\<forall>c \<in> set a. \<not> P c \<Longrightarrow> P c \<Longrightarrow> scan_to P (a @ c # b) = Some (a, c # b)"
  by (induction a) auto

lemma scan_to_split: "scan_to P s = Some (a, b) \<Longrightarrow> s = a @ b \<and> b \<noteq> [] \<and> P (hd b) \<and> (\<forall>c \<in> set a. \<not> P c)"
  by (induction s arbitrary: a) (auto split: if_splits)

text \<open>\<open>strncasecmp(s, p, n) == 0\<close> for the text of \<open>n\<close> characters at \<open>p\<close>, none of them zero.\<close>

definition strncasecmp_eq :: "string \<Rightarrow> string \<Rightarrow> bool" where
  "strncasecmp_eq s text \<longleftrightarrow> length text \<le> length s \<and> map tolower (take (length text) s) = map tolower text"

lemma scan_to_shorter: "scan_to P s = Some (a, b) \<Longrightarrow> length (tl b) < length s"
  by (drule scan_to_split) (cases b; simp)

section \<open>Lookup of a key\<close>

text \<open>The key of a line, up to its last character before the equals sign that is no tab_or_space, and the value after it.\<close>

definition line_value :: "string \<Rightarrow> string \<Rightarrow> string option" where
  "line_value key line =
     (case line of
        [] \<Rightarrow> None
      | c # cs \<Rightarrow>
          if c = CHR ''#'' \<or> c = CHR ''='' then None
          else case scan_to (\<lambda>c. c = CHR ''='') cs of
            None \<Rightarrow> None
          | Some (l, r) \<Rightarrow>
              if strncasecmp_eq key (c # rev (dropWhile tab_or_space (rev l))) then Some (dropWhile tab_or_space (tl r)) else None)"

text \<open>The lines of a section that matches, up to the next section: the value, or where the search goes on.\<close>

function section_lines :: "string \<Rightarrow> char \<Rightarrow> string \<Rightarrow> (string + char \<times> string) option" where
  "section_lines key prev [] = None"
| "section_lines key prev (c # cs) =
     (if (newline prev \<and> c = CHR ''['') \<or> end_of_string c then Some (Inr (prev, c # cs))
      else case scan_to (\<lambda>c. newline c \<or> end_of_string c) (c # cs) of
        None \<Rightarrow> None
      | Some (line, rest) \<Rightarrow>
          (case line_value key line of
             Some v \<Rightarrow> Some (Inl v)
           | None \<Rightarrow> section_lines key (hd rest) (tl rest)))"
  by pat_completeness auto
termination
  by (relation "measure (\<lambda>(_, _, s). length s)") (auto dest: scan_to_shorter simp del: scan_to.simps)

declare section_lines.simps(2) [simp del]

text \<open>The whole file: the value of the key in the first section of that name that has it. The inner \<open>None\<close> is the result 0.\<close>

lemma section_lines_shorter:
  "section_lines key prev s = Some (Inr (p, r)) \<Longrightarrow> length r \<le> length s"
proof (induction key prev s rule: section_lines.induct)
  case (2 key prev c cs)
  show ?case
  proof (cases "(newline prev \<and> c = CHR ''['') \<or> end_of_string c")
    case True
    then show ?thesis using 2(2) by (simp add: section_lines.simps)
  next
    case False
    then obtain line rest where s: "scan_to (\<lambda>c. newline c \<or> end_of_string c) (c # cs) = Some (line, rest)" "line_value key line = None"
      "section_lines key (hd rest) (tl rest) = Some (Inr (p, r))"
      using 2(2) by (auto simp: section_lines.simps split: option.splits)
    have "length r \<le> length (tl rest)" by (rule 2(1) [OF False s(1) refl s(2,3)])
    then show ?thesis using scan_to_shorter [OF s(1)] by simp
  qed
qed simp

text \<open>At a section's opening bracket: the search of its lines, or the place where the scan goes on.\<close>

definition enter_section :: "string \<Rightarrow> string \<Rightarrow> string \<Rightarrow> (string + char \<times> string) option" where
  "enter_section section key cs = do {
     (name, rest) \<leftarrow> scan_to (\<lambda>c. c = CHR '']'' \<or> end_of_string c) cs;
     if strncasecmp_eq section name then do {
       (spaces, rest2) \<leftarrow> scan_to (\<lambda>c. \<not> isspace c) (tl rest);
       section_lines key (List.last (hd rest # spaces)) rest2 }
     else Some (Inr (List.last (CHR ''['' # name), rest)) }"

lemma enter_section_shorter:
  "enter_section section key cs = Some (Inr (p, r)) \<Longrightarrow> length r \<le> length cs"
proof -
  assume a: "enter_section section key cs = Some (Inr (p, r))"
  then obtain name rest where s: "scan_to (\<lambda>c. c = CHR '']'' \<or> end_of_string c) cs = Some (name, rest)"
    by (auto simp: enter_section_def bind_eq_Some_conv)
  have l: "length rest \<le> length cs" using scan_to_split [OF s] by simp
  show ?thesis
  proof (cases "strncasecmp_eq section name")
    case False
    then show ?thesis using a s l by (auto simp: enter_section_def)
  next
    case True
    then obtain spaces rest2 where s2: "scan_to (\<lambda>c. \<not> isspace c) (tl rest) = Some (spaces, rest2)"
      "section_lines key (List.last (hd rest # spaces)) rest2 = Some (Inr (p, r))"
      using a s by (auto simp: enter_section_def bind_eq_Some_conv)
    have "length r \<le> length rest2" by (rule section_lines_shorter [OF s2(2)])
    moreover have "length rest2 \<le> length (tl rest)" using scan_to_split [OF s2(1)] by simp
    ultimately show ?thesis using l by simp
  qed
qed

function parse_from :: "string \<Rightarrow> string \<Rightarrow> char option \<Rightarrow> string \<Rightarrow> string option option" where
  "parse_from section key prev [] = None"
| "parse_from section key prev (c # cs) =
     (if end_of_string c then Some None
      else if (case prev of None \<Rightarrow> True | Some q \<Rightarrow> newline q) \<and> c = CHR ''['' then
        (case enter_section section key cs of
           None \<Rightarrow> None
         | Some (Inl v) \<Rightarrow> Some (Some v)
         | Some (Inr (q, rest)) \<Rightarrow> parse_from section key (Some q) rest)
      else parse_from section key (Some c) cs)"
  by pat_completeness auto
termination
  by (relation "measure (\<lambda>(_, _, _, s). length s)") (auto dest: enter_section_shorter simp: less_Suc_eq_le)

declare parse_from.simps(2) [simp del]

definition parse_file :: "string \<Rightarrow> string \<Rightarrow> string \<Rightarrow> string option option" where
  "parse_file section key buf = parse_from section key None buf"

section \<open>Strings and numbers\<close>

text \<open>What became of a read: an assertion or a read outside the buffer ends the program, the file or the key is missing,
  or the value is copied to the caller's buffer of \<open>n\<close> bytes.\<close>

datatype conf_read = Conf_abort | Conf_missing | Conf_value string

text \<open>The file is \<open>None\<close> when it cannot be opened.\<close>

definition read_profile_string :: "string \<Rightarrow> string \<Rightarrow> nat \<Rightarrow> string option \<Rightarrow> conf_read" where
  "read_profile_string section key n file =
     (if section = [] \<or> key = [] then Conf_abort
      else case file of
        None \<Rightarrow> Conf_missing
      | Some text \<Rightarrow>
          (case load_ini_file text of
             None \<Rightarrow> Conf_abort
           | Some buf \<Rightarrow>
               (case parse_file section key buf of
                  None \<Rightarrow> Conf_abort
                | Some None \<Rightarrow> Conf_missing
                | Some (Some v) \<Rightarrow> Conf_value (take (n - 1) v))))"

definition readInt :: "string \<Rightarrow> string \<Rightarrow> string option \<Rightarrow> int option" where
  "readInt section key file =
     (case read_profile_string section key 32 file of
        Conf_abort \<Rightarrow> None | Conf_missing \<Rightarrow> Some (- 1) | Conf_value v \<Rightarrow> Some (atoi v))"

text \<open>\<open>readStr\<close> gives what is left of its buffer when the key is missing: characters nobody wrote, \<open>junk\<close>.\<close>

definition readStr :: "string \<Rightarrow> string \<Rightarrow> string \<Rightarrow> string option \<Rightarrow> string option" where
  "readStr junk section key file =
     (case read_profile_string section key 1024 file of
        Conf_abort \<Rightarrow> None
      | Conf_missing \<Rightarrow> Some (takeWhile (\<lambda>c. \<not> tab_or_space c \<and> c \<noteq> CHR 0x00) junk)
      | Conf_value v \<Rightarrow> Some (takeWhile (\<lambda>c. \<not> tab_or_space c) v))"

section \<open>Reads stay inside the buffer\<close>

text \<open>A text with two zeros before the end of the buffer, or at a zero.\<close>

definition terminated :: "string \<Rightarrow> bool" where
  "terminated s \<longleftrightarrow> (\<exists>a b. s = a @ CHR 0x00 # CHR 0x00 # b) \<or> (\<exists>b. s = CHR 0x00 # b)"

lemma terminated_zero [simp]: "terminated (CHR 0x00 # b)"
  by (auto simp: terminated_def)

lemma terminated_nonempty: "terminated s \<Longrightarrow> s \<noteq> [] \<and> CHR 0x00 \<in> set s"
  by (auto simp: terminated_def)

lemma terminated_step: "terminated (x # s) \<Longrightarrow> x \<noteq> CHR 0x00 \<Longrightarrow> terminated s"
  by (fastforce simp: terminated_def Cons_eq_append_conv)

lemma terminated_suffix:
  assumes "terminated (a @ b)" "CHR 0x00 \<notin> set a" shows "terminated b"
  using assms by (induction a) (auto dest: terminated_step)

lemma scan_to_terminated:
  assumes "terminated s" "P (CHR 0x00)"
  obtains a b where "scan_to P s = Some (a, b)" "terminated b" "CHR 0x00 \<notin> set a" "s = a @ b"
proof -
  have "CHR 0x00 \<in> set s \<Longrightarrow> \<exists>a b. scan_to P s = Some (a, b)" using assms(2)
    by (induction s) auto
  then have "\<exists>a b. scan_to P s = Some (a, b)" using terminated_nonempty [OF assms(1)] by simp
  then obtain a b where ab: "scan_to P s = Some (a, b)" by auto
  have "s = a @ b" "\<forall>c \<in> set a. \<not> P c" using scan_to_split [OF ab] by auto
  moreover from this have "CHR 0x00 \<notin> set a" using assms(2) by auto
  ultimately show thesis using that ab terminated_suffix assms(1) by blast
qed

text \<open>After the character that ended a scan there is something left.\<close>

lemma terminated_tl:
  assumes "terminated (a @ b)" "CHR 0x00 \<notin> set a" "hd (a @ b) \<noteq> CHR 0x00" shows "terminated (tl b)"
proof -
  obtain x y where xy: "a @ b = x @ CHR 0x00 # CHR 0x00 # y" using assms(1,3) by (auto simp: terminated_def)
  have "\<exists>z. b = z @ CHR 0x00 # CHR 0x00 # y"
    using xy assms(2) by (auto simp: append_eq_append_conv2 append_eq_Cons_conv)
  then obtain z where "b = z @ CHR 0x00 # CHR 0x00 # y" by auto
  then show ?thesis by (cases z) (auto simp: terminated_def)
qed

lemma section_lines_inside:
  assumes "terminated s"
  shows "\<exists>r. section_lines key prev s = Some r \<and> (\<forall>p rest. r = Inr (p, rest) \<longrightarrow> terminated rest)"
  using assms
proof (induction key prev s rule: section_lines.induct)
  case (1 key prev)
  then show ?case by (auto dest: terminated_nonempty)
next
  case (2 key prev c cs)
  show ?case
  proof (cases "(newline prev \<and> c = CHR ''['') \<or> end_of_string c")
    case True
    then show ?thesis using 2(2) by (simp add: section_lines.simps)
  next
    case False
    obtain line rest where s: "scan_to (\<lambda>c. newline c \<or> end_of_string c) (c # cs) = Some (line, rest)" "CHR 0x00 \<notin> set line"
      "c # cs = line @ rest"
      by (rule scan_to_terminated [OF 2(2), of "\<lambda>c. newline c \<or> end_of_string c"]) (auto simp: end_of_string_def)
    show ?thesis
    proof (cases "line_value key line")
      case None
      have "terminated (tl rest)"
        by (rule terminated_tl [of line]) (use 2(2) False in \<open>simp_all add: s(2) flip: s(3) add: end_of_string_def\<close>)
      then have "\<exists>r. section_lines key (hd rest) (tl rest) = Some r \<and> (\<forall>p rest. r = Inr (p, rest) \<longrightarrow> terminated rest)"
        using 2(1) [OF False s(1) refl None] by simp
      then show ?thesis using False s(1) None by (auto simp: section_lines.simps simp del: scan_to.simps)
    qed (use False s(1) in \<open>auto simp: section_lines.simps simp del: scan_to.simps\<close>)
  qed
qed

lemma enter_section_inside:
  assumes "terminated (c # cs)" "c \<noteq> CHR 0x00"
  shows "\<exists>r. enter_section section key cs = Some r \<and> (\<forall>p rest. r = Inr (p, rest) \<longrightarrow> terminated rest)"
proof -
  have t: "terminated cs" using terminated_suffix [of "[c]" cs] assms by simp
  obtain name rest where s: "scan_to (\<lambda>c. c = CHR '']'' \<or> end_of_string c) cs = Some (name, rest)" "terminated rest"
    "CHR 0x00 \<notin> set name" "cs = name @ rest"
    by (rule scan_to_terminated [OF t, of "\<lambda>c. c = CHR '']'' \<or> end_of_string c"]) (auto simp: end_of_string_def)
  have "terminated (tl rest)" by (rule terminated_tl [of "c # name"]) (use s assms in auto)
  then obtain spaces rest2 where s2: "scan_to (\<lambda>c. \<not> isspace c) (tl rest) = Some (spaces, rest2)" "terminated rest2"
    by (rule scan_to_terminated [of _ "\<lambda>c. \<not> isspace c"]) (auto simp: isspace_def)
  show ?thesis using s s2 section_lines_inside [OF s2(2), of key] by (simp add: enter_section_def)
qed

lemma parse_from_inside: "terminated s \<Longrightarrow> parse_from sec key prev s \<noteq> None"
proof (induction sec key prev s rule: parse_from.induct)
  case (1 sec key prev)
  then show ?case by (auto dest: terminated_nonempty)
next
  case (2 sec key prev c cs)
  show ?case
  proof (cases "end_of_string c")
    case True
    then show ?thesis by (simp add: parse_from.simps)
  next
    case eos: False
    show ?thesis
    proof (cases "(case prev of None \<Rightarrow> True | Some q \<Rightarrow> newline q) \<and> c = CHR ''[''")
      case True
      obtain r where r: "enter_section sec key cs = Some r" "\<forall>p rest. r = Inr (p, rest) \<longrightarrow> terminated rest"
        using enter_section_inside [OF 2(3), of sec key] eos unfolding end_of_string_def by blast
      show ?thesis using 2(1) [OF eos True r(1)] r True eos
        by (cases r) (auto simp: parse_from.simps)
    next
      case False
      have "terminated cs" using terminated_suffix [of "[c]" cs] 2(3) eos by (simp add: end_of_string_def)
      then show ?thesis using 2(2) [OF eos False] False eos by (auto simp: parse_from.simps)
    qed
  qed
qed

section \<open>What a lookup finds\<close>

definition plain :: "string \<Rightarrow> bool" where
  "plain s \<longleftrightarrow> (\<forall>c \<in> set s. \<not> newline c \<and> c \<noteq> CHR 0x00 \<and> c \<noteq> CHR 0xFF)"

definition entry_ok :: "string \<times> string \<Rightarrow> bool" where
  "entry_ok e \<longleftrightarrow> (case e of (k, v) \<Rightarrow>
     plain k \<and> k \<noteq> [] \<and> CHR ''='' \<notin> set k \<and> hd k \<noteq> CHR ''#'' \<and> hd k \<noteq> CHR ''['' \<and> \<not> isspace (hd k) \<and> \<not> tab_or_space (List.last k) \<and>
     plain v \<and> (v = [] \<or> \<not> tab_or_space (hd v)))"

definition entry_text :: "string \<times> string \<Rightarrow> string" where
  "entry_text e = (case e of (k, v) \<Rightarrow> k @ ''='' @ v @ [CHR 0x0A])"

definition section_ok :: "string \<times> (string \<times> string) list \<Rightarrow> bool" where
  "section_ok s \<longleftrightarrow> plain (fst s) \<and> CHR '']'' \<notin> set (fst s) \<and> (\<forall>e \<in> set (snd s). entry_ok e)"

definition section_text :: "string \<times> (string \<times> string) list \<Rightarrow> string" where
  "section_text s = ''['' @ fst s @ '']'' @ [CHR 0x0A] @ concat (map entry_text (snd s))"

lemma strip_key: "l = [] \<or> \<not> tab_or_space (List.last l) \<Longrightarrow> rev (dropWhile tab_or_space (rev l)) = l"
  by (cases l rule: rev_cases) auto

lemma line_value_entry:
  assumes "entry_ok (k, v)"
  shows "line_value key (k @ CHR ''='' # v) = (if strncasecmp_eq key k then Some v else None)"
proof -
  obtain c cs where k: "k = c # cs" using assms by (cases k) (auto simp: entry_ok_def)
  have "rev (dropWhile tab_or_space (rev cs)) = cs" using assms k by (intro strip_key) (auto simp: entry_ok_def split: if_splits)
  moreover have "dropWhile tab_or_space v = v" using assms by (cases v) (auto simp: entry_ok_def)
  moreover have "scan_to (\<lambda>c. c = CHR ''='') (cs @ CHR ''='' # v) = Some (cs, CHR ''='' # v)"
    using assms k by (intro scan_to_append) (auto simp: entry_ok_def)
  ultimately show ?thesis using assms k by (auto simp: line_value_def entry_ok_def)
qed

lemma entry_scan:
  assumes "entry_ok (k, v)"
  shows "scan_to (\<lambda>c. newline c \<or> end_of_string c) (entry_text (k, v) @ s) = Some (k @ CHR ''='' # v, CHR 0x0A # s)"
proof -
  have "scan_to (\<lambda>c. newline c \<or> end_of_string c) ((k @ CHR ''='' # v) @ CHR 0x0A # s) = Some (k @ CHR ''='' # v, CHR 0x0A # s)"
    using assms by (intro scan_to_append) (auto simp: entry_ok_def plain_def newline_def end_of_string_def)
  then show ?thesis by (simp add: entry_text_def)
qed

definition named :: "string \<Rightarrow> (string \<times> string) list \<Rightarrow> string option" where
  "named key es = map_option snd (List.find (\<lambda>(k, v). strncasecmp_eq key k) es)"

lemma named_simps [simp]:
  "named key [] = None"
  "named key ((k, v) # es) = (if strncasecmp_eq key k then Some v else named key es)"
  by (simp_all add: named_def)

lemma named_append: "named key (es @ fs) = (case named key es of None \<Rightarrow> named key fs | Some v \<Rightarrow> Some v)"
  by (induction es) auto

lemma section_lines_entries:
  assumes "\<forall>e \<in> set es. entry_ok e" "newline prev" "c = CHR ''['' \<or> c = CHR 0x00"
  shows "\<exists>q. newline q \<and> section_lines key prev (concat (map entry_text es) @ c # s) =
    (case named key es of Some v \<Rightarrow> Some (Inl v) | None \<Rightarrow> Some (Inr (q, c # s)))"
  using assms(1,2)
proof (induction es arbitrary: prev)
  case Nil
  then show ?case using assms(3) by (auto simp: section_lines.simps end_of_string_def)
next
  case (Cons e es)
  obtain k v where e: "e = (k, v)" by force
  have ok: "entry_ok (k, v)" using Cons.prems e by simp
  obtain d ds where k: "k = d # ds" "d \<noteq> CHR ''[''" "\<not> end_of_string d"
    using ok by (cases k) (auto simp: entry_ok_def plain_def end_of_string_def)
  let ?s = "concat (map entry_text es) @ c # s"
  have step: "section_lines key prev (entry_text (k, v) @ ?s) =
      (if strncasecmp_eq key k then Some (Inl v) else section_lines key (CHR 0x0A) ?s)"
  proof -
    have "entry_text (k, v) @ ?s = d # (ds @ ''='' @ v @ [CHR 0x0A] @ ?s)" by (simp add: entry_text_def k(1))
    then show ?thesis using entry_scan [OF ok, of ?s] k line_value_entry [OF ok, of key]
      by (simp add: section_lines.simps del: scan_to.simps append_assoc)
  qed
  have "newline (CHR 0x0A)" by (simp add: newline_def)
  then obtain q where "newline q" "section_lines key (CHR 0x0A) ?s =
      (case named key es of Some v \<Rightarrow> Some (Inl v) | None \<Rightarrow> Some (Inr (q, c # s)))"
    using Cons.IH [of "CHR 0x0A"] Cons.prems by auto
  then show ?case using step e by (intro exI [of _ q]) simp
qed

lemma enter_section_text:
  assumes "section_ok (sec, es)" "c = CHR ''['' \<or> c = CHR 0x00"
  shows "\<exists>q. newline q \<and> enter_section sname key (sec @ CHR '']'' # CHR 0x0A # concat (map entry_text es) @ c # s) =
    (if strncasecmp_eq sname sec then (case named key es of Some v \<Rightarrow> Some (Inl v) | None \<Rightarrow> Some (Inr (q, c # s)))
     else Some (Inr (List.last (CHR ''['' # sec), CHR '']'' # CHR 0x0A # concat (map entry_text es) @ c # s)))"
proof -
  let ?r = "concat (map entry_text es) @ c # s"
  have "scan_to (\<lambda>c. c = CHR '']'' \<or> end_of_string c) (sec @ CHR '']'' # CHR 0x0A # ?r) = Some (sec, CHR '']'' # CHR 0x0A # ?r)"
    using assms(1) by (intro scan_to_append) (auto simp: section_ok_def plain_def end_of_string_def)
  moreover have "scan_to (\<lambda>c. \<not> isspace c) ([CHR 0x0A] @ ?r) = Some ([CHR 0x0A], ?r)"
  proof -
    obtain d ds where d: "?r = d # ds" "\<not> isspace d"
    proof (cases es)
      case Nil
      then show thesis using that assms(2) by (auto simp: isspace_def)
    next
      case (Cons e es')
      obtain k v where e: "e = (k, v)" by force
      then obtain d ds where "k = d # ds" "\<not> isspace d" using assms(1) Cons by (cases k) (auto simp: section_ok_def entry_ok_def)
      then show thesis using that Cons e by (simp add: entry_text_def)
    qed
    show ?thesis unfolding d(1) by (rule scan_to_append) (use d(2) in \<open>simp_all add: isspace_def\<close>)
  qed
  moreover obtain q where "newline q" "section_lines key (CHR 0x0A) ?r = (case named key es of Some v \<Rightarrow> Some (Inl v) | None \<Rightarrow> Some (Inr (q, c # s)))"
    using section_lines_entries [of es "CHR 0x0A" c key s] assms by (auto simp: section_ok_def newline_def)
  ultimately show ?thesis by (intro exI [of _ q]) (auto simp: enter_section_def simp del: scan_to.simps)
qed

lemma parse_line:
  assumes "plain l" "l \<noteq> []" "hd l \<noteq> CHR ''[''"
  shows "parse_from sname key q (l @ CHR 0x0A # s) = parse_from sname key (Some (CHR 0x0A)) s"
  using assms
proof (induction l arbitrary: q)
  case (Cons c l)
  have c: "\<not> end_of_string c" "c \<noteq> CHR ''[''" "\<not> newline c" using Cons.prems by (auto simp: plain_def end_of_string_def)
  have step: "parse_from sname key q (c # l @ CHR 0x0A # s) = parse_from sname key (Some c) (l @ CHR 0x0A # s)"
    using c by (simp add: parse_from.simps)
  have rest: "parse_from sname key (Some p) (m @ CHR 0x0A # s) = parse_from sname key (Some (CHR 0x0A)) s"
    if "plain m" "\<not> newline p" for m p
    using that
  proof (induction m arbitrary: p)
    case Nil
    then show ?case by (simp add: parse_from.simps end_of_string_def)
  next
    case (Cons d m)
    then have "\<not> newline d" "\<not> end_of_string d" by (auto simp: plain_def end_of_string_def)
    then show ?case using Cons by (simp add: parse_from.simps plain_def)
  qed
  show ?case using step rest [of l c] Cons.prems c by (simp add: plain_def)
qed simp

lemma parse_entries:
  assumes "\<forall>e \<in> set es. entry_ok e"
  shows "parse_from sname key (Some (CHR 0x0A)) (concat (map entry_text es) @ s) = parse_from sname key (Some (CHR 0x0A)) s"
  using assms
proof (induction es)
  case (Cons e es)
  obtain k v where e: "e = (k, v)" by force
  have ok: "entry_ok (k, v)" using Cons.prems e by simp
  have "parse_from sname key (Some (CHR 0x0A)) ((k @ ''='' @ v) @ CHR 0x0A # concat (map entry_text es) @ s) =
      parse_from sname key (Some (CHR 0x0A)) (concat (map entry_text es) @ s)"
    by (rule parse_line) (use ok in \<open>auto simp: entry_ok_def plain_def newline_def\<close>)
  also have "\<dots> = parse_from sname key (Some (CHR 0x0A)) s" by (rule Cons.IH) (use Cons.prems in simp)
  finally have "parse_from sname key (Some (CHR 0x0A)) ((k @ ''='' @ v) @ CHR 0x0A # concat (map entry_text es) @ s) =
      parse_from sname key (Some (CHR 0x0A)) s" .
  moreover have "concat (map entry_text (e # es)) @ s = (k @ ''='' @ v) @ CHR 0x0A # concat (map entry_text es) @ s"
    by (simp add: e entry_text_def)
  ultimately show ?case by (simp only:)
qed simp

lemma parse_section:
  assumes ok: "section_ok (sec, es)" and d: "d = CHR ''['' \<or> d = CHR 0x00" and q: "q = None \<or> (\<exists>p. q = Some p \<and> newline p)"
  obtains p where "newline p" "parse_from sname key q (section_text (sec, es) @ d # ds) =
    (if strncasecmp_eq sname sec then (case named key es of Some v \<Rightarrow> Some (Some v) | None \<Rightarrow> parse_from sname key (Some p) (d # ds))
     else parse_from sname key (Some p) (d # ds))"
proof -
  let ?t = "sec @ CHR '']'' # CHR 0x0A # concat (map entry_text es) @ d # ds"
  have st: "section_text (sec, es) @ d # ds = CHR ''['' # ?t" by (simp add: section_text_def)
  have pre: "(case q of None \<Rightarrow> True | Some x \<Rightarrow> newline x) \<and> CHR ''['' = CHR ''[''" using q by auto
  have eos: "\<not> end_of_string (CHR ''['')" by (simp add: end_of_string_def)
  have start: "parse_from sname key q (section_text (sec, es) @ d # ds) = (case enter_section sname key ?t of
      None \<Rightarrow> None | Some (Inl v) \<Rightarrow> Some (Some v) | Some (Inr (q, rest)) \<Rightarrow> parse_from sname key (Some q) rest)"
    unfolding st parse_from.simps(2) if_P [OF pre] if_not_P [OF eos] by (rule refl)
  obtain p where p: "newline p" "enter_section sname key ?t =
    (if strncasecmp_eq sname sec then (case named key es of Some v \<Rightarrow> Some (Inl v) | None \<Rightarrow> Some (Inr (p, d # ds)))
     else Some (Inr (List.last (CHR ''['' # sec), CHR '']'' # CHR 0x0A # concat (map entry_text es) @ d # ds)))"
    using enter_section_text [OF ok d, of sname key ds] by (elim exE conjE)
  show thesis
  proof (cases "strncasecmp_eq sname sec")
    case True
    show thesis by (rule that [OF p(1)]; unfold start p(2) if_P [OF True]) (cases "named key es"; simp only: option.case sum.case prod.case)
  next
    case False
    have nl: "newline (CHR 0x0A)" by (simp add: newline_def)
    have "parse_from sname key (Some (List.last (CHR ''['' # sec))) (CHR '']'' # CHR 0x0A # concat (map entry_text es) @ d # ds) =
        parse_from sname key (Some (CHR 0x0A)) (concat (map entry_text es) @ d # ds)"
      using parse_line [of "[CHR '']'']"] by (simp add: plain_def newline_def)
    also have "\<dots> = parse_from sname key (Some (CHR 0x0A)) (d # ds)"
      using ok by (intro parse_entries) (simp add: section_ok_def)
    finally show thesis
      by (intro that [OF nl]; unfold start p(2) if_not_P [OF False]) (simp only: option.case sum.case prod.case)
  qed
qed

abbreviation in_sections :: "string \<Rightarrow> (string \<times> (string \<times> string) list) list \<Rightarrow> (string \<times> string) list" where
  "in_sections sname secs \<equiv> concat (map snd (filter (\<lambda>x. strncasecmp_eq sname (fst x)) secs))"

lemma parse_sections:
  assumes "\<forall>x \<in> set secs. section_ok x" "q = None \<or> (\<exists>p. q = Some p \<and> newline p)"
  shows "parse_from sname key q (concat (map section_text secs) @ CHR 0x00 # s) = Some (named key (in_sections sname secs))"
  using assms
proof (induction secs arbitrary: q)
  case Nil
  then show ?case by (simp add: parse_from.simps end_of_string_def)
next
  case (Cons x secs)
  obtain sec es where x: "x = (sec, es)" by force
  have ok: "section_ok (sec, es)" using Cons.prems x by simp
  obtain d ds where d: "concat (map section_text secs) @ CHR 0x00 # s = d # ds" "d = CHR ''['' \<or> d = CHR 0x00"
    by (cases secs) (auto simp: section_text_def)
  obtain p where p: "newline p" "parse_from sname key q (section_text (sec, es) @ d # ds) =
    (if strncasecmp_eq sname sec then (case named key es of Some v \<Rightarrow> Some (Some v) | None \<Rightarrow> parse_from sname key (Some p) (d # ds))
     else parse_from sname key (Some p) (d # ds))"
    by (rule parse_section [OF ok d(2) Cons.prems(2)])
  have "parse_from sname key (Some p) (concat (map section_text secs) @ CHR 0x00 # s) = Some (named key (in_sections sname secs))"
    by (rule Cons.IH) (use Cons.prems p(1) in simp_all)
  then have IH: "parse_from sname key (Some p) (d # ds) = Some (named key (in_sections sname secs))" unfolding d(1) .
  have t: "concat (map section_text (x # secs)) @ CHR 0x00 # s = section_text (sec, es) @ d # ds" by (simp add: x d(1))
  show ?case unfolding t p(2) IH by (simp add: x named_append split: option.split)
qed

lemma plain_entry: "entry_ok e \<Longrightarrow> CHR 0x00 \<notin> set (entry_text e) \<and> CHR 0xFF \<notin> set (entry_text e)"
  by (cases e) (auto simp: entry_ok_def entry_text_def plain_def)

lemma plain_section: "section_ok x \<Longrightarrow> CHR 0xFF \<notin> set (section_text x)"
  by (auto simp: section_ok_def section_text_def plain_def dest: plain_entry)

lemma load_conf:
  assumes "\<forall>x \<in> set secs. section_ok x" "length (concat (map section_text secs)) < MAX_INI_FILE_SIZE"
  obtains z where "load_ini_file (concat (map section_text secs)) = Some (concat (map section_text secs) @ CHR 0x00 # z)"
proof -
  let ?t = "concat (map section_text secs)"
  have "CHR 0xFF \<notin> set ?t" using assms(1) plain_section by auto
  then have tw: "takeWhile (\<lambda>c. c \<noteq> CHR 0xFF) ?t = ?t" unfolding takeWhile_eq_all_conv by blast
  obtain n where n: "MAX_INI_FILE_SIZE - length ?t = Suc n" using assms(2) by (cases "MAX_INI_FILE_SIZE - length ?t") linarith+
  show thesis
  proof (rule that)
    show "load_ini_file ?t = Some (?t @ CHR 0x00 # replicate n (CHR 0x00))"
      unfolding load_ini_file_def Let_def tw n using assms(2) by (simp only: if_True replicate_Suc)
  qed
qed

lemma read_conf:
  assumes "\<forall>x \<in> set secs. section_ok x" "length (concat (map section_text secs)) < MAX_INI_FILE_SIZE" "sname \<noteq> []" "key \<noteq> []"
  shows "read_profile_string sname key n (Some (concat (map section_text secs))) =
    (case named key (in_sections sname secs) of None \<Rightarrow> Conf_missing | Some v \<Rightarrow> Conf_value (take (n - 1) v))"
proof -
  obtain z where z: "load_ini_file (concat (map section_text secs)) = Some (concat (map section_text secs) @ CHR 0x00 # z)"
    by (rule load_conf [OF assms(1,2)])
  have f: "parse_file sname key (concat (map section_text secs) @ CHR 0x00 # z) = Some (named key (in_sections sname secs))"
    unfolding parse_file_def by (rule parse_sections) (use assms(1) in simp_all)
  have ne: "\<not> (sname = [] \<or> key = [])" using assms(3,4) by simp
  show ?thesis unfolding read_profile_string_def if_not_P [OF ne] option.case z f
    by (cases "named key (in_sections sname secs)") (simp_all only: option.case)
qed

text \<open>C31: What the reader of a configuration file finds: in a file of sections and lines of the form \<open>key=value\<close> it gives the value of the
  first line, in a section whose name the wanted section begins with, whose key the wanted key begins with, in either case of the
  letters; up to a tab_or_space for a string, as a number for an \<open>int\<close>, and \<open>-1\<close> or leftovers of the stack when there is no such line.\<close>

theorem conf_lookup:
  assumes "\<forall>x \<in> set secs. section_ok x" "length (concat (map section_text secs)) < MAX_INI_FILE_SIZE" "sname \<noteq> []" "key \<noteq> []"
  shows "readStr junk sname key (Some (concat (map section_text secs))) = Some (takeWhile (\<lambda>c. \<not> tab_or_space c)
      (case named key (in_sections sname secs) of None \<Rightarrow> takeWhile (\<lambda>c. c \<noteq> CHR 0x00) junk | Some v \<Rightarrow> take 1023 v)) \<and>
    readInt sname key (Some (concat (map section_text secs))) =
      Some (case named key (in_sections sname secs) of None \<Rightarrow> - 1 | Some v \<Rightarrow> atoi (take 31 v))"
proof (rule conjI)
  have junk: "takeWhile (\<lambda>c. \<not> tab_or_space c \<and> c \<noteq> CHR 0x00) s = takeWhile (\<lambda>c. \<not> tab_or_space c) (takeWhile (\<lambda>c. c \<noteq> CHR 0x00) s)" for s
    by (induction s) auto
  show "readStr junk sname key (Some (concat (map section_text secs))) = Some (takeWhile (\<lambda>c. \<not> tab_or_space c)
      (case named key (in_sections sname secs) of None \<Rightarrow> takeWhile (\<lambda>c. c \<noteq> CHR 0x00) junk | Some v \<Rightarrow> take 1023 v))"
    unfolding readStr_def read_conf [OF assms] junk by (cases "named key (in_sections sname secs)") simp_all
next
  show "readInt sname key (Some (concat (map section_text secs))) =
      Some (case named key (in_sections sname secs) of None \<Rightarrow> - 1 | Some v \<Rightarrow> atoi (take 31 v))"
    unfolding readInt_def read_conf [OF assms] by (cases "named key (in_sections sname secs)") simp_all
qed

text \<open>C34: The reader never leaves its buffer of 10240 bytes, whatever the file holds, when the file has at most 10238 characters.\<close>

theorem conf_reads_inside:
  assumes "length file + 1 < MAX_INI_FILE_SIZE" "load_ini_file file = Some buf"
  shows "parse_file sname key buf \<noteq> None"
proof -
  let ?t = "takeWhile (\<lambda>c. c \<noteq> CHR 0xFF) file"
  have "length ?t \<le> length file" by (rule length_takeWhile_le)
  then obtain n where n: "MAX_INI_FILE_SIZE - length ?t = Suc (Suc n)"
    using assms(1) by (cases "MAX_INI_FILE_SIZE - length ?t"; cases "MAX_INI_FILE_SIZE - length ?t - 1") (linarith | simp)+
  have "buf = ?t @ replicate (MAX_INI_FILE_SIZE - length ?t) (CHR 0x00)"
    using assms(2) by (auto simp: load_ini_file_def Let_def split: if_splits)
  then have "buf = ?t @ CHR 0x00 # CHR 0x00 # replicate n (CHR 0x00)" by (simp only: n replicate_Suc)
  then have "terminated buf" unfolding terminated_def by blast
  then show ?thesis unfolding parse_file_def by (rule parse_from_inside)
qed

text \<open>With one character more it can: the last line of the file is the section's and has no end.\<close>

lemma scan_to_none: "\<forall>c \<in> set s. \<not> P c \<Longrightarrow> scan_to P s = None"
  by (induction s) auto

lemma full_file_overruns:
  assumes "length a = 10235" "\<forall>c \<in> set a. c = CHR ''a''"
  shows "load_ini_file (''[s]'' @ [CHR 0x0A] @ a) = Some ((''[s]'' @ [CHR 0x0A] @ a) @ [CHR 0x00])"
    "parse_file ''s'' ''k'' ((''[s]'' @ [CHR 0x0A] @ a) @ [CHR 0x00]) = None"
proof -
  let ?f = "''[s]'' @ [CHR 0x0A] @ a"
  have tw: "takeWhile (\<lambda>c. c \<noteq> CHR 0xFF) ?f = ?f" unfolding takeWhile_eq_all_conv using assms(2) by auto
  have "length ?f = 10239" using assms(1) by simp
  then have len: "length ?f < MAX_INI_FILE_SIZE" "MAX_INI_FILE_SIZE - length ?f = Suc 0" unfolding MAX_INI_FILE_SIZE_def by linarith+
  show "load_ini_file ?f = Some (?f @ [CHR 0x00])"
    unfolding load_ini_file_def Let_def tw if_P [OF len(1)] len(2) by (simp only: replicate.simps)
  have "a \<noteq> []" using assms(1) by (metis list.size(3) zero_neq_numeral)
  then have "hd a = CHR ''a''" using assms(2) hd_in_set by blast
  with \<open>a \<noteq> []\<close> have x: "a = CHR ''a'' # tl a" by (cases a) simp_all
  have nl: "scan_to (\<lambda>c. newline c \<or> end_of_string c) (a @ [CHR 0x00]) = Some (a, [CHR 0x00])"
  proof (rule scan_to_append)
    show "\<forall>c \<in> set a. \<not> (newline c \<or> end_of_string c)"
    proof
      fix c assume "c \<in> set a"
      then have "c = CHR ''a''" using assms(2) by blast
      then show "\<not> (newline c \<or> end_of_string c)" by (simp add: newline_def end_of_string_def)
    qed
  qed (simp add: end_of_string_def)
  have lv: "line_value ''k'' a = None"
  proof -
    have "\<forall>c \<in> set (tl a). c \<noteq> CHR ''=''" using assms(2) list.set_sel(2) [OF \<open>a \<noteq> []\<close>] by fastforce
    then have "scan_to (\<lambda>c. c = CHR ''='') (tl a) = None" by (rule scan_to_none)
    then show ?thesis by (subst x) (simp add: line_value_def)
  qed
  have a0: "a @ [CHR 0x00] = CHR ''a'' # tl a @ [CHR 0x00]" by (subst x) simp
  have "section_lines ''k'' (CHR 0x0A) (CHR ''a'' # tl a @ [CHR 0x00]) = None"
    using nl lv unfolding a0 by (simp add: section_lines.simps end_of_string_def del: scan_to.simps)
  then have "enter_section ''s'' ''k'' (''s]'' @ [CHR 0x0A] @ a @ [CHR 0x00]) = None"
    unfolding a0 by (simp add: enter_section_def end_of_string_def strncasecmp_eq_def isspace_def)
  then show "parse_file ''s'' ''k'' (?f @ [CHR 0x00]) = None"
    by (simp add: parse_file_def parse_from.simps end_of_string_def)
qed

section \<open>The nodes of the configuration\<close>

lemma strncasecmp_append [simp]: "strncasecmp_eq (p @ a) (p @ b) = strncasecmp_eq a b"
  by (auto simp: strncasecmp_eq_def)

lemma named_first:
  "i < length es \<Longrightarrow> strncasecmp_eq key (fst (es ! i)) \<Longrightarrow> \<forall>j < i. \<not> strncasecmp_eq key (fst (es ! j)) \<Longrightarrow> named key es = Some (snd (es ! i))"
proof (induction es arbitrary: i)
  case (Cons e es)
  obtain k v where e: "e = (k, v)" by force
  show ?case
  proof (cases i)
    case 0
    then show ?thesis using Cons.prems(2) e by simp
  next
    case (Suc i')
    have "\<not> strncasecmp_eq key k" using Cons.prems(3) Suc e by (metis nth_Cons_0 fst_conv zero_less_Suc)
    moreover have "\<forall>j < i'. \<not> strncasecmp_eq key (fst (es ! j))" using Cons.prems(3) Suc by (metis Suc_mono nth_Cons_Suc)
    ultimately show ?thesis using Cons.IH [of i'] Cons.prems(1,2) Suc e by simp
  qed
qed simp

text \<open>The lines of the nodes 1 to \<open>m\<close> for one field, e.g. \<open>sip_subnode_id\<close>.\<close>

definition node_lines :: "string \<Rightarrow> nat \<Rightarrow> (nat \<Rightarrow> string) \<Rightarrow> (string \<times> string) list" where
  "node_lines field m f = map (\<lambda>i. (field @ dec i, f i)) [1..<Suc m]"

definition leading_digit :: "nat \<Rightarrow> nat" where
  "leading_digit n = digit_value (hd (dec n))"

lemma leading_digit:
  assumes "0 < n" obtains r where "dec n = dec (leading_digit n) @ r" "1 \<le> leading_digit n" "leading_digit n \<le> 9" "leading_digit n \<le> n"
proof -
  have "\<exists>d r. dec n = dec d @ r \<and> 1 \<le> d \<and> d \<le> 9 \<and> d \<le> n" using assms
  proof (induction n rule: less_induct)
    case (less n)
    show ?case
    proof (cases "n < 10")
      case True
      then show ?thesis using less.prems by (intro exI [of _ n] exI [of _ "[]"]) simp
    next
      case False
      then have "0 < n div 10" "n div 10 < n" by (simp_all add: div_greater_zero_iff)
      then obtain d r where d: "dec (n div 10) = dec d @ r" "1 \<le> d" "d \<le> 9" "d \<le> n div 10"
        using less.IH [of "n div 10"] by auto
      have "dec n = dec (n div 10) @ [digit_char (n mod 10)]" using False by (subst dec.simps) simp
      then show ?thesis using d by (intro exI [of _ d] exI [of _ "r @ [digit_char (n mod 10)]"]) simp
    qed
  qed
  then obtain d r where d: "dec n = dec d @ r" "1 \<le> d" "d \<le> 9" "d \<le> n" by blast
  have "leading_digit n = dec_value (dec d)" using d(1,3) by (simp add: leading_digit_def dec.simps [of d] dec_value_def)
  then show thesis using that d by simp
qed

lemma named_node:
  assumes "0 < n" "n \<le> m"
  shows "named (field @ dec n) (node_lines field m f) = Some (f (leading_digit n))"
proof -
  obtain r where r: "dec n = dec (leading_digit n) @ r" "1 \<le> leading_digit n" "leading_digit n \<le> 9" "leading_digit n \<le> n"
    by (rule leading_digit [OF assms(1)])
  let ?d = "leading_digit n" and ?es = "node_lines field m f"
  have at: "?es ! j = (field @ dec (Suc j), f (Suc j))" if "j < m" for j using that by (simp add: node_lines_def nth_upt del: upt_Suc)
  have "named (field @ dec n) ?es = Some (snd (?es ! (?d - 1)))"
  proof (rule named_first)
    show "?d - 1 < length ?es" using r(2,4) assms by (simp add: node_lines_def)
    have "?d - 1 < m" using r(2,4) assms by simp
    then show "strncasecmp_eq (field @ dec n) (fst (?es ! (?d - 1)))" using r(1,2) by (simp add: at strncasecmp_eq_def)
    show "\<forall>j < ?d - 1. \<not> strncasecmp_eq (field @ dec n) (fst (?es ! j))"
    proof (intro allI impI)
      fix j assume j: "j < ?d - 1"
      then have "j < m" "Suc j < 10" using r(3,4) assms by simp_all
      moreover have "digit_char (Suc j) \<noteq> digit_char ?d"
      proof
        assume "digit_char (Suc j) = digit_char ?d"
        then have "digit_value (digit_char (Suc j)) = digit_value (digit_char ?d)" by simp
        then show False using j r(3) by (simp add: digit_value_char)
      qed
      moreover have "tolower (digit_char x) = digit_char x" if "x < 10" for x using that by (simp add: tolower_def digit_char_code)
      ultimately show "\<not> strncasecmp_eq (field @ dec n) (fst (?es ! j))"
        using r(1,3) by (simp add: at strncasecmp_eq_def dec.simps [of "Suc j"] dec.simps [of ?d])
    qed
  qed
  then show ?thesis using at [of "?d - 1"] r(2,4) assms by simp
qed

text \<open>From the tenth node on the configuration is read wrong: for a file that lists its nodes 1 to \<open>m\<close> in order, the value read
  for node \<open>n\<close> is the one of the node whose number is the first digit of \<open>n\<close>, so that node 10 is read as node 1 again.\<close>

theorem tenth_node_is_the_first:
  assumes "0 < n" "n \<le> m" "section_ok (sname, node_lines field m f)" "sname \<noteq> []" "field \<noteq> []"
    "length (section_text (sname, node_lines field m f)) < MAX_INI_FILE_SIZE"
  shows "readStr junk sname (field @ dec n) (Some (section_text (sname, node_lines field m f))) =
    Some (takeWhile (\<lambda>c. \<not> tab_or_space c) (take 1023 (f (leading_digit n))))"
proof -
  have "read_profile_string sname (field @ dec n) 1024 (Some (concat (map section_text [(sname, node_lines field m f)]))) =
      Conf_value (take (1024 - 1) (f (leading_digit n)))"
    by (subst read_conf) (use assms named_node [OF assms(1,2), of field f] in \<open>simp_all add: strncasecmp_eq_def\<close>)
  then show ?thesis by (simp add: readStr_def)
qed

section \<open>RTP ports\<close>

text \<open>The queue \<open>m_RandNum\<close> with its bounds. \<open>front\<close> and \<open>pop\<close> of an empty queue are undefined: \<open>None\<close>.\<close>

record port_queue =
  pq_begin :: int
  pq_end :: int
  pq_queue :: "int list"

definition initRandPort :: "int \<Rightarrow> int \<Rightarrow> port_queue" where
  "initRandPort b e =
     (let b1 = (if b mod 2 \<noteq> 0 then b + 1 else b); e1 = (if e mod 2 = 0 then e - 1 else e)
      in \<lparr>pq_begin = b1, pq_end = e1, pq_queue = [b1..e1]\<rparr>)"

definition popOneRandNum :: "port_queue \<Rightarrow> (int \<times> port_queue) option" where
  "popOneRandNum p =
     (case pq_queue p of
        [] \<Rightarrow> Some (0, p)
      | x # q \<Rightarrow>
          (case (if x mod 2 \<noteq> 0 then q else x # q) of
             [] \<Rightarrow> None
           | y # q1 \<Rightarrow> (case q1 of [] \<Rightarrow> None | z # q2 \<Rightarrow> Some (y, p\<lparr>pq_queue := q2\<rparr>))))"

definition pushOneRandNum :: "int \<Rightarrow> port_queue \<Rightarrow> port_queue" where
  "pushOneRandNum num p =
     (if num < pq_begin p \<or> pq_end p < num then p else p\<lparr>pq_queue := pq_queue p @ [num, num + 1]\<rparr>)"

text \<open>How the services use it: a session takes a port and gives it back when it ends; 0 is no port, and giving it back does nothing.\<close>

inductive port_step :: "port_queue \<times> int list \<Rightarrow> port_queue \<times> int list \<Rightarrow> bool" where
  take_port: "popOneRandNum p = Some (n, q) \<Longrightarrow> n \<noteq> 0 \<Longrightarrow> port_step (p, used) (q, n # used)"
| take_none: "popOneRandNum p = Some (0, q) \<Longrightarrow> port_step (p, used) (q, used)"
| give_back: "n \<in> set used \<Longrightarrow> port_step (p, used) (pushOneRandNum n p, remove1 n used)"
| give_none: "port_step (p, used) (pushOneRandNum 0 p, used)"

definition pairs :: "int list \<Rightarrow> int list" where
  "pairs es = concat (map (\<lambda>x. [x, x + 1]) es)"

lemma pairs_simps [simp]: "pairs [] = []" "pairs (x # es) = x # (x + 1) # pairs es" "pairs (es @ fs) = pairs es @ pairs fs"
  by (simp_all add: pairs_def)

definition queue_ok :: "int \<Rightarrow> int \<Rightarrow> port_queue \<times> int list \<Rightarrow> bool" where
  "queue_ok b e s \<longleftrightarrow> (case s of (p, used) \<Rightarrow> pq_begin p = b \<and> pq_end p = e \<and>
     (\<exists>es. pq_queue p = pairs es \<and> distinct (es @ used) \<and> (\<forall>x \<in> set (es @ used). x mod 2 = 0 \<and> b \<le> x \<and> x + 1 \<le> e)))"

lemma even_pairs:
  "(b :: int) mod 2 = 0 \<Longrightarrow> e mod 2 = 1 \<Longrightarrow>
   \<exists>es. [b..e] = pairs es \<and> distinct es \<and> (\<forall>x \<in> set es. x mod 2 = 0 \<and> b \<le> x \<and> x + 1 \<le> e)"
proof (induction "nat (e - b + 1)" arbitrary: b rule: less_induct)
  case less
  show ?case
  proof (cases "b \<le> e")
    case False
    then show ?thesis by (intro exI [of _ "[]"]) simp
  next
    case True
    then have "b + 1 \<le> e" using less.prems by (cases "b = e") auto
    then have u: "[b..e] = b # (b + 1) # [b + 2..e]" using True upto_rec1 [of b e] upto_rec1 [of "b + 1" e] by (simp add: add.commute)
    have "(b + 2) mod 2 = 0" using less.prems(1) by simp
    moreover have "nat (e - (b + 2) + 1) < nat (e - b + 1)" using True by simp
    ultimately obtain es where "[b + 2..e] = pairs es" "distinct es" "\<forall>x \<in> set es. x mod 2 = 0 \<and> b + 2 \<le> x \<and> x + 1 \<le> e"
      using less.hyps [of "b + 2"] less.prems(2) by auto
    then show ?thesis using u \<open>b + 1 \<le> e\<close> less.prems(1) by (intro exI [of _ "b # es"]) fastforce
  qed
qed

lemma initRandPort_ok: "queue_ok (pq_begin (initRandPort b e)) (pq_end (initRandPort b e)) (initRandPort b e, [])"
proof -
  let ?b = "if b mod 2 \<noteq> 0 then b + 1 else b" and ?e = "if e mod 2 = 0 then e - 1 else e"
  have "?b mod 2 = 0" "?e mod 2 = 1" by presburger+
  then show ?thesis using even_pairs [of ?b ?e] by (simp add: queue_ok_def initRandPort_def Let_def)
qed

lemma pop_ok:
  assumes "queue_ok b e (p, used)" "0 < b"
  shows "popOneRandNum p = Some (0, p) \<and> pq_queue p = [] \<or>
    (\<exists>n q. popOneRandNum p = Some (n, q) \<and> n \<noteq> 0 \<and> n mod 2 = 0 \<and> b \<le> n \<and> n + 1 \<le> e \<and> n \<notin> set used \<and> queue_ok b e (q, n # used))"
proof -
  obtain es where es: "pq_queue p = pairs es" "distinct (es @ used)" "\<forall>x \<in> set (es @ used). x mod 2 = 0 \<and> b \<le> x \<and> x + 1 \<le> e"
    "pq_begin p = b" "pq_end p = e"
    using assms(1) by (auto simp: queue_ok_def)
  show ?thesis
  proof (cases es)
    case Nil
    then show ?thesis using es(1) by (simp add: popOneRandNum_def)
  next
    case (Cons n es')
    have "popOneRandNum p = Some (n, p\<lparr>pq_queue := pairs es'\<rparr>)" using es(1,3) Cons by (simp add: popOneRandNum_def)
    moreover have "queue_ok b e (p\<lparr>pq_queue := pairs es'\<rparr>, n # used)"
      using es Cons unfolding queue_ok_def by (simp, intro exI [of _ es']) auto
    ultimately show ?thesis using es(2,3) Cons assms(2) by (intro disjI2 exI [of _ n] exI [of _ "p\<lparr>pq_queue := pairs es'\<rparr>"]) auto
  qed
qed

lemma port_step_ok: "port_step s t \<Longrightarrow> queue_ok b e s \<Longrightarrow> 0 < b \<Longrightarrow> queue_ok b e t"
proof (induction rule: port_step.induct)
  case (take_port p n q used)
  then show ?case using pop_ok [of b e p used] by auto
next
  case (take_none p q used)
  then show ?case using pop_ok [of b e p used] by auto
next
  case (give_back n used p)
  then obtain es where es: "pq_queue p = pairs es" "distinct (es @ used)" "\<forall>x \<in> set (es @ used). x mod 2 = 0 \<and> b \<le> x \<and> x + 1 \<le> e"
    "pq_begin p = b" "pq_end p = e"
    by (auto simp: queue_ok_def)
  have n: "n mod 2 = 0" "b \<le> n" "n + 1 \<le> e" using es(3) give_back(1) by auto
  have "pq_queue (pushOneRandNum n p) = pairs (es @ [n])" using n es by (simp add: pushOneRandNum_def)
  moreover have "distinct ((es @ [n]) @ remove1 n used)" using es(2) give_back(1) by auto
  moreover have "\<forall>x \<in> set ((es @ [n]) @ remove1 n used). x mod 2 = 0 \<and> b \<le> x \<and> x + 1 \<le> e"
    using es(3) n set_remove1_subset [of n used] by auto
  moreover have "pq_begin (pushOneRandNum n p) = b" "pq_end (pushOneRandNum n p) = e" using es(4,5) by (simp_all add: pushOneRandNum_def)
  ultimately show ?case unfolding queue_ok_def prod.case by blast
next
  case (give_none p used)
  then show ?case by (auto simp: queue_ok_def pushOneRandNum_def)
qed

text \<open>C32: The port queue never hands out a port that is in use: whatever sessions have taken and given back ports since the start,
  taking one finds the queue empty or gives an even port of the configured range, with the next one for RTCP, that no session holds, and
  never touches an empty queue.\<close>

theorem ports_exclusive:
  assumes "port_step\<^sup>*\<^sup>* (initRandPort b e, []) (p, used)" "0 < b"
  shows "popOneRandNum p = Some (0, p) \<or>
    (\<exists>n q. popOneRandNum p = Some (n, q) \<and> n mod 2 = 0 \<and> b \<le> n \<and> n + 1 \<le> e \<and> n \<notin> set used)"
proof -
  let ?p = "initRandPort b e"
  have b: "b \<le> pq_begin ?p" "pq_end ?p \<le> e" by (simp_all add: initRandPort_def Let_def)
  have "queue_ok (pq_begin ?p) (pq_end ?p) (p, used)"
    using assms(1)
  proof (induction rule: rtranclp_induct2)
    case refl
    show ?case by (rule initRandPort_ok)
  next
    case (step p1 u1 p2 u2)
    show ?case by (rule port_step_ok [OF step(2) step(3)]) (use b(1) assms(2) in simp)
  qed
  then show ?thesis using pop_ok [of "pq_begin ?p" "pq_end ?p" p used] b assms(2) by auto
qed

section \<open>The supervising service's configuration\<close>

record sub_node =
  sn_id :: string
  sn_ip :: string
  sn_port :: int
  sn_poto :: int
  sn_auth :: int

record local_config =
  lc_localIp :: string
  lc_localPort :: int
  lc_sipId :: string
  lc_sipIp :: string
  lc_sipPort :: int
  lc_sipRealm :: string
  lc_usr :: string
  lc_pwd :: string
  lc_rtpPortBegin :: int
  lc_rtpPortEnd :: int
  lc_RandNum :: "int list"
  lc_nodes :: "sub_node list"

definition new_local_config :: local_config where
  "new_local_config = \<lparr>lc_localIp = [], lc_localPort = 0, lc_sipId = [], lc_sipIp = [], lc_sipPort = 0, lc_sipRealm = [], lc_usr = [],
     lc_pwd = [], lc_rtpPortBegin = 0, lc_rtpPortEnd = 0, lc_RandNum = [], lc_nodes = []\<rparr>"

text \<open>A field that must not be empty, or must be positive, and what is done after it. \<open>junk\<close> gives, by key, the leftovers
  \<open>readStr\<close> returns for a key that is missing.\<close>

definition need_str ::
  "(string \<Rightarrow> string) \<Rightarrow> string \<Rightarrow> string \<Rightarrow> (string \<Rightarrow> local_config \<Rightarrow> local_config) \<Rightarrow> string option \<Rightarrow> local_config \<Rightarrow>
   (local_config \<Rightarrow> (int \<times> local_config) option) \<Rightarrow> (int \<times> local_config) option" where
  "need_str junk sname key put file c k = do {
     s \<leftarrow> readStr (junk key) sname key file;
     if s = [] then Some (- 1, put s c) else k (put s c) }"

definition need_int ::
  "string \<Rightarrow> string \<Rightarrow> (int \<Rightarrow> local_config \<Rightarrow> local_config) \<Rightarrow> string option \<Rightarrow> local_config \<Rightarrow>
   (local_config \<Rightarrow> (int \<times> local_config) option) \<Rightarrow> (int \<times> local_config) option" where
  "need_int sname key put file c k = do {
     i \<leftarrow> readInt sname key file;
     if i \<le> 0 then Some (- 1, put i c) else k (put i c) }"

fun read_nodes :: "(string \<Rightarrow> string) \<Rightarrow> string option \<Rightarrow> nat list \<Rightarrow> sub_node list option" where
  "read_nodes junk file [] = Some []"
| "read_nodes junk file (i # is) = do {
     let key = (\<lambda>field. field @ dec i);
     id \<leftarrow> readStr (junk (key ''sip_subnode_id'')) ''sipserver'' (key ''sip_subnode_id'') file;
     ip \<leftarrow> readStr (junk (key ''sip_subnode_ip'')) ''sipserver'' (key ''sip_subnode_ip'') file;
     port \<leftarrow> readInt ''sipserver'' (key ''sip_subnode_port'') file;
     poto \<leftarrow> readInt ''sipserver'' (key ''sip_subnode_poto'') file;
     auth \<leftarrow> readInt ''sipserver'' (key ''sip_subnode_auth'') file;
     ns \<leftarrow> read_nodes junk file is;
     Some (\<lparr>sn_id = id, sn_ip = ip, sn_port = port, sn_poto = poto, sn_auth = auth\<rparr> # ns) }"

definition ReadConf :: "(string \<Rightarrow> string) \<Rightarrow> string option \<Rightarrow> local_config \<Rightarrow> (int \<times> local_config) option" where
  "ReadConf junk file c =
     need_str junk ''localserver'' ''local_ip'' (\<lambda>s c. c\<lparr>lc_localIp := s\<rparr>) file c (\<lambda>c.
     need_int ''localserver'' ''local_port'' (\<lambda>i c. c\<lparr>lc_localPort := i\<rparr>) file c (\<lambda>c.
     need_str junk ''sipserver'' ''sip_id'' (\<lambda>s c. c\<lparr>lc_sipId := s\<rparr>) file c (\<lambda>c.
     need_str junk ''sipserver'' ''sip_ip'' (\<lambda>s c. c\<lparr>lc_sipIp := s\<rparr>) file c (\<lambda>c.
     need_int ''sipserver'' ''sip_port'' (\<lambda>i c. c\<lparr>lc_sipPort := i\<rparr>) file c (\<lambda>c.
     need_str junk ''sipserver'' ''sip_realm'' (\<lambda>s c. c\<lparr>lc_sipRealm := s\<rparr>) file c (\<lambda>c.
     need_str junk ''sipserver'' ''sip_usr'' (\<lambda>s c. c\<lparr>lc_usr := s\<rparr>) file c (\<lambda>c.
     need_str junk ''sipserver'' ''sip_pwd'' (\<lambda>s c. c\<lparr>lc_pwd := s\<rparr>) file c (\<lambda>c.
     need_int ''sipserver'' ''rtp_port_begin'' (\<lambda>i c. c\<lparr>lc_rtpPortBegin := i\<rparr>) file c (\<lambda>c.
     need_int ''sipserver'' ''rtp_port_end'' (\<lambda>i c. c\<lparr>lc_rtpPortEnd := i\<rparr>) file c (\<lambda>c. do {
       let p = initRandPort (lc_rtpPortBegin c) (lc_rtpPortEnd c);
       let c = c\<lparr>lc_rtpPortBegin := pq_begin p, lc_rtpPortEnd := pq_end p, lc_RandNum := pq_queue p\<rparr>;
       num \<leftarrow> readInt ''sipserver'' ''subnode_num'' file;
       ns \<leftarrow> read_nodes junk file [1..<nat (num + 1)];
       Some (0, c\<lparr>lc_nodes := ns\<rparr>) }))))))))))"

section \<open>Samples\<close>

definition sample_conf :: "(string \<times> (string \<times> string) list) list" where
  "sample_conf = [(''localserver'', [(''local_port'', ''9000'')]), (''sipserver'', [(''sip_id'', ''110 x''), (''rtp_port_begin'', ''20000'')])]"

lemma conf_lookup_witness:
  "readStr [] ''sipserver'' ''sip_id'' (Some (concat (map section_text sample_conf))) = Some ''110'' \<and>
   readInt ''sipserver'' ''rtp_port_end'' (Some (concat (map section_text sample_conf))) = Some (- 1)"
proof -
  have ok: "\<forall>x \<in> set sample_conf. section_ok x" "length (concat (map section_text sample_conf)) < MAX_INI_FILE_SIZE"
    by (simp_all add: sample_conf_def section_ok_def entry_ok_def plain_def newline_def isspace_def tab_or_space_def section_text_def entry_text_def
        MAX_INI_FILE_SIZE_def)
  have n: "named ''sip_id'' (in_sections ''sipserver'' sample_conf) = Some ''110 x''"
    "named ''rtp_port_end'' (in_sections ''sipserver'' sample_conf) = None"
    by (simp_all add: sample_conf_def strncasecmp_eq_def tolower_def)
  show ?thesis
    using conf_lookup [OF ok, of "''sipserver''" "''sip_id''" "[]"] conf_lookup [OF ok, of "''sipserver''" "''rtp_port_end''" "[]"]
    unfolding n by (simp add: tab_or_space_def)
qed

lemma conf_reads_inside_witness:
  "parse_file ''s'' ''k'' ([CHR 0x0A] @ replicate 10239 (CHR 0x00)) \<noteq> None"
  by (rule conf_reads_inside [of "[CHR 0x0A]"]) (simp_all add: MAX_INI_FILE_SIZE_def load_ini_file_def)

lemma tenth_node_is_the_first_witness:
  "readStr junk ''sipserver'' ''sip_subnode_id10'' (Some (section_text (''sipserver'', node_lines ''sip_subnode_id'' 10 dec))) = Some ''1''"
proof -
  have d: "dec 10 = ''10''" "dec 1 = ''1''" by code_simp+
  have l: "leading_digit 10 = 1" by (simp add: leading_digit_def d digit_value_def)
  have ok: "section_ok (''sipserver'', node_lines ''sip_subnode_id'' 10 dec)" by code_simp
  have len: "length (section_text (''sipserver'', node_lines ''sip_subnode_id'' 10 dec)) < MAX_INI_FILE_SIZE" by code_simp
  show ?thesis
    using tenth_node_is_the_first [of 10 10 "''sipserver''" "''sip_subnode_id''" dec junk] ok len l d by (simp add: tab_or_space_def)
qed

lemma ports_exclusive_witness:
  "popOneRandNum (initRandPort 20000 20003) = Some (20000, \<lparr>pq_begin = 20000, pq_end = 20003, pq_queue = [20002, 20003]\<rparr>) \<and>
   (\<exists>n q. popOneRandNum (initRandPort 20000 20003) = Some (n, q) \<and> n \<notin> {})"
proof -
  have "port_step\<^sup>*\<^sup>* (initRandPort 20000 20003, []) (initRandPort 20000 20003, [])" by simp
  from ports_exclusive [OF this] show ?thesis
    by (simp add: initRandPort_def popOneRandNum_def upto.simps)
qed

end
