(* ===== verification/LegacyRegistry.thy ===== *)
theory LegacyRegistry
  imports CppText
begin

text \<open>
  Registration in the historical services. The supervising service (\<open>src/SipSupService\<close>) keeps the list of the
  domains it knows (\<open>GlobalCtl.cpp\<close>), registers them (\<open>SipRegister.cpp\<close>), is kept informed by their
  heartbeats (\<open>SipHeartBeat.cpp\<close>) and strikes out the silent ones; the subordinate service (\<open>src/SipSubService\<close>)
  registers with every service above it and sends the heartbeats.

  What PJSIP does is an argument: whether its calls succeed, and the status its digest check sets. \<open>None\<close> stands for
  a null pointer that is read, an exception, or a value the code uses without having one. A time is \<open>sysinfo\<close>'s
  uptime or \<open>time\<close>.
\<close>

section \<open>The identifier in a From header\<close>

text \<open>The text that \<open>print_on\<close> wrote; \<open>substr\<close> throws when it has fewer than eleven characters.\<close>

definition parseFromId :: "string \<Rightarrow> string option" where
  "parseFromId printed =
     (if printed = [] then Some []
      else if length printed < 11 then None
      else Some (take 20 (drop 11 printed)))"

definition setFrom :: "string \<Rightarrow> string \<Rightarrow> string" where
  "setFrom usr ip = ''<sip:'' @ usr @ ''@'' @ ip @ ''>''"

text \<open>The three texts of a request to the service \<open>usr\<close> (\<open>SipMessage\<close>): \<open>sprintf\<close> into a buffer of 128 characters each, so \<open>None\<close> when
  a text with its zero is longer.\<close>

definition header_buffer :: nat where "header_buffer = 128"

definition setUrl :: "string \<Rightarrow> string \<Rightarrow> int \<Rightarrow> string" where
  "setUrl usr ip port = ''sip:'' @ usr @ ''@'' @ ip @ '':'' @ dec_int port @ '';transport=udp''"

definition sip_message_texts :: "string \<Rightarrow> string \<Rightarrow> string \<Rightarrow> string \<Rightarrow> int \<Rightarrow> (string \<times> string \<times> string) option" where
  "sip_message_texts own own_ip usr ip port =
     (let frm = setFrom own own_ip; to = setFrom usr ip; url = setUrl usr ip port
      in if length frm < header_buffer \<and> length to < header_buffer \<and> length url < header_buffer then Some (frm, to, url) else None)"

text \<open>The library prints the header's name before its value and the parameters after it.\<close>

definition from_header :: "string \<Rightarrow> string \<Rightarrow> string \<Rightarrow> string" where
  "from_header usr ip params = ''From: '' @ setFrom usr ip @ params"

lemma parseFromId_header [simp]: "length usr = 20 \<Longrightarrow> parseFromId (from_header usr ip params) = Some usr"
  by (simp add: parseFromId_def from_header_def setFrom_def)

section \<open>The domains below\<close>

record sub_domain =
  sd_sipId :: string
  sd_addrIp :: string
  sd_sipPort :: int
  sd_protocal :: int
  sd_registered :: bool
  sd_expires :: int
  sd_lastRegTime :: int
  sd_auth :: bool

definition find_domain :: "string \<Rightarrow> sub_domain list \<Rightarrow> sub_domain option" where
  "find_domain sid ds = List.find (\<lambda>d. sd_sipId d = sid) ds"

fun update_domain :: "string \<Rightarrow> (sub_domain \<Rightarrow> sub_domain) \<Rightarrow> sub_domain list \<Rightarrow> sub_domain list" where
  "update_domain sid f [] = []"
| "update_domain sid f (d # ds) = (if sd_sipId d = sid then f d # ds else d # update_domain sid f ds)"

definition checkIsExist :: "string \<Rightarrow> sub_domain list \<Rightarrow> bool" where
  "checkIsExist sid ds = (find_domain sid ds \<noteq> None)"

definition checkIsVaild :: "string \<Rightarrow> sub_domain list \<Rightarrow> bool" where
  "checkIsVaild sid ds = (case find_domain sid ds of None \<Rightarrow> False | Some d \<Rightarrow> sd_registered d)"

definition setExpires :: "string \<Rightarrow> int \<Rightarrow> sub_domain list \<Rightarrow> sub_domain list" where
  "setExpires sid e = update_domain sid (\<lambda>d. d\<lparr>sd_expires := e\<rparr>)"

definition setRegister :: "string \<Rightarrow> bool \<Rightarrow> sub_domain list \<Rightarrow> sub_domain list" where
  "setRegister sid b = update_domain sid (\<lambda>d. d\<lparr>sd_registered := b\<rparr>)"

definition setLastRegTime :: "string \<Rightarrow> int \<Rightarrow> sub_domain list \<Rightarrow> sub_domain list" where
  "setLastRegTime sid t = update_domain sid (\<lambda>d. d\<lparr>sd_lastRegTime := t\<rparr>)"

text \<open>There is no \<open>return\<close> for a domain that is not in the list.\<close>

definition getAuth :: "string \<Rightarrow> sub_domain list \<Rightarrow> bool option" where
  "getAuth sid ds = map_option sd_auth (find_domain sid ds)"

text \<open>\<open>GlobalCtl::init\<close>: the nodes of the configuration, none of them registered. The last argument of a node is \<open>auth\<close>.\<close>

definition init_domains :: "(string \<times> string \<times> int \<times> int \<times> int) list \<Rightarrow> sub_domain list" where
  "init_domains nodes = map (\<lambda>(sid, ip, port, poto, auth). \<lparr>sd_sipId = sid, sd_addrIp = ip, sd_sipPort = port, sd_protocal = poto,
     sd_registered = False, sd_expires = 0, sd_lastRegTime = 0, sd_auth = (auth \<noteq> 0)\<rparr>) nodes"

section \<open>Registration\<close>

record register_request =
  rq_from :: string
  rq_authorization :: bool
  rq_expires :: "int option"

record register_env =
  re_time :: int
  re_verify :: int
  re_create_response :: bool
  re_response_addr :: bool
  re_send_response :: bool
  re_respond :: bool

text \<open>The last lines of both handlers.\<close>

definition note_registration :: "string \<Rightarrow> int \<Rightarrow> int \<Rightarrow> sub_domain list \<Rightarrow> sub_domain list" where
  "note_registration sid e t ds =
     (if 0 < e then setLastRegTime sid t (setRegister sid True ds)
      else if e = 0 then setLastRegTime sid 0 (setRegister sid False ds)
      else ds)"

text \<open>The result: did the calls of the library succeed, the status that was sent, and the list.\<close>

definition dealWithRegister ::
  "register_env \<Rightarrow> register_request \<Rightarrow> sub_domain list \<Rightarrow> (bool \<times> int option \<times> sub_domain list) option" where
  "dealWithRegister env rq ds = do {
     sid \<leftarrow> parseFromId (rq_from rq);
     (code, e, ds1) \<leftarrow> (if checkIsExist sid ds then do {
                             e \<leftarrow> rq_expires rq;
                             Some (200, e, setExpires sid e ds) }
                           else Some (404, 0, ds));
     if \<not> re_create_response env \<or> \<not> re_response_addr env \<or> \<not> re_send_response env then Some (False, None, ds1)
     else Some (True, Some code, if code = (200 :: int) then note_registration sid e (re_time env) ds1 else ds1) }"

text \<open>Here the outer result is what the handler's caller gets: on the path to the end of the body there is no \<open>return\<close>.\<close>

definition dealWithAuthorRegister ::
  "register_env \<Rightarrow> register_request \<Rightarrow> sub_domain list \<Rightarrow> (bool option \<times> int option \<times> sub_domain list) option" where
  "dealWithAuthorRegister env rq ds = do {
     sid \<leftarrow> parseFromId (rq_from rq);
     let code = (if rq_authorization rq then re_verify env else 401);
     (registered, e, ds1) \<leftarrow> (if rq_authorization rq \<and> code = 200 then do {
                                    e \<leftarrow> rq_expires rq;
                                    Some (True, e, setExpires sid e ds) }
                                  else Some (False, 0, ds));
     if \<not> re_respond env then Some (Some False, None, ds1)
     else Some (None, Some code, if registered then note_registration sid e (re_time env) ds1 else ds1) }"

definition RegisterRequestMessage ::
  "register_env \<Rightarrow> register_request \<Rightarrow> sub_domain list \<Rightarrow> (bool option \<times> int option \<times> sub_domain list) option" where
  "RegisterRequestMessage env rq ds = do {
     sid \<leftarrow> parseFromId (rq_from rq);
     auth \<leftarrow> getAuth sid ds;
     if auth then dealWithAuthorRegister env rq ds
     else do {
       (ok, code, ds1) \<leftarrow> dealWithRegister env rq ds;
       Some (Some ok, code, ds1) } }"

section \<open>Heartbeats and silence\<close>

definition HeartBeatMessage :: "int \<Rightarrow> string \<Rightarrow> sub_domain list \<Rightarrow> (int \<times> sub_domain list) option" where
  "HeartBeatMessage now from ds = do {
     sid \<leftarrow> parseFromId from;
     Some (if checkIsVaild sid ds then (200, update_domain sid (\<lambda>d. d\<lparr>sd_lastRegTime := now\<rparr>) ds) else (403, ds)) }"

definition RegisterCheckProc :: "int \<Rightarrow> sub_domain list \<Rightarrow> sub_domain list" where
  "RegisterCheckProc now ds =
     map (\<lambda>d. if sd_registered d \<and> sd_expires d \<le> now - sd_lastRegTime d then d\<lparr>sd_registered := False\<rparr> else d) ds"

section \<open>The services above\<close>

record sup_domain =
  up_sipId :: string
  up_addrIp :: string
  up_sipPort :: int
  up_protocal :: int
  up_registered :: bool
  up_expires :: int
  up_isAuth :: bool

text \<open>Whether each call of the library in \<open>gbRegister\<close> succeeds, in their order.\<close>

record regc_env =
  rc_create :: bool
  rc_init :: bool
  rc_set_credentials :: bool
  rc_register :: bool
  rc_send :: bool

definition gbRegister :: "regc_env \<Rightarrow> sup_domain \<Rightarrow> int" where
  "gbRegister env node =
     (if rc_create env \<and> rc_init env \<and> (up_isAuth node \<longrightarrow> rc_set_credentials env) \<and> rc_register env \<and> rc_send env then 0 else - 1)"

text \<open>The services a run of the timer sends a request to, and those a REGISTER was sent to.\<close>

definition RegisterProc :: "(sup_domain \<Rightarrow> regc_env) \<Rightarrow> sup_domain list \<Rightarrow> sup_domain list" where
  "RegisterProc env us = filter (\<lambda>u. \<not> up_registered u \<and> 0 \<le> gbRegister (env u) u) us"

definition client_cb :: "int \<Rightarrow> sup_domain \<Rightarrow> sup_domain" where
  "client_cb code u = (if code = 200 then u\<lparr>up_registered := True\<rparr> else u)"

definition HeartBeatProc :: "(sup_domain \<Rightarrow> bool) \<Rightarrow> sup_domain list \<Rightarrow> sup_domain list" where
  "HeartBeatProc sent us = filter (\<lambda>u. up_registered u \<and> sent u) us"

definition response_callback :: "int \<Rightarrow> sup_domain \<Rightarrow> sup_domain" where
  "response_callback code u = (if code \<noteq> 200 then u\<lparr>up_registered := False\<rparr> else u)"

section \<open>Lookups after updates\<close>

lemma find_domain_simps [simp]:
  "find_domain sid [] = None" "find_domain sid (d # ds) = (if sd_sipId d = sid then Some d else find_domain sid ds)"
  by (simp_all add: find_domain_def)

lemma find_update:
  assumes "\<And>d. sd_sipId (f d) = sd_sipId d"
  shows "find_domain k (update_domain sid f ds) = (if k = sid then map_option f (find_domain sid ds) else find_domain k ds)"
  using assms by (induction ds) auto

lemma find_setExpires: "find_domain k (setExpires sid e ds) =
    (if k = sid then map_option (\<lambda>d. d\<lparr>sd_expires := e\<rparr>) (find_domain sid ds) else find_domain k ds)"
  unfolding setExpires_def by (rule find_update) simp

lemma find_setRegister: "find_domain k (setRegister sid b ds) =
    (if k = sid then map_option (\<lambda>d. d\<lparr>sd_registered := b\<rparr>) (find_domain sid ds) else find_domain k ds)"
  unfolding setRegister_def by (rule find_update) simp

lemma find_setLastRegTime: "find_domain k (setLastRegTime sid t ds) =
    (if k = sid then map_option (\<lambda>d. d\<lparr>sd_lastRegTime := t\<rparr>) (find_domain sid ds) else find_domain k ds)"
  unfolding setLastRegTime_def by (rule find_update) simp

lemmas find_after = find_setExpires find_setRegister find_setLastRegTime find_update

lemma find_check: "find_domain k (RegisterCheckProc now ds) =
    map_option (\<lambda>d. if sd_registered d \<and> sd_expires d \<le> now - sd_lastRegTime d then d\<lparr>sd_registered := False\<rparr> else d) (find_domain k ds)"
  by (induction ds) (auto simp: RegisterCheckProc_def)

section \<open>The list as a map of registrations\<close>

text \<open>What the list promises: of every domain it knows, whether the domain is registered, since when and for how long.\<close>

type_synonym registry = "string \<Rightarrow> (int \<times> int) option option"

definition registrations :: "sub_domain list \<Rightarrow> registry" where
  "registrations ds k = map_option (\<lambda>d. if sd_registered d then Some (sd_lastRegTime d, sd_expires d) else None) (find_domain k ds)"

definition auth_of :: "sub_domain list \<Rightarrow> string \<Rightarrow> bool option" where
  "auth_of ds k = map_option sd_auth (find_domain k ds)"






lemma auth_noted [simp]:
  "auth_of (setExpires k e ds) = auth_of ds" "auth_of (note_registration k e t ds) = auth_of ds"
  "auth_of (RegisterCheckProc now ds) = auth_of ds"
  by (auto simp: auth_of_def note_registration_def find_after find_check fun_eq_iff option.map_comp comp_def intro!: map_option_cong)










section \<open>Requests that end the service\<close>

text \<open>Exactly which registrations the supervising service cannot take: one whose From header is shorter than eleven characters, one
  of a domain that is not configured (there \<open>getAuth\<close> has no value to return), and one without an Expires header that is not stopped by
  the digest check. Each of them is an exception or reads what is not there.\<close>

theorem register_undefined:
  "RegisterRequestMessage env rq ds = None \<longleftrightarrow>
     (case parseFromId (rq_from rq) of
        None \<Rightarrow> True
      | Some sid \<Rightarrow>
          (case find_domain sid ds of
             None \<Rightarrow> True
           | Some d \<Rightarrow> rq_expires rq = None \<and> (sd_auth d \<longrightarrow> rq_authorization rq \<and> re_verify env = 200)))"
  by (cases "rq_expires rq") (auto simp: RegisterRequestMessage_def dealWithAuthorRegister_def dealWithRegister_def getAuth_def
      checkIsExist_def Let_def split: option.splits)

section \<open>A pair of services\<close>

text \<open>One run of each of the subordinate's timers towards one service above, with the answer that comes back.\<close>

definition heartbeat_round :: "int \<Rightarrow> string \<Rightarrow> sup_domain \<Rightarrow> sub_domain list \<Rightarrow> (sup_domain \<times> sub_domain list) option" where
  "heartbeat_round now from u ds =
     (if u \<in> set (HeartBeatProc (\<lambda>_. True) [u]) then do {
        (code, ds1) \<leftarrow> HeartBeatMessage now from ds;
        Some (response_callback code u, ds1) }
      else Some (u, ds))"

definition register_round ::
  "regc_env \<Rightarrow> register_env \<Rightarrow> register_request \<Rightarrow> sup_domain \<Rightarrow> sub_domain list \<Rightarrow> (sup_domain \<times> sub_domain list) option" where
  "register_round cenv env rq u ds =
     (if u \<in> set (RegisterProc (\<lambda>_. cenv) [u]) then do {
        (_, code, ds1) \<leftarrow> RegisterRequestMessage env rq ds;
        Some (case code of None \<Rightarrow> u | Some c \<Rightarrow> client_cb c u, ds1) }
      else Some (u, ds))"

lemma register_round_again:
  assumes "parseFromId (rq_from rq) = Some k" "find_domain k ds = Some d" "rq_expires rq = Some e" "0 < e"
    "sd_auth d \<longrightarrow> rq_authorization rq \<and> re_verify env = 200"
    "re_create_response env" "re_response_addr env" "re_send_response env" "re_respond env" "gbRegister cenv u = 0" "\<not> up_registered u"
  shows "\<exists>ds'. register_round cenv env rq u ds = Some (u\<lparr>up_registered := True\<rparr>, ds') \<and> registrations ds' k = Some (Some (re_time env, e))"
  using assms
  by (auto simp: register_round_def RegisterProc_def client_cb_def RegisterRequestMessage_def dealWithAuthorRegister_def
      dealWithRegister_def getAuth_def checkIsExist_def note_registration_def find_after registrations_def Let_def)

text \<open>However far apart the two services are about a registration, one heartbeat and one run of the registration timer bring them
  together: afterwards both count the subordinate as registered, and the supervising service has heard of it at the time of one of
  the two.\<close>

theorem services_agree_again:
  assumes "parseFromId from = Some k" "rq_from rq = from" "find_domain k ds = Some d" "rq_expires rq = Some e" "0 < e"
    "sd_auth d \<longrightarrow> rq_authorization rq \<and> re_verify env = 200"
    "re_create_response env" "re_response_addr env" "re_send_response env" "re_respond env" "\<And>u. gbRegister cenv u = 0"
    "heartbeat_round now from u ds = Some (u1, ds1)" "register_round cenv env rq u1 ds1 = Some (u2, ds2)"
  shows "up_registered u2 \<and> (\<exists>t l. registrations ds2 k = Some (Some (t, l)) \<and> t \<in> {now, re_time env})"
proof (cases "up_registered u \<and> checkIsVaild k ds")
  case True
  then have "u1 = u" "ds1 = update_domain k (\<lambda>d. d\<lparr>sd_lastRegTime := now\<rparr>) ds"
    using assms(1,12) by (auto simp: heartbeat_round_def HeartBeatProc_def HeartBeatMessage_def response_callback_def)
  moreover from this have "u2 = u1" "ds2 = ds1" using assms(13) True by (auto simp: register_round_def RegisterProc_def)
  ultimately show ?thesis using True assms(3) by (auto simp: checkIsVaild_def registrations_def find_update)
next
  case False
  have "\<not> up_registered u1 \<and> find_domain k ds1 = Some d"
    using assms(1,3,12) False
    by (auto simp: heartbeat_round_def HeartBeatProc_def HeartBeatMessage_def response_callback_def checkIsVaild_def split: if_splits)
  then obtain ds' where "register_round cenv env rq u1 ds1 = Some (u1\<lparr>up_registered := True\<rparr>, ds')"
    "registrations ds' k = Some (Some (re_time env, e))"
    using register_round_again [of rq k ds1 d e env cenv u1] assms(1,2,4-11) by auto
  then show ?thesis using assms(13) by auto
qed

section \<open>Samples\<close>

definition sample_domains :: "sub_domain list" where
  "sample_domains = init_domains [(''11000000002000000001'', ''10.0.0.2'', 7101, 0, 0), (''11000000002000000002'', ''10.0.0.3'', 7101, 0, 1)]"

definition sample_up :: sup_domain where
  "sample_up = \<lparr>up_sipId = ''10000000002000000001'', up_addrIp = ''10.0.0.1'', up_sipPort = 5061, up_protocal = 0, up_registered = True,
     up_expires = 300, up_isAuth = False\<rparr>"

definition sample_register_env :: register_env where
  "sample_register_env = \<lparr>re_time = 20, re_verify = 401, re_create_response = True, re_response_addr = True, re_send_response = True, re_respond = True\<rparr>"

definition sample_request :: register_request where
  "sample_request = \<lparr>rq_from = from_header ''11000000002000000001'' ''10.0.0.2'' [], rq_authorization = False, rq_expires = Some 300\<rparr>"


lemma services_agree_again_witness:
  "\<exists>u2 ds2. register_round \<lparr>rc_create = True, rc_init = True, rc_set_credentials = True, rc_register = True, rc_send = True\<rparr>
     sample_register_env sample_request (sample_up\<lparr>up_registered := False\<rparr>) sample_domains = Some (u2, ds2) \<and> up_registered u2"
proof -
  let ?c = "\<lparr>rc_create = True, rc_init = True, rc_set_credentials = True, rc_register = True, rc_send = True\<rparr>"
  have h: "heartbeat_round 10 (rq_from sample_request) sample_up sample_domains = Some (sample_up\<lparr>up_registered := False\<rparr>, sample_domains)"
    by (simp add: heartbeat_round_def HeartBeatProc_def HeartBeatMessage_def response_callback_def sample_request_def sample_up_def
        sample_domains_def init_domains_def checkIsVaild_def)
  have "RegisterRequestMessage sample_register_env sample_request sample_domains \<noteq> None"
    by (simp add: RegisterRequestMessage_def dealWithRegister_def sample_request_def sample_register_env_def sample_domains_def init_domains_def
        getAuth_def checkIsExist_def)
  then obtain r where r: "register_round ?c sample_register_env sample_request (sample_up\<lparr>up_registered := False\<rparr>) sample_domains = Some r"
    by (auto simp: register_round_def RegisterProc_def sample_up_def gbRegister_def)
  obtain u2 ds2 where u: "r = (u2, ds2)" by force
  have "up_registered u2 \<and> (\<exists>t l. registrations ds2 ''11000000002000000001'' = Some (Some (t, l)) \<and> t \<in> {10, re_time sample_register_env})"
    by (rule services_agree_again [OF _ refl _ _ _ _ _ _ _ _ _ h r [unfolded u], where e = 300])
      (simp_all add: sample_request_def sample_register_env_def sample_domains_def init_domains_def gbRegister_def, simp)
  then show ?thesis using r u by blast
qed

end
