(* ===== verification/LegacyCatalog.thy ===== *)
theory LegacyCatalog
  imports LegacyRegistry LegacyConfig
begin

text \<open>
  The catalogue in the historical services: the subordinate answers a query with one NOTIFY per device
  (\<open>src/SipSubService/src/SipDirectory.cpp\<close>, \<open>XmlParser.cpp\<close>), the supervising service collects them until they
  are as many as announced and hands the whole catalogue to the thread that waits for it
  (\<open>src/SipSupService/src/SipDirectory.cpp\<close>).

  An XML document is its tree: tinyxml2 prints and parses it. An element without text has no text node.
\<close>

section \<open>XML trees\<close>

datatype xml = Element (xml_name: string) (GetText: "string option") (xml_children: "xml list")

definition FirstChildElement :: "string \<Rightarrow> xml \<Rightarrow> xml option" where
  "FirstChildElement n e = List.find (\<lambda>c. xml_name c = n) (xml_children e)"

text \<open>An element made by \<open>InsertSubNode\<close> with the children that are inserted under it.\<close>

definition xml_sub_node :: "string \<Rightarrow> string \<Rightarrow> xml list \<Rightarrow> xml" where
  "xml_sub_node n v cs = Element n (if v = [] then None else Some v) cs"

lemma xml_sub_node_simps [simp]:
  "xml_name (xml_sub_node n v cs) = n" "GetText (xml_sub_node n v cs) = (if v = [] then None else Some v)" "xml_children (xml_sub_node n v cs) = cs"
  by (simp_all add: xml_sub_node_def)

section \<open>The subordinate's answer\<close>

record cat_node =
  cn_deviceID :: string
  cn_name :: string
  cn_manufacturer :: string
  cn_model :: string
  cn_parental :: int
  cn_parentID :: string
  cn_safetyWay :: int
  cn_registerWay :: int
  cn_secrecy :: int
  cn_status :: string

definition or_unknow :: "string \<Rightarrow> string" where
  "or_unknow s = (if s = [] then ''unknow'' else s)"

definition item_element :: "cat_node \<Rightarrow> xml" where
  "item_element d = xml_sub_node ''item'' []
     [xml_sub_node ''DeviceID'' (cn_deviceID d) [], xml_sub_node ''Name'' (cn_name d) [],
      xml_sub_node ''Manufacturer'' (or_unknow (cn_manufacturer d)) [], xml_sub_node ''Model'' (or_unknow (cn_model d)) [],
      xml_sub_node ''Owner'' ''unknow'' [], xml_sub_node ''CivilCode'' (take 5 (cn_deviceID d)) [],
      xml_sub_node ''Parental'' (dec_int (cn_parental d)) [], xml_sub_node ''ParentID'' (cn_parentID d) [],
      xml_sub_node ''SafetyWay'' (dec_int (cn_safetyWay d)) [], xml_sub_node ''RegisterWay'' (dec_int (cn_registerWay d)) [],
      xml_sub_node ''Secrecy'' (dec_int (cn_secrecy d)) [], xml_sub_node ''Status'' (cn_status d) []]"

text \<open>\<open>XmlParser::getXmlData\<close>: the declaration and the printed document with its zero go into a buffer of the given size, \<open>None\<close>
  when they are longer. \<open>xprint\<close> is the printer of tinyxml2; what is in the buffer is sent as the document.\<close>

definition XMLTITLE :: string where
  "XMLTITLE = ''<?xml version='' @ [CHR 0x22] @ ''1.0'' @ [CHR 0x22] @ ''?>'' @ [CHR 0x0A]"

definition BODY_SIZE :: nat where "BODY_SIZE = 1024 * 10"

definition getXmlData :: "(xml \<Rightarrow> string) \<Rightarrow> nat \<Rightarrow> xml \<Rightarrow> xml option" where
  "getXmlData xprint space doc = (if length (XMLTITLE @ xprint doc) < space then Some doc else None)"

text \<open>The document for at most \<open>itemCount\<close> devices from index \<open>begin\<close> on, and the index after them.\<close>

definition catalog_document :: "string \<Rightarrow> cat_node list \<Rightarrow> nat \<Rightarrow> nat \<Rightarrow> int \<Rightarrow> xml" where
  "catalog_document own listdata start itemCount sn =
     xml_sub_node ''Response'' []
       [xml_sub_node ''CmdType'' ''Catalog'' [], xml_sub_node ''SN'' (dec_int sn) [], xml_sub_node ''DeviceID'' own [],
        xml_sub_node ''SumNum'' (dec (length listdata)) [],
        xml_sub_node ''DeviceList'' [] (map item_element (take itemCount (drop start listdata)))]"

definition constructMANSCDPXml ::
  "(xml \<Rightarrow> string) \<Rightarrow> string \<Rightarrow> cat_node list \<Rightarrow> nat \<Rightarrow> nat \<Rightarrow> int \<Rightarrow> (xml \<times> nat) option" where
  "constructMANSCDPXml xprint own listdata start itemCount sn = do {
     sendData \<leftarrow> getXmlData xprint BODY_SIZE (catalog_document own listdata start itemCount sn);
     Some (sendData, start + length (take itemCount (drop start listdata))) }"

text \<open>\<open>sendSipDirMsg\<close>: the loop over the services above writes the headers for each of them and returns at the first that is not the one
  that asked; without any service the request has no URL, and the library does not make one.\<close>

fun write_headers :: "string \<times> string \<Rightarrow> string \<Rightarrow> sup_domain list \<Rightarrow> bool option" where
  "write_headers (own, ip) from [] = Some True"
| "write_headers (own, ip) from (u # us) =
     (if up_sipId u = from then do {
        _ \<leftarrow> sip_message_texts own ip from (up_addrIp u) (up_sipPort u);
        write_headers (own, ip) from us }
      else Some False)"

definition sends_to :: "string \<times> string \<Rightarrow> string \<Rightarrow> sup_domain list \<Rightarrow> bool option" where
  "sends_to self from us = do {
     all \<leftarrow> write_headers self from us;
     Some (all \<and> us \<noteq> []) }"

function send_catalog ::
  "(xml \<Rightarrow> string) \<Rightarrow> string \<times> string \<Rightarrow> cat_node list \<Rightarrow> nat \<Rightarrow> int \<Rightarrow> string \<Rightarrow> sup_domain list \<Rightarrow> xml list option" where
  "send_catalog xprint self listdata start sn from us =
     (if start < length listdata then
        (case constructMANSCDPXml xprint (fst self) listdata start 1 sn of
           None \<Rightarrow> None
         | Some (doc, next_start) \<Rightarrow> do {
             sent \<leftarrow> sends_to self from us;
             rest \<leftarrow> send_catalog xprint self listdata next_start sn from us;
             Some ((if sent then [doc] else []) @ rest) })
      else Some [])"
  by pat_completeness auto
termination
  by (relation "measure (\<lambda>(_, _, listdata, start, _). length listdata - start)")
    (auto simp: constructMANSCDPXml_def bind_eq_Some_conv)

declare send_catalog.simps [simp del]

text \<open>\<open>resDir\<close>: the status of the answer and the serial number; \<open>None\<close> when the SN element has no text.\<close>

definition resDir :: "string \<Rightarrow> xml option \<Rightarrow> (int \<times> int) option" where
  "resDir own root =
     (case root of
        None \<Rightarrow> Some (400, - 1)
      | Some r \<Rightarrow>
          if (case FirstChildElement ''DeviceID'' r of None \<Rightarrow> [] | Some e \<Rightarrow> (case GetText e of None \<Rightarrow> [] | Some t \<Rightarrow> t)) \<noteq> own
          then Some (400, - 1)
          else (case FirstChildElement ''SN'' r of
                  None \<Rightarrow> Some (200, atoi [])
                | Some e \<Rightarrow> map_option (\<lambda>t. (200, atoi t)) (GetText e)))"

text \<open>\<open>run\<close>: the answer and the documents, whatever the answer was.\<close>

definition directory_run ::
  "(xml \<Rightarrow> string) \<Rightarrow> string \<times> string \<Rightarrow> cat_node list \<Rightarrow> string \<Rightarrow> sup_domain list \<Rightarrow> xml option \<Rightarrow> (int \<times> xml list) option" where
  "directory_run xprint self listdata from us root = do {
     (code, sn) \<leftarrow> resDir (fst self) root;
     docs \<leftarrow> send_catalog xprint self listdata 0 sn from us;
     Some (code, docs) }"

section \<open>The supervising service's collection\<close>

record cat_entry =
  ce_DeviceID :: string
  ce_Name :: string
  ce_Parental :: string
  ce_ParentID :: string

text \<open>The catalogue that is being collected, the last complete one, whether a camera was seen, and the posts of \<open>m_signalSem_info\<close>.\<close>

record collector =
  co_jsonIn :: "cat_entry list"
  co_payload :: "cat_entry list"
  co_rcvIpc :: bool
  co_posts :: nat

definition new_collector :: collector where
  "new_collector = \<lparr>co_jsonIn = [], co_payload = [], co_rcvIpc = False, co_posts = 0\<rparr>"

text \<open>The text of a child, or what the variable held before.\<close>

definition child_text :: "string \<Rightarrow> xml \<Rightarrow> string \<Rightarrow> string" where
  "child_text n e old = (case FirstChildElement n e of None \<Rightarrow> old | Some c \<Rightarrow> (case GetText c of None \<Rightarrow> old | Some t \<Rightarrow> t))"

datatype dev_type = Camera_Code | Ipc_Code | Error_Code

text \<open>\<open>substr\<close> throws for an identifier of fewer than ten characters.\<close>

definition getSipDevInfo :: "string \<Rightarrow> dev_type option" where
  "getSipDevInfo did =
     (if length did < 10 then None
      else let t = atoi (take 3 (drop 10 did)) in Some (if t = 131 then Camera_Code else if t = 132 then Ipc_Code else Error_Code))"

text \<open>The loop over the items; the strings outlive an item.\<close>

fun save_items :: "xml list \<Rightarrow> cat_entry \<Rightarrow> collector \<Rightarrow> collector" where
  "save_items [] old c = c"
| "save_items (e # es) old c =
     (let did = child_text ''DeviceID'' e (ce_DeviceID old);
          own_id = (case FirstChildElement ''DeviceID'' e of None \<Rightarrow> False | Some x \<Rightarrow> GetText x \<noteq> None);
          ipc = (own_id \<and> length did = 20 \<and> getSipDevInfo did \<in> {Some Ipc_Code, Some Camera_Code});
          new = \<lparr>ce_DeviceID = did, ce_Name = child_text ''Name'' e (ce_Name old),
                 ce_Parental = child_text ''Parental'' e (ce_Parental old), ce_ParentID = child_text ''ParentID'' e (ce_ParentID old)\<rparr>
      in save_items es new (c\<lparr>co_rcvIpc := co_rcvIpc c \<or> ipc, co_jsonIn := co_jsonIn c @ [new]\<rparr>))"

text \<open>The siblings from the first \<open>item\<close> on, whatever their names.\<close>

definition items_of :: "xml \<Rightarrow> xml list" where
  "items_of l = dropWhile (\<lambda>c. xml_name c \<noteq> ''item'') (xml_children l)"

definition SaveDir :: "sub_domain list \<Rightarrow> xml option \<Rightarrow> collector \<Rightarrow> int \<times> collector" where
  "SaveDir ds root c =
     (case root of
        None \<Rightarrow> (400, c)
      | Some r \<Rightarrow>
          if \<not> checkIsVaild (child_text ''DeviceID'' r []) ds then (400, c)
          else
            (let c1 = (case FirstChildElement ''DeviceList'' r of
                         None \<Rightarrow> c
                       | Some l \<Rightarrow> save_items (items_of l) \<lparr>ce_DeviceID = [], ce_Name = [], ce_Parental = [], ce_ParentID = []\<rparr> c)
             in (200, if atoi (child_text ''SumNum'' r []) = int (length (co_jsonIn c1))
                      then c1\<lparr>co_payload := co_jsonIn c1, co_jsonIn := [], co_posts := co_posts c1 + 1\<rparr>
                      else c1)))"

fun save_all :: "sub_domain list \<Rightarrow> xml list \<Rightarrow> collector \<Rightarrow> collector" where
  "save_all ds [] c = c"
| "save_all ds (x # xs) c = save_all ds xs (snd (SaveDir ds (Some x) c))"

section \<open>One query\<close>

definition entry_of :: "cat_node \<Rightarrow> cat_entry" where
  "entry_of d = \<lparr>ce_DeviceID = cn_deviceID d, ce_Name = cn_name d, ce_Parental = dec_int (cn_parental d), ce_ParentID = cn_parentID d\<rparr>"

text \<open>Every document of an answer fits into its buffer.\<close>

definition documents_fit :: "(xml \<Rightarrow> string) \<Rightarrow> string \<Rightarrow> cat_node list \<Rightarrow> int \<Rightarrow> bool" where
  "documents_fit xprint own ns sn \<longleftrightarrow> (\<forall>i < length ns. length XMLTITLE + length (xprint (catalog_document own ns i 1 sn)) < BODY_SIZE)"

lemma construct_fits:
  assumes "i < length ns"
  shows "constructMANSCDPXml xprint own ns i 1 sn =
    (if length XMLTITLE + length (xprint (catalog_document own ns i 1 sn)) < BODY_SIZE then Some (catalog_document own ns i 1 sn, Suc i) else None)"
  using assms by (simp add: constructMANSCDPXml_def getXmlData_def)

lemma send_catalog_documents:
  assumes "sends_to self from us = Some True" "documents_fit xprint (fst self) ns sn"
  shows "send_catalog xprint self ns start sn from us = Some (map (\<lambda>i. catalog_document (fst self) ns i 1 sn) [start..<length ns])"
proof (induction "length ns - start" arbitrary: start)
  case 0
  then show ?case by (simp add: send_catalog.simps)
next
  case (Suc n)
  then have s: "start < length ns" "n = length ns - Suc start" by simp_all
  have "constructMANSCDPXml xprint (fst self) ns start 1 sn = Some (catalog_document (fst self) ns start 1 sn, Suc start)"
    using construct_fits [OF s(1)] assms(2) s(1) by (simp add: documents_fit_def)
  then show ?case using Suc(1) [OF s(2)] s(1) assms(1)
    by (simp add: send_catalog.simps [of _ _ _ start] upt_conv_Cons)
qed

lemma atoi_dec [simp]: "n < 2 ^ 31 \<Longrightarrow> atoi (dec n) = int n"
  by (simp add: atoi_def extract_int_def dec_lexical split_sign_dec Let_def sint_uint unsigned_of_nat signed_take_bit_int_eq_self take_bit_nat_eq_self)

lemma dec_int_ne [simp]: "dec_int i \<noteq> []"
  by (simp add: dec_int_def)

lemma save_item:
  "save_items [item_element d] \<lparr>ce_DeviceID = [], ce_Name = [], ce_Parental = [], ce_ParentID = []\<rparr> c =
     c\<lparr>co_rcvIpc := co_rcvIpc c \<or> length (cn_deviceID d) = 20 \<and> getSipDevInfo (cn_deviceID d) \<in> {Some Ipc_Code, Some Camera_Code},
       co_jsonIn := co_jsonIn c @ [entry_of d]\<rparr>"
  by (auto simp: item_element_def child_text_def FirstChildElement_def entry_of_def Let_def)

lemma save_document:
  assumes "checkIsVaild own ds" "i < length ns" "length ns < 2 ^ 31" "own \<noteq> []"
  shows "snd (SaveDir ds (Some (catalog_document own ns i 1 sn)) c) =
    (let c1 = c\<lparr>co_rcvIpc := co_rcvIpc c \<or> length (cn_deviceID (ns ! i)) = 20 \<and> getSipDevInfo (cn_deviceID (ns ! i)) \<in> {Some Ipc_Code, Some Camera_Code},
       co_jsonIn := co_jsonIn c @ [entry_of (ns ! i)]\<rparr>
     in if length ns = length (co_jsonIn c) + 1 then c1\<lparr>co_payload := co_jsonIn c1, co_jsonIn := [], co_posts := co_posts c1 + 1\<rparr> else c1)"
proof -
  have "take 1 (drop i ns) = [ns ! i]" using assms(2) by (simp add: take_Suc_conv_app_nth flip: Cons_nth_drop_Suc)
  moreover have "items_of (xml_sub_node ''DeviceList'' [] [item_element (ns ! i)]) = [item_element (ns ! i)]"
    by (simp add: items_of_def item_element_def)
  ultimately show ?thesis using assms(1,3,4) save_item [of "ns ! i" c]
    by (auto simp: SaveDir_def catalog_document_def child_text_def FirstChildElement_def Let_def simp del: save_items.simps)
qed

lemma save_rest:
  assumes "checkIsVaild own ds" "own \<noteq> []" "length ns < 2 ^ 31" "start < length ns" "co_jsonIn c = map entry_of (take start ns)"
  shows "co_jsonIn (save_all ds (map (\<lambda>i. catalog_document own ns i 1 sn) [start..<length ns]) c) = [] \<and>
    co_payload (save_all ds (map (\<lambda>i. catalog_document own ns i 1 sn) [start..<length ns]) c) = map entry_of ns \<and>
    co_posts (save_all ds (map (\<lambda>i. catalog_document own ns i 1 sn) [start..<length ns]) c) = co_posts c + 1"
  using assms(4,5)
proof (induction "length ns - start" arbitrary: start c)
  case (Suc n)
  let ?d = "catalog_document own ns start 1 sn" and ?c = "snd (SaveDir ds (Some (catalog_document own ns start 1 sn)) c)"
  have u: "[start..<length ns] = start # [Suc start..<length ns]" using Suc(3) by (simp add: upt_conv_Cons)
  have len: "length (co_jsonIn c) = start" using Suc(3,4) by simp
  have j: "co_jsonIn c @ [entry_of (ns ! start)] = map entry_of (take (Suc start) ns)" using Suc(3,4) by (simp add: take_Suc_conv_app_nth)
  note doc = save_document [OF assms(1) Suc(3) assms(3,2), of sn c, unfolded len Let_def]
  show ?case
  proof (cases "length ns = start + 1")
    case True
    then have "[Suc start..<length ns] = []" by simp
    moreover have "take (Suc start) ns = ns" using True by simp
    ultimately show ?thesis using True doc j unfolding u by simp
  next
    case False
    then have l: "Suc start < length ns" using Suc(3) by simp
    have "co_jsonIn ?c = map entry_of (take (Suc start) ns)" "co_posts ?c = co_posts c" using False doc j by simp_all
    then show ?thesis using Suc(1) [of "Suc start" ?c] Suc(2) l unfolding u by simp
  qed
qed simp

text \<open>A catalogue crosses from one historical service to the other: when the subordinate answers a query and its documents arrive in
  order at a supervising service where it is registered and nothing is left of an earlier query, the catalogue handed
  on is the list of all devices with their identifiers, names and parents, it is handed on exactly once, and nothing is left.\<close>

theorem catalog_roundtrip:
  assumes "directory_run xprint (own, ip) ns from us root = Some (code, docs)" "sends_to (own, ip) from us = Some True"
    "\<forall>sn. documents_fit xprint own ns sn" "checkIsVaild own ds" "own \<noteq> []" "ns \<noteq> []" "length ns < 2 ^ 31" "co_jsonIn c = []"
  shows "co_payload (save_all ds docs c) = map entry_of ns \<and> co_posts (save_all ds docs c) = co_posts c + 1 \<and> co_jsonIn (save_all ds docs c) = []"
proof -
  obtain sn where "send_catalog xprint (own, ip) ns 0 sn from us = Some docs" using assms(1) by (auto simp: directory_run_def bind_eq_Some_conv)
  then have "docs = map (\<lambda>i. catalog_document own ns i 1 sn) [0..<length ns]"
    using send_catalog_documents [OF assms(2)] assms(3) by simp
  then show ?thesis using save_rest [OF assms(4,5,7), of 0 c sn] assms(6,8) by simp
qed

text \<open>A document that is lost spoils the catalogue that comes after it: when all but one of the documents of an answer arrive, nothing
  is handed on, and the first document of the next answer, of the same number of devices, completes the old list with
  a device that may be in it already.\<close>

theorem lost_document_spoils_next:
  assumes "checkIsVaild own ds" "own \<noteq> []" "length ns < 2 ^ 31" "2 \<le> length ns" "co_jsonIn c = []"
    "docs = map (\<lambda>i. catalog_document own ns i 1 sn) [0..<length ns - 1]"
  shows "co_posts (save_all ds docs c) = co_posts c \<and>
    co_payload (snd (SaveDir ds (Some (catalog_document own ns 0 1 sn')) (save_all ds docs c))) =
       map entry_of (butlast ns) @ [entry_of (hd ns)]"
proof -
  have part: "co_jsonIn (save_all ds (map (\<lambda>i. catalog_document own ns i 1 sn) [0..<k]) c) = map entry_of (take k ns) \<and>
      co_posts (save_all ds (map (\<lambda>i. catalog_document own ns i 1 sn) [0..<k]) c) = co_posts c" if "k < length ns" for k
    using that
  proof (induction k)
    case (Suc k)
    let ?c = "save_all ds (map (\<lambda>i. catalog_document own ns i 1 sn) [0..<k]) c"
    have app: "save_all ds (xs @ [x]) c' = snd (SaveDir ds (Some x) (save_all ds xs c'))" for xs x c'
      by (induction xs arbitrary: c') simp_all
    have len: "length (co_jsonIn ?c) = k" using Suc by simp
    have "k < length ns" using Suc.prems by simp
    from save_document [OF assms(1) this assms(3,2), of sn ?c, unfolded len Let_def]
    show ?case using Suc by (simp add: app take_Suc_conv_app_nth)
  qed (simp add: assms(5))
  have k: "length ns - 1 < length ns" using assms(4) by linarith
  note c = part [OF k, folded assms(6)]
  have posts: "co_posts (save_all ds docs c) = co_posts c" using c by blast
  have len: "length (co_jsonIn (save_all ds docs c)) = length ns - 1" using c by simp
  have z: "0 < length ns" using assms(4) by linarith
  have "length ns = length ns - 1 + 1" using z by simp
  moreover have "take (length ns - 1) ns = butlast ns" by (simp add: butlast_conv_take)
  moreover have "ns ! 0 = hd ns" using z by (simp add: hd_conv_nth)
  ultimately have "co_payload (snd (SaveDir ds (Some (catalog_document own ns 0 1 sn')) (save_all ds docs c))) =
       map entry_of (butlast ns) @ [entry_of (hd ns)]"
    using save_document [OF assms(1) z assms(3,2), of sn' "save_all ds docs c", unfolded len Let_def] c by simp
  then show ?thesis using posts by blast
qed

text \<open>A query for another identifier is answered with 400, and the catalogue is sent all the same.\<close>

lemma wrong_query_answered:
  assumes "FirstChildElement ''DeviceID'' r = Some e" "GetText e = Some t" "t \<noteq> fst self"
  shows "directory_run xprint self ns from us (Some r) = map_option (Pair 400) (send_catalog xprint self ns 0 (- 1) from us)"
  using assms by (cases "send_catalog xprint self ns 0 (- 1) from us") (simp_all add: directory_run_def resDir_def)

text \<open>With a second service above the subordinate, or with none, no catalogue is sent at all.\<close>

lemma silent_catalog:
  assumes "sends_to self from us \<noteq> Some True" "send_catalog xprint self ns start sn from us = Some docs"
  shows "docs = []"
  using assms(2)
proof (induction "length ns - start" arbitrary: start docs rule: less_induct)
  case less
  show ?case
  proof (cases "start < length ns")
    case True
    obtain doc k where c: "constructMANSCDPXml xprint (fst self) ns start 1 sn = Some (doc, k)"
      using less.prems True by (subst (asm) send_catalog.simps) (auto split: option.splits)
    then have k: "k = Suc start" using construct_fits [OF True] by (auto split: if_splits)
    obtain sent rest where r: "sends_to self from us = Some sent" "send_catalog xprint self ns k sn from us = Some rest"
      "docs = (if sent then [doc] else []) @ rest"
      using less.prems True c by (subst (asm) send_catalog.simps) (auto simp: bind_eq_Some_conv)
    have "rest = []" by (rule less.hyps [OF _ r(2)]) (use True k in simp)
    then show ?thesis using r assms(1) by auto
  next
    case False
    then show ?thesis using less.prems by (simp add: send_catalog.simps)
  qed
qed

lemma second_service_silences:
  assumes "u \<in> set us" "up_sipId u \<noteq> from" "send_catalog xprint self ns start sn from us = Some docs"
  shows "docs = []"
proof (rule silent_catalog [OF _ assms(3)])
  obtain own ip where self: "self = (own, ip)" by (cases self)
  have "write_headers (own, ip) from us \<noteq> Some True" using assms(1,2) by (induction us) (auto simp: bind_eq_Some_conv)
  then show "sends_to self from us \<noteq> Some True" by (auto simp: sends_to_def self bind_eq_Some_conv)
qed

lemma no_service_silences: "send_catalog xprint self ns start sn from [] = Some docs \<Longrightarrow> docs = []"
  by (rule silent_catalog) (cases self, simp_all add: sends_to_def)

text \<open>One device whose document is longer than the buffer ends the service.\<close>

lemma long_document_overflows:
  assumes "start \<le> i" "i < length ns" "BODY_SIZE \<le> length XMLTITLE + length (xprint (catalog_document (fst self) ns i 1 sn))"
  shows "send_catalog xprint self ns start sn from us = None"
  using assms(1)
proof (induction "i - start" arbitrary: start)
  case 0
  then show ?case using assms(2,3) construct_fits [of start ns] by (simp add: send_catalog.simps)
next
  case (Suc n)
  then have s: "start < length ns" "n = i - Suc start" "Suc start \<le> i" using assms(2) by simp_all
  show ?case
  proof (cases "constructMANSCDPXml xprint (fst self) ns start 1 sn")
    case (Some r)
    then have "r = (catalog_document (fst self) ns start 1 sn, Suc start)" using construct_fits [OF s(1)] by (auto split: if_splits)
    then show ?thesis using Suc(1) [OF s(2,3)] s(1) Some
      by (cases "sends_to self from us") (simp_all add: send_catalog.simps [of _ _ _ start])
  qed (simp add: send_catalog.simps s(1))
qed

section \<open>Samples\<close>

definition sample_camera :: "string \<Rightarrow> string \<Rightarrow> cat_node" where
  "sample_camera did n = \<lparr>cn_deviceID = did, cn_name = n, cn_manufacturer = [], cn_model = ''m1'', cn_parental = 0,
     cn_parentID = ''11000000002000000001'', cn_safetyWay = 0, cn_registerWay = 1, cn_secrecy = 0, cn_status = ''ON''\<rparr>"

definition sample_devices :: "cat_node list" where
  "sample_devices = [sample_camera ''11000000001310000059'' ''gate'', sample_camera ''11000000001320000060'' ''yard'']"

definition sample_registered :: "sub_domain list" where
  "sample_registered = setRegister ''11000000002000000001'' True sample_domains"

lemma sample_valid: "checkIsVaild ''11000000002000000001'' sample_registered"
  by (simp add: sample_registered_def setRegister_def sample_domains_def init_domains_def checkIsVaild_def)

text \<open>A printer for the samples: the length of what it prints is what counts.\<close>

definition sample_print :: "xml \<Rightarrow> string" where
  "sample_print doc = xml_name doc"

lemma sample_fit: "documents_fit sample_print own ns sn"
  by (simp add: documents_fit_def sample_print_def catalog_document_def XMLTITLE_def BODY_SIZE_def)

lemma sample_sends: "sends_to (''11000000002000000001'', ''10.0.0.2'') ''10000000002000000001'' [sample_up] = Some True"
  by (simp add: sends_to_def sample_up_def sip_message_texts_def setFrom_def setUrl_def header_buffer_def dec_int_def dec.simps)

lemma catalog_roundtrip_witness:
  "\<exists>docs. directory_run sample_print (''11000000002000000001'', ''10.0.0.2'') sample_devices ''10000000002000000001'' [sample_up]
     (Some (Element ''Query'' None [Element ''DeviceID'' (Some ''11000000002000000001'') [], Element ''SN'' (Some ''905'') []])) = Some (200, docs) \<and>
   map ce_Name (co_payload (save_all sample_registered docs new_collector)) = [''gate'', ''yard''] \<and>
   co_posts (save_all sample_registered docs new_collector) = 1"
proof -
  let ?q = "Element ''Query'' None [Element ''DeviceID'' (Some ''11000000002000000001'') [], Element ''SN'' (Some ''905'') []]"
  obtain sn where "resDir ''11000000002000000001'' (Some ?q) = Some (200, sn)" by (simp add: resDir_def FirstChildElement_def)
  then obtain docs where d: "directory_run sample_print (''11000000002000000001'', ''10.0.0.2'') sample_devices ''10000000002000000001'' [sample_up] (Some ?q) =
      Some (200, docs)"
    by (simp add: directory_run_def send_catalog_documents [OF sample_sends] sample_fit)
  from catalog_roundtrip [OF d sample_sends _ sample_valid, where c = new_collector] d show ?thesis
    by (intro exI [of _ docs]) (simp add: sample_fit sample_devices_def sample_camera_def entry_of_def new_collector_def)
qed

lemma lost_document_spoils_next_witness:
  "map ce_Name (co_payload (snd (SaveDir sample_registered (Some (catalog_document ''11000000002000000001'' sample_devices 0 1 7))
     (save_all sample_registered [catalog_document ''11000000002000000001'' sample_devices 0 1 6] new_collector)))) = [''gate'', ''gate'']"
  using lost_document_spoils_next [where own = "''11000000002000000001''" and ds = sample_registered and ns = sample_devices and c = new_collector
      and sn = 6 and sn' = 7, OF sample_valid _ _ _ _ refl]
  by (simp add: sample_devices_def sample_camera_def entry_of_def new_collector_def)

end
