(* ===== verification/LegacyCalls.thy ===== *)
theory LegacyCalls
  imports LegacyCatalog
begin

text \<open>
  Calls of the historical subordinate service: INVITE and BYE of \<open>src/SipSubService/src/SipGbPlay.cpp\<close>, and the
  stream a call starts (\<open>recvFrame\<close>, \<open>class SipPsCode\<close> of \<open>include/Gb28181Session.h\<close>). A stream is an object in a
  store, because the map \<open>mediaInfoMap\<close> keeps pointers to streams that other threads delete; \<open>None\<close> is the end of the
  process: a null pointer or a deleted object is used, or an exception leaves the handler.
\<close>

section \<open>Requests\<close>

text \<open>The times of a session are unsigned in the library and copied to \<open>int\<close>.\<close>

record sdp_media =
  sm_port :: int
  sm_transport :: string
  sm_setup :: "string option"

record sdp_session =
  sp_user :: string
  sp_name :: string
  sp_start :: u32
  sp_stop :: u32
  sp_addr :: string
  sp_media :: "sdp_media list"

record media_info =
  mi_sessionName :: string
  mi_sdp_protol :: string
  mi_dstRtpAddr :: string
  mi_dstRtpPort :: int
  mi_setUp :: string
  mi_startTime :: int
  mi_endTime :: int
  mi_localRtpPort :: int

text \<open>The answer's session description, its lines as \<open>resWithSdp\<close> writes them.\<close>

definition line_end :: string where
  "line_end = [CHR 0x0D, CHR 0x0A]"

definition answer_sdp :: "string \<Rightarrow> string \<Rightarrow> media_info \<Rightarrow> string" where
  "answer_sdp own_ip devid mi =
     ''v=0'' @ line_end @ ''o='' @ devid @ '' 0 0 IN IP4 '' @ own_ip @ line_end @ ''s=Play'' @ line_end @ ''c=IN IP4 '' @ own_ip @ line_end @ ''t=0 0'' @ line_end @
     ''m=video '' @ dec_int (mi_localRtpPort mi) @ '' '' @ mi_sdp_protol mi @ '' 96'' @ line_end @ ''a=rtpmap:96 PS/90000'' @ line_end @ ''a=sendonly'' @ line_end @
     (if mi_setUp mi = ''passive'' then ''a=setup:active'' @ line_end else if mi_setUp mi = ''active'' then ''a=setup:passive'' @ line_end else [])"

section \<open>State\<close>

record stream =
  st_port :: int
  st_dstip :: string
  st_dstport :: int
  st_poto :: bool
  st_setup :: string
  st_start :: int
  st_end :: int
  st_stopFlag :: bool

text \<open>The objects that exist, the map, and the free RTP ports.\<close>

record calls =
  ca_streams :: "nat \<Rightarrow> stream option"
  ca_next :: nat
  ca_mediaInfoMap :: "string \<Rightarrow> nat option"
  ca_ports :: port_queue

definition new_calls :: "port_queue \<Rightarrow> calls" where
  "new_calls q = \<lparr>ca_streams = (\<lambda>_. None), ca_next = 0, ca_mediaInfoMap = (\<lambda>_. None), ca_ports = q\<rparr>"

section \<open>INVITE\<close>

text \<open>What the \<open>do\<close> block makes of the request: the status of a refusal, or the device, what is known of the media,
  and the stream.\<close>

datatype invite_outcome = Refused int | Accepted string media_info nat calls

definition registered_above :: "string \<Rightarrow> sup_domain list \<Rightarrow> bool" where
  "registered_above from us = list_ex (\<lambda>u. up_sipId u = from \<and> up_registered u) us"

definition media_of_sdp :: "sdp_session \<Rightarrow> sdp_media \<Rightarrow> (bool \<times> media_info) option" where
  "media_of_sdp s m = do {
     let tcp = (sm_transport m = ''TCP/RTP/AVP'');
     setup \<leftarrow> (if tcp then sm_setup m else Some []);
     Some (tcp, \<lparr>mi_sessionName = sp_name s, mi_sdp_protol = sm_transport m, mi_dstRtpAddr = sp_addr s, mi_dstRtpPort = sm_port m, mi_setUp = setup,
       mi_startTime = (if sp_name s = ''PlayBack'' then sint (sp_start s) else 0),
       mi_endTime = (if sp_name s = ''PlayBack'' then sint (sp_stop s) else 0), mi_localRtpPort = 0\<rparr>) }"

definition accept_invite :: "sup_domain list \<Rightarrow> string \<Rightarrow> sdp_session option \<Rightarrow> calls \<Rightarrow> invite_outcome option" where
  "accept_invite us printed_from sdp c = do {
     from \<leftarrow> parseFromId printed_from;
     if \<not> registered_above from us then Some (Refused 404)
     else do {
       s \<leftarrow> sdp;
       if sp_media s = [] then Some (Refused 400)
       else do {
         type \<leftarrow> getSipDevInfo (sp_user s);
         if type = Error_Code then Some (Refused 404)
         else do {
           (tcp, mi) \<leftarrow> media_of_sdp s (List.last (sp_media s));
           (port, q) \<leftarrow> popOneRandNum (ca_ports c);
           let n = ca_next c;
           let st = \<lparr>st_port = port, st_dstip = mi_dstRtpAddr mi, st_dstport = mi_dstRtpPort mi, st_poto = tcp, st_setup = mi_setUp mi,
                     st_start = mi_startTime mi, st_end = mi_endTime mi, st_stopFlag = False\<rparr>;
           let m = (case ca_mediaInfoMap c (sp_user s) of None \<Rightarrow> (ca_mediaInfoMap c)(sp_user s \<mapsto> n) | Some _ \<Rightarrow> ca_mediaInfoMap c);
           Some (Accepted (sp_user s) (mi\<lparr>mi_localRtpPort := port\<rparr>) n
             (c\<lparr>ca_streams := (ca_streams c)(n \<mapsto> st), ca_next := n + 1, ca_mediaInfoMap := m, ca_ports := q\<rparr>)) } } } }"

text \<open>The handler up to its stream: the status it sends, and the state in which it begins to stream, which lasts as long as the
  stream does. A refused request has made no object to stream from.\<close>

definition dealWithInvite :: "sup_domain list \<Rightarrow> string \<Rightarrow> sdp_session option \<Rightarrow> calls \<Rightarrow> int option \<times> calls option" where
  "dealWithInvite us printed_from sdp c =
     (case accept_invite us printed_from sdp c of
        None \<Rightarrow> (None, None)
      | Some (Refused code) \<Rightarrow> (Some code, None)
      | Some (Accepted dev mi n c1) \<Rightarrow> (Some 200, Some c1))"

section \<open>Streams and BYE\<close>

definition parseToId :: "string \<Rightarrow> string option" where
  "parseToId printed =
     (if printed = [] then Some []
      else if length printed < 9 then None
      else Some (take 20 (drop 9 printed)))"

text \<open>\<open>delete\<close> of a stream, whose destructor gives its port back.\<close>

definition delete_stream :: "nat \<Rightarrow> calls \<Rightarrow> calls option" where
  "delete_stream n c = do {
     st \<leftarrow> ca_streams c n;
     Some (c\<lparr>ca_streams := (ca_streams c)(n := None), ca_ports := pushOneRandNum (st_port st) (ca_ports c)\<rparr>) }"

text \<open>The head of the loop in \<open>recvFrame\<close>: the flag is looked at once for every frame.\<close>

definition check_stop :: "nat \<Rightarrow> calls \<Rightarrow> calls option" where
  "check_stop n c = do {
     st \<leftarrow> ca_streams c n;
     if st_stopFlag st then delete_stream n c else Some c }"

definition set_stop :: "nat \<Rightarrow> calls \<Rightarrow> calls option" where
  "set_stop n c = do {
     st \<leftarrow> ca_streams c n;
     Some (c\<lparr>ca_streams := (ca_streams c)(n \<mapsto> st\<lparr>st_stopFlag := True\<rparr>)\<rparr>) }"

definition dealWithBye :: "string \<Rightarrow> calls \<Rightarrow> (int \<times> calls) option" where
  "dealWithBye printed_to c = do {
     dev \<leftarrow> parseToId printed_to;
     if dev = [] then Some (400, c)
     else case ca_mediaInfoMap c dev of
            None \<Rightarrow> Some (404, c)
          | Some n \<Rightarrow> do {
              c1 \<leftarrow> set_stop n c;
              Some (200, c1\<lparr>ca_mediaInfoMap := (ca_mediaInfoMap c1)(dev := None)\<rparr>) } }"

section \<open>Properties\<close>

text \<open>Every INVITE that the subordinate refuses ends it: the handler survives exactly when it answers 200. A request from a service
  it is not registered with is answered with 404, and then a stream is started that does not exist.\<close>

theorem refused_invite_ends_service:
  "snd (dealWithInvite us from sdp c) = None \<longleftrightarrow> fst (dealWithInvite us from sdp c) \<noteq> Some 200"
proof -
  have "code \<noteq> 200" if "accept_invite us from sdp c = Some (Refused code)" for code
    using that by (auto simp: accept_invite_def Let_def bind_eq_Some_conv split: if_splits)
  then show ?thesis by (auto simp: dealWithInvite_def split: option.split invite_outcome.split)
qed

lemma accepted_fields:
  assumes "accept_invite us from sdp c = Some (Accepted dev mi n c1)"
  shows "n = ca_next c" "ca_next c1 = n + 1"
    "\<exists>st. ca_streams c1 = (ca_streams c)(n \<mapsto> st) \<and> \<not> st_stopFlag st \<and> popOneRandNum (ca_ports c) = Some (st_port st, ca_ports c1)"
    "ca_mediaInfoMap c1 = (case ca_mediaInfoMap c dev of None \<Rightarrow> (ca_mediaInfoMap c)(dev \<mapsto> n) | Some _ \<Rightarrow> ca_mediaInfoMap c)"
  using assms by (auto simp: accept_invite_def Let_def bind_eq_Some_conv split: if_splits)

text \<open>C22: A call that is ended while it streams is ended cleanly: after an INVITE for a device that was not in the map, its BYE finds the
  stream, the next look at the flag deletes it, its port is back at the end of the queue, and the map is as before.\<close>

theorem bye_ends_stream:
  assumes "accept_invite us from sdp c = Some (Accepted dev mi n c1)" "ca_mediaInfoMap c dev = None" "parseToId to = Some dev" "dev \<noteq> []"
    "ca_streams c (ca_next c) = None"
  shows "\<exists>c2 c3 port q. dealWithBye to c1 = Some (200, c2) \<and> check_stop n c2 = Some c3 \<and> ca_streams c3 = ca_streams c \<and>
    ca_mediaInfoMap c3 = ca_mediaInfoMap c \<and> popOneRandNum (ca_ports c) = Some (port, q) \<and> ca_ports c3 = pushOneRandNum port q"
proof -
  obtain st where st: "ca_streams c1 = (ca_streams c)(n \<mapsto> st)" "\<not> st_stopFlag st" "popOneRandNum (ca_ports c) = Some (st_port st, ca_ports c1)"
    using accepted_fields(3) [OF assms(1)] by blast
  have m: "ca_mediaInfoMap c1 = (ca_mediaInfoMap c)(dev \<mapsto> n)" using accepted_fields(4) [OF assms(1)] assms(2) by simp
  let ?c2 = "c1\<lparr>ca_streams := (ca_streams c)(n \<mapsto> st\<lparr>st_stopFlag := True\<rparr>), ca_mediaInfoMap := ca_mediaInfoMap c\<rparr>"
  let ?c3 = "?c2\<lparr>ca_streams := ca_streams c, ca_ports := pushOneRandNum (st_port st) (ca_ports c1)\<rparr>"
  have erase: "(ca_mediaInfoMap c)(dev := None) = ca_mediaInfoMap c" using assms(2) by auto
  have fresh: "(ca_streams c)(n := None) = ca_streams c" using assms(5) accepted_fields(1) [OF assms(1)] by auto
  have "dealWithBye to c1 = Some (200, ?c2)"
    using assms(3,4) m st(1) erase by (simp add: dealWithBye_def set_stop_def)
  moreover have "check_stop n ?c2 = Some ?c3" using fresh by (simp add: check_stop_def delete_stream_def)
  ultimately show ?thesis using st(3) by (intro exI [of _ ?c2] exI [of _ ?c3] exI [of _ "st_port st"] exI [of _ "ca_ports c1"]) simp
qed

text \<open>A stream that reaches the end of its file is deleted and stays in the map, so that the BYE that follows, which is the
  ordinary end of a call, writes to a deleted object.\<close>

theorem bye_after_end_of_stream:
  assumes "accept_invite us from sdp c = Some (Accepted dev mi n c1)" "ca_mediaInfoMap c dev = None" "parseToId to = Some dev" "dev \<noteq> []"
    "delete_stream n c1 = Some c2"
  shows "dealWithBye to c2 = None"
proof -
  obtain st where "ca_streams c1 = (ca_streams c)(n \<mapsto> st)" using accepted_fields(3) [OF assms(1)] by blast
  then have "ca_streams c2 n = None" using assms(5) by (auto simp: delete_stream_def)
  moreover have "ca_mediaInfoMap c2 = (ca_mediaInfoMap c)(dev \<mapsto> n)"
    using assms(5) accepted_fields(4) [OF assms(1)] assms(2) by (auto simp: delete_stream_def bind_eq_Some_conv)
  ultimately show ?thesis using assms(3,4) by (simp add: dealWithBye_def set_stop_def)
qed

text \<open>A second INVITE for a device that streams already starts a stream the map does not know: no BYE stops it.\<close>

lemma second_stream_unknown:
  assumes "accept_invite us from sdp c = Some (Accepted dev mi n c1)" "ca_mediaInfoMap c dev = Some k" "k \<noteq> n"
    "parseToId to = Some dev" "dev \<noteq> []" "dealWithBye to c1 = Some (code, c2)"
  shows "ca_streams c2 n = ca_streams c1 n" "ca_mediaInfoMap c2 dev = None"
  using assms(3-) accepted_fields(4) [OF assms(1)] assms(2)
  by (auto simp: dealWithBye_def set_stop_def bind_eq_Some_conv)

section \<open>Samples\<close>

definition sample_sdp :: sdp_session where
  "sample_sdp = \<lparr>sp_user = ''11000000001310000059'', sp_name = ''Play'', sp_start = 0, sp_stop = 0, sp_addr = ''10.0.0.1'',
     sp_media = [\<lparr>sm_port = 20000, sm_transport = ''RTP/AVP'', sm_setup = None\<rparr>]\<rparr>"

definition sample_from :: string where
  "sample_from = from_header ''10000000002000000001'' ''10.0.0.1'' '';tag=2''"

definition sample_to :: string where
  "sample_to = ''To: <sip:11000000001310000059@10.0.0.2>''"

lemma sample_accept:
  "\<exists>mi c1. accept_invite [sample_up] sample_from (Some sample_sdp) (new_calls (initRandPort 30000 30003)) =
     Some (Accepted ''11000000001310000059'' mi 0 c1)"
proof -
  have "getSipDevInfo ''11000000001310000059'' = Some Camera_Code" by code_simp
  then show ?thesis
    by (simp add: accept_invite_def sample_from_def registered_above_def sample_up_def sample_sdp_def media_of_sdp_def new_calls_def
        initRandPort_def popOneRandNum_def upto.simps Let_def)
qed

lemma sample_device: "parseToId sample_to = Some ''11000000001310000059''"
  by (simp add: parseToId_def sample_to_def)

lemma bye_ends_stream_witness:
  "\<exists>mi c1 c2 c3. accept_invite [sample_up] sample_from (Some sample_sdp) (new_calls (initRandPort 30000 30003)) =
     Some (Accepted ''11000000001310000059'' mi 0 c1) \<and> dealWithBye sample_to c1 = Some (200, c2) \<and> check_stop 0 c2 = Some c3 \<and>
     pq_queue (ca_ports c3) = [30002, 30003, 30000, 30001]"
proof -
  obtain mi c1 where a: "accept_invite [sample_up] sample_from (Some sample_sdp) (new_calls (initRandPort 30000 30003)) =
     Some (Accepted ''11000000001310000059'' mi 0 c1)"
    using sample_accept by blast
  have "popOneRandNum (initRandPort 30000 30003) = Some (30000, \<lparr>pq_begin = 30000, pq_end = 30003, pq_queue = [30002, 30003]\<rparr>)"
    by (simp add: initRandPort_def popOneRandNum_def upto.simps)
  then show ?thesis
    using bye_ends_stream [OF a _ sample_device] a by (auto simp: new_calls_def pushOneRandNum_def)
qed

lemma bye_after_end_of_stream_witness:
  "\<exists>mi c1 c2. accept_invite [sample_up] sample_from (Some sample_sdp) (new_calls (initRandPort 30000 30003)) =
     Some (Accepted ''11000000001310000059'' mi 0 c1) \<and> delete_stream 0 c1 = Some c2 \<and> dealWithBye sample_to c2 = None"
proof -
  obtain mi c1 where a: "accept_invite [sample_up] sample_from (Some sample_sdp) (new_calls (initRandPort 30000 30003)) =
     Some (Accepted ''11000000001310000059'' mi 0 c1)"
    using sample_accept by blast
  obtain st where "ca_streams c1 0 = Some st" using accepted_fields(3) [OF a] by auto
  then obtain c2 where "delete_stream 0 c1 = Some c2" by (simp add: delete_stream_def)
  then show ?thesis using bye_after_end_of_stream [OF a _ sample_device] a by (auto simp: new_calls_def)
qed

end
