(* ===== verification/LegacyCommands.thy ===== *)
theory LegacyCommands
  imports LegacyConfig
begin

text \<open>
  The front end's commands to the historical supervising service: their parsing (\<open>EventMsgHandle.cpp\<close>), the
  thread pool that runs them (\<open>ThreadPool.cpp\<close>) and the start of a stream (\<open>StreamGetProc\<close> of \<open>OpenStream.cpp\<close>), all under
  \<open>src/SipSupService/src\<close>.
\<close>

section \<open>A command\<close>

datatype task = GetPlamtInfo | GetCatalog | OpenStream int

text \<open>An \<open>int\<close> of the header, least byte first; as many bytes as are there.\<close>

definition int_at :: "8 word list \<Rightarrow> nat \<Rightarrow> int" where
  "int_at bs i = sint (word_of_int (\<Sum>j<4. uint (bs ! (i + j)) * 256 ^ j) :: 32 word)"

text \<open>The outer \<open>None\<close>: \<open>bufferevent_read\<close> writes past the end of \<open>payload[4096]\<close>.\<close>

definition parseReadEvent :: "8 word list \<Rightarrow> task option option" where
  "parseReadEvent input =
     (if length input < 8 then Some None
      else
        let command = int_at input 0; payloadLen = int_at input 4; readLen = min (nat payloadLen) (length input - 8)
        in if 0 < payloadLen \<and> 4096 < readLen then None
           else if 0 < payloadLen \<and> int readLen \<noteq> payloadLen then Some None
           else if command = 1 then Some (Some GetPlamtInfo)
           else if command = 2 then Some (Some GetCatalog)
           else if command = 3 then Some (Some (OpenStream command))
           else Some None)"

section \<open>The thread pool\<close>

text \<open>The queue and the semaphore, with what stands between: tasks pushed whose \<open>sem_post\<close> has yet to come, and threads past
  \<open>sem_wait\<close> that have yet to look at the queue. The tasks are kept in the order they were posted, and in the order they were started.\<close>

record 'a pool =
  tp_queue :: "'a list"
  tp_sem :: nat
  tp_unposted :: nat
  tp_woken :: nat
  tp_posted :: "'a list"
  tp_started :: "'a list"

definition new_pool :: "'a pool" where
  "new_pool = \<lparr>tp_queue = [], tp_sem = 0, tp_unposted = 0, tp_woken = 0, tp_posted = [], tp_started = []\<rparr>"

definition postTask_push :: "'a \<Rightarrow> 'a pool \<Rightarrow> 'a pool" where
  "postTask_push t p = p\<lparr>tp_queue := tp_queue p @ [t], tp_unposted := tp_unposted p + 1, tp_posted := tp_posted p @ [t]\<rparr>"

definition postTask_post :: "'a pool \<Rightarrow> 'a pool" where
  "postTask_post p = p\<lparr>tp_unposted := tp_unposted p - 1, tp_sem := tp_sem p + 1\<rparr>"

definition waitTask :: "'a pool \<Rightarrow> 'a pool" where
  "waitTask p = p\<lparr>tp_sem := tp_sem p - 1, tp_woken := tp_woken p + 1\<rparr>"

text \<open>The locked part of \<open>mainThread\<close>; with an empty queue there is no task to run.\<close>

definition mainThread_take :: "'a pool \<Rightarrow> 'a pool" where
  "mainThread_take p =
     (case tp_queue p of
        [] \<Rightarrow> p\<lparr>tp_woken := tp_woken p - 1\<rparr>
      | t # q \<Rightarrow> p\<lparr>tp_woken := tp_woken p - 1, tp_queue := q, tp_started := tp_started p @ [t]\<rparr>)"

inductive pool_step :: "'a pool \<Rightarrow> 'a pool \<Rightarrow> bool" where
  push: "pool_step p (postTask_push t p)"
| post: "0 < tp_unposted p \<Longrightarrow> pool_step p (postTask_post p)"
| wait: "0 < tp_sem p \<Longrightarrow> pool_step p (waitTask p)"
| take_task: "0 < tp_woken p \<Longrightarrow> pool_step p (mainThread_take p)"

definition pool_ok :: "'a pool \<Rightarrow> bool" where
  "pool_ok p \<longleftrightarrow> length (tp_queue p) = tp_unposted p + tp_sem p + tp_woken p \<and> tp_posted p = tp_started p @ tp_queue p"

lemma pool_step_ok: "pool_step p q \<Longrightarrow> pool_ok p \<Longrightarrow> pool_ok q"
  by (induction rule: pool_step.induct)
    (auto simp: pool_ok_def postTask_push_def postTask_post_def waitTask_def mainThread_take_def split: list.split)

lemma pool_reachable_ok: "pool_step\<^sup>*\<^sup>* new_pool p \<Longrightarrow> pool_ok p"
proof (induction rule: rtranclp_induct)
  case base
  show ?case by (simp add: pool_ok_def new_pool_def)
next
  case (step p q)
  then show ?case by (simp add: pool_step_ok)
qed

text \<open>The pool runs every task once and in the order of the posts, however the posting and the working threads interleave: what has
  been started and what is queued are together what was posted, a thread that was woken always finds a task, and when
  nothing is on its way everything that was posted has been started.\<close>

theorem pool_runs_each_once:
  assumes "pool_step\<^sup>*\<^sup>* new_pool p"
  shows "tp_started p @ tp_queue p = tp_posted p \<and> (0 < tp_woken p \<longrightarrow> tp_started (mainThread_take p) = tp_started p @ [hd (tp_queue p)]) \<and>
    (tp_unposted p = 0 \<and> tp_sem p = 0 \<and> tp_woken p = 0 \<longrightarrow> tp_started p = tp_posted p)"
  using pool_reachable_ok [OF assms] by (auto simp: pool_ok_def mainThread_take_def split: list.split)

text \<open>The payload of a command overflows its buffer exactly when its length says more than 4096 bytes and more than
  4096 have arrived; the length is a number of the network that nothing checks.\<close>

theorem command_overflow:
  "parseReadEvent input = None \<longleftrightarrow> 4104 < length input \<and> 4096 < int_at input 4"
  by (auto simp: parseReadEvent_def Let_def)

section \<open>The start of a stream\<close>

record open_session =
  os_devid :: string
  os_streamName :: string
  os_rtpPort :: int

text \<open>The loop that looks for a stream that is on already does not move its iterator.\<close>

partial_function (option) already_streaming :: "string \<Rightarrow> string \<Rightarrow> open_session list \<Rightarrow> bool option" where
  "already_streaming dev name ss =
     (case ss of
        [] \<Rightarrow> Some False
      | s # _ \<Rightarrow> if os_devid s = dev \<and> os_streamName s = name then Some True else already_streaming dev name ss)"

lemma already_streaming_returns:
  assumes "already_streaming dev name ss = Some b"
  shows "ss = [] \<or> os_devid (hd ss) = dev \<and> os_streamName (hd ss) = name"
  by (rule already_streaming.raw_induct [OF _ assms, of "\<lambda>d n s b. s = [] \<or> os_devid (hd s) = d \<and> os_streamName (hd s) = n"])
    (fastforce split: list.splits if_splits)

record stream_state =
  ss_sessions :: "open_session list"
  ss_ports :: port_queue
  ss_rcvIpc :: bool

text \<open>The calls of the library, in their order.\<close>

record uac_env =
  uc_dlg_create :: bool
  uc_inv_create :: bool
  uc_invite :: bool
  uc_send_msg :: bool

definition StreamGetProc :: "uac_env \<Rightarrow> int \<Rightarrow> stream_state \<Rightarrow> stream_state option" where
  "StreamGetProc env streamType s =
     (if \<not> ss_rcvIpc s then Some s
      else do {
        let name = (if streamType = 3 then ''Play'' else if streamType = 5 then ''PlayBack'' else []);
        on \<leftarrow> already_streaming ''11000000001310000059'' name (ss_sessions s);
        if on then Some s
        else do {
          (port, q) \<leftarrow> popOneRandNum (ss_ports s);
          let s1 = s\<lparr>ss_ports := q\<rparr>;
          if \<not> uc_dlg_create env \<or> \<not> uc_inv_create env \<or> \<not> uc_invite env \<or> \<not> uc_send_msg env then Some s1
          else Some (s1\<lparr>ss_sessions := ss_sessions s @ [\<lparr>os_devid = ''11000000001310000059'', os_streamName = name, os_rtpPort = port\<rparr>],
                 ss_rcvIpc := False\<rparr>) } })"

text \<open>What a request for a stream does when a camera is known. With a session of another stream at the head of the list it does not
  return; with the same stream there it does nothing; and with no session it takes a port, which is given to the
  session when all calls of the library succeed and is lost when one of them fails.\<close>

theorem stream_start:
  assumes "ss_rcvIpc s"
  shows "StreamGetProc env 3 s =
    (case ss_sessions s of
       x # _ \<Rightarrow> if os_devid x = ''11000000001310000059'' \<and> os_streamName x = ''Play'' then Some s else None
     | [] \<Rightarrow> (case popOneRandNum (ss_ports s) of
                None \<Rightarrow> None
              | Some (port, q) \<Rightarrow> Some (if uc_dlg_create env \<and> uc_inv_create env \<and> uc_invite env \<and> uc_send_msg env
                  then s\<lparr>ss_ports := q, ss_sessions := [\<lparr>os_devid = ''11000000001310000059'', os_streamName = ''Play'', os_rtpPort = port\<rparr>],
                         ss_rcvIpc := False\<rparr>
                  else s\<lparr>ss_ports := q\<rparr>)))"
proof (cases "ss_sessions s")
  case Nil
  have "already_streaming ''11000000001310000059'' ''Play'' [] = Some False" by (simp add: already_streaming.simps)
  then show ?thesis using assms Nil by (auto simp: StreamGetProc_def split: option.split)
next
  case (Cons x xs)
  have "already_streaming ''11000000001310000059'' ''Play'' (x # xs) =
      (if os_devid x = ''11000000001310000059'' \<and> os_streamName x = ''Play'' then Some True else None)"
  proof (cases "os_devid x = ''11000000001310000059'' \<and> os_streamName x = ''Play''")
    case True
    then show ?thesis by (simp add: already_streaming.simps)
  next
    case False
    then have "already_streaming ''11000000001310000059'' ''Play'' (x # xs) = None"
      using already_streaming_returns [of "''11000000001310000059''" "''Play''" "x # xs"] by (cases "already_streaming ''11000000001310000059'' ''Play'' (x # xs)") auto
    then show ?thesis using False by simp
  qed
  then show ?thesis using assms Cons by (simp add: StreamGetProc_def Let_def)
qed

section \<open>Samples\<close>

lemma pool_runs_each_once_witness:
  "tp_started (mainThread_take (waitTask (postTask_post (postTask_push GetCatalog (postTask_push GetPlamtInfo new_pool))))) = [GetPlamtInfo]"
proof -
  let ?a = "postTask_push GetCatalog (postTask_push GetPlamtInfo new_pool)"
  have r: "pool_step\<^sup>*\<^sup>* new_pool ?a" by (meson pool_step.push rtranclp.rtrancl_into_rtrancl rtranclp.rtrancl_refl)
  have "pool_step ?a (postTask_post ?a)" by (rule pool_step.post) (simp add: postTask_push_def)
  moreover have "pool_step (postTask_post ?a) (waitTask (postTask_post ?a))" by (rule pool_step.wait) (simp add: postTask_post_def)
  ultimately have "pool_step\<^sup>*\<^sup>* new_pool (waitTask (postTask_post ?a))" using r by (meson rtranclp.rtrancl_into_rtrancl)
  from pool_runs_each_once [OF this] show ?thesis
    by (simp add: waitTask_def postTask_post_def postTask_push_def new_pool_def)
qed

lemma stream_start_witness:
  "StreamGetProc \<lparr>uc_dlg_create = True, uc_inv_create = False, uc_invite = True, uc_send_msg = True\<rparr> 3
     \<lparr>ss_sessions = [], ss_ports = initRandPort 30000 30003, ss_rcvIpc = True\<rparr> =
   Some \<lparr>ss_sessions = [], ss_ports = \<lparr>pq_begin = 30000, pq_end = 30003, pq_queue = [30002, 30003]\<rparr>, ss_rcvIpc = True\<rparr>"
proof -
  have "popOneRandNum (initRandPort 30000 30003) = Some (30000, \<lparr>pq_begin = 30000, pq_end = 30003, pq_queue = [30002, 30003]\<rparr>)"
    by (simp add: initRandPort_def popOneRandNum_def upto.simps)
  with stream_start [of "\<lparr>ss_sessions = [], ss_ports = initRandPort 30000 30003, ss_rcvIpc = True\<rparr>"]
  show ?thesis by simp
qed

end
