(* ===== verification/LegacyDispatch.thy ===== *)
theory LegacyDispatch
  imports LegacyPlayback LegacyCalls LegacyCommands
begin

text \<open>
  The historical services as they meet the SIP library and the front end: which task a request becomes
  (\<open>onRxRequest\<close> of \<open>SipCore.cpp\<close> in \<open>src/SipSupService\<close> and \<open>src/SipSubService\<close>) and what it does, the queries of the
  supervising service (\<open>GetCatalog.cpp\<close>, \<open>GetRecordList.cpp\<close>), the record list (\<open>SipRecordList.cpp\<close> of both), the
  texts for the front end and the timer (\<open>TaskTimer.cpp\<close>). The last sections put the two services together.

  A body is \<open>None\<close> when the message has none, and its root \<open>None\<close> when the text is no XML. The result \<open>None\<close> is
  the end of the service: a null pointer is read or an exception leaves a thread.
\<close>

section \<open>Requests and tasks\<close>

datatype sip_method = PJSIP_INVITE_METHOD | PJSIP_CANCEL_METHOD | PJSIP_ACK_METHOD | PJSIP_BYE_METHOD | PJSIP_REGISTER_METHOD |
  PJSIP_OPTIONS_METHOD | PJSIP_OTHER_METHOD

record rx_data =
  rx_method :: sip_method
  rx_from :: string
  rx_to :: string
  rx_authorization :: bool
  rx_expires :: "int option"
  rx_sdp :: "sdp_session option"
  rx_body :: "xml option option"

text \<open>The root, its name and the text of the child \<open>key\<close>.\<close>

definition parseXmlData :: "xml option option \<Rightarrow> string \<Rightarrow> (xml \<times> string \<times> string) option" where
  "parseXmlData body key = do {
     root \<leftarrow> body;
     r \<leftarrow> root;
     Some (r, xml_name r, child_text key r []) }"

datatype sup_task = SipRegister | SipHeartBeat | SipDirectory xml | SipRecordList xml

text \<open>\<open>onRxRequest\<close> of the supervising service. Without a task the thread that is started ends at once.\<close>

definition sup_onRxRequest :: "rx_data \<Rightarrow> sup_task option option" where
  "sup_onRxRequest rq =
     (if rx_method rq = PJSIP_REGISTER_METHOD then Some (Some SipRegister)
      else if rx_method rq = PJSIP_OTHER_METHOD then do {
        (root, rootType, cmdValue) \<leftarrow> parseXmlData (rx_body rq) ''CmdType'';
        Some (if rootType = ''Notify'' \<and> cmdValue = ''keepalive'' then Some SipHeartBeat
              else if rootType = ''Response'' then
                (if cmdValue = ''Catalog'' then Some (SipDirectory root)
                 else if cmdValue = ''RecordInfo'' then Some (SipRecordList root)
                 else None)
              else None) }
      else Some None)"

datatype sub_task = DirectoryTask | RecordListTask | GbPlayTask

definition sub_onRxRequest :: "rx_data \<Rightarrow> sub_task option option" where
  "sub_onRxRequest rq =
     (if rx_method rq = PJSIP_OTHER_METHOD then do {
        (_, rootType, cmdValue) \<leftarrow> parseXmlData (rx_body rq) ''CmdType'';
        Some (if rootType = ''Query'' then
                (if cmdValue = ''Catalog'' then Some DirectoryTask
                 else if cmdValue = ''RecordInfo'' then Some RecordListTask
                 else None)
              else None) }
      else if rx_method rq = PJSIP_INVITE_METHOD \<or> rx_method rq = PJSIP_BYE_METHOD then Some (Some GbPlayTask)
      else Some None)"

section \<open>The record list\<close>

text \<open>The status, the serial number, which is not set when there is no root, and the device.\<close>

definition resRecordInfo :: "xml option \<Rightarrow> (int \<times> int option \<times> string) option" where
  "resRecordInfo root =
     (case root of
        None \<Rightarrow> Some (400, None, [])
      | Some r \<Rightarrow> do {
          strSn \<leftarrow> (case FirstChildElement ''SN'' r of None \<Rightarrow> Some [] | Some e \<Rightarrow> GetText e);
          Some (200, Some (atoi strSn), child_text ''DeviceID'' r []) })"

definition record_document :: "int \<Rightarrow> string \<Rightarrow> xml" where
  "record_document sn devid =
     xml_sub_node ''Response'' []
       [xml_sub_node ''CmdType'' ''RecordInfo'' [], xml_sub_node ''SN'' (dec_int sn) [], xml_sub_node ''DeviceID'' devid [],
        xml_sub_node ''SumNum'' ''1'' [],
        xml_sub_node ''RecordList'' []
          [xml_sub_node ''item'' []
             [xml_sub_node ''DeviceID'' devid [], xml_sub_node ''Name'' devid [], xml_sub_node ''Type'' ''time'' [],
              xml_sub_node ''StartTime'' ''10'' [], xml_sub_node ''EndTime'' ''20'' []]]]"

definition sendRecordList ::
  "(xml \<Rightarrow> string) \<Rightarrow> string \<times> string \<Rightarrow> string \<Rightarrow> sup_domain list \<Rightarrow> int \<Rightarrow> string \<Rightarrow> xml list option" where
  "sendRecordList xprint self printed_from us sn devid = do {
     sendData \<leftarrow> getXmlData xprint BODY_SIZE (record_document sn devid);
     from \<leftarrow> parseFromId printed_from;
     sent \<leftarrow> sends_to self from us;
     Some (if sent then [sendData] else []) }"

text \<open>What \<open>SaveRecordList\<close> gathers is logged and nothing else.\<close>

record record_fields =
  rf_DeviceID :: string
  rf_Name :: string
  rf_StartTime :: string
  rf_EndTime :: string
  rf_Type :: string

fun record_items :: "xml list \<Rightarrow> record_fields \<Rightarrow> record_fields" where
  "record_items [] old = old"
| "record_items (e # es) old =
     record_items es \<lparr>rf_DeviceID = child_text ''DeviceID'' e (rf_DeviceID old), rf_Name = child_text ''Name'' e (rf_Name old),
       rf_StartTime = child_text ''StartTime'' e (rf_StartTime old), rf_EndTime = child_text ''EndTime'' e (rf_EndTime old),
       rf_Type = child_text ''Type'' e (rf_Type old)\<rparr>"

definition no_fields :: record_fields where
  "no_fields = \<lparr>rf_DeviceID = [], rf_Name = [], rf_StartTime = [], rf_EndTime = [], rf_Type = []\<rparr>"

definition SaveRecordList :: "xml option \<Rightarrow> int \<times> (string \<times> record_fields) option" where
  "SaveRecordList root =
     (case root of
        None \<Rightarrow> (400, None)
      | Some r \<Rightarrow> (200, Some (child_text ''SumNum'' r [],
          (case FirstChildElement ''RecordList'' r of None \<Rightarrow> no_fields | Some l \<Rightarrow> record_items (items_of l) no_fields))))"

section \<open>The supervising service\<close>

text \<open>\<open>sv_waits\<close> counts the calls of \<open>waitInfo\<close> that have returned, as \<open>co_posts\<close> counts those of \<open>postInfo\<close>.\<close>

record sup_service =
  sv_domains :: "sub_domain list"
  sv_collector :: collector
  sv_waits :: nat
  sv_logged :: "(string \<times> record_fields) list"

definition register_of :: "rx_data \<Rightarrow> register_request" where
  "register_of rq = \<lparr>rq_from = rx_from rq, rq_authorization = rx_authorization rq, rq_expires = rx_expires rq\<rparr>"

text \<open>\<open>dealTaskThread\<close>: the status that was sent, and the service after it.\<close>

definition sup_run :: "register_env \<Rightarrow> rx_data \<Rightarrow> sup_task \<Rightarrow> sup_service \<Rightarrow> (int option \<times> sup_service) option" where
  "sup_run env rq t sv =
     (let respond = (\<lambda>code. if re_respond env then Some code else None)
      in case t of
           SipRegister \<Rightarrow> do {
             (_, code, ds) \<leftarrow> RegisterRequestMessage env (register_of rq) (sv_domains sv);
             Some (code, sv\<lparr>sv_domains := ds\<rparr>) }
         | SipHeartBeat \<Rightarrow> do {
             (code, ds) \<leftarrow> HeartBeatMessage (re_time env) (rx_from rq) (sv_domains sv);
             Some (respond code, sv\<lparr>sv_domains := ds\<rparr>) }
         | SipDirectory root \<Rightarrow>
             (case SaveDir (sv_domains sv) (Some root) (sv_collector sv) of
                (code, c) \<Rightarrow> Some (respond code, sv\<lparr>sv_collector := c\<rparr>))
         | SipRecordList root \<Rightarrow>
             (case SaveRecordList (Some root) of
                (code, line) \<Rightarrow> Some (respond code, sv\<lparr>sv_logged := sv_logged sv @ (case line of None \<Rightarrow> [] | Some l \<Rightarrow> [l])\<rparr>)))"

definition sup_receive :: "register_env \<Rightarrow> rx_data \<Rightarrow> sup_service \<Rightarrow> (int option \<times> sup_service) option" where
  "sup_receive env rq sv = do {
     t \<leftarrow> sup_onRxRequest rq;
     (case t of None \<Rightarrow> Some (None, sv) | Some task \<Rightarrow> sup_run env rq task sv) }"

fun sup_receive_all :: "register_env \<Rightarrow> rx_data list \<Rightarrow> sup_service \<Rightarrow> (int option list \<times> sup_service) option" where
  "sup_receive_all env [] sv = Some ([], sv)"
| "sup_receive_all env (rq # rqs) sv = do {
     (code, sv1) \<leftarrow> sup_receive env rq sv;
     (codes, sv2) \<leftarrow> sup_receive_all env rqs sv1;
     Some (code # codes, sv2) }"

section \<open>Queries and answers to the front end\<close>

definition catalog_query :: "int \<Rightarrow> string \<Rightarrow> xml" where
  "catalog_query sn sid =
     xml_sub_node ''Query'' [] [xml_sub_node ''CmdType'' ''Catalog'' [], xml_sub_node ''SN'' (dec_int sn) [], xml_sub_node ''DeviceID'' sid []]"

text \<open>One request with a document in a buffer of 1024: the headers are written, the library makes the request, the document is printed, the
  request is sent. \<open>Some False\<close>: the library refuses, and the loop ends.\<close>

definition send_query ::
  "(xml \<Rightarrow> string) \<Rightarrow> string \<times> string \<Rightarrow> bool \<Rightarrow> bool \<Rightarrow> sub_domain \<Rightarrow> xml \<Rightarrow> xml option option" where
  "send_query xprint self created sent d doc = do {
     _ \<leftarrow> sip_message_texts (fst self) (snd self) (sd_sipId d) (sd_addrIp d) (sd_sipPort d);
     if \<not> created then Some None
     else do {
       xmlbuf \<leftarrow> getXmlData xprint 1024 doc;
       Some (if sent then Some xmlbuf else None) } }"

text \<open>For each domain of the list: is the request created, the random serial number, is the request sent.\<close>

fun DirectoryGetPro ::
  "(xml \<Rightarrow> string) \<Rightarrow> string \<times> string \<Rightarrow> (nat \<Rightarrow> bool \<times> int \<times> bool) \<Rightarrow> nat \<Rightarrow> sub_domain list \<Rightarrow> (string \<times> xml) list option" where
  "DirectoryGetPro xprint self env i [] = Some []"
| "DirectoryGetPro xprint self env i (d # ds) =
     (if sd_registered d then
        (case env i of (created, sn, sent) \<Rightarrow>
           (case send_query xprint self created sent d (catalog_query sn (sd_sipId d)) of
              None \<Rightarrow> None
            | Some None \<Rightarrow> Some []
            | Some (Some doc) \<Rightarrow> map_option ((#) (sd_sipId d, doc)) (DirectoryGetPro xprint self env (i + 1) ds)))
      else DirectoryGetPro xprint self env (i + 1) ds)"

definition record_query :: "int \<Rightarrow> string \<Rightarrow> xml" where
  "record_query sn devid =
     xml_sub_node ''Query'' []
       [xml_sub_node ''CmdType'' ''RecordInfo'' [], xml_sub_node ''SN'' (dec_int sn) [], xml_sub_node ''DeviceID'' devid [],
        xml_sub_node ''StartTime'' ''2023-09-16T00:00:00'' [], xml_sub_node ''EndTime'' ''2023-09-16T23:59:00'' [],
        xml_sub_node ''Type'' ''all'' [], xml_sub_node ''IndistinctQuery'' ''0'' []]"

fun RecordInfoGetPro ::
  "(xml \<Rightarrow> string) \<Rightarrow> string \<times> string \<Rightarrow> (nat \<Rightarrow> bool \<times> int \<times> bool) \<Rightarrow> nat \<Rightarrow> sub_domain list \<Rightarrow> (string \<times> xml) list option" where
  "RecordInfoGetPro xprint self env i [] = Some []"
| "RecordInfoGetPro xprint self env i (d # ds) =
     (if sd_sipId d = ''11000000002000000001'' then
        (case env i of (created, sn, sent) \<Rightarrow>
           (case send_query xprint self created sent d (record_query sn ''11000000001310000059'') of
              None \<Rightarrow> None
            | Some None \<Rightarrow> Some []
            | Some (Some doc) \<Rightarrow> map_option ((#) (sd_sipId d, doc)) (RecordInfoGetPro xprint self env (i + 1) ds)))
      else RecordInfoGetPro xprint self env (i + 1) ds)"

text \<open>A text for the front end, after its length.\<close>

definition framed :: "string \<Rightarrow> bytes" where
  "framed text = le_bytes (int (length text)) @ map of_char text"

text \<open>\<open>GetCatalog::run\<close> after the queries: \<open>waitInfo\<close>, which does not return without a post, and the bytes written. The JSON text
  of a catalogue is written by jsoncpp.\<close>

definition GetCatalog_run :: "(cat_entry list \<Rightarrow> string) \<Rightarrow> sup_service \<Rightarrow> (bytes \<times> sup_service) option" where
  "GetCatalog_run json sv =
     (if sv_waits sv < co_posts (sv_collector sv)
      then Some (framed (json (co_payload (sv_collector sv))), sv\<lparr>sv_waits := sv_waits sv + 1\<rparr>)
      else None)"

definition GetPlamtInfo_run :: "(string list \<Rightarrow> string) \<Rightarrow> sup_service \<Rightarrow> bytes" where
  "GetPlamtInfo_run json sv = framed (json (map sd_sipId (filter sd_registered (sv_domains sv))))"

section \<open>The subordinate service\<close>

text \<open>\<open>su_print\<close> is the printer of tinyxml2.\<close>

record sub_service =
  su_own :: string
  su_ip :: string
  su_print :: "xml \<Rightarrow> string"
  su_services :: "sup_domain list"
  su_devices :: "cat_node list"
  su_calls :: calls

text \<open>\<open>sendSipDirMsg\<close> reads the sender for every document, so not at all when there are none.\<close>

definition sub_run :: "rx_data \<Rightarrow> sub_task \<Rightarrow> sub_service \<Rightarrow> (int option \<times> xml list \<times> sub_service) option" where
  "sub_run rq t su =
     (case t of
        DirectoryTask \<Rightarrow> do {
          root \<leftarrow> rx_body rq;
          from \<leftarrow> (if su_devices su = [] then Some [] else parseFromId (rx_from rq));
          (code, docs) \<leftarrow> directory_run (su_print su) (su_own su, su_ip su) (su_devices su) from (su_services su) root;
          Some (Some code, docs, su) }
      | RecordListTask \<Rightarrow> do {
          root \<leftarrow> rx_body rq;
          (code, sn, devid) \<leftarrow> resRecordInfo root;
          n \<leftarrow> sn;
          docs \<leftarrow> sendRecordList (su_print su) (su_own su, su_ip su) (rx_from rq) (su_services su) n devid;
          Some (Some code, docs, su) }
      | GbPlayTask \<Rightarrow>
          if rx_method rq = PJSIP_INVITE_METHOD then
            (case dealWithInvite (su_services su) (rx_from rq) (rx_sdp rq) (su_calls su) of
               (_, None) \<Rightarrow> None
             | (code, Some c) \<Rightarrow> Some (code, [], su\<lparr>su_calls := c\<rparr>))
          else do {
            (code, c) \<leftarrow> dealWithBye (rx_to rq) (su_calls su);
            Some (Some code, [], su\<lparr>su_calls := c\<rparr>) })"

definition sub_receive :: "rx_data \<Rightarrow> sub_service \<Rightarrow> (int option \<times> xml list \<times> sub_service) option" where
  "sub_receive rq su = do {
     t \<leftarrow> sub_onRxRequest rq;
     (case t of None \<Rightarrow> Some (None, [], su) | Some task \<Rightarrow> sub_run rq task su) }"

text \<open>\<open>gbHeartBeat\<close>: the body of the next heartbeat.\<close>

definition heartbeat_document :: "int \<Rightarrow> string \<Rightarrow> xml" where
  "heartbeat_document snIndex own =
     xml_sub_node ''Notify'' [] [xml_sub_node ''CmdType'' ''keepalive'' [], xml_sub_node ''SN'' (dec_int snIndex) [], xml_sub_node ''DeviceID'' own [],
       xml_sub_node ''Status'' ''OK'' []]"

section \<open>The timer\<close>

text \<open>One turn of the loop of \<open>TaskTimer::timer\<close>: is the function called, and the time of the last call after it. The
  times are milliseconds in an \<open>unsigned long\<close>.\<close>

definition timer_step :: "int \<Rightarrow> 64 word \<Rightarrow> 64 word \<Rightarrow> (bool \<times> 64 word) option" where
  "timer_step m_timeSecond curTm lastTm = do {
     ms \<leftarrow> int32 (m_timeSecond * 1000);
     Some (if word_of_int ms \<le> curTm - lastTm then (True, curTm) else (False, lastTm)) }"

text \<open>The times at which the function is called, for the times the loop reads from the clock.\<close>

fun timer_calls :: "int \<Rightarrow> 64 word list \<Rightarrow> 64 word \<Rightarrow> (64 word list) option" where
  "timer_calls m_timeSecond [] lastTm = Some []"
| "timer_calls m_timeSecond (curTm # ts) lastTm = do {
     (called, last1) \<leftarrow> timer_step m_timeSecond curTm lastTm;
     rest \<leftarrow> timer_calls m_timeSecond ts last1;
     Some (if called then curTm # rest else rest) }"

section \<open>A message between the services\<close>

definition message_with :: "string \<Rightarrow> xml \<Rightarrow> rx_data" where
  "message_with from doc = \<lparr>rx_method = PJSIP_OTHER_METHOD, rx_from = from, rx_to = [], rx_authorization = False, rx_expires = None, rx_sdp = None,
     rx_body = Some (Some doc)\<rparr>"

lemma FirstChildElement_simps [simp]:
  "FirstChildElement n (xml_sub_node m v []) = None"
  "FirstChildElement n (xml_sub_node m v (c # cs)) = (if xml_name c = n then Some c else FirstChildElement n (xml_sub_node m v cs))"
  by (simp_all add: FirstChildElement_def)

lemma parse_message [simp]:
  "parseXmlData (Some (Some doc)) key = Some (doc, xml_name doc, child_text key doc [])"
  by (simp add: parseXmlData_def)

lemma message_fields [simp]:
  "rx_method (message_with from doc) = PJSIP_OTHER_METHOD" "rx_from (message_with from doc) = from" "rx_body (message_with from doc) = Some (Some doc)"
  by (simp_all add: message_with_def)

lemma sup_dispatch_catalog:
  assumes "xml_name doc = ''Response''" "child_text ''CmdType'' doc [] = ''Catalog''"
  shows "sup_onRxRequest (message_with from doc) = Some (Some (SipDirectory doc))"
  using assms by (simp add: sup_onRxRequest_def)

lemma sub_dispatch_query:
  "sub_onRxRequest (message_with from (catalog_query sn sid)) = Some (Some DirectoryTask)"
  "sub_onRxRequest (message_with from (record_query sn sid)) = Some (Some RecordListTask)"
  by (simp_all add: sub_onRxRequest_def catalog_query_def record_query_def child_text_def)

section \<open>Queries\<close>

text \<open>The texts of a request to a domain, and the query whatever its number, fit into their buffers.\<close>

definition query_fits :: "(xml \<Rightarrow> string) \<Rightarrow> string \<times> string \<Rightarrow> sub_domain \<Rightarrow> bool" where
  "query_fits xprint self d \<longleftrightarrow>
     sip_message_texts (fst self) (snd self) (sd_sipId d) (sd_addrIp d) (sd_sipPort d) \<noteq> None \<and>
     (\<forall>n. length XMLTITLE + length (xprint (catalog_query n (sd_sipId d))) < 1024)"

lemma send_query_sent:
  "query_fits xprint self d \<Longrightarrow> send_query xprint self True True d (catalog_query n (sd_sipId d)) = Some (Some (catalog_query n (sd_sipId d)))"
  by (auto simp: send_query_def query_fits_def getXmlData_def)

lemma DirectoryGetPro_sent:
  assumes "\<forall>d \<in> set ds. sd_registered d \<longrightarrow> query_fits xprint self d"
  shows "\<exists>ns. length ns = length (filter sd_registered ds) \<and>
     DirectoryGetPro xprint self (\<lambda>i. (True, sn i, True)) k ds = Some (map2 (\<lambda>sid n. (sid, catalog_query n sid)) (map sd_sipId (filter sd_registered ds)) ns)"
  using assms
proof (induction ds arbitrary: k)
  case (Cons d ds)
  show ?case
  proof (cases "sd_registered d")
    case True
    obtain ns where "length ns = length (filter sd_registered ds)"
      "DirectoryGetPro xprint self (\<lambda>i. (True, sn i, True)) (k + 1) ds =
         Some (map2 (\<lambda>sid n. (sid, catalog_query n sid)) (map sd_sipId (filter sd_registered ds)) ns)"
      using Cons.IH [of "k + 1"] Cons.prems by auto
    then show ?thesis using True Cons.prems by (intro exI [of _ "sn k # ns"]) (simp add: send_query_sent)
  qed (use Cons.IH [of "k + 1"] Cons.prems in simp)
qed simp

lemma registered_valid:
  assumes "distinct (map sd_sipId ds)" "d \<in> set ds" "sd_registered d"
  shows "checkIsVaild (sd_sipId d) ds"
proof -
  have "find_domain (sd_sipId d) ds = Some d" using assms(1,2) by (induction ds) auto
  then show ?thesis using assms(3) by (simp add: checkIsVaild_def)
qed

lemma resDir_query: "own \<noteq> [] \<Longrightarrow> resDir own (Some (catalog_query sn own)) = Some (200, atoi (dec_int sn))"
  by (simp add: resDir_def catalog_query_def)

lemma query_answer:
  assumes "parseFromId from = Some sid" "su_own su \<noteq> []" "su_devices su \<noteq> []"
    "send_catalog (su_print su) (su_own su, su_ip su) (su_devices su) 0 (atoi (dec_int sn)) sid (su_services su) = Some docs"
  shows "directory_run (su_print su) (su_own su, su_ip su) (su_devices su) sid (su_services su) (Some (catalog_query sn (su_own su))) = Some (200, docs)"
    "sub_receive (message_with from (catalog_query sn (su_own su))) su = Some (Some 200, docs, su)"
  using assms by (simp_all add: sub_receive_def sub_dispatch_query sub_run_def directory_run_def resDir_query)

section \<open>A catalogue for the front end\<close>

lemma receive_documents:
  assumes "\<forall>doc \<in> set docs. xml_name doc = ''Response'' \<and> child_text ''CmdType'' doc [] = ''Catalog'' \<and>
      checkIsVaild (child_text ''DeviceID'' doc []) (sv_domains sv)" "re_respond env"
  shows "sup_receive_all env (map (message_with from') docs) sv =
    Some (map (\<lambda>_. Some 200) docs, sv\<lparr>sv_collector := save_all (sv_domains sv) docs (sv_collector sv)\<rparr>)"
  using assms(1)
proof (induction docs arbitrary: sv)
  case (Cons doc docs)
  then have "fst (SaveDir (sv_domains sv) (Some doc) (sv_collector sv)) = 200" by (simp add: SaveDir_def Let_def)
  then have "sup_receive env (message_with from' doc) sv =
      Some (Some 200, sv\<lparr>sv_collector := snd (SaveDir (sv_domains sv) (Some doc) (sv_collector sv))\<rparr>)"
    using Cons.prems assms(2) by (auto simp: sup_receive_def sup_dispatch_catalog sup_run_def Let_def split: prod.split)
  then show ?case using Cons.IH [of "sv\<lparr>sv_collector := snd (SaveDir (sv_domains sv) (Some doc) (sv_collector sv))\<rparr>"] Cons.prems by simp
qed simp

lemma catalog_document_fields:
  assumes "own \<noteq> []"
  shows "xml_name (catalog_document own ns i k sn) = ''Response''" "child_text ''CmdType'' (catalog_document own ns i k sn) [] = ''Catalog''"
    "child_text ''DeviceID'' (catalog_document own ns i k sn) [] = own"
  using assms by (simp_all add: catalog_document_def child_text_def)

text \<open>C16: A front end that asks for the catalogue gets it. When the supervising service has one registered domain and nothing left of
  an earlier query, the domain knows no other service above, and no text or document is longer than the buffer it is written to,
  then the service sends one query; the domain answers it with 200 and
  one message per device; each of these is answered with 200; and then, and not before, the task that waits writes the JSON text of all the
  devices, in their order, after its length, and everything is as before the query for the next.\<close>

theorem front_end_gets_catalog:
  assumes "distinct (map sd_sipId (sv_domains sv))" "map sd_sipId (filter sd_registered (sv_domains sv)) = [su_own su]" "su_own su \<noteq> []"
    "parseFromId from = Some sid" "sends_to (su_own su, su_ip su) sid (su_services su) = Some True" "su_devices su \<noteq> []" "length (su_devices su) < 2 ^ 31"
    "co_jsonIn (sv_collector sv) = []" "co_posts (sv_collector sv) = sv_waits sv" "re_respond env"
    and fits: "\<forall>d \<in> set (sv_domains sv). sd_registered d \<longrightarrow> query_fits xprint self d" "\<forall>n. documents_fit (su_print su) (su_own su) (su_devices su) n"
  shows "\<exists>q docs sv1. DirectoryGetPro xprint self (\<lambda>i. (True, sn i, True)) 0 (sv_domains sv) = Some [(su_own su, q)] \<and>
    sub_receive (message_with from q) su = Some (Some 200, docs, su) \<and> length docs = length (su_devices su) \<and>
    sup_receive_all env (map (message_with from') docs) sv = Some (map (\<lambda>_. Some 200) docs, sv1) \<and>
    GetCatalog_run json sv = None \<and>
    GetCatalog_run json sv1 = Some (framed (json (map entry_of (su_devices su))), sv1\<lparr>sv_waits := sv_waits sv + 1\<rparr>) \<and>
    co_jsonIn (sv_collector sv1) = [] \<and> co_posts (sv_collector sv1) = sv_waits sv + 1"
proof -
  obtain ns where ns: "length ns = length (filter sd_registered (sv_domains sv))" "DirectoryGetPro xprint self (\<lambda>i. (True, sn i, True)) 0 (sv_domains sv) =
      Some (map2 (\<lambda>sid n. (sid, catalog_query n sid)) [su_own su] ns)"
    using DirectoryGetPro_sent [OF fits(1), of sn 0] unfolding assms(2) by blast
  moreover have "length (filter sd_registered (sv_domains sv)) = 1" using arg_cong [OF assms(2), of length] by simp
  ultimately obtain n where q: "DirectoryGetPro xprint self (\<lambda>i. (True, sn i, True)) 0 (sv_domains sv) = Some [(su_own su, catalog_query n (su_own su))]"
    by (cases ns) auto
  obtain d where d: "d \<in> set (filter sd_registered (sv_domains sv))" "sd_sipId d = su_own su"
    using assms(2) by (cases "filter sd_registered (sv_domains sv)") auto
  then have valid: "checkIsVaild (su_own su) (sv_domains sv)" using registered_valid [OF assms(1), of d] by simp
  let ?docs = "map (\<lambda>i. catalog_document (su_own su) (su_devices su) i 1 (atoi (dec_int n))) [0..<length (su_devices su)]"
  let ?c = "save_all (sv_domains sv) ?docs (sv_collector sv)"
  have docs: "send_catalog (su_print su) (su_own su, su_ip su) (su_devices su) 0 (atoi (dec_int n)) sid (su_services su) = Some ?docs"
    using send_catalog_documents [OF assms(5)] fits(2) by simp
  note answer = query_answer [OF assms(4,3,6) docs]
  have "\<forall>doc \<in> set ?docs. xml_name doc = ''Response'' \<and> child_text ''CmdType'' doc [] = ''Catalog'' \<and>
      checkIsVaild (child_text ''DeviceID'' doc []) (sv_domains sv)"
    using catalog_document_fields [OF assms(3)] valid by auto
  note received = receive_documents [OF this assms(10), where from' = from']
  have "co_payload ?c = map entry_of (su_devices su)" "co_posts ?c = sv_waits sv + 1" "co_jsonIn ?c = []"
    using catalog_roundtrip [OF answer(1) assms(5) fits(2) valid assms(3,6,7,8)] assms(9) by simp_all
  then show ?thesis using q answer(2) received assms(9)
    by (intro exI [of _ "catalog_query n (su_own su)"] exI [of _ ?docs] exI) (auto simp: GetCatalog_run_def)
qed

section \<open>Other messages\<close>

text \<open>A heartbeat between the services reaches the registry.\<close>

lemma heartbeat_received:
  "sup_receive env (message_with from (heartbeat_document n own)) sv = do {
     (code, ds) \<leftarrow> HeartBeatMessage (re_time env) from (sv_domains sv);
     Some (if re_respond env then Some code else None, sv\<lparr>sv_domains := ds\<rparr>) }"
  by (simp add: sup_receive_def sup_onRxRequest_def heartbeat_document_def child_text_def sup_run_def Let_def)

text \<open>What the supervising service cannot take, and what it does not answer.\<close>

lemma sup_undefined: "sup_onRxRequest rq = None \<longleftrightarrow> rx_method rq = PJSIP_OTHER_METHOD \<and> (\<nexists>r. rx_body rq = Some (Some r))"
  by (cases "rx_body rq") (auto simp: sup_onRxRequest_def parseXmlData_def bind_eq_None_conv)

lemma sup_unanswered:
  "sup_onRxRequest rq = Some None \<longleftrightarrow>
     rx_method rq \<notin> {PJSIP_REGISTER_METHOD, PJSIP_OTHER_METHOD} \<or>
     (\<exists>r. rx_method rq = PJSIP_OTHER_METHOD \<and> rx_body rq = Some (Some r) \<and>
       \<not> (xml_name r = ''Notify'' \<and> child_text ''CmdType'' r [] = ''keepalive'') \<and>
       \<not> (xml_name r = ''Response'' \<and> child_text ''CmdType'' r [] \<in> {''Catalog'', ''RecordInfo''}))"
  by (cases "rx_body rq") (auto simp: sup_onRxRequest_def parseXmlData_def bind_eq_Some_conv)

text \<open>A catalogue is taken from any sender: what counts is that the device named in the body is registered.\<close>

lemma catalog_of_any_sender:
  assumes "xml_name doc = ''Response''" "child_text ''CmdType'' doc [] = ''Catalog''"
  shows "sup_receive env (message_with from doc) sv = sup_receive env (message_with from' doc) sv"
  using assms by (simp add: sup_receive_def sup_dispatch_catalog sup_run_def)

text \<open>A record list is asked for and answered, and then it is lost: the query of the supervising service is answered by one message
  with one record of the device, the service answers that with 200 and reads all of its fields, and nothing of it but a line of the log
  remains; no task of the front end is woken.\<close>

theorem record_list_only_logged:
  assumes "parseFromId from = Some sid" "sends_to (su_own su, su_ip su) sid (su_services su) = Some True" "re_respond env" "dev \<noteq> []"
    "\<forall>m. length XMLTITLE + length (su_print su (record_document m dev)) < BODY_SIZE"
  shows "\<exists>doc. sub_receive (message_with from (record_query n dev)) su = Some (Some 200, [doc], su) \<and>
    sup_receive env (message_with from' doc) sv = Some (Some 200, sv\<lparr>sv_logged := sv_logged sv @
      [(''1'', \<lparr>rf_DeviceID = dev, rf_Name = dev, rf_StartTime = ''10'', rf_EndTime = ''20'', rf_Type = ''time''\<rparr>)]\<rparr>)"
proof -
  have "resRecordInfo (Some (record_query n dev)) = Some (200, Some (atoi (dec_int n)), dev)"
    using assms(4) by (simp add: resRecordInfo_def record_query_def child_text_def)
  then have "sub_receive (message_with from (record_query n dev)) su = Some (Some 200, [record_document (atoi (dec_int n)) dev], su)"
    using assms(1,2,5) by (simp add: sub_receive_def sub_dispatch_query sub_run_def sendRecordList_def getXmlData_def)
  moreover have "sup_onRxRequest (message_with from' (record_document m dev)) = Some (Some (SipRecordList (record_document m dev)))" for m
    by (simp add: sup_onRxRequest_def record_document_def child_text_def)
  moreover have "SaveRecordList (Some (record_document m dev)) =
      (200, Some (''1'', \<lparr>rf_DeviceID = dev, rf_Name = dev, rf_StartTime = ''10'', rf_EndTime = ''20'', rf_Type = ''time''\<rparr>))" for m
    using assms(4) by (simp add: SaveRecordList_def record_document_def child_text_def items_of_def)
  ultimately show ?thesis using assms(3) by (intro exI conjI) (assumption, simp add: sup_receive_def sup_run_def)
qed

section \<open>Calls of the timer\<close>

lemma uint_ms:
  assumes "0 \<le> i" "i < 2 ^ 31"
  shows "uint (word_of_int i :: 64 word) = i"
proof -
  have "i mod 2 ^ 64 = i" using assms by (intro mod_pos_pos_trivial) auto
  then show ?thesis by (simp add: uint_word_of_int)
qed

lemma timer_interval:
  assumes "timer_step s cur old = Some (called, new)" "0 \<le> s"
  shows "called \<longrightarrow> new = cur \<and> s * 1000 \<le> uint (cur - old)" "\<not> called \<longrightarrow> new = old"
proof -
  have r: "s * 1000 < 2 ^ 31" "called = (word_of_int (s * 1000) \<le> cur - old)" "new = (if called then cur else old)"
    using assms(1) by (simp_all add: timer_step_def int32_def split: if_splits)
  have "uint (word_of_int (s * 1000) :: 64 word) = s * 1000" by (rule uint_ms) (use r(1) assms(2) in simp_all)
  then have "called = (s * 1000 \<le> uint (cur - old))" using r(2) by (simp only: word_le_def)
  then show "called \<longrightarrow> new = cur \<and> s * 1000 \<le> uint (cur - old)" "\<not> called \<longrightarrow> new = old" using r(3) by simp_all
qed

text \<open>With a clock that does not go back the calls are apart by the interval.\<close>

lemma timer_calls_spaced:
  assumes "timer_calls s ts old = Some calls" "0 \<le> s" "sorted (old # ts)"
  shows "successively (\<lambda>a b. s * 1000 \<le> uint b - uint a) (old # calls)"
  using assms(1,3)
proof (induction ts arbitrary: old calls)
  case (Cons t ts)
  obtain called new rest where step: "timer_step s t old = Some (called, new)" "timer_calls s ts new = Some rest"
    "calls = (if called then t # rest else rest)"
    using Cons.prems(1) by (auto simp: bind_eq_Some_conv)
  note interval = timer_interval [OF step(1) assms(2)]
  have "sorted (new # ts)" using Cons.prems(2) interval by (cases called) auto
  note rest = Cons.IH [OF step(2) this]
  show ?case
  proof (cases called)
    case True
    have "uint (t - old) = uint t - uint old" using Cons.prems(2) by (simp add: uint_minus_simple_alt)
    then show ?thesis using True rest step(3) interval(1) by simp
  qed (use rest step(3) interval(2) in simp)
qed simp

text \<open>When the clock goes back by anything, the difference wraps and the function is called at once.\<close>

lemma timer_clock_back:
  assumes "cur < old" "0 \<le> s" "s < 2147483" "uint old < 2 ^ 63"
  shows "timer_step s cur old = Some (True, cur)"
proof -
  have "uint (cur - old) = 2 ^ 64 + uint cur - uint old" using assms(1) by (simp add: uint_sub_if' word_less_def)
  then have "uint (cur - old) = 18446744073709551616 + uint cur - uint old" by simp
  moreover have "uint old < 9223372036854775808" using assms(4) by simp
  ultimately have "9223372036854775808 \<le> uint (cur - old)" using uint_ge_0 [of cur] by linarith
  then have "s * 1000 \<le> uint (cur - old)" using assms(3) by linarith
  moreover have "uint (word_of_int (s * 1000) :: 64 word) = s * 1000" by (rule uint_ms) (use assms(2,3) in simp_all)
  ultimately have "(word_of_int (s * 1000) :: 64 word) \<le> cur - old" by (simp only: word_le_def)
  moreover have "int32 (s * 1000) = Some (s * 1000)" using assms(2,3) by (simp add: int32_def)
  ultimately show ?thesis by (simp add: timer_step_def)
qed

section \<open>Samples\<close>

definition sample_sup :: sup_service where
  "sample_sup = \<lparr>sv_domains = sample_registered, sv_collector = new_collector, sv_waits = 0, sv_logged = []\<rparr>"

definition sample_sub :: sub_service where
  "sample_sub = \<lparr>su_own = ''11000000002000000001'', su_ip = ''10.0.0.2'', su_print = sample_print, su_services = [sample_up], su_devices = sample_devices, su_calls = new_calls (initRandPort 30000 30003)\<rparr>"

definition sample_sender :: string where
  "sample_sender = from_header ''10000000002000000001'' ''10.0.0.2'' '';tag=7''"

lemma sample_sender_id: "parseFromId sample_sender = Some ''10000000002000000001''"
  by (simp add: sample_sender_def)

lemma sample_sup_domains: "distinct (map sd_sipId (sv_domains sample_sup))"
  "map sd_sipId (filter sd_registered (sv_domains sample_sup)) = [su_own sample_sub]"
  by (simp_all add: sample_sup_def sample_sub_def sample_registered_def setRegister_def sample_domains_def init_domains_def)

lemma sample_buffers:
  "sends_to (su_own sample_sub, su_ip sample_sub) ''10000000002000000001'' (su_services sample_sub) = Some True"
  "\<forall>d \<in> set (sv_domains sample_sup). sd_registered d \<longrightarrow> query_fits sample_print (''10000000002000000001'', ''10.0.0.1'') d"
  "\<forall>n. documents_fit (su_print sample_sub) (su_own sample_sub) (su_devices sample_sub) n"
  using sample_sends sample_fit
  by (simp_all add: sample_sub_def sample_sup_def sample_registered_def setRegister_def sample_domains_def init_domains_def query_fits_def
      sip_message_texts_def setFrom_def setUrl_def header_buffer_def dec_int_def dec.simps XMLTITLE_def sample_print_def catalog_query_def)

lemma front_end_gets_catalog_witness:
  "\<exists>q docs sv1 sv2. sub_receive (message_with sample_sender q) sample_sub = Some (Some 200, docs, sample_sub) \<and>
    sup_receive_all sample_register_env (map (message_with []) docs) sample_sup = Some ([Some 200, Some 200], sv1) \<and>
    GetCatalog_run (\<lambda>es. concat (map ce_Name es)) sv1 =
      Some ([8, 0, 0, 0] @ map of_char ''gateyard'', sv2)"
proof -
  have "re_respond sample_register_env" by (simp add: sample_register_env_def)
  moreover have "length (su_devices sample_sub) = 2" "su_own sample_sub \<noteq> []"
    "map entry_of (su_devices sample_sub) = map entry_of sample_devices"
    by (simp_all add: sample_sub_def sample_devices_def)
  moreover have "framed (concat (map ce_Name (map entry_of sample_devices))) = [8, 0, 0, 0] @ map of_char ''gateyard''"
    by (simp add: framed_def sample_devices_def sample_camera_def entry_of_def le_bytes_def Let_def)
  moreover have "map (\<lambda>_. Some 200) docs = [Some 200, Some 200]" if "length docs = 2" for docs :: "xml list"
    using that by (cases docs; cases "tl docs") auto
  ultimately show ?thesis
    using front_end_gets_catalog [OF sample_sup_domains _ sample_sender_id sample_buffers(1) _ _ _ _ _ sample_buffers(2,3),
        of sample_register_env "\<lambda>_. 5" "[]" "\<lambda>es. concat (map ce_Name es)"]
    by (fastforce simp: sample_sup_def new_collector_def)
qed

lemma record_list_only_logged_witness:
  "\<exists>doc sv. sub_receive (message_with sample_sender (record_query 9 ''11000000001310000059'')) sample_sub = Some (Some 200, [doc], sample_sub) \<and>
    sup_receive sample_register_env (message_with [] doc) sample_sup = Some (Some 200, sv) \<and> sv_collector sv = sv_collector sample_sup"
proof -
  have e: "re_respond sample_register_env" by (simp add: sample_register_env_def)
  have f: "\<forall>m. length XMLTITLE + length (su_print sample_sub (record_document m dev)) < BODY_SIZE" for dev
    by (simp add: sample_sub_def sample_print_def record_document_def XMLTITLE_def BODY_SIZE_def)
  show ?thesis using record_list_only_logged [OF sample_sender_id sample_buffers(1) e _ f, of "''11000000001310000059''" 9 "[]" sample_sup] by fastforce
qed

end
