(* ===== verification/Spec2Isabelle.thy ===== *)
theory Spec2Isabelle
  imports MF_Prelude CppMap CppText RtpPacket ElementaryStream ProgramStream RtpSession FrameSink NodeConfig MediaSession MediaManager SdpSession DigestAuth Manscdp MessageBodies BusinessState BusinessQuery SipCore Runtime Registration Authentication Queries ManagerPorts Invite Dialogs MediaSend Node NodeInvariant Management TaskThread SipWire SipAnswers TwoNodes StreamPath LegacyStream LegacyPlayback LegacyConfig LegacyRegistry LegacyCatalog LegacyCalls LegacyCommands LegacyDispatch
begin

text \<open>
  Verification library of the media-fabric GB28181 media and signalling node (\<open>src/src\<close>, C++11).

  \<^bold>\<open>The program.\<close> A node registers at upstream platforms and accepts registrations from downstream ones
  (digest authentication), exchanges keepalives, catalogs and record lists in MANSCDP messages, opens media
  dialogs with INVITE, ACK and BYE, and sends or receives H.264/H.265 video as Annex-B frames in a program
  stream over RTP. A \<open>GB28181Node\<close> owns the SIP stack, the peers, the sessions, the scheduled tasks, the
  business state and the media manager; twelve capability classes share them through \<open>NodeRuntime\<close> and
  register handlers for the method and event of a request.

  \<^bold>\<open>Theories, from the bottom up\<close> (source files are under \<open>src/src\<close>):

  \<^item> \<open>MF_Prelude\<close>: widths of the machine integers, checked array reads, the result type of parsers, cutting
    into chunks. \<open>CppMap\<close>: \<open>std::map\<close> as the sorted association list \<open>omap\<close>, its laws as a locale and
    their interpretation. \<open>CppText\<close>: \<open>trim\<close>, \<open>getline\<close>, \<open>find\<close>, number extraction and formatting.
  \<^item> \<open>RtpPacket\<close>, \<open>ElementaryStream\<close>, \<open>ProgramStream\<close>: \<open>media/\<close> parsers and builders. The groups of lemmas
    show that no read leaves the input, and what is parsed of built, split or multiplexed data.
  \<^item> \<open>FrameSink\<close>, \<open>RtpSession\<close>: the virtual classes \<open>MediaFrameSink\<close> and \<open>RtpSessionAdapter\<close> as records of
    functions with their contract as a locale, interpreted on \<open>FileMediaFrameSink\<close> and on the JRTPLIB adapter;
    the stream-file source.
  \<^item> \<open>MediaSession\<close>, \<open>MediaManager\<close>, \<open>ManagerPorts\<close>: \<open>media/MediaManager.{h,cpp}\<close>. A session reassembles
    RTP packets to frames; the manager owns the port pool, the sessions and their adapters. \<open>mm_ok\<close> is its
    invariant, \<open>mm_step\<close> the step relation of its calls; \<open>manager_ok\<close> adds that no port leaks.
  \<^item> \<open>NodeConfig\<close>, \<open>SdpSession\<close>, \<open>DigestAuth\<close>, \<open>Manscdp\<close>: INI files, session descriptions, MD5 digests, the
    MANSCDP scanner; \<open>MessageBodies\<close>: the bodies the node writes, read back by that scanner.
  \<^item> \<open>BusinessState\<close>, \<open>BusinessQuery\<close>: catalogs and record lists per peer, their snapshot files, their
    abstraction to a directory of devices, and the JSON texts of the management interface.
  \<^item> \<open>SipCore\<close>: the SIP stack over the in-memory transport (locale \<open>sip_transport\<close>), the peers, the sessions
    and the scheduled tasks. \<open>Runtime\<close>: \<open>NodeRuntime\<close>, the helpers of \<open>GB28181Capabilities.cpp\<close>, and the
    locale \<open>request_handler\<close>, the contract every handler is shown to keep: \<open>rt_ok\<close> is the invariant of the
    state, \<open>keeps rt rt'\<close> that a step preserves it and leaves routes, tasks and configuration alone.
  \<^item> \<open>Registration\<close>, \<open>Queries\<close>, \<open>Invite\<close>, \<open>MediaSend\<close>: the capability classes; \<open>Authentication\<close> and \<open>Dialogs\<close>:
    what registration and media dialogs guarantee, in sequences of requests and between two nodes; \<open>later_node\<close> is the
    relation of a node to any later state of it, over which an accepted digest stays spent.
  \<^item> \<open>Node\<close>: \<open>core/GB28181Node.cpp\<close> and the life cycle of capabilities. \<open>NodeInvariant\<close>: \<open>node_step\<close>, any call
    of the node's interface, the invariant \<open>node_ok\<close> of all reachable nodes, and the dispatch table.
  \<^item> \<open>Management\<close>: the runtime around a node (\<open>core/MediaFabricRuntime.cpp\<close>), its commands, the management socket, the C
    interface of \<open>capi/\<close> and the arguments of \<open>main.cpp\<close>; a restart is shown to keep all five static counters.
    \<open>TaskThread\<close>: the thread of one scheduled task of \<open>core/TaskScheduler.cpp\<close> and the thread that stops it, interleaved
    statement by statement, with the mutex, the condition variable and the join. \<open>tt_ok\<close> is the invariant of the
    interleavings and \<open>tt_rank\<close> the bound (eleven steps) on what is left to do when the stop flag is raised.
  \<^item> \<open>SipWire\<close>: \<open>adapters/pjsip/PjsipStackAdapter.cpp\<close>, the transport of a real node, as a second interpretation of
    \<open>sip_transport\<close>: its life cycle with the global pointer to it, the request or response it makes of a message and the message it makes of what
    arrives; \<open>request_arrives\<close> and \<open>response_arrives\<close> say what the SIP library does between two nodes.
    \<open>SipAnswers\<close> puts a node behind the callbacks of the adapter and counts its responses; \<open>TwoNodes\<close> follows an
    INVITE, its answer and the ACK between two nodes, and \<open>StreamPath\<close> a frame from the one to the other.
  \<^item> The pair of services the node replaces, which the repository still holds (\<open>src/SipSupService\<close>, the supervising one,
    and \<open>src/SipSubService\<close>, its subordinate), in eight theories. \<open>LegacyConfig\<close>: their configuration files, with the
    lookup the reader amounts to, and the queue of RTP ports. \<open>LegacyRegistry\<close>: registration, heartbeats and expiry, refined
    by a map of registrations that is undefined where the code is. \<open>LegacyCatalog\<close>: the catalogue from the one to the other,
    through the buffers of the documents and the headers, whose overflow is \<open>None\<close>; the printer of tinyxml2 is a parameter. \<open>LegacyCalls\<close>: INVITE and
    BYE over a store of stream objects. \<open>LegacyStream\<close>: packets, reassembly over any runs of the poll thread, with and without loss, and the
    frames for the front end. \<open>LegacyPlayback\<close>: what a call plays of the stream file. \<open>LegacyCommands\<close>: the commands of the front end, the
    thread pool as a step relation, and the start of a stream. \<open>LegacyDispatch\<close>: the task a request becomes, the two
    services as functions of the requests they receive, and a catalogue from the query to the front end.

  \<^bold>\<open>Conventions.\<close> Fixed-width integers are words and wrap; \<open>size_t\<close> lengths of data in memory are \<open>nat\<close>; a C
  \<open>int\<close> is an \<open>int\<close>. The one exception to what follows are the SN counters of the capabilities, which wrap at 32 bits as
  the machine does where C++ leaves the overflow undefined. An outer \<open>option\<close> is \<open>None\<close> where the code would read outside an array, overflow a signed
  integer or otherwise have no defined behaviour, so a theorem that the result is \<open>Some\<close> is a safety
  theorem. An error text filled through a pointer is the left of a sum. A dictionary keeps the order of its
  keys. A definition that stands for part of a long function is named in the map of the development with
  the lines of that part.

  \<^bold>\<open>Loops.\<close> Every loop is a structurally recursive function or a \<open>function\<close> with a measure over the rest of its
  input, so all definitions are total; no fuel is used. The one loop that need not end, in
  \<open>StreamGetProc\<close>, is a \<open>partial_function\<close> whose \<open>None\<close> is that it does not return.

  \<^bold>\<open>Parameters.\<close> The JRTPLIB calls, the RTP adapter a dialog starts, the catalog file read by jsoncpp, files,
  the clock and the entropy source are arguments or fields of the state (\<open>node_env\<close>, \<open>rt_now\<close>,
  \<open>rt_random\<close>); the answers of PJSIP are a record (\<open>pj_calls\<close>). Nothing is assumed of them but where a theorem says
  so. The text modelled is that of a build with \<open>GB28181_ENABLE_JRTPLIB\<close>; the stack of a node keeps what was sent,
  as in a build without PJSIP, and \<open>SipAnswers\<close> hands that to the PJSIP adapter in the order it was sent.

  \<^bold>\<open>Not modelled.\<close> Log output; threads and mutexes outside \<open>TaskThread\<close> (a task's tick, a request or a packet is one step, and the
  steps may come in any order), and in it a call of \<open>stop\<close> from the thread of the task itself; what happens inside PJSIP and JRTPLIB; the bytes on the Unix socket of
  \<open>ManagementServer.cpp\<close> and \<open>mfcli.cpp\<close>; the self test of \<open>main.cpp\<close>; of the historical services, the sockets and event
  loops (\<open>ECSocket.cpp\<close>, \<open>ECEventPoll.cpp\<close>, \<open>ECThread.cpp\<close>), the set-up of PJSIP and of the RTP sessions, and the
  fixed buffers of the heartbeat, registration and call messages; the copies of other
  projects under \<open>h26x/\<close>; the Go host; the vendored libraries under
  \<open>3rd\<close>.
\<close>

end
